(* ===== verification/BTree.thy ===== *)
theory BTree
  imports Prelude
begin

section \<open>Ordered maps and sets\<close>

text \<open>
  \<^verbatim>\<open>BTreeMap\<close> and \<^verbatim>\<open>BTreeSet\<close> of the Rust standard library, as
  the code sees them: a finite map iterated in ascending key order. The model is an
  association list whose keys ascend strictly (\<open>bt_wf\<close>); the contract the fold relies
  on is the locale \<open>ordered_map\<close>, interpreted on the model at the end.
\<close>

type_synonym ('k, 'v) btree_map = "('k \<times> 'v) list"
type_synonym 'k btree_set = "'k list"

definition bt_wf :: "('k::linorder, 'v) btree_map \<Rightarrow> bool" where
  "bt_wf m \<longleftrightarrow> sorted_wrt (<) (map fst m)"

definition bt_get :: "('k, 'v) btree_map \<Rightarrow> 'k \<Rightarrow> 'v option" where
  "bt_get m k = map_of m k"

fun bt_insert :: "'k::linorder \<Rightarrow> 'v \<Rightarrow> ('k, 'v) btree_map \<Rightarrow> ('k, 'v) btree_map" where
  "bt_insert k v [] = [(k, v)]"
| "bt_insert k v ((k', v') # m) =
     (if k' < k then (k', v') # bt_insert k v m
      else if k' = k then (k, v) # m
      else (k, v) # (k', v') # m)"

definition bt_remove :: "'k \<Rightarrow> ('k, 'v) btree_map \<Rightarrow> ('k, 'v) btree_map" where
  "bt_remove k m = filter (\<lambda>(k', _). k' \<noteq> k) m"

definition bt_retain :: "('k \<Rightarrow> 'v \<Rightarrow> bool) \<Rightarrow> ('k, 'v) btree_map \<Rightarrow> ('k, 'v) btree_map" where
  "bt_retain p m = filter (\<lambda>(k, v). p k v) m"

definition bt_values :: "('k, 'v) btree_map \<Rightarrow> 'v list" where
  "bt_values m = map snd m"

definition bt_keys :: "('k, 'v) btree_map \<Rightarrow> 'k list" where
  "bt_keys m = map fst m"

lemma fst_set_bt_insert: "fst ` set (bt_insert k v m) = insert k (fst ` set m)"
  by (induction k v m rule: bt_insert.induct) (auto simp: insert_commute)

lemma bt_wf_Nil [simp]: "bt_wf []"
  by (simp add: bt_wf_def)

lemma bt_wf_insert: "bt_wf m \<Longrightarrow> bt_wf (bt_insert k v m)"
proof (induction m)
  case (Cons a m)
  obtain k' v' where a: "a = (k', v')" by (cases a)
  have "set (map fst (bt_insert k v m)) = insert k (set (map fst m))"
    by (simp add: fst_set_bt_insert)
  with Cons a show ?case
    by (auto simp: bt_wf_def simp del: set_map)
qed (simp add: bt_wf_def)

lemma bt_wf_filter: "bt_wf m \<Longrightarrow> bt_wf (filter p m)"
  by (auto simp: bt_wf_def strict_sorted_iff distinct_map_filter intro: sorted_filter)

lemma bt_wf_retain: "bt_wf m \<Longrightarrow> bt_wf (bt_retain p m)"
  by (simp add: bt_retain_def bt_wf_filter)

lemma bt_wf_remove: "bt_wf m \<Longrightarrow> bt_wf (bt_remove k m)"
  by (simp add: bt_remove_def bt_wf_filter)

lemma bt_get_insert: "bt_wf m \<Longrightarrow> bt_get (bt_insert k v m) = (bt_get m)(k \<mapsto> v)"
proof (induction m)
  case (Cons a m)
  obtain k' v' where a: "a = (k', v')" by (cases a)
  with Cons show ?case
    by (auto simp: bt_get_def bt_wf_def fun_eq_iff)
qed (simp add: bt_get_def fun_eq_iff)

lemma bt_get_retain:
  "bt_wf m \<Longrightarrow> bt_get (bt_retain p m) k = (case bt_get m k of None \<Rightarrow> None | Some v \<Rightarrow> if p k v then Some v else None)"
proof (induction m)
  case (Cons a m)
  obtain k' v' where a: "a = (k', v')" by (cases a)
  from Cons.prems a have "k' \<notin> fst ` set m" "bt_wf m"
    by (auto simp: bt_wf_def)
  moreover have "k' \<notin> fst ` set m \<Longrightarrow> map_of (filter (\<lambda>(k, v). p k v) m) k' = None"
    by (auto simp: map_of_eq_None_iff)
  ultimately show ?case
    using Cons.IH a by (auto simp: bt_get_def bt_retain_def)
qed (simp add: bt_get_def bt_retain_def)

lemma bt_remove_retain: "bt_remove k m = bt_retain (\<lambda>k' _. k' \<noteq> k) m"
  by (simp add: bt_remove_def bt_retain_def)

lemma bt_get_remove: "bt_wf m \<Longrightarrow> bt_get (bt_remove k m) = (bt_get m)(k := None)"
  by (auto simp: bt_remove_retain bt_get_retain fun_eq_iff split: option.splits)

lemma bt_get_set: "bt_wf m \<Longrightarrow> bt_get m k = Some v \<longleftrightarrow> (k, v) \<in> set m"
  by (simp add: bt_get_def bt_wf_def strict_sorted_iff)

lemma bt_values_set: "bt_wf m \<Longrightarrow> v \<in> set (bt_values m) \<longleftrightarrow> (\<exists>k. bt_get m k = Some v)"
  by (force simp: bt_values_def bt_get_set)

lemma bt_keys_set: "bt_wf m \<Longrightarrow> k \<in> set (bt_keys m) \<longleftrightarrow> (\<exists>v. bt_get m k = Some v)"
  by (force simp: bt_keys_def bt_get_set)

subsection \<open>Ordered sets\<close>

definition bs_insert :: "'k::linorder \<Rightarrow> 'k btree_set \<Rightarrow> 'k btree_set" where
  "bs_insert k s = insort_insert k s"

definition bs_remove :: "'k \<Rightarrow> 'k btree_set \<Rightarrow> 'k btree_set" where
  "bs_remove k s = filter (\<lambda>k'. k' \<noteq> k) s"

definition bs_contains :: "'k btree_set \<Rightarrow> 'k \<Rightarrow> bool" where
  "bs_contains s k \<longleftrightarrow> k \<in> set s"

lemma bs_contains_insert [simp]: "bs_contains (bs_insert k s) k' \<longleftrightarrow> k' = k \<or> bs_contains s k'"
  by (auto simp: bs_contains_def bs_insert_def set_insort_insert)

lemma bs_contains_remove [simp]: "bs_contains (bs_remove k s) k' \<longleftrightarrow> k' \<noteq> k \<and> bs_contains s k'"
  by (auto simp: bs_contains_def bs_remove_def)

lemma bs_contains_Nil [simp]: "\<not> bs_contains [] k"
  by (simp add: bs_contains_def)

lemma set_bs_insert [simp]: "set (bs_insert k s) = insert k (set s)"
  by (auto simp: bs_insert_def set_insort_insert)

lemma set_bs_remove [simp]: "set (bs_remove k s) = set s - {k}"
  by (auto simp: bs_remove_def)

lemma strict_sorted_bs_insert: "sorted_wrt (<) s \<Longrightarrow> sorted_wrt (<) (bs_insert k s)"
  by (simp add: bs_insert_def strict_sorted_iff sorted_insort_insert distinct_insort_insert)

lemma strict_sorted_bs_remove: "sorted_wrt (<) s \<Longrightarrow> sorted_wrt (<) (bs_remove k s)"
  by (simp add: bs_remove_def sorted_wrt_filter)

subsection \<open>The contract\<close>

text \<open>
  What a client of a \<^verbatim>\<open>BTreeMap\<close> may rely on. The lemmas of the locale are the
  client's: reading after writing, and that a key is present exactly when it is iterated.
\<close>

locale ordered_map =
  fixes empty_m :: "'m"
    and insert_m :: "'k::linorder \<Rightarrow> 'v \<Rightarrow> 'm \<Rightarrow> 'm"
    and remove_m :: "'k \<Rightarrow> 'm \<Rightarrow> 'm"
    and get_m :: "'m \<Rightarrow> 'k \<Rightarrow> 'v option"
    and keys_m :: "'m \<Rightarrow> 'k list"
    and wf_m :: "'m \<Rightarrow> bool"
  assumes wf_empty: "wf_m empty_m"
    and wf_insert: "wf_m m \<Longrightarrow> wf_m (insert_m k v m)"
    and wf_remove: "wf_m m \<Longrightarrow> wf_m (remove_m k m)"
    and get_empty: "get_m empty_m k = None"
    and get_insert: "wf_m m \<Longrightarrow> get_m (insert_m k v m) k' = (if k' = k then Some v else get_m m k')"
    and get_remove: "wf_m m \<Longrightarrow> get_m (remove_m k m) k' = (if k' = k then None else get_m m k')"
    and keys_ascend: "wf_m m \<Longrightarrow> sorted_wrt (<) (keys_m m)"
    and keys_present: "wf_m m \<Longrightarrow> k \<in> set (keys_m m) \<longleftrightarrow> get_m m k \<noteq> None"
begin

lemma insert_then_remove_absent:
  assumes "wf_m m" "get_m m k = None"
  shows "get_m (remove_m k (insert_m k v m)) k' = get_m m k'"
  using assms by (simp add: get_insert get_remove wf_insert)

lemma keys_insert: "wf_m m \<Longrightarrow> set (keys_m (insert_m k v m)) = insert k (set (keys_m m))"
  by (auto simp: keys_present wf_insert get_insert split: if_splits)

lemma keys_remove: "wf_m m \<Longrightarrow> set (keys_m (remove_m k m)) = set (keys_m m) - {k}"
  by (auto simp: keys_present wf_remove get_remove split: if_splits)

lemma keys_determined:
  "wf_m m \<Longrightarrow> wf_m m' \<Longrightarrow> (\<And>k. get_m m k = get_m m' k) \<Longrightarrow> keys_m m = keys_m m'"
  using keys_ascend [of m] keys_ascend [of m']
  by (intro strict_sorted_equal) (auto simp: keys_present)

end

interpretation bt: ordered_map "[]" bt_insert bt_remove bt_get bt_keys bt_wf
proof unfold_locales
  fix m :: "('a::linorder, 'b) btree_map" and k
  assume "bt_wf m"
  then show "sorted_wrt (<) (bt_keys m)"
    by (simp add: bt_keys_def bt_wf_def)
qed (auto simp: bt_wf_insert bt_wf_remove bt_get_insert bt_get_remove bt_keys_set bt_get_def)

end
