(* ===== verification/Rust_Strings.thy ===== *)
theory Rust_Strings
  imports BTree
begin

section \<open>Strings of the standard library\<close>

text \<open>
  A Rust \<^verbatim>\<open>String\<close> is its UTF-8 bytes, so \<open>string\<close> (a list of 8-bit
  characters) is the model: equality, ordering, length and splitting at an ASCII character
  act on the bytes. The operations the program uses: \<^verbatim>\<open>split\<close>,
  \<^verbatim>\<open>trim_end_matches\<close>, \<^verbatim>\<open>trim().is_empty()\<close> (over the
  UTF-8 encodings of the Unicode white-space characters), \<^verbatim>\<open>to_ascii_lowercase\<close>,
  \<^verbatim>\<open>to_string\<close> of an unsigned integer and \<^verbatim>\<open>{:016x}\<close>.
\<close>

subsection \<open>Splitting\<close>

fun split_on :: "char \<Rightarrow> string \<Rightarrow> string list" where
  "split_on c [] = [[]]"
| "split_on c (x # xs) =
     (if x = c then [] # split_on c xs
      else (case split_on c xs of [] \<Rightarrow> [[x]] | p # ps \<Rightarrow> (x # p) # ps))"

fun join_with :: "char \<Rightarrow> string list \<Rightarrow> string" where
  "join_with c [] = []"
| "join_with c [p] = p"
| "join_with c (p # q # ps) = p @ c # join_with c (q # ps)"

definition trim_end_matches :: "char \<Rightarrow> string \<Rightarrow> string" where
  "trim_end_matches c s = rev (dropWhile (\<lambda>x. x = c) (rev s))"

lemma split_on_nonempty [simp]: "split_on c s \<noteq> []"
  by (induction s) (auto split: list.splits)

lemma split_on_no_sep: "p \<in> set (split_on c s) \<Longrightarrow> c \<notin> set p"
proof (induction s arbitrary: p)
  case (Cons x xs)
  then show ?case
    by (cases "split_on c xs") (auto split: if_splits)
qed simp

lemma join_split_on: "join_with c (split_on c s) = s"
proof (induction s)
  case (Cons x xs)
  show ?case
  proof (cases "split_on c xs")
    case (Cons p ps)
    then show ?thesis using Cons.IH by (cases ps) auto
  qed simp
qed simp

lemma split_on_sep_free: "c \<notin> set p \<Longrightarrow> split_on c p = [p]"
  by (induction p) auto

lemma split_on_append_sep:
  "c \<notin> set p \<Longrightarrow> split_on c (p @ c # s) = p # split_on c s"
  by (induction p) auto

lemma split_on_join:
  "ps \<noteq> [] \<Longrightarrow> (\<And>p. p \<in> set ps \<Longrightarrow> c \<notin> set p) \<Longrightarrow> split_on c (join_with c ps) = ps"
  by (induction c ps rule: join_with.induct) (auto simp: split_on_sep_free split_on_append_sep)

lemma trim_end_matches_prefix: "\<exists>k. s = trim_end_matches c s @ replicate k c"
proof -
  have "rev s = takeWhile (\<lambda>x. x = c) (rev s) @ dropWhile (\<lambda>x. x = c) (rev s)"
    by simp
  then have "s = rev (dropWhile (\<lambda>x. x = c) (rev s)) @ rev (takeWhile (\<lambda>x. x = c) (rev s))"
    by (metis rev_append rev_rev_ident)
  moreover have "rev (takeWhile (\<lambda>x. x = c) (rev s)) =
      replicate (length (takeWhile (\<lambda>x. x = c) (rev s))) c"
    by (metis (mono_tags, lifting) length_rev replicate_length_same set_rev set_takeWhileD)
  ultimately show ?thesis
    unfolding trim_end_matches_def by metis
qed

lemma trim_end_matches_last:
  "trim_end_matches c s \<noteq> [] \<Longrightarrow> last (trim_end_matches c s) \<noteq> c"
  unfolding trim_end_matches_def
  by (metis (mono_tags, lifting) hd_dropWhile last_rev rev.simps(1))

subsection \<open>Blank strings\<close>

text \<open>
  The number of bytes the white-space character at the head takes: one for the ASCII ones,
  two for U+0085 and U+00A0, three for U+1680, U+2000 to U+200A, U+2028, U+2029, U+202F,
  U+205F and U+3000.
\<close>

definition white_head :: "nat list \<Rightarrow> nat option" where
  "white_head bs =
     (if bs \<noteq> [] \<and> (9 \<le> hd bs \<and> hd bs \<le> 13 \<or> hd bs = 32) then Some 1
      else if take 2 bs = [194, 133] \<or> take 2 bs = [194, 160] then Some 2
      else if take 3 bs = [225, 154, 128] \<or> take 3 bs = [227, 128, 128] \<or>
              take 3 bs = [226, 129, 159] \<or>
              (take 2 bs = [226, 128] \<and> 2 < length bs \<and>
                 (128 \<le> bs ! 2 \<and> bs ! 2 \<le> 138 \<or> bs ! 2 = 168 \<or> bs ! 2 = 169 \<or> bs ! 2 = 175))
           then Some 3
      else None)"

lemma white_head_bound: "white_head bs = Some n \<Longrightarrow> 0 < n \<and> n \<le> length bs"
  by (cases bs; cases "tl bs"; cases "tl (tl bs)")
    (auto simp: white_head_def split: if_splits)

function blank_bytes :: "nat list \<Rightarrow> bool" where
  "blank_bytes bs =
     (bs = [] \<or> (case white_head bs of None \<Rightarrow> False | Some n \<Rightarrow> blank_bytes (drop n bs)))"
  by pat_completeness auto
termination
  by (relation "measure length") (auto dest!: white_head_bound)

declare blank_bytes.simps [simp del]

definition is_blank :: "string \<Rightarrow> bool" where
  "is_blank s = blank_bytes (map of_char s)"

lemma is_blank_Nil [simp]: "is_blank []"
  by (simp add: is_blank_def blank_bytes.simps)

lemma is_blank_head:
  assumes "32 < (of_char c :: nat)" "(of_char c :: nat) < 127"
  shows "\<not> is_blank (c # s)"
proof -
  have "white_head (map of_char (c # s)) = None"
    using assms by (auto simp: white_head_def)
  then show ?thesis
    by (simp add: is_blank_def blank_bytes.simps)
qed

subsection \<open>ASCII case\<close>

definition ascii_lower_char :: "char \<Rightarrow> char" where
  "ascii_lower_char c =
     (if 65 \<le> (of_char c :: nat) \<and> (of_char c :: nat) \<le> 90 then char_of ((of_char c :: nat) + 32) else c)"

definition to_ascii_lowercase :: "string \<Rightarrow> string" where
  "to_ascii_lowercase s = map ascii_lower_char s"

subsection \<open>Decimal and hexadecimal\<close>

definition digit_char :: "nat \<Rightarrow> char" where
  "digit_char d = char_of (if d < 10 then 48 + d else 87 + d)"

fun show_base :: "nat \<Rightarrow> nat \<Rightarrow> string" where
  "show_base b n = (if b < 2 \<or> n < b then [digit_char n]
     else show_base b (n div b) @ [digit_char (n mod b)])"

declare show_base.simps [simp del]

definition show_nat :: "nat \<Rightarrow> string" where
  "show_nat n = show_base 10 n"

definition pad_zero :: "nat \<Rightarrow> string \<Rightarrow> string" where
  "pad_zero w s = replicate (w - length s) (CHR ''0'') @ s"

definition is_digit :: "char \<Rightarrow> bool" where
  "is_digit c \<longleftrightarrow> 48 \<le> (of_char c :: nat) \<and> (of_char c :: nat) \<le> 57"

lemma of_char_digit_char: "d < 16 \<Longrightarrow> (of_char (digit_char d) :: nat) = (if d < 10 then 48 + d else 87 + d)"
  by (simp add: digit_char_def)

lemma digit_char_inj: "digit_char a = digit_char b \<Longrightarrow> a < 16 \<Longrightarrow> b < 16 \<Longrightarrow> a = b"
  by (drule arg_cong [where f = "of_char :: char \<Rightarrow> nat"])
    (auto simp: of_char_digit_char split: if_splits)

lemma is_digit_digit_char [simp]: "d < 10 \<Longrightarrow> is_digit (digit_char d)"
  by (simp add: is_digit_def of_char_digit_char)

lemma show_nat_digits: "c \<in> set (show_nat n) \<Longrightarrow> is_digit c"
  unfolding show_nat_def
proof (induction "10::nat" n rule: show_base.induct)
  case (1 n)
  then show ?case
    by (subst (asm) (2) show_base.simps) (auto split: if_splits)
qed

definition digits_val :: "string \<Rightarrow> nat" where
  "digits_val s = foldl (\<lambda>a c. 10 * a + (of_char c - 48)) 0 s"

lemma digits_val_show_nat: "digits_val (show_nat n) = n"
  unfolding show_nat_def
proof (induction "10::nat" n rule: show_base.induct)
  case (1 n)
  then show ?case
    by (subst show_base.simps) (auto simp: digits_val_def of_char_digit_char)
qed

lemma show_nat_inj: "show_nat m = show_nat n \<longleftrightarrow> m = n"
  by (metis digits_val_show_nat)

lemma show_nat_nonempty [simp]: "show_nat n \<noteq> []"
  unfolding show_nat_def by (subst show_base.simps) simp

lemma digits_val_pad [simp]: "digits_val (pad_zero w s) = digits_val s"
proof -
  have "foldl (\<lambda>a c. 10 * a + (of_char c - 48)) (0::nat) (replicate k (CHR ''0'')) = 0" for k
    by (induction k) auto
  then show ?thesis
    by (simp add: digits_val_def pad_zero_def)
qed

lemma pad_zero_digits: "(\<And>c. c \<in> set s \<Longrightarrow> is_digit c) \<Longrightarrow> c \<in> set (pad_zero w s) \<Longrightarrow> is_digit c"
  by (auto simp: pad_zero_def is_digit_def)

lemma length_pad_zero: "length (pad_zero w s) = max w (length s)"
  by (simp add: pad_zero_def)

end
