(* ===== verification/Ir.thy ===== *)
theory Ir
  imports Rust_Strings
begin

section \<open>The plan representation (src/ir.rs)\<close>

text \<open>
  Identifiers, tiers, efforts and task kinds with their parsers and printers, the plan and
  its tasks, and \<^verbatim>\<open>content_hash\<close>, the line-ending-insensitive FNV-1a digest of
  a plan. \<open>tier\<close> and \<open>effort\<close> carry the order Rust derives from the order of the
  variants.
\<close>

unbundle bit_operations_syntax

type_synonym task_id = string
type_synonym question_id = string
type_synonym artifact_id = string

datatype tier = Small | Mid | Frontier

datatype effort = Low | Medium | High | XHigh | MaxEffort

datatype task_kind = Design | Implement | Fix | Refactor | Test | Docs | Chore

datatype question_kind = Unblock | ApproveSpend | Continue | Clarify

fun tier_rank :: "tier \<Rightarrow> nat" where
  "tier_rank Small = 0" | "tier_rank Mid = 1" | "tier_rank Frontier = 2"

fun effort_rank :: "effort \<Rightarrow> nat" where
  "effort_rank Low = 0" | "effort_rank Medium = 1" | "effort_rank High = 2"
| "effort_rank XHigh = 3" | "effort_rank MaxEffort = 4"

lemma tier_rank_inj [simp]: "tier_rank a = tier_rank b \<longleftrightarrow> a = b"
  by (cases a; cases b) auto

lemma effort_rank_inj [simp]: "effort_rank a = effort_rank b \<longleftrightarrow> a = b"
  by (cases a; cases b) auto

instantiation tier :: linorder
begin

definition less_eq_tier :: "tier \<Rightarrow> tier \<Rightarrow> bool" where
  "less_eq_tier a b \<longleftrightarrow> tier_rank a \<le> tier_rank b"

definition less_tier :: "tier \<Rightarrow> tier \<Rightarrow> bool" where
  "less_tier a b \<longleftrightarrow> tier_rank a < tier_rank b"

instance
proof
  fix x y z :: tier
  show "x < y \<longleftrightarrow> x \<le> y \<and> \<not> y \<le> x"
    by (auto simp: less_eq_tier_def less_tier_def)
  show "x \<le> x" by (simp add: less_eq_tier_def)
  show "x \<le> y \<Longrightarrow> y \<le> z \<Longrightarrow> x \<le> z" by (simp add: less_eq_tier_def)
  show "x \<le> y \<Longrightarrow> y \<le> x \<Longrightarrow> x = y" by (simp add: less_eq_tier_def antisym)
  show "x \<le> y \<or> y \<le> x" by (auto simp: less_eq_tier_def)
qed

end

instantiation effort :: linorder
begin

definition less_eq_effort :: "effort \<Rightarrow> effort \<Rightarrow> bool" where
  "less_eq_effort a b \<longleftrightarrow> effort_rank a \<le> effort_rank b"

definition less_effort :: "effort \<Rightarrow> effort \<Rightarrow> bool" where
  "less_effort a b \<longleftrightarrow> effort_rank a < effort_rank b"

instance
proof
  fix x y z :: effort
  show "x < y \<longleftrightarrow> x \<le> y \<and> \<not> y \<le> x"
    by (auto simp: less_eq_effort_def less_effort_def)
  show "x \<le> x" by (simp add: less_eq_effort_def)
  show "x \<le> y \<Longrightarrow> y \<le> z \<Longrightarrow> x \<le> z" by (simp add: less_eq_effort_def)
  show "x \<le> y \<Longrightarrow> y \<le> x \<Longrightarrow> x = y" by (simp add: less_eq_effort_def antisym)
  show "x \<le> y \<or> y \<le> x" by (auto simp: less_eq_effort_def)
qed

end

subsection \<open>Names and parsers\<close>

fun tier_name :: "tier \<Rightarrow> string" where
  "tier_name Small = ''small''"
| "tier_name Mid = ''mid''"
| "tier_name Frontier = ''frontier''"

definition tier_parse :: "string \<Rightarrow> tier option" where
  "tier_parse s =
     (let l = to_ascii_lowercase s in
      if l = ''small'' then Some Small
      else if l = ''mid'' then Some Mid
      else if l = ''frontier'' then Some Frontier
      else None)"

fun effort_name :: "effort \<Rightarrow> string" where
  "effort_name Low = ''low''"
| "effort_name Medium = ''medium''"
| "effort_name High = ''high''"
| "effort_name XHigh = ''xhigh''"
| "effort_name MaxEffort = ''max''"

definition effort_parse :: "string \<Rightarrow> effort option" where
  "effort_parse s =
     (let l = to_ascii_lowercase s in
      if l = ''low'' then Some Low
      else if l = ''medium'' then Some Medium
      else if l = ''high'' then Some High
      else if l = ''xhigh'' then Some XHigh
      else if l = ''max'' then Some MaxEffort
      else None)"

fun effort_for_tier :: "tier \<Rightarrow> effort" where
  "effort_for_tier Small = Low"
| "effort_for_tier Mid = Medium"
| "effort_for_tier Frontier = High"

fun task_kind_name :: "task_kind \<Rightarrow> string" where
  "task_kind_name Design = ''design''"
| "task_kind_name Implement = ''implement''"
| "task_kind_name Fix = ''fix''"
| "task_kind_name Refactor = ''refactor''"
| "task_kind_name Test = ''test''"
| "task_kind_name Docs = ''docs''"
| "task_kind_name Chore = ''chore''"

definition task_kind_parse :: "string \<Rightarrow> task_kind option" where
  "task_kind_parse s =
     (let l = to_ascii_lowercase s in
      if l = ''design'' then Some Design
      else if l = ''implement'' then Some Implement
      else if l = ''fix'' then Some Fix
      else if l = ''refactor'' then Some Refactor
      else if l = ''test'' then Some Test
      else if l = ''docs'' then Some Docs
      else if l = ''chore'' then Some Chore
      else None)"

fun question_kind_name :: "question_kind \<Rightarrow> string" where
  "question_kind_name Unblock = ''unblock''"
| "question_kind_name ApproveSpend = ''approve-spend''"
| "question_kind_name Continue = ''continue''"
| "question_kind_name Clarify = ''clarify''"

lemma tier_name_inj [simp]: "tier_name a = tier_name b \<longleftrightarrow> a = b"
  by (cases a; cases b) auto

lemma effort_name_inj [simp]: "effort_name a = effort_name b \<longleftrightarrow> a = b"
  by (cases a; cases b) auto

lemma task_kind_name_inj [simp]: "task_kind_name a = task_kind_name b \<longleftrightarrow> a = b"
  by (cases a; cases b) auto

lemma tier_name_lower: "to_ascii_lowercase (tier_name t) = tier_name t"
  by (cases t) (simp_all add: to_ascii_lowercase_def ascii_lower_char_def)

lemma tier_parse_name: "tier_parse (tier_name t) = Some t"
  by (simp add: tier_parse_def tier_name_lower Let_def) (cases t; simp)

lemma effort_name_lower: "to_ascii_lowercase (effort_name e) = effort_name e"
  by (cases e) (simp_all add: to_ascii_lowercase_def ascii_lower_char_def)

lemma effort_parse_name: "effort_parse (effort_name e) = Some e"
  by (simp add: effort_parse_def effort_name_lower Let_def) (cases e; simp)

lemma task_kind_name_lower: "to_ascii_lowercase (task_kind_name k) = task_kind_name k"
  by (cases k) (simp_all add: to_ascii_lowercase_def ascii_lower_char_def)

lemma task_kind_parse_name: "task_kind_parse (task_kind_name k) = Some k"
  by (simp add: task_kind_parse_def task_kind_name_lower Let_def) (cases k; simp)

subsection \<open>Plans\<close>

record resolved_effort_policy =
  ep_small :: effort
  ep_mid :: effort
  ep_frontier :: effort
  ep_review :: effort

fun implementation_for :: "resolved_effort_policy \<Rightarrow> tier \<Rightarrow> effort" where
  "implementation_for p Small = ep_small p"
| "implementation_for p Mid = ep_mid p"
| "implementation_for p Frontier = ep_frontier p"

record plan_source =
  ps_adapter :: string
  ps_hash :: string

record artifact =
  ar_id :: artifact_id
  ar_produced_by :: "task_id option"

record task =
  t_id :: task_id
  t_kind :: task_kind
  t_title :: string
  t_body :: string
  t_depends_on :: "task_id list"
  t_acceptance :: "string list"
  t_path_hints :: "string list"
  t_suggested_tier :: "tier option"
  t_min_tier :: "tier option"
  t_artifacts_in :: "artifact_id list"
  t_artifacts_out :: "artifact_id list"

record plan =
  p_source :: plan_source
  p_tasks :: "task list"
  p_artifacts :: "artifact list"

record usage =
  u_input_tokens :: "u64 option"
  u_output_tokens :: "u64 option"
  u_cache_creation_input_tokens :: "u64 option"
  u_cache_read_input_tokens :: "u64 option"
  u_num_turns :: "u32 option"
  u_reasoning_output_tokens :: "u64 option"

subsection \<open>The content hash\<close>

definition fnv_step :: "u64 \<Rightarrow> char \<Rightarrow> u64" where
  "fnv_step h b = (h XOR of_char b) * 0x100000001b3"

definition content_hash :: "string \<Rightarrow> string" where
  "content_hash bytes =
     pad_zero 16 (show_base 16 (unat
       (foldl fnv_step 0xcbf29ce484222325 (filter (\<lambda>b. b \<noteq> CHR 0x0D) bytes))))"


end
