(* ===== verification/Ladder.thy ===== *)
theory Ladder
  imports Ir
begin

section \<open>The escalation ladder (src/ladder.rs)\<close>

text \<open>
  What a failed attempt leads to. \<open>next_step\<close> is the source's decision;
  \<open>ladder_turn\<close> is one turn of the settlement loop around it (the charge of
  \<^verbatim>\<open>settle_failure\<close> in src/engine/topology/run.rs and the position the fold
  then records), and \<open>climb\<close> iterates it over a sequence of failures. The main fact is
  that the ladder is finite: no sequence of failures keeps a task retrying, escalating or
  deferring past a bound fixed by the policy.
\<close>

datatype failure_kind =
    NoChain | EmptyDiff | AgentError | Timeout | RateLimited | GateFailed | TestProvenance
  | ReviewInputTooLarge | ReviewInputOpaque | ReviewFailed | ReviewUnavailable
  | NeedsHuman | Declined | Interrupted

datatype failure_origin = Worker | Reviewer

record attempt_failure =
  af_kind :: failure_kind
  af_origin :: failure_origin
  af_reason :: string
  af_feedback :: "string option"
  af_never_started :: bool

record ladder_policy =
  lp_attempts_per :: u32
  lp_rungs :: nat
  lp_max_defers :: u32

record ladder_state =
  ls_rung :: nat
  ls_attempts_on_rung :: u32
  ls_defers :: u32
  ls_resumable :: bool

datatype next_move = RetrySameRung bool | Escalate | Defer | AskHuman question_kind | Fail

record failure_shape =
  fs_kind :: failure_kind
  fs_origin :: failure_origin

definition shape_of :: "attempt_failure \<Rightarrow> failure_shape" where
  "shape_of f = \<lparr>fs_kind = af_kind f, fs_origin = af_origin f\<rparr>"

definition is_outage :: "failure_shape \<Rightarrow> bool" where
  "is_outage f \<longleftrightarrow>
     fs_kind f = RateLimited \<or> fs_kind f = ReviewUnavailable \<or>
     (fs_kind f = Timeout \<and> fs_origin f = Reviewer)"

definition spends_allowance :: "failure_shape option \<Rightarrow> bool" where
  "spends_allowance failure =
     (case failure of
        None \<Rightarrow> True
      | Some f \<Rightarrow>
          if is_outage f then False
          else (case fs_kind f of
                  NeedsHuman \<Rightarrow> False
                | NoChain \<Rightarrow> False
                | Interrupted \<Rightarrow> False
                | Declined \<Rightarrow> False
                | _ \<Rightarrow> True))"

definition next_step :: "attempt_failure \<Rightarrow> ladder_state \<Rightarrow> ladder_policy \<Rightarrow> next_move" where
  "next_step failure state policy =
     (if af_kind failure = NeedsHuman then AskHuman Clarify
      else if af_kind failure = ReviewInputTooLarge \<or> af_kind failure = ReviewInputOpaque
        then AskHuman Unblock
      else if is_outage (shape_of failure) then
        (if ls_defers state < lp_max_defers policy then Defer else AskHuman Unblock)
      else if af_kind failure = NoChain \<or> lp_rungs policy = 0 then Fail
      else if ls_attempts_on_rung state < lp_attempts_per policy
        then RetrySameRung (ls_resumable state)
      else if ls_rung state + 1 < lp_rungs policy then Escalate
      else AskHuman Unblock)"

subsection \<open>One turn of the settlement loop\<close>

text \<open>
  \<open>charged\<close> is the ladder state \<^verbatim>\<open>settle_failure\<close> hands to
  \<open>next_step\<close>; \<open>position_after\<close> is what the fold then stores for the
  transition (src/topology/fold/apply.rs: a retry keeps the rung, an escalation moves one up
  with a fresh count, a deferral counts itself).
\<close>

definition charged :: "attempt_failure \<Rightarrow> ladder_state \<Rightarrow> ladder_state" where
  "charged failure state = state\<lparr>ls_attempts_on_rung :=
     sat_add (ls_attempts_on_rung state)
       (if spends_allowance (Some (shape_of failure)) then 1 else 0)\<rparr>"

definition position_after :: "next_move \<Rightarrow> ladder_state \<Rightarrow> ladder_state" where
  "position_after n state =
     (case n of
        Escalate \<Rightarrow> state\<lparr>ls_rung := ls_rung state + 1, ls_attempts_on_rung := 0\<rparr>
      | Defer \<Rightarrow> state\<lparr>ls_defers := sat_add (ls_defers state) 1\<rparr>
      | _ \<Rightarrow> state)"

definition ladder_turn :: "ladder_policy \<Rightarrow> ladder_state \<Rightarrow> attempt_failure \<Rightarrow> next_move \<times> ladder_state" where
  "ladder_turn policy state failure =
     (let s = charged failure state; n = next_step failure s policy in (n, position_after n s))"

text \<open>One turn after another, as attempts of the task fail over time, until a person is asked or the task fails.\<close>

fun climb :: "ladder_policy \<Rightarrow> ladder_state \<Rightarrow> attempt_failure list \<Rightarrow> next_move option" where
  "climb policy state [] = None"
| "climb policy state (f # fs) =
     (case ladder_turn policy state f of
        (AskHuman k, _) \<Rightarrow> Some (AskHuman k)
      | (Fail, _) \<Rightarrow> Some Fail
      | (_, s) \<Rightarrow> climb policy s fs)"

text \<open>What is left of the ladder: attempts on this rung and the ones above, and deferrals.\<close>

definition ladder_left :: "ladder_policy \<Rightarrow> ladder_state \<Rightarrow> nat" where
  "ladder_left policy s =
     (lp_rungs policy - ls_rung s) * unat (lp_attempts_per policy) - unat (ls_attempts_on_rung s)
     + (unat (lp_max_defers policy) - unat (ls_defers s))"

definition on_ladder :: "ladder_policy \<Rightarrow> ladder_state \<Rightarrow> bool" where
  "on_ladder policy s \<longleftrightarrow>
     0 < unat (lp_attempts_per policy) \<and> ls_rung s < lp_rungs policy \<and>
     unat (ls_attempts_on_rung s) < unat (lp_attempts_per policy)"

text \<open>The failures an attempt of the settlement loop can report: the engine never settles
  an interrupted or a declined attempt through \<open>next_step\<close>.\<close>

definition settled_kind :: "attempt_failure \<Rightarrow> bool" where
  "settled_kind f \<longleftrightarrow> af_kind f \<noteq> Interrupted \<and> af_kind f \<noteq> Declined"

lemma spends_allowance_shape:
  "spends_allowance (Some (shape_of f)) \<longleftrightarrow>
     \<not> is_outage (shape_of f) \<and> af_kind f \<notin> {NeedsHuman, NoChain, Interrupted, Declined}"
  by (cases "af_kind f") (auto simp: spends_allowance_def shape_of_def)

lemma ladder_turn_decreases:
  assumes lad: "on_ladder policy s" and kind: "settled_kind f"
    and turn: "ladder_turn policy s f = (n, s')"
    and more: "n \<noteq> Fail" "\<And>k. n \<noteq> AskHuman k"
  shows "on_ladder policy s' \<and> ladder_left policy s' < ladder_left policy s"
proof -
  let ?ap = "unat (lp_attempts_per policy)"
  from lad have ap: "0 < ?ap" and rung: "ls_rung s < lp_rungs policy"
    and att: "unat (ls_attempts_on_rung s) < ?ap"
    by (auto simp: on_ladder_def)
  show ?thesis
  proof (cases "is_outage (shape_of f)")
    case True
    with kind turn more have n: "n = Defer" and d: "ls_defers s < lp_max_defers policy"
      and s': "s' = s\<lparr>ls_defers := sat_add (ls_defers s) 1\<rparr>"
      by (auto simp: ladder_turn_def next_step_def charged_def position_after_def Let_def
          spends_allowance_shape split: if_splits)
    from d have "unat (sat_add (ls_defers s) 1) = Suc (unat (ls_defers s))"
      by (intro unat_sat_succ [of _ "lp_max_defers policy"]) (simp add: word_less_nat_alt)
    with d lad s' show ?thesis
      by (auto simp: on_ladder_def ladder_left_def word_less_nat_alt)
  next
    case False
    with kind turn more have sp: "spends_allowance (Some (shape_of f))"
      by (auto simp: spends_allowance_shape ladder_turn_def next_step_def Let_def settled_kind_def
          split: if_splits)
    let ?a = "sat_add (ls_attempts_on_rung s) 1"
    have a: "unat ?a = Suc (unat (ls_attempts_on_rung s))"
      using att by (rule unat_sat_succ)
    have s': "s' = (if ?a < lp_attempts_per policy then s\<lparr>ls_attempts_on_rung := ?a\<rparr>
        else s\<lparr>ls_rung := ls_rung s + 1, ls_attempts_on_rung := 0\<rparr>)"
      and up: "\<not> ?a < lp_attempts_per policy \<longrightarrow> ls_rung s + 1 < lp_rungs policy"
      using turn more sp False
      by (auto simp: ladder_turn_def next_step_def charged_def position_after_def Let_def
          split: if_splits)
    show ?thesis
    proof (cases "?a < lp_attempts_per policy")
      case True
      define m where "m = (lp_rungs policy - ls_rung s) * ?ap"
      have "?ap \<le> m"
        unfolding m_def using rung by (cases "lp_rungs policy - ls_rung s") auto
      with True a s' rung ap att show ?thesis
        by (simp add: on_ladder_def ladder_left_def word_less_nat_alt m_def [symmetric])
    next
      case False
      have "(lp_rungs policy - (ls_rung s + 1)) * ?ap + ?ap = (lp_rungs policy - ls_rung s) * ?ap"
        using rung by (metis Suc_diff_Suc Suc_eq_plus1 add.commute mult_Suc)
      with False a s' up ap att show ?thesis
        unfolding on_ladder_def ladder_left_def word_less_nat_alt by simp
    qed
  qed
qed

lemma climb_ends:
  assumes "on_ladder policy s" "\<And>f. f \<in> set fs \<Longrightarrow> settled_kind f"
    and "ladder_left policy s < length fs"
  shows "\<exists>n. climb policy s fs = Some n \<and> (n = Fail \<or> (\<exists>k. n = AskHuman k))"
  using assms
proof (induction fs arbitrary: s)
  case (Cons f fs)
  obtain n s' where turn: "ladder_turn policy s f = (n, s')"
    by (cases "ladder_turn policy s f")
  show ?case
  proof (cases "n = Fail \<or> (\<exists>k. n = AskHuman k)")
    case True
    with turn show ?thesis by auto
  next
    case False
    with Cons.prems turn have "on_ladder policy s' \<and> ladder_left policy s' < ladder_left policy s"
      by (intro ladder_turn_decreases [of policy s f n s']) auto
    with Cons.prems have "\<exists>m. climb policy s' fs = Some m \<and> (m = Fail \<or> (\<exists>k. m = AskHuman k))"
      by (intro Cons.IH) auto
    moreover have "climb policy s (f # fs) = climb policy s' fs"
      using turn False by (cases n) auto
    ultimately show ?thesis by simp
  qed
qed simp

lemma ladder_left_bound:
  "on_ladder policy s \<Longrightarrow>
     ladder_left policy s \<le> lp_rungs policy * unat (lp_attempts_per policy) + unat (lp_max_defers policy)"
proof -
  have "(lp_rungs policy - ls_rung s) * unat (lp_attempts_per policy) \<le>
      lp_rungs policy * unat (lp_attempts_per policy)"
    by (intro mult_le_mono1) simp
  then show ?thesis
    unfolding ladder_left_def by linarith
qed

text \<open>
  C26. The ladder ends. Whatever failures the attempts of a task report, the settlement
  loop of a task standing on its ladder reaches a person or fails the task after at most
  \<open>rungs * attempts_per + max_defers\<close> further attempts that do neither.
\<close>

theorem climb_terminates:
  assumes "on_ladder policy s" and "list_all settled_kind fs"
    and "lp_rungs policy * unat (lp_attempts_per policy) + unat (lp_max_defers policy) < length fs"
  shows "\<exists>n. climb policy s fs = Some n \<and> (n = Fail \<or> (\<exists>k. n = AskHuman k))"
  using assms ladder_left_bound [of policy s] by (intro climb_ends) (auto simp: list_all_iff)

theorem climb_terminates_witness:
  "let policy = \<lparr>lp_attempts_per = 1, lp_rungs = 1, lp_max_defers = 1\<rparr>;
       s = \<lparr>ls_rung = 0, ls_attempts_on_rung = 0, ls_defers = 0, ls_resumable = False\<rparr>;
       f = \<lparr>af_kind = GateFailed, af_origin = Worker, af_reason = ''gates'', af_feedback = None,
            af_never_started = False\<rparr>
   in on_ladder policy s \<and> (\<exists>n. climb policy s [f, f, f] = Some n \<and> (n = Fail \<or> (\<exists>k. n = AskHuman k)))"
  unfolding Let_def
  by (intro conjI climb_terminates) (simp_all add: on_ladder_def settled_kind_def)

end
