(* ===== verification/Records.thy ===== *)
theory Records
  imports Ladder
begin

section \<open>Review identities and shared event records (src/review.rs, src/events/mod.rs)\<close>

text \<open>
  The review lenses and the passes a review plan obliges (src/review.rs), and the records of
  src/events/mod.rs that the topology log embeds: the run-start record with its chains, and
  the attempt record with its reviews and failure. A \<^verbatim>\<open>Duration\<close> is a number of
  nanoseconds. An \<^verbatim>\<open>f64\<close> is its IEEE 754 bits: finite when the exponent field
  is not all ones, and compared through the sign and the magnitude, which order the finite
  values and the infinities as IEEE does.
\<close>

type_synonym duration = nat

unbundle bit_operations_syntax

type_synonym f64 = u64

definition f64_magnitude :: "f64 \<Rightarrow> u64" where
  "f64_magnitude b = b AND 0x7FFFFFFFFFFFFFFF"

definition f64_is_nan :: "f64 \<Rightarrow> bool" where
  "f64_is_nan b \<longleftrightarrow> 0x7FF0000000000000 < f64_magnitude b"

definition f64_is_finite :: "f64 \<Rightarrow> bool" where
  "f64_is_finite b \<longleftrightarrow> f64_magnitude b < 0x7FF0000000000000"

definition f64_order :: "f64 \<Rightarrow> int" where
  "f64_order b = (if bit b 63 then - uint (f64_magnitude b) else uint (f64_magnitude b))"

definition f64_less :: "f64 \<Rightarrow> f64 \<Rightarrow> bool" where
  "f64_less a b \<longleftrightarrow> \<not> f64_is_nan a \<and> \<not> f64_is_nan b \<and> f64_order a < f64_order b"

subsection \<open>Review passes\<close>

datatype lens = Acceptance | SecondOpinion

fun lens_name :: "lens \<Rightarrow> string" where
  "lens_name Acceptance = ''review''"
| "lens_name SecondOpinion = ''second-opinion''"

record pass_binding =
  pb_agent :: string
  pb_model :: string

record review_pass =
  rp_lens :: lens
  rp_binding :: pass_binding

record review_plan =
  rv_enabled :: "bool option"
  rv_alternative_available :: "bool option"
  rv_pass_timeout_secs :: "u64 option"
  rv_primary :: "pass_binding option"
  rv_alternative :: "pass_binding option"
  rv_second_opinion :: "pass_binding option list"

record review_bindings =
  rb_primary :: "pass_binding option"
  rb_alternative :: "pass_binding option"
  rb_second_opinion :: "pass_binding option"

definition bindings_of_plan :: "review_plan \<Rightarrow> nat \<Rightarrow> review_bindings" where
  "bindings_of_plan plan index =
     \<lparr>rb_primary = rv_primary plan, rb_alternative = rv_alternative plan,
      rb_second_opinion = Option.bind (vec_get (rv_second_opinion plan) index) id\<rparr>"

definition passes_for :: "review_bindings \<Rightarrow> pass_binding \<Rightarrow> review_pass list" where
  "passes_for bindings implementer =
     (case rb_primary bindings of
        None \<Rightarrow> []
      | Some primary \<Rightarrow>
          (case rb_second_opinion bindings of
             Some second \<Rightarrow>
               [\<lparr>rp_lens = Acceptance, rp_binding = primary\<rparr>,
                \<lparr>rp_lens = SecondOpinion, rp_binding = second\<rparr>]
           | None \<Rightarrow>
               [\<lparr>rp_lens = Acceptance,
                 rp_binding =
                   (case rb_alternative bindings of
                      Some alt \<Rightarrow> if primary = implementer then alt else primary
                    | None \<Rightarrow> primary)\<rparr>]))"

definition obliged_lenses :: "review_bindings \<Rightarrow> lens list" where
  "obliged_lenses bindings =
     (case rb_primary bindings of
        None \<Rightarrow> []
      | Some primary \<Rightarrow> map rp_lens (passes_for bindings primary))"

text \<open>
  What a task's review plan obliges does not depend on who implements the task: for
  every implementer the passes that run carry exactly the obliged lenses, and no lens twice.
\<close>

theorem obliged_lenses_any_implementer:
  "map rp_lens (passes_for bindings implementer) = obliged_lenses bindings \<and>
   distinct (obliged_lenses bindings)"
  by (simp add: passes_for_def obliged_lenses_def split: option.splits)

subsection \<open>Run start\<close>

datatype shell_kind = Cmd | Sh | Bash | PowerShell | Pwsh

record gate_summary =
  gs_name :: string
  gs_cmd :: string
  gs_timeout :: duration
  gs_shell :: shell_kind

record binding_summary =
  bs_tier :: tier
  bs_agent :: string
  bs_model :: string
  bs_pinned :: bool

record chain_summary =
  cs_task :: string
  cs_tiers :: "tier list"
  cs_attempts_per :: u32
  cs_bindings :: "binding_summary list option"

record run_started =
  rs_schema :: u32
  rs_upstroke_version :: string
  rs_run_id :: string
  rs_branch :: string
  rs_base_sha :: string
  rs_plan_path :: string
  rs_config_path :: "string option"
  rs_plan_hash :: string
  rs_normalized_plan_digest :: "string option"
  rs_private_dir :: string
  rs_gates :: "string list"
  rs_gates_from_config :: bool
  rs_interaction_mode :: string
  rs_chains :: "chain_summary list"
  rs_effort_policy :: "resolved_effort_policy option"
  rs_gate_cmds :: "gate_summary list option"
  rs_reviews :: "review_plan option"

subsection \<open>Attempts\<close>

datatype review_pass_outcome = PassPassed | PassFailed | PassUnavailable

definition pass_passed :: "review_pass_outcome \<Rightarrow> bool" where
  "pass_passed outcome \<longleftrightarrow> outcome = PassPassed"

record review_record =
  rr_pass :: string
  rr_agent :: string
  rr_model :: string
  rr_adapter :: "string option"
  rr_preflight_cli_version :: "string option"
  rr_effort :: "effort option"
  rr_pool :: "string option"
  rr_cost_usd :: "f64 option"
  rr_outcome :: review_pass_outcome

record failure_record =
  fr_kind :: failure_kind
  fr_origin :: failure_origin
  fr_reason :: string
  fr_detail :: "string option"

definition failure_record_shape :: "failure_record \<Rightarrow> failure_shape" where
  "failure_record_shape f = \<lparr>fs_kind = fr_kind f, fs_origin = fr_origin f\<rparr>"

record attempt_record =
  at_attempt :: u32
  at_tier :: string
  at_model :: string
  at_pool :: "string option"
  at_resumed :: bool
  at_duration :: duration
  at_cost_usd :: "f64 option"
  at_reviews :: "review_record list"
  at_session_id :: "string option"
  at_usage :: "usage option"
  at_failure :: "failure_record option"

definition is_successful :: "attempt_record \<Rightarrow> bool" where
  "is_successful r \<longleftrightarrow>
     at_failure r = None \<and> list_all (\<lambda>pass. pass_passed (rr_outcome pass)) (at_reviews r)"

definition review_cost_incomplete :: "attempt_record \<Rightarrow> bool" where
  "review_cost_incomplete r \<longleftrightarrow> list_ex (\<lambda>pass. rr_cost_usd pass = None) (at_reviews r)"

definition review_models :: "attempt_record \<Rightarrow> string list" where
  "review_models r = map rr_model (at_reviews r)"

subsection \<open>Run outcomes and observations\<close>

datatype run_outcome = OutComplete | OutParked | OutHalted | OutBudgetExceeded

datatype budget_kind = BudgetRun | BudgetTask

datatype question_attribution = DiscoveredHole | DesignDefectAttribution

datatype effective_attribution = Unclassified | Discovered | Convicted string

definition cited :: "string \<Rightarrow> bool" where
  "cited citation \<longleftrightarrow> \<not> is_blank citation"

fun derive_attribution ::
  "question_attribution option \<Rightarrow> string option \<Rightarrow> effective_attribution" where
  "derive_attribution None _ = Unclassified"
| "derive_attribution (Some DesignDefectAttribution) (Some citation) =
     (if cited citation then Convicted citation else Discovered)"
| "derive_attribution (Some _) _ = Discovered"

record design_defect =
  dd_question :: question_id
  dd_context :: string
  dd_answer :: string
  dd_attribution :: "question_attribution option"
  dd_citation :: "string option"

definition dd_discovered :: "question_id \<Rightarrow> string \<Rightarrow> string \<Rightarrow> design_defect" where
  "dd_discovered question context answer =
     \<lparr>dd_question = question, dd_context = context, dd_answer = answer,
      dd_attribution = Some DiscoveredHole, dd_citation = None\<rparr>"

datatype uncited_conviction = UncitedConviction

definition dd_convicted ::
  "question_id \<Rightarrow> string \<Rightarrow> string \<Rightarrow> string \<Rightarrow> (uncited_conviction, design_defect) result" where
  "dd_convicted question context answer citation =
     (if \<not> cited citation then Inl UncitedConviction
      else Inr \<lparr>dd_question = question, dd_context = context, dd_answer = answer,
                dd_attribution = Some DesignDefectAttribution, dd_citation = Some citation\<rparr>)"

definition dd_effective_attribution :: "design_defect \<Rightarrow> effective_attribution" where
  "dd_effective_attribution d = derive_attribution (dd_attribution d) (dd_citation d)"

record pool_snapshot =
  psn_pool :: string
  psn_agent :: string
  psn_kind :: string
  psn_remaining :: string
  psn_confidence :: string
  psn_reset_at :: "string option"

record capacity_snapshot =
  cap_strategy :: string
  cap_pools :: "pool_snapshot list"

record pool_exhausted =
  px_pool :: string
  px_agent :: string
  px_reset_at :: "string option"
  px_detail :: string

text \<open>
  A record convicts the design phase only with a citation: whatever combination of
  attribution and citation a log carries, the effective attribution is a conviction exactly
  when the stored attribution is one and its citation is not blank, and the constructor
  that convicts succeeds exactly when it will be read back as a conviction.
\<close>

theorem conviction_needs_citation:
  "(dd_effective_attribution d = Convicted c \<longleftrightarrow>
      dd_attribution d = Some DesignDefectAttribution \<and> dd_citation d = Some c \<and> \<not> is_blank c) \<and>
   (case dd_convicted q ctx ans c of
      Inl _ \<Rightarrow> is_blank c
    | Inr d' \<Rightarrow> dd_effective_attribution d' = Convicted c)"
proof -
  have "derive_attribution a ci = Convicted c \<longleftrightarrow>
      a = Some DesignDefectAttribution \<and> ci = Some c \<and> \<not> is_blank c" for a ci
    by (cases "(a, ci)" rule: derive_attribution.cases) (auto simp: cited_def)
  then show ?thesis
    by (simp add: dd_effective_attribution_def dd_convicted_def cited_def)
qed

end
