(* ===== verification/Paths.thy ===== *)
theory Paths
  imports Ir "HOL-Library.Sublist"
begin

section \<open>Paths and regions (src/topology/paths.rs, src/topology/leases.rs, src/topology/fold.rs)\<close>

text \<open>
  Git paths, regions of the repository and when two of them overlap, and the region a
  task's path hints predict. Case folding uses Rust's Unicode lower-casing table; it is a
  parameter \<open>lc\<close> of the definitions that compare components, so every fact holds for any
  such table. \<open>covers\<close> is the meaning of a region: the set of paths below its prefixes.
\<close>

datatype path_policy_version = V1 | V2

datatype path_grammar = Globset

record path_policy =
  pp_version :: path_policy_version
  pp_case_fold :: bool
  pp_grammar :: path_grammar

type_synonym git_path = string

datatype path_set = RepoWide | Prefixes "git_path list"

type_synonym case_map = "string \<Rightarrow> string"

fun is_repo_wide :: "path_set \<Rightarrow> bool" where
  "is_repo_wide RepoWide = True"
| "is_repo_wide (Prefixes _) = False"

fun prefixes_of :: "path_set \<Rightarrow> git_path list option" where
  "prefixes_of RepoWide = None"
| "prefixes_of (Prefixes paths) = Some paths"

subsection \<open>Comparing paths\<close>

definition components :: "git_path \<Rightarrow> string list" where
  "components path = filter (\<lambda>part. part \<noteq> []) (split_on (CHR ''/'') path)"

definition components_equal :: "case_map \<Rightarrow> string \<Rightarrow> string \<Rightarrow> bool \<Rightarrow> bool" where
  "components_equal lc l r case_fold =
     (if \<not> case_fold then l = r else lc l = lc r)"

fun components_overlap :: "case_map \<Rightarrow> bool \<Rightarrow> string list \<Rightarrow> string list \<Rightarrow> bool" where
  "components_overlap lc cf [] _ = True"
| "components_overlap lc cf _ [] = True"
| "components_overlap lc cf (one # l) (other # r) =
     (if \<not> components_equal lc one other cf then False else components_overlap lc cf l r)"

definition paths_overlap :: "case_map \<Rightarrow> git_path \<Rightarrow> git_path \<Rightarrow> path_policy \<Rightarrow> bool" where
  "paths_overlap lc l r policy =
     components_overlap lc (pp_case_fold policy) (components l) (components r)"

definition regions_overlap :: "case_map \<Rightarrow> path_set \<Rightarrow> path_set \<Rightarrow> path_policy \<Rightarrow> bool" where
  "regions_overlap lc l r policy =
     (case (prefixes_of l, prefixes_of r) of
        (Some ls, Some rs) \<Rightarrow> (\<exists>one \<in> set ls. \<exists>other \<in> set rs. paths_overlap lc one other policy)
      | _ \<Rightarrow> True)"

definition union_paths :: "path_set \<Rightarrow> path_set \<Rightarrow> path_set" where
  "union_paths l r =
     (case (prefixes_of l, prefixes_of r) of
        (Some ls, Some rs) \<Rightarrow>
          Prefixes (foldl (\<lambda>paths path. if path \<in> set paths then paths else paths @ [path]) ls rs)
      | _ \<Rightarrow> RepoWide)"

subsection \<open>The region a task's hints predict\<close>

definition is_metachar :: "char \<Rightarrow> bool" where
  "is_metachar c \<longleftrightarrow> c \<in> {CHR ''*'', CHR ''?'', CHR ''['', CHR ''{''}"

definition literal_components :: "string \<Rightarrow> string list" where
  "literal_components hint =
     takeWhile (\<lambda>component. \<not> (\<exists>c \<in> set component. is_metachar c)) (split_on (CHR ''/'') hint)"

definition hint_prefix :: "string \<Rightarrow> git_path option" where
  "hint_prefix hint =
     (if CHR 0x5C \<in> set hint then None
      else if \<exists>component \<in> set (literal_components hint). component = ''.'' \<or> component = ''..''
        then None
      else
        let trimmed = trim_end_matches (CHR ''/'') (join_with (CHR ''/'') (literal_components hint))
        in if trimmed = [] then None else Some trimmed)"

fun predicted_paths :: "string list \<Rightarrow> git_path list option" where
  "predicted_paths [] = Some []"
| "predicted_paths (hint # hints) =
     (case hint_prefix hint of
        None \<Rightarrow> None
      | Some p \<Rightarrow> map_option (\<lambda>paths. p # paths) (predicted_paths hints))"

definition region_of_hints :: "string list \<Rightarrow> path_set" where
  "region_of_hints hints =
     (if hints = [] then RepoWide
      else case predicted_paths hints of None \<Rightarrow> RepoWide | Some paths \<Rightarrow> Prefixes paths)"

subsection \<open>What a region covers\<close>

definition fold_components :: "case_map \<Rightarrow> path_policy \<Rightarrow> git_path \<Rightarrow> string list" where
  "fold_components lc policy path =
     (if pp_case_fold policy then map lc (components path) else components path)"

definition covers :: "case_map \<Rightarrow> path_policy \<Rightarrow> path_set \<Rightarrow> git_path \<Rightarrow> bool" where
  "covers lc policy region path =
     (case region of
        RepoWide \<Rightarrow> True
      | Prefixes ps \<Rightarrow> (\<exists>p \<in> set ps. prefix (fold_components lc policy p) (fold_components lc policy path)))"

lemma components_overlap_prefix:
  "components_overlap lc cf l r \<longleftrightarrow>
     (let f = (if cf then map lc else (\<lambda>x. x)) in prefix (f l) (f r) \<or> prefix (f r) (f l))"
  by (induction lc cf l r rule: components_overlap.induct)
    (auto simp: components_equal_def Let_def split: if_splits)

lemma paths_overlap_prefix:
  "paths_overlap lc l r policy \<longleftrightarrow>
     prefix (fold_components lc policy l) (fold_components lc policy r) \<or>
     prefix (fold_components lc policy r) (fold_components lc policy l)"
  by (auto simp: paths_overlap_def components_overlap_prefix fold_components_def Let_def)

lemma paths_overlap_refl [simp]: "paths_overlap lc p p policy"
  by (simp add: paths_overlap_prefix)

lemma paths_overlap_sym: "paths_overlap lc l r policy = paths_overlap lc r l policy"
  by (auto simp: paths_overlap_prefix)

lemma regions_overlap_sym: "regions_overlap lc l r policy = regions_overlap lc r l policy"
  by (cases l; cases r) (auto simp: regions_overlap_def intro: paths_overlap_sym [THEN iffD1])

lemma regions_overlap_RepoWide [simp]:
  "regions_overlap lc RepoWide r policy" "regions_overlap lc r RepoWide policy"
  by (cases r; simp add: regions_overlap_def)+

lemma set_foldl_append_new:
  "set (foldl (\<lambda>paths path. if path \<in> set paths then paths else paths @ [path]) ls rs) = set ls \<union> set rs"
  by (induction rs arbitrary: ls) auto

lemma covers_union:
  "covers lc policy (union_paths l r) path \<longleftrightarrow> covers lc policy l path \<or> covers lc policy r path"
  by (cases l; cases r) (auto simp: union_paths_def covers_def set_foldl_append_new)

lemma regions_overlap_union:
  "regions_overlap lc (union_paths l r) x policy \<longleftrightarrow>
     regions_overlap lc l x policy \<or> regions_overlap lc r x policy"
  by (cases l; cases r; cases x) (auto simp: union_paths_def regions_overlap_def set_foldl_append_new)

text \<open>Two prefixes overlap exactly when some path lies below both.\<close>

lemma paths_overlap_common:
  "paths_overlap lc l r policy \<longleftrightarrow>
     (\<exists>path. prefix (fold_components lc policy l) (fold_components lc policy path) \<and>
             prefix (fold_components lc policy r) (fold_components lc policy path))"
  unfolding paths_overlap_prefix by (metis prefix_order.refl prefix_same_cases)

text \<open>
  C27. Two regions overlap exactly when some path lies in both; the one exception is on the
  safe side (the whole repository overlaps even a region with no prefix at all). So the
  lease comparison never misses a shared path.
\<close>

theorem regions_overlap_exact:
  "regions_overlap lc l r policy \<longleftrightarrow>
     (\<exists>path. covers lc policy l path \<and> covers lc policy r path) \<or>
     (l = RepoWide \<and> r = Prefixes []) \<or> (l = Prefixes [] \<and> r = RepoWide)"
proof (cases "l = RepoWide \<or> r = RepoWide")
  case True
  have some: "x \<noteq> Prefixes [] \<Longrightarrow> \<exists>path. covers lc policy x path" for x
    by (cases x) (auto simp: covers_def neq_Nil_conv intro: prefix_order.refl)
  have all: "covers lc policy RepoWide path" for path
    by (simp add: covers_def)
  from True show ?thesis
    using some [of l] some [of r] all by auto
next
  case False
  then obtain ls rs where "l = Prefixes ls" "r = Prefixes rs"
    by (cases l; cases r) auto
  then show ?thesis
    by (auto simp: regions_overlap_def covers_def paths_overlap_common)
qed

subsection \<open>The predicted region covers what the hint names\<close>

lemma split_on_snoc_sep: "split_on c (s @ [c]) = split_on c s @ [[]]"
  by (induction s) (auto split: list.splits)

lemma components_trailing_slash: "components (s @ replicate k (CHR ''/'')) = components s"
proof (induction k)
  case (Suc k)
  have "s @ replicate (Suc k) (CHR ''/'') = (s @ replicate k (CHR ''/'')) @ [CHR ''/'']"
    by (simp add: replicate_append_same)
  then have "components (s @ replicate (Suc k) (CHR ''/'')) =
      components ((s @ replicate k (CHR ''/'')) @ [CHR ''/''])"
    by (rule arg_cong)
  also have "\<dots> = components (s @ replicate k (CHR ''/''))"
    unfolding components_def split_on_snoc_sep by simp
  finally show ?case using Suc.IH by simp
qed simp

lemma components_trim: "components (trim_end_matches (CHR ''/'') s) = components s"
  by (metis components_trailing_slash trim_end_matches_prefix)

lemma literal_components_no_sep:
  "p \<in> set (literal_components hint) \<Longrightarrow> CHR ''/'' \<notin> set p"
  unfolding literal_components_def by (meson set_takeWhileD split_on_no_sep)

lemma hint_prefix_components:
  assumes "hint_prefix hint = Some p"
  shows "components p = filter (\<lambda>part. part \<noteq> []) (literal_components hint)"
proof -
  let ?ls = "literal_components hint"
  from assms have p: "p = trim_end_matches (CHR ''/'') (join_with (CHR ''/'') ?ls)" and "p \<noteq> []"
    by (auto simp: hint_prefix_def Let_def split: if_splits)
  then have "?ls \<noteq> []"
    by (auto simp: trim_end_matches_def)
  have "components p = components (join_with (CHR ''/'') ?ls)"
    unfolding p by (rule components_trim)
  also have "\<dots> = filter (\<lambda>part. part \<noteq> []) ?ls"
    unfolding components_def
    using \<open>?ls \<noteq> []\<close> literal_components_no_sep by (subst split_on_join) auto
  finally show ?thesis .
qed

lemma list_all2_set_fst:
  "list_all2 P xs ys \<Longrightarrow> x \<in> set xs \<Longrightarrow> \<exists>y \<in> set ys. P x y"
  by (induction rule: list_all2_induct) auto

lemma predicted_paths_Some:
  "predicted_paths hints = Some ps \<longleftrightarrow> list_all2 (\<lambda>h p. hint_prefix h = Some p) hints ps"
  by (induction hints arbitrary: ps) (auto simp: list_all2_Cons1 split: option.splits)

text \<open>
  C28. A task's predicted region covers every path its hints can name: a path whose leading
  components are the literal components of one of the hints (those before the first glob
  component) lies in the region a dispatch leases for that task, whatever the policy on
  case.
\<close>

theorem predicted_region_covers_hints:
  assumes "hint \<in> set hints"
    and "components path = filter (\<lambda>part. part \<noteq> []) (literal_components hint) @ rest"
  shows "covers lc policy (region_of_hints hints) path"
proof (cases "predicted_paths hints")
  case None
  then show ?thesis by (simp add: region_of_hints_def covers_def)
next
  case (Some ps)
  then have "list_all2 (\<lambda>h p. hint_prefix h = Some p) hints ps"
    by (simp add: predicted_paths_Some)
  with assms(1) obtain p where p: "p \<in> set ps" "hint_prefix hint = Some p"
    by (meson list_all2_set_fst)
  have "prefix (components p) (components path)"
    using assms(2) hint_prefix_components [OF p(2)] by simp
  then have "prefix (fold_components lc policy p) (fold_components lc policy path)"
    by (auto simp: fold_components_def map_mono_prefix)
  with Some p(1) assms(1) show ?thesis
    by (auto simp: region_of_hints_def covers_def)
qed

theorem predicted_region_covers_hints_witness:
  "''src/*.rs'' \<in> set [''src/*.rs''] \<and>
   components ''src/main.rs'' =
     filter (\<lambda>part. part \<noteq> []) (literal_components ''src/*.rs'') @ [''main.rs''] \<and>
   covers id \<lparr>pp_version = V2, pp_case_fold = True, pp_grammar = Globset\<rparr>
     (region_of_hints [''src/*.rs'']) ''src/main.rs''"
proof -
  have "components ''src/main.rs'' =
      filter (\<lambda>part. part \<noteq> []) (literal_components ''src/*.rs'') @ [''main.rs'']"
    by (simp add: components_def literal_components_def is_metachar_def)
  then show ?thesis
    using predicted_region_covers_hints [of "''src/*.rs''" "[''src/*.rs'']" "''src/main.rs''" "[''main.rs'']"]
    by simp
qed

end
