(* ===== verification/Registry.thy ===== *)
theory Registry
  imports Records Paths
begin

section \<open>The frozen task registry (src/topology/registry.rs)\<close>

text \<open>
  The registry a run freezes at its start: one entry per task of the plan, keyed densely,
  with the ladder, the reviews and the lineage it runs under; repairs are registered later.
  The model has the derivation from the plan and the run-start record with every error it
  can return, the reserved namespace of generated repair ids, and the canonical encoding the
  digest is taken of. SHA-256 is code outside the repository: a parameter, from the bytes to
  the lower-case hexadecimal digest.
\<close>

type_synonym task_key = u32

datatype origin = Original | MergeRepair

fun origin_tag :: "origin \<Rightarrow> string" where
  "origin_tag Original = ''original''"
| "origin_tag MergeRepair = ''merge-repair''"

record lineage =
  ln_root :: task_key
  ln_parent :: task_key
  ln_index :: u32

record frozen_rung =
  fg_tier :: tier
  fg_agent :: string
  fg_model :: string
  fg_pinned :: bool

datatype admission = Runnable | HumanBinding "string list"

fun admission_tag :: "admission \<Rightarrow> string" where
  "admission_tag Runnable = ''runnable''"
| "admission_tag (HumanBinding _) = ''human-binding''"

record frozen_ladder =
  fl_tiers :: "tier list"
  fl_attempts_per :: u32
  fl_rungs :: "frozen_rung list"
  fl_floor :: "tier option"
  fl_ceiling :: "tier option"
  fl_effort :: resolved_effort_policy
  fl_admission :: admission

record frozen_task_spec =
  sp_kind :: task_kind
  sp_title :: string
  sp_body :: string
  sp_acceptance :: "string list"
  sp_path_hints :: "string list"
  sp_suggested_tier :: "tier option"
  sp_min_tier :: "tier option"
  sp_artifacts_in :: "artifact_id list"
  sp_artifacts_out :: "artifact_id list"

record frozen_reviews =
  fv_enabled :: bool
  fv_alternative_available :: bool
  fv_pass_timeout_secs :: u64
  fv_primary :: "pass_binding option"
  fv_alternative :: "pass_binding option"
  fv_second_opinion :: "pass_binding option"

definition fv_bindings :: "frozen_reviews \<Rightarrow> review_bindings option" where
  "fv_bindings r =
     (if fv_enabled r then
        Some \<lparr>rb_primary = fv_primary r, rb_alternative = fv_alternative r,
              rb_second_opinion = fv_second_opinion r\<rparr>
      else None)"

definition fv_obliged_lenses :: "frozen_reviews \<Rightarrow> lens list" where
  "fv_obliged_lenses r = (case fv_bindings r of None \<Rightarrow> [] | Some b \<Rightarrow> obliged_lenses b)"

record task_entry =
  te_key :: task_key
  te_display_id :: task_id
  te_origin :: origin
  te_spec :: frozen_task_spec
  te_deps :: "task_key list"
  te_display_deps :: "task_id list"
  te_ladder :: frozen_ladder
  te_reviews :: frozen_reviews
  te_allowed_agents :: "string list"
  te_lineage :: "lineage option"

definition legacy_task :: "task_entry \<Rightarrow> task" where
  "legacy_task e =
     \<lparr>t_id = te_display_id e, t_kind = sp_kind (te_spec e), t_title = sp_title (te_spec e),
      t_body = sp_body (te_spec e), t_depends_on = te_display_deps e,
      t_acceptance = sp_acceptance (te_spec e), t_path_hints = sp_path_hints (te_spec e),
      t_suggested_tier = sp_suggested_tier (te_spec e), t_min_tier = sp_min_tier (te_spec e),
      t_artifacts_in = sp_artifacts_in (te_spec e), t_artifacts_out = sp_artifacts_out (te_spec e)\<rparr>"

record task_registry =
  rg_entries :: "task_entry list"
  rg_by_display :: "(string, task_key) btree_map"
  rg_originals :: nat

datatype run_record_field =
    FieldEffortPolicy | FieldReviewPlan | FieldReviewsEnabled | FieldAlternativeAvailable
  | FieldPassTimeout | FieldRungBindings

datatype registry_error =
    DuplicateDisplayId string
  | ReservedDisplayId string
  | UnknownDependency string string
  | ChainWithoutTask string
  | DuplicateChain string
  | TaskWithoutChain string
  | EmptyLadder string
  | ZeroAttempts string
  | BindingCount string nat nat
  | BindingTier string tier tier
  | IncompleteRunRecord run_record_field
  | ReviewAlignment nat nat
  | TooManyTasks nat
  | DigestMismatch string string

subsection \<open>Display ids of repairs\<close>

definition repair_prefix :: string where
  "repair_prefix = ''merge-fix-''"

definition repair_index_width :: nat where
  "repair_index_width = 4"

definition repair_display_id :: "u32 \<Rightarrow> task_id \<Rightarrow> string" where
  "repair_display_id lineage_index root =
     repair_prefix @ pad_zero repair_index_width (show_nat (unat lineage_index)) @ ''-'' @ root"

text \<open>\<^verbatim>\<open>str::split_at_checked\<close>: the index must be a character boundary.\<close>

definition is_char_boundary :: "string \<Rightarrow> nat \<Rightarrow> bool" where
  "is_char_boundary s i \<longleftrightarrow>
     i = length s \<or> i < length s \<and> \<not> (128 \<le> (of_char (s ! i) :: nat) \<and> (of_char (s ! i) :: nat) < 192)"

definition split_at_checked :: "string \<Rightarrow> nat \<Rightarrow> (string \<times> string) option" where
  "split_at_checked s i = (if is_char_boundary s i then Some (take i s, drop i s) else None)"

definition is_reserved_display_id :: "string \<Rightarrow> bool" where
  "is_reserved_display_id id' =
     (case split_at_checked id' (length repair_prefix) of
        None \<Rightarrow> False
      | Some (head, rest) \<Rightarrow>
          if to_ascii_lowercase head \<noteq> to_ascii_lowercase repair_prefix then False
          else
            let digits = length (takeWhile is_digit rest) in
            repair_index_width \<le> digits \<and> vec_get rest digits = Some (CHR ''-''))"

subsection \<open>Deriving the originals\<close>

definition index_key :: "nat \<Rightarrow> nat \<Rightarrow> (registry_error, u32) result" where
  "index_key index tasks =
     (if index < 2 ^ 32 then Inr (of_nat index) else Inl (TooManyTasks tasks))"

fun keys_by_display_from ::
  "nat \<Rightarrow> nat \<Rightarrow> task list \<Rightarrow> (string, task_key) btree_map \<Rightarrow>
     (registry_error, (string, task_key) btree_map) result" where
  "keys_by_display_from ntasks index [] out = Inr out"
| "keys_by_display_from ntasks index (t # ts) out =
     (if is_reserved_display_id (t_id t) then Inl (ReservedDisplayId (t_id t))
      else res_bind (index_key index ntasks) (\<lambda>key.
        if bt_get out (t_id t) \<noteq> None then Inl (DuplicateDisplayId (t_id t))
        else keys_by_display_from ntasks (Suc index) ts (bt_insert (t_id t) key out)))"

definition keys_by_display_id :: "plan \<Rightarrow> (registry_error, (string, task_key) btree_map) result" where
  "keys_by_display_id pl = keys_by_display_from (length (p_tasks pl)) 0 (p_tasks pl) []"

fun chains_from ::
  "(string, task_key) btree_map \<Rightarrow> chain_summary list \<Rightarrow> (string, chain_summary) btree_map \<Rightarrow>
     (registry_error, (string, chain_summary) btree_map) result" where
  "chains_from by_display [] out = Inr out"
| "chains_from by_display (chain # chain_list) out =
     (if bt_get by_display (cs_task chain) = None then Inl (ChainWithoutTask (cs_task chain))
      else if bt_get out (cs_task chain) \<noteq> None then Inl (DuplicateChain (cs_task chain))
      else chains_from by_display chain_list (bt_insert (cs_task chain) chain out))"

definition chains_by_task ::
  "chain_summary list \<Rightarrow> (string, task_key) btree_map \<Rightarrow>
     (registry_error, (string, chain_summary) btree_map) result" where
  "chains_by_task chain_list by_display =
     res_bind (chains_from by_display chain_list []) (\<lambda>out.
     res_bind (res_each (\<lambda>task. if bt_get out task = None then Inl (TaskWithoutChain task)
                                 else Inr ()) (bt_keys by_display)) (\<lambda>_.
     Inr out))"

fun frozen_rungs ::
  "task_id \<Rightarrow> (tier \<times> binding_summary) list \<Rightarrow> (registry_error, frozen_rung list) result" where
  "frozen_rungs task [] = Inr []"
| "frozen_rungs task ((tier, binding) # rest) =
     (if bs_tier binding \<noteq> tier then Inl (BindingTier task tier (bs_tier binding))
      else res_bind (frozen_rungs task rest) (\<lambda>rungs.
        Inr (\<lparr>fg_tier = tier, fg_agent = bs_agent binding, fg_model = bs_model binding,
              fg_pinned = bs_pinned binding\<rparr> # rungs)))"

definition tiers_max :: "tier list \<Rightarrow> tier option" where
  "tiers_max tiers = (if tiers = [] then None else Some (Max (set tiers)))"

definition frozen_ladder_of ::
  "task \<Rightarrow> chain_summary \<Rightarrow> resolved_effort_policy \<Rightarrow> (registry_error, frozen_ladder) result" where
  "frozen_ladder_of task chain effort =
     (if cs_tiers chain = [] then Inl (EmptyLadder (t_id task))
      else if cs_attempts_per chain = 0 then Inl (ZeroAttempts (t_id task))
      else res_bind (ok_or (cs_bindings chain) (IncompleteRunRecord FieldRungBindings)) (\<lambda>bindings.
        if length bindings \<noteq> length (cs_tiers chain)
        then Inl (BindingCount (t_id task) (length bindings) (length (cs_tiers chain)))
        else res_bind (frozen_rungs (t_id task) (zip (cs_tiers chain) bindings)) (\<lambda>rungs.
          Inr \<lparr>fl_tiers = cs_tiers chain, fl_attempts_per = cs_attempts_per chain,
               fl_rungs = rungs, fl_floor = t_min_tier task,
               fl_ceiling = tiers_max (cs_tiers chain), fl_effort = effort,
               fl_admission = Runnable\<rparr>)))"

definition frozen_spec :: "task \<Rightarrow> frozen_task_spec" where
  "frozen_spec t =
     \<lparr>sp_kind = t_kind t, sp_title = t_title t, sp_body = t_body t,
      sp_acceptance = t_acceptance t, sp_path_hints = t_path_hints t,
      sp_suggested_tier = t_suggested_tier t, sp_min_tier = t_min_tier t,
      sp_artifacts_in = t_artifacts_in t, sp_artifacts_out = t_artifacts_out t\<rparr>"

text \<open>One turn of the loop over the plan's tasks.\<close>

definition original_entry ::
  "nat \<Rightarrow> (string, task_key) btree_map \<Rightarrow> (string, chain_summary) btree_map \<Rightarrow>
     resolved_effort_policy \<Rightarrow> review_plan \<Rightarrow> bool \<Rightarrow> bool \<Rightarrow> u64 \<Rightarrow> string list \<Rightarrow>
     nat \<times> task \<Rightarrow> (registry_error, task_entry) result" where
  "original_entry ntasks by_display chain_list effort reviews enabled alt secs agents it =
     (case it of (index, task) \<Rightarrow>
        res_bind (index_key index ntasks) (\<lambda>key.
        res_bind (ok_or (bt_get chain_list (t_id task)) (TaskWithoutChain (t_id task))) (\<lambda>chain.
        res_bind (res_map (\<lambda>dep. ok_or (bt_get by_display dep) (UnknownDependency (t_id task) dep))
                    (t_depends_on task)) (\<lambda>deps.
        res_bind (frozen_ladder_of task chain effort) (\<lambda>ladder.
        Inr \<lparr>te_key = key, te_display_id = t_id task, te_origin = Original,
             te_spec = frozen_spec task, te_deps = deps, te_display_deps = t_depends_on task,
             te_ladder = ladder,
             te_reviews = \<lparr>fv_enabled = enabled, fv_alternative_available = alt,
               fv_pass_timeout_secs = secs, fv_primary = rv_primary reviews,
               fv_alternative = rv_alternative reviews,
               fv_second_opinion = Option.bind (vec_get (rv_second_opinion reviews) index) id\<rparr>,
             te_allowed_agents = agents, te_lineage = None\<rparr>)))))"

definition originals_with_agents ::
  "plan \<Rightarrow> run_started \<Rightarrow> string list \<Rightarrow> (registry_error, task_registry) result" where
  "originals_with_agents pl started probed_agents =
     (let ntasks = length (p_tasks pl) in
      res_bind (ok_or (rs_effort_policy started) (IncompleteRunRecord FieldEffortPolicy)) (\<lambda>effort.
      res_bind (ok_or (rs_reviews started) (IncompleteRunRecord FieldReviewPlan)) (\<lambda>reviews.
      res_bind (ok_or (rv_enabled reviews) (IncompleteRunRecord FieldReviewsEnabled)) (\<lambda>enabled.
      res_bind (ok_or (rv_alternative_available reviews)
                  (IncompleteRunRecord FieldAlternativeAvailable)) (\<lambda>alt.
      res_bind (ok_or (rv_pass_timeout_secs reviews) (IncompleteRunRecord FieldPassTimeout)) (\<lambda>secs.
      if enabled \<and> length (rv_second_opinion reviews) \<noteq> ntasks
      then Inl (ReviewAlignment (length (rv_second_opinion reviews)) ntasks)
      else
        res_bind (keys_by_display_id pl) (\<lambda>by_display.
        res_bind (chains_by_task (rs_chains started) by_display) (\<lambda>chain_list.
        res_bind (res_map (original_entry ntasks by_display chain_list effort reviews enabled alt secs
                             probed_agents) (enumerate 0 (p_tasks pl))) (\<lambda>entries.
        Inr \<lparr>rg_entries = entries, rg_by_display = by_display,
             rg_originals = length entries\<rparr>)))))))))"

definition register_entry :: "task_entry \<Rightarrow> task_registry \<Rightarrow> task_registry" where
  "register_entry entry r =
     r\<lparr>rg_by_display := bt_insert (te_display_id entry) (te_key entry) (rg_by_display r),
       rg_entries := rg_entries r @ [entry]\<rparr>"

definition registry_len :: "task_registry \<Rightarrow> nat" where
  "registry_len r = length (rg_entries r)"

definition registry_get :: "task_registry \<Rightarrow> task_key \<Rightarrow> task_entry option" where
  "registry_get r key = vec_get (rg_entries r) (unat key)"

definition key_of :: "task_registry \<Rightarrow> string \<Rightarrow> task_key option" where
  "key_of r display_id = bt_get (rg_by_display r) display_id"

definition legacy_tasks :: "task_registry \<Rightarrow> task list" where
  "legacy_tasks r = map legacy_task (rg_entries r)"

subsection \<open>The canonical encoding\<close>

definition enc_field :: "string \<Rightarrow> string" where
  "enc_field value = show_nat (length value) @ '':'' @ value @ '';''"

definition enc_count :: "nat \<Rightarrow> string" where
  "enc_count n = enc_field (show_nat n)"

definition enc_flag :: "bool \<Rightarrow> string" where
  "enc_flag b = enc_field (if b then ''1'' else ''0'')"

definition enc_key :: "task_key \<Rightarrow> string" where
  "enc_key k = enc_field (show_nat (unat k))"

definition enc_strings :: "string list \<Rightarrow> string" where
  "enc_strings values = enc_count (length values) @ concat (map enc_field values)"

fun enc_optional_tier :: "tier option \<Rightarrow> string" where
  "enc_optional_tier (Some tier) = enc_flag True @ enc_field (tier_name tier)"
| "enc_optional_tier None = enc_flag False"

fun enc_optional_binding :: "pass_binding option \<Rightarrow> string" where
  "enc_optional_binding (Some b) = enc_flag True @ enc_field (pb_agent b) @ enc_field (pb_model b)"
| "enc_optional_binding None = enc_flag False"

fun enc_lineage :: "lineage option \<Rightarrow> string" where
  "enc_lineage (Some l) =
     enc_flag True @ enc_key (ln_root l) @ enc_key (ln_parent l) @
     enc_field (show_nat (unat (ln_index l)))"
| "enc_lineage None = enc_flag False"

definition enc_spec :: "frozen_task_spec \<Rightarrow> string" where
  "enc_spec spec =
     enc_field (task_kind_name (sp_kind spec)) @ enc_field (sp_title spec) @
     enc_field (sp_body spec) @ enc_strings (sp_acceptance spec) @
     enc_strings (sp_path_hints spec) @ enc_optional_tier (sp_suggested_tier spec) @
     enc_optional_tier (sp_min_tier spec) @ enc_strings (sp_artifacts_in spec) @
     enc_strings (sp_artifacts_out spec)"

definition enc_rung :: "frozen_rung \<Rightarrow> string" where
  "enc_rung rung =
     enc_field (tier_name (fg_tier rung)) @ enc_field (fg_agent rung) @
     enc_field (fg_model rung) @ enc_flag (fg_pinned rung)"

definition enc_admission :: "admission \<Rightarrow> string" where
  "enc_admission a = enc_field (admission_tag a) @
     (case a of Runnable \<Rightarrow> [] | HumanBinding options \<Rightarrow> enc_strings options)"

definition enc_ladder :: "frozen_ladder \<Rightarrow> string" where
  "enc_ladder ladder =
     enc_strings (map tier_name (fl_tiers ladder)) @
     enc_field (show_nat (unat (fl_attempts_per ladder))) @
     (enc_count (length (fl_rungs ladder)) @ concat (map enc_rung (fl_rungs ladder))) @
     enc_optional_tier (fl_floor ladder) @ enc_optional_tier (fl_ceiling ladder) @
     enc_field (effort_name (ep_small (fl_effort ladder))) @
     enc_field (effort_name (ep_mid (fl_effort ladder))) @
     enc_field (effort_name (ep_frontier (fl_effort ladder))) @
     enc_field (effort_name (ep_review (fl_effort ladder))) @
     enc_admission (fl_admission ladder)"

definition enc_reviews :: "frozen_reviews \<Rightarrow> string" where
  "enc_reviews r =
     enc_flag (fv_enabled r) @ enc_flag (fv_alternative_available r) @
     enc_field (show_nat (unat (fv_pass_timeout_secs r))) @
     enc_optional_binding (fv_primary r) @ enc_optional_binding (fv_alternative r) @
     enc_optional_binding (fv_second_opinion r)"

definition encode_entry :: "task_entry \<Rightarrow> string" where
  "encode_entry e =
     enc_key (te_key e) @ enc_field (te_display_id e) @ enc_field (origin_tag (te_origin e)) @
     enc_lineage (te_lineage e) @ enc_spec (te_spec e) @
     (enc_count (length (te_deps e)) @ concat (map enc_key (te_deps e))) @
     enc_strings (te_display_deps e) @ enc_ladder (te_ladder e) @ enc_reviews (te_reviews e) @
     enc_strings (te_allowed_agents e)"

definition encode_registry :: "task_registry \<Rightarrow> nat \<Rightarrow> string" where
  "encode_registry r n =
     (let entries = take (min n (length (rg_entries r))) (rg_entries r) in
      enc_field ''upstroke.registry.v1'' @ enc_count (length entries) @
      concat (map encode_entry entries))"

definition canonical_bytes :: "task_registry \<Rightarrow> string" where
  "canonical_bytes r = encode_registry r (length (rg_entries r))"

definition registry_digest :: "(string \<Rightarrow> string) \<Rightarrow> task_registry \<Rightarrow> string" where
  "registry_digest sha256_hex r =
     ''sha256:'' @ sha256_hex (encode_registry r (min (rg_originals r) (length (rg_entries r))))"

definition verify_digest ::
  "(string \<Rightarrow> string) \<Rightarrow> task_registry \<Rightarrow> string \<Rightarrow> (registry_error, unit) result" where
  "verify_digest sha256_hex r recorded =
     (let actual = registry_digest sha256_hex r in
      if actual = recorded then Inr () else Inl (DigestMismatch recorded actual))"

end
