(* ===== verification/Leases.thy ===== *)
theory Leases
  imports Registry
begin

section \<open>The lease table (src/topology/leases.rs)\<close>

text \<open>
  Who holds which region. Generations and candidates hold leases in an ordered map; a
  repair lineage holds one lease of its own that grows, with an age that orders lineages.
  The contract the fold uses is the locale \<open>lease_store\<close>; its interpretation on the table
  gives the exclusion lemma: regions that do not overlap when they are granted never come to
  overlap by granting and releasing others.
\<close>

type_synonym generation_id = u32

datatype lease_owner =
    OwnerGeneration task_key generation_id
  | OwnerCandidate task_key generation_id
  | OwnerLineage task_key

fun owner_rank :: "lease_owner \<Rightarrow> nat list" where
  "owner_rank (OwnerGeneration k g) = [0, unat k, unat g]"
| "owner_rank (OwnerCandidate k g) = [1, unat k, unat g]"
| "owner_rank (OwnerLineage r) = [2, unat r]"

lemma owner_rank_inj [simp]: "owner_rank a = owner_rank b \<longleftrightarrow> a = b"
  by (cases a; cases b) (auto simp: word_unat_eq_iff)

instantiation lease_owner :: linorder
begin

definition less_eq_lease_owner :: "lease_owner \<Rightarrow> lease_owner \<Rightarrow> bool" where
  "less_eq_lease_owner a b \<longleftrightarrow> owner_rank a \<le> owner_rank b"

definition less_lease_owner :: "lease_owner \<Rightarrow> lease_owner \<Rightarrow> bool" where
  "less_lease_owner a b \<longleftrightarrow> owner_rank a < owner_rank b"

instance
proof
  fix x y z :: lease_owner
  show "x < y \<longleftrightarrow> x \<le> y \<and> \<not> y \<le> x"
    unfolding less_eq_lease_owner_def less_lease_owner_def by (rule less_le_not_le)
  show "x \<le> x" by (simp add: less_eq_lease_owner_def)
  show "x \<le> y \<Longrightarrow> y \<le> z \<Longrightarrow> x \<le> z"
    unfolding less_eq_lease_owner_def by (rule order_trans)
  show "x \<le> y \<Longrightarrow> y \<le> x \<Longrightarrow> x = y"
    unfolding less_eq_lease_owner_def by (metis antisym owner_rank_inj)
  show "x \<le> y \<or> y \<le> x" by (auto simp: less_eq_lease_owner_def)
qed

end

record lineage_lease =
  ll_root :: task_key
  ll_paths :: path_set
  ll_age :: u32

record lease_table =
  lt_held :: "(lease_owner, path_set) btree_map"
  lt_lineages :: "lineage_lease list"
  lt_next_age :: u32

definition lease_table_new :: lease_table where
  "lease_table_new = \<lparr>lt_held = [], lt_lineages = [], lt_next_age = 0\<rparr>"

definition lineage_of :: "lease_table \<Rightarrow> task_key \<Rightarrow> lineage_lease option" where
  "lineage_of t root = find (\<lambda>lease. ll_root lease = root) (lt_lineages t)"

definition grant_lineage :: "task_key \<Rightarrow> path_set \<Rightarrow> lease_table \<Rightarrow> lease_table" where
  "grant_lineage root paths t =
     (case lineage_of t root of
        Some _ \<Rightarrow> t\<lparr>lt_lineages := update_first (\<lambda>lease. ll_root lease = root)
                        (\<lambda>lease. lease\<lparr>ll_paths := paths\<rparr>) (lt_lineages t)\<rparr>
      | None \<Rightarrow> t\<lparr>lt_next_age := sat_add (lt_next_age t) 1,
                   lt_lineages := lt_lineages t @
                     [\<lparr>ll_root = root, ll_paths = paths, ll_age = lt_next_age t\<rparr>]\<rparr>)"

fun grant :: "lease_owner \<Rightarrow> path_set \<Rightarrow> lease_table \<Rightarrow> lease_table" where
  "grant (OwnerLineage root) paths t = grant_lineage root paths t"
| "grant owner paths t = t\<lparr>lt_held := bt_insert owner paths (lt_held t)\<rparr>"

definition widen_lineage :: "task_key \<Rightarrow> path_set \<Rightarrow> lease_table \<Rightarrow> lease_table" where
  "widen_lineage root paths t =
     grant (OwnerLineage root)
       (case lineage_of t root of
          Some existing \<Rightarrow> union_paths (ll_paths existing) paths
        | None \<Rightarrow> paths) t"

fun release :: "lease_owner \<Rightarrow> lease_table \<Rightarrow> lease_table" where
  "release (OwnerLineage root) t =
     t\<lparr>lt_lineages := filter (\<lambda>lease. ll_root lease \<noteq> root) (lt_lineages t)\<rparr>"
| "release owner t = t\<lparr>lt_held := bt_remove owner (lt_held t)\<rparr>"

fun holds :: "lease_table \<Rightarrow> lease_owner \<Rightarrow> bool" where
  "holds t (OwnerLineage root) = (lineage_of t root \<noteq> None)"
| "holds t owner = (bt_get (lt_held t) owner \<noteq> None)"

fun is_candidate_owner :: "lease_owner \<Rightarrow> bool" where
  "is_candidate_owner (OwnerCandidate _ _) = True"
| "is_candidate_owner _ = False"

definition any_candidate_or_lineage :: "lease_table \<Rightarrow> bool" where
  "any_candidate_or_lineage t \<longleftrightarrow>
     lt_lineages t \<noteq> [] \<or> (\<exists>owner \<in> set (bt_keys (lt_held t)). is_candidate_owner owner)"

definition overlaps_another ::
  "case_map \<Rightarrow> lease_table \<Rightarrow> lease_owner \<Rightarrow> path_set \<Rightarrow> path_policy \<Rightarrow> bool" where
  "overlaps_another lc t owner paths policy \<longleftrightarrow>
     (\<exists>(held, region) \<in> set (lt_held t). held \<noteq> owner \<and> regions_overlap lc region paths policy) \<or>
     (\<exists>lease \<in> set (lt_lineages t). owner \<noteq> OwnerLineage (ll_root lease) \<and>
        regions_overlap lc (ll_paths lease) paths policy)"

definition overlapping_lineages ::
  "case_map \<Rightarrow> lease_table \<Rightarrow> path_set \<Rightarrow> path_policy \<Rightarrow> lineage_lease list" where
  "overlapping_lineages lc t paths policy =
     filter (\<lambda>lease. regions_overlap lc (ll_paths lease) paths policy) (lt_lineages t)"

datatype lease_disposition = PredictedReleased | PredictedRetained | LineageHeld

datatype generation_lease = OwnLease | InheritedLineage task_key

fun expected_disposition :: "generation_lease \<Rightarrow> bool \<Rightarrow> lease_disposition" where
  "expected_disposition (InheritedLineage _) survives = LineageHeld"
| "expected_disposition OwnLease survives =
     (if survives then PredictedRetained else PredictedReleased)"

subsection \<open>Well-formed tables\<close>

definition lt_wf :: "lease_table \<Rightarrow> bool" where
  "lt_wf t \<longleftrightarrow> bt_wf (lt_held t) \<and> distinct (map ll_root (lt_lineages t)) \<and>
     (\<forall>root. OwnerLineage root \<notin> fst ` set (lt_held t))"

fun region_held :: "lease_table \<Rightarrow> lease_owner \<Rightarrow> path_set option" where
  "region_held t (OwnerLineage root) = map_option ll_paths (lineage_of t root)"
| "region_held t owner = bt_get (lt_held t) owner"

lemma holds_region: "holds t owner \<longleftrightarrow> region_held t owner \<noteq> None"
  by (cases owner) auto

lemma lt_wf_new [simp]: "lt_wf lease_table_new"
  by (simp add: lt_wf_def lease_table_new_def)

lemma lineage_of_None: "lineage_of t root = None \<longleftrightarrow> root \<notin> ll_root ` set (lt_lineages t)"
  by (auto simp: lineage_of_def find_None_iff)

lemma lt_wf_grant_fresh:
  "lt_wf t \<Longrightarrow> lineage_of t root = None \<Longrightarrow> lt_wf (grant_lineage root paths t)"
  using lineage_of_None [of t root] by (simp add: lt_wf_def grant_lineage_def)

lemma lt_wf_grant: "lt_wf t \<Longrightarrow> lt_wf (grant owner paths t)"
proof (cases owner)
  case (OwnerLineage root)
  assume wf: "lt_wf t"
  show ?thesis
  proof (cases "lineage_of t root")
    case None
    with wf OwnerLineage show ?thesis
      by (simp add: lt_wf_grant_fresh)
  next
    case (Some l)
    with wf OwnerLineage show ?thesis
      by (simp add: lt_wf_def grant_lineage_def map_update_first)
  qed
next
  case (OwnerGeneration k g)
  assume "lt_wf t"
  with OwnerGeneration show ?thesis
    by (simp add: lt_wf_def bt_wf_insert fst_set_bt_insert)
next
  case (OwnerCandidate k g)
  assume "lt_wf t"
  with OwnerCandidate show ?thesis
    by (simp add: lt_wf_def bt_wf_insert fst_set_bt_insert)
qed

lemma lt_wf_release: "lt_wf t \<Longrightarrow> lt_wf (release owner t)"
  by (cases owner) (auto simp: lt_wf_def bt_wf_filter distinct_map_filter bt_remove_def)

lemma lt_wf_widen: "lt_wf t \<Longrightarrow> lt_wf (widen_lineage root paths t)"
  by (simp add: widen_lineage_def lt_wf_grant del: grant.simps)

lemma find_root_update_first:
  "find (\<lambda>l. ll_root l = r') (update_first (\<lambda>l. ll_root l = r) (\<lambda>l. l\<lparr>ll_paths := p\<rparr>) ls) =
     (if r' = r then map_option (\<lambda>l. l\<lparr>ll_paths := p\<rparr>) (find (\<lambda>l. ll_root l = r') ls)
      else find (\<lambda>l. ll_root l = r') ls)"
  by (induction ls) auto

lemma find_filter_root:
  "find (\<lambda>l. ll_root l = r') (filter (\<lambda>l. ll_root l \<noteq> r) ls) =
     (if r' = r then None else find (\<lambda>l. ll_root l = r') ls)"
  by (induction ls) auto

lemma find_append: "find p (xs @ ys) = (case find p xs of None \<Rightarrow> find p ys | Some x \<Rightarrow> Some x)"
  by (induction xs) auto

lemma lineage_of_grant:
  "lineage_of (grant_lineage root paths t) r =
     (if r = root then Some (case lineage_of t root of
          Some l \<Rightarrow> l\<lparr>ll_paths := paths\<rparr>
        | None \<Rightarrow> \<lparr>ll_root = root, ll_paths = paths, ll_age = lt_next_age t\<rparr>)
      else lineage_of t r)"
  by (auto simp: lineage_of_def grant_lineage_def find_root_update_first find_append
      split: option.splits)

lemma lineage_of_release:
  "lineage_of (release (OwnerLineage root) t) r = (if r = root then None else lineage_of t r)"
  by (simp add: lineage_of_def find_filter_root)

lemma lt_held_grant_lineage [simp]: "lt_held (grant_lineage root paths t) = lt_held t"
  by (simp add: grant_lineage_def split: option.splits)

lemma region_held_grant:
  "lt_wf t \<Longrightarrow> region_held (grant owner paths t) o' = (if o' = owner then Some paths else region_held t o')"
  by (cases owner; cases o')
    (auto simp: lineage_of_grant bt_get_insert lt_wf_def split: option.splits,
      simp_all add: lineage_of_def)

lemma region_held_release:
  "lt_wf t \<Longrightarrow> region_held (release owner t) o' = (if o' = owner then None else region_held t o')"
  by (cases owner; cases o')
    (auto simp: find_filter_root bt_get_remove lt_wf_def lineage_of_def)

lemma region_held_lineages:
  "lt_wf t \<Longrightarrow> region_held t (OwnerLineage root) = Some r \<longleftrightarrow>
     (\<exists>l \<in> set (lt_lineages t). ll_root l = root \<and> ll_paths l = r)"
proof -
  assume wf: "lt_wf t"
  have "l \<in> set ls \<Longrightarrow> ll_root l = root \<Longrightarrow> distinct (map ll_root ls) \<Longrightarrow>
      find (\<lambda>l. ll_root l = root) ls = Some l" for l and ls :: "lineage_lease list"
    by (induction ls) (auto simp: image_iff)
  with wf show ?thesis
    by (auto simp: lineage_of_def lt_wf_def dest: find_Some_set)
qed

lemma region_held_map:
  "lt_wf t \<Longrightarrow> (\<And>root. owner \<noteq> OwnerLineage root) \<Longrightarrow>
     region_held t owner = Some r \<longleftrightarrow> (owner, r) \<in> set (lt_held t)"
  by (cases owner) (auto simp: lt_wf_def bt_get_set)

lemma overlaps_another_region:
  "lt_wf t \<Longrightarrow> overlaps_another lc t owner paths policy \<longleftrightarrow>
     (\<exists>o' r. o' \<noteq> owner \<and> region_held t o' = Some r \<and> regions_overlap lc r paths policy)"
  (is "?wf \<Longrightarrow> ?L = ?R")
proof
  assume wf: ?wf and ?L
  then show ?R
    unfolding overlaps_another_def
  proof (elim disjE bexE)
    fix x assume "x \<in> set (lt_held t)"
      "case x of (held, region) \<Rightarrow> held \<noteq> owner \<and> regions_overlap lc region paths policy"
    moreover obtain h r where x: "x = (h, r)" by (cases x)
    ultimately have h: "(h, r) \<in> set (lt_held t)" "h \<noteq> owner" "regions_overlap lc r paths policy"
      by auto
    then have "region_held t h = Some r"
      using region_held_map [OF wf, of h r] wf by (force simp: lt_wf_def)
    with h show ?R by blast
  next
    fix l assume "l \<in> set (lt_lineages t)"
      "owner \<noteq> OwnerLineage (ll_root l) \<and> regions_overlap lc (ll_paths l) paths policy"
    moreover have "region_held t (OwnerLineage (ll_root l)) = Some (ll_paths l)"
      using calculation(1) region_held_lineages [OF wf, of "ll_root l" "ll_paths l"] by blast
    ultimately show ?R by metis
  qed
next
  assume wf: ?wf and ?R
  then obtain o' r where o': "o' \<noteq> owner" "region_held t o' = Some r" "regions_overlap lc r paths policy"
    by blast
  then show ?L
  proof (cases "\<exists>root. o' = OwnerLineage root")
    case True
    with o' wf show ?thesis
      by (fastforce simp: overlaps_another_def region_held_lineages simp del: region_held.simps)
  next
    case False
    then have "(o', r) \<in> set (lt_held t)"
      using o' region_held_map [OF wf, of o' r] by blast
    with o' show ?thesis
      by (auto simp: overlaps_another_def)
  qed
qed

subsection \<open>The contract of a lease store\<close>

locale lease_store =
  fixes grant_l :: "'o \<Rightarrow> 'r \<Rightarrow> 't \<Rightarrow> 't"
    and release_l :: "'o \<Rightarrow> 't \<Rightarrow> 't"
    and region_l :: "'t \<Rightarrow> 'o \<Rightarrow> 'r option"
    and wf_l :: "'t \<Rightarrow> bool"
    and conflict :: "'r \<Rightarrow> 'r \<Rightarrow> bool"
  assumes wf_grant: "wf_l t \<Longrightarrow> wf_l (grant_l owner r t)"
    and wf_release: "wf_l t \<Longrightarrow> wf_l (release_l owner t)"
    and region_grant: "wf_l t \<Longrightarrow>
      region_l (grant_l owner r t) o' = (if o' = owner then Some r else region_l t o')"
    and region_release: "wf_l t \<Longrightarrow>
      region_l (release_l owner t) o' = (if o' = owner then None else region_l t o')"
    and conflict_sym: "conflict r r' \<Longrightarrow> conflict r' r"
begin

definition exclusive :: "'t \<Rightarrow> bool" where
  "exclusive t \<longleftrightarrow> (\<forall>o1 o2 r1 r2. o1 \<noteq> o2 \<longrightarrow> region_l t o1 = Some r1 \<longrightarrow> region_l t o2 = Some r2 \<longrightarrow>
     \<not> conflict r1 r2)"

lemma exclusive_grant:
  assumes "wf_l t" "exclusive t"
    and "\<And>o' r'. o' \<noteq> owner \<Longrightarrow> region_l t o' = Some r' \<Longrightarrow> \<not> conflict r' r"
  shows "exclusive (grant_l owner r t)"
  unfolding exclusive_def
proof (intro allI impI)
  fix o1 o2 r1 r2
  assume ne: "o1 \<noteq> o2" and h1: "region_l (grant_l owner r t) o1 = Some r1"
    and h2: "region_l (grant_l owner r t) o2 = Some r2"
  show "\<not> conflict r1 r2"
  proof (cases "o1 = owner \<or> o2 = owner")
    case True
    with ne h1 h2 assms(1,3) show ?thesis
      using conflict_sym by (fastforce simp: region_grant)
  next
    case False
    with ne h1 h2 assms(1,2) show ?thesis
      by (auto simp: region_grant exclusive_def)
  qed
qed

lemma exclusive_release: "wf_l t \<Longrightarrow> exclusive t \<Longrightarrow> exclusive (release_l owner t)"
  unfolding exclusive_def by (auto simp: region_release split: if_splits)

end

interpretation leases: lease_store grant release region_held lt_wf
    "\<lambda>r r'. regions_overlap lc r r' policy" for lc policy
  by unfold_locales
    (simp_all add: lt_wf_grant lt_wf_release region_held_grant region_held_release
      regions_overlap_sym [of lc] del: grant.simps release.simps region_held.simps)

end
