(* ===== verification/Registry_Facts.thy ===== *)
theory Registry_Facts
  imports Registry
begin

section \<open>Facts about the registry\<close>

text \<open>
  The canonical encoding is a prefix code: the locale \<open>prefix_code\<close> states that property
  and derives the code of a counted sequence from the code of its elements; it is
  interpreted on every encoder of the registry, up to a whole entry, so that two registries
  with the same bytes have the same entries. Then the namespace of repair ids, and what a
  successful derivation of the originals gives.
\<close>

subsection \<open>Fields\<close>

lemma is_digit_colon [simp]: "\<not> is_digit (CHR '':'')"
  by (simp add: is_digit_def)

lemma is_digit_dash [simp]: "\<not> is_digit (CHR ''-'')"
  by (simp add: is_digit_def)

lemma takeWhile_digits_then:
  "(\<And>c. c \<in> set ds \<Longrightarrow> is_digit c) \<Longrightarrow> \<not> is_digit c \<Longrightarrow> takeWhile is_digit (ds @ c # s) = ds"
  by (induction ds) auto

lemma enc_field_unique: "enc_field v @ s = enc_field w @ t \<Longrightarrow> v = w \<and> s = t"
proof -
  assume eq: "enc_field v @ s = enc_field w @ t"
  have "takeWhile is_digit (enc_field x @ r) = show_nat (length x)" for x r
    using takeWhile_digits_then [of "show_nat (length x)" "CHR '':''" "x @ '';'' @ r"]
      show_nat_digits by (simp add: enc_field_def)
  with eq have len: "length v = length w"
    by (metis show_nat_inj)
  with eq have "v @ '';'' @ s = w @ '';'' @ t"
    by (simp add: enc_field_def)
  with len show ?thesis by simp
qed

subsection \<open>Prefix codes\<close>

locale prefix_code =
  fixes enc :: "'a \<Rightarrow> string"
  assumes unique: "enc x @ s = enc y @ t \<Longrightarrow> x = y \<and> s = t"
begin

lemma unique_iff: "enc x @ s = enc y @ t \<longleftrightarrow> x = y \<and> s = t"
  using unique by blast

lemma concat_unique:
  "length xs = length ys \<Longrightarrow> concat (map enc xs) @ s = concat (map enc ys) @ t \<Longrightarrow> xs = ys \<and> s = t"
proof (induction xs ys rule: list_induct2)
  case (Cons x xs y ys)
  then show ?case by (simp add: unique_iff)
qed simp

end

interpretation field: prefix_code enc_field
  by unfold_locales (rule enc_field_unique)

lemma enc_field_ne: "enc_field v @ s = enc_field w @ t \<longleftrightarrow> v = w \<and> s = t"
  by (rule field.unique_iff)

interpretation count: prefix_code enc_count
  by unfold_locales (auto simp: enc_count_def enc_field_ne show_nat_inj)

interpretation flag: prefix_code enc_flag
  by unfold_locales (auto simp: enc_flag_def enc_field_ne split: if_splits)

interpretation tkey: prefix_code enc_key
  by unfold_locales (auto simp: enc_key_def enc_field_ne show_nat_inj word_unat_eq_iff)

text \<open>A counted sequence of a prefix code is a prefix code.\<close>

locale counted_code = prefix_code enc for enc :: "'a \<Rightarrow> string"
begin

lemma counted:
  "enc_count (length xs) @ concat (map enc xs) @ s = enc_count (length ys) @ concat (map enc ys) @ t \<longleftrightarrow>
     xs = ys \<and> s = t"
  by (auto simp: count.unique_iff dest: concat_unique)

end

interpretation fields: counted_code enc_field ..

interpretation tkeys: counted_code enc_key ..

interpretation strings: prefix_code enc_strings
  by unfold_locales (simp add: enc_strings_def fields.counted)

interpretation optional_tier: prefix_code enc_optional_tier
proof
  fix x y s t
  assume "enc_optional_tier x @ s = enc_optional_tier y @ t"
  then show "x = y \<and> s = t"
    by (cases x; cases y) (auto simp: field.unique_iff flag.unique_iff)
qed

interpretation optional_binding: prefix_code enc_optional_binding
proof
  fix x y s t
  assume "enc_optional_binding x @ s = enc_optional_binding y @ t"
  then show "x = y \<and> s = t"
    by (cases x; cases y) (auto simp: field.unique_iff flag.unique_iff)
qed

interpretation lineage_code: prefix_code enc_lineage
proof
  fix x y s t
  assume "enc_lineage x @ s = enc_lineage y @ t"
  then show "x = y \<and> s = t"
    by (cases x; cases y)
      (auto simp: field.unique_iff flag.unique_iff tkey.unique_iff show_nat_inj
        intro!: lineage.equality simp flip: word_unat_eq_iff)
qed

lemmas code_iffs = field.unique_iff flag.unique_iff tkey.unique_iff
  strings.unique_iff optional_tier.unique_iff optional_binding.unique_iff
  lineage_code.unique_iff fields.counted tkeys.counted show_nat_inj

interpretation spec_code: prefix_code enc_spec
  by unfold_locales (auto simp: enc_spec_def code_iffs intro!: frozen_task_spec.equality)

interpretation rung_code: prefix_code enc_rung
  by unfold_locales (auto simp: enc_rung_def code_iffs intro!: frozen_rung.equality)

interpretation rungs_code: counted_code enc_rung ..

interpretation admission_code: prefix_code enc_admission
proof
  fix x y s t
  assume "enc_admission x @ s = enc_admission y @ t"
  then show "x = y \<and> s = t"
    by (cases x; cases y) (auto simp: enc_admission_def code_iffs)
qed

lemma map_tier_name_inj: "map tier_name xs = map tier_name ys \<longleftrightarrow> xs = ys"
  by (auto intro: map_injective simp: inj_on_def)

lemma effort_policy_eqI:
  "ep_small a = ep_small b \<Longrightarrow> ep_mid a = ep_mid b \<Longrightarrow> ep_frontier a = ep_frontier b \<Longrightarrow>
   ep_review a = ep_review b \<Longrightarrow> a = b" for a b :: resolved_effort_policy
  by (rule resolved_effort_policy.equality) simp_all

interpretation ladder_code: prefix_code enc_ladder
  by unfold_locales
    (auto simp: enc_ladder_def code_iffs rungs_code.counted admission_code.unique_iff
      map_tier_name_inj simp flip: word_unat_eq_iff
      intro!: frozen_ladder.equality effort_policy_eqI)

interpretation reviews_code: prefix_code enc_reviews
  by unfold_locales
    (auto simp: enc_reviews_def code_iffs simp flip: word_unat_eq_iff
      intro!: frozen_reviews.equality)

lemma origin_tag_inj [simp]: "origin_tag a = origin_tag b \<longleftrightarrow> a = b"
  by (cases a; cases b) auto

interpretation entry_code: prefix_code encode_entry
  by unfold_locales
    (auto simp: encode_entry_def code_iffs spec_code.unique_iff ladder_code.unique_iff
      reviews_code.unique_iff intro!: task_entry.equality)

interpretation entries_code: counted_code encode_entry ..

text \<open>
  C29. The bytes the registry digest is taken of determine the frozen tasks: two registries
  with the same canonical bytes have the same entries, field for field (keys, display ids,
  origins, lineages, specifications, dependencies, ladders, reviews and agents), so a digest
  can only match a different registry by a collision of the hash.
\<close>

theorem canonical_bytes_determine_entries:
  "canonical_bytes r = canonical_bytes r' \<longleftrightarrow> rg_entries r = rg_entries r'"
proof
  assume "canonical_bytes r = canonical_bytes r'"
  then have "enc_count (length (rg_entries r)) @ concat (map encode_entry (rg_entries r)) @ [] =
      enc_count (length (rg_entries r')) @ concat (map encode_entry (rg_entries r')) @ []"
    by (simp add: canonical_bytes_def encode_registry_def field.unique_iff Let_def)
  then show "rg_entries r = rg_entries r'"
    by (simp only: entries_code.counted)
qed (simp add: canonical_bytes_def encode_registry_def)

subsection \<open>Repair ids\<close>

lemma split_repair_prefix:
  "is_digit c \<Longrightarrow> split_at_checked (repair_prefix @ c # s) (length repair_prefix) = Some (repair_prefix, c # s)"
  by (auto simp: split_at_checked_def is_char_boundary_def is_digit_def)

lemma repair_digits:
  "takeWhile is_digit (pad_zero w (show_nat n) @ CHR ''-'' # s) = pad_zero w (show_nat n)"
  by (rule takeWhile_digits_then) (auto dest!: pad_zero_digits [rotated] show_nat_digits)

lemma pad_zero_Cons: "\<exists>c s. pad_zero w (show_nat n) = c # s \<and> is_digit c"
proof -
  have "pad_zero w (show_nat n) \<noteq> []" by (simp add: pad_zero_def)
  then obtain c s where cs: "pad_zero w (show_nat n) = c # s" by (cases "pad_zero w (show_nat n)") auto
  then have "c \<in> set (pad_zero w (show_nat n))" by simp
  then have "is_digit c" by (rule pad_zero_digits [rotated]) (rule show_nat_digits)
  with cs show ?thesis by blast
qed

lemma repair_display_id_reserved: "is_reserved_display_id (repair_display_id i rt)"
proof -
  let ?d = "pad_zero repair_index_width (show_nat (unat i))"
  obtain c s where cs: "?d = c # s" "is_digit c" using pad_zero_Cons by blast
  then have "split_at_checked (repair_display_id i rt) (length repair_prefix) =
      Some (repair_prefix, ?d @ CHR ''-'' # rt)"
    by (simp add: repair_display_id_def split_repair_prefix)
  then show ?thesis
    by (simp add: is_reserved_display_id_def repair_digits vec_get_def Let_def length_pad_zero
        repair_index_width_def nth_append less_max_iff_disj trans_less_add1)
qed

lemma repair_display_id_inj:
  "repair_display_id i rt = repair_display_id j rt' \<longleftrightarrow> i = j \<and> rt = rt'"
proof
  assume eq: "repair_display_id i rt = repair_display_id j rt'"
  let ?d = "\<lambda>i. pad_zero repair_index_width (show_nat (unat (i :: u32)))"
  from eq have tails: "?d i @ CHR ''-'' # rt = ?d j @ CHR ''-'' # rt'"
    by (simp add: repair_display_id_def)
  then have d: "?d i = ?d j"
    by (metis repair_digits)
  then have "unat i = unat j"
    by (metis digits_val_pad digits_val_show_nat)
  with tails d show "i = j \<and> rt = rt'"
    by (simp add: word_unat_eq_iff)
qed simp

text \<open>
  The ids of generated repairs are apart from every id a plan may use and from one
  another: a repair's display id is in the reserved namespace for every lineage index and
  root, two repairs share an id only if they share both, and a plan that names a task in
  that namespace is refused, with the offending id, before anything is derived from it.
\<close>

theorem repair_ids_are_fresh:
  "is_reserved_display_id (repair_display_id i rt) \<and>
   (repair_display_id i rt = repair_display_id j rt' \<longleftrightarrow> i = j \<and> rt = rt') \<and>
   (p_tasks pl = t # ts \<and> is_reserved_display_id (t_id t) \<longrightarrow>
      keys_by_display_id pl = Inl (ReservedDisplayId (t_id t)))"
  by (simp add: repair_display_id_reserved repair_display_id_inj keys_by_display_id_def)

definition sample_task :: "string \<Rightarrow> string list \<Rightarrow> task" where
  "sample_task id' deps =
     \<lparr>t_id = id', t_kind = Fix, t_title = id', t_body = [], t_depends_on = deps,
      t_acceptance = [], t_path_hints = [], t_suggested_tier = None, t_min_tier = Some Small,
      t_artifacts_in = [], t_artifacts_out = []\<rparr>"

definition sample_plan :: "task list \<Rightarrow> plan" where
  "sample_plan ts = \<lparr>p_source = \<lparr>ps_adapter = ''markdown'', ps_hash = ''h''\<rparr>, p_tasks = ts, p_artifacts = []\<rparr>"

theorem repair_ids_are_fresh_witness:
  "is_reserved_display_id (t_id (sample_task (repair_display_id 0 ''a'') [])) \<and>
   keys_by_display_id (sample_plan [sample_task (repair_display_id 0 ''a'') []]) =
     Inl (ReservedDisplayId (repair_display_id 0 ''a''))"
  using repair_ids_are_fresh
    [of 0 "''a''" 0 "''a''" "sample_plan [sample_task (repair_display_id 0 ''a'') []]"
      "sample_task (repair_display_id 0 ''a'') []" "[]"]
  by (simp add: sample_task_def sample_plan_def)

subsection \<open>The derived originals\<close>

lemma index_key_Inr [result_simps]:
  "index_key i n = Inr k \<longleftrightarrow> i < 2 ^ 32 \<and> k = of_nat i"
  by (auto simp: index_key_def)

lemma keys_by_display_from_spec:
  assumes "keys_by_display_from n i ts out = Inr m" "bt_wf out"
  shows "bt_wf m \<and>
    (\<forall>d k. bt_get m d = Some k \<longleftrightarrow>
       bt_get out d = Some k \<or> (\<exists>j < length ts. t_id (ts ! j) = d \<and> k = of_nat (i + j))) \<and>
    (\<forall>j < length ts. \<not> is_reserved_display_id (t_id (ts ! j)) \<and> i + j < 2 ^ 32 \<and>
       bt_get out (t_id (ts ! j)) = None)"
  using assms
proof (induction n i ts out rule: keys_by_display_from.induct)
  case (2 n i t ts out)
  then have head: "\<not> is_reserved_display_id (t_id t)" "i < 2 ^ 32" "bt_get out (t_id t) = None"
    and rest: "keys_by_display_from n (Suc i) ts (bt_insert (t_id t) (of_nat i) out) = Inr m"
    by (auto simp: result_simps split: if_splits)
  note IH = "2.IH" [OF head(1), of "of_nat i"]
  have get: "bt_get (bt_insert (t_id t) (of_nat i) out) = (bt_get out)(t_id t \<mapsto> of_nat i)"
    using "2.prems"(2) by (rule bt_get_insert)
  have spec: "bt_wf m" "\<And>d k. bt_get m d = Some k \<longleftrightarrow>
       ((bt_get out)(t_id t \<mapsto> of_nat i)) d = Some k \<or>
       (\<exists>j < length ts. t_id (ts ! j) = d \<and> k = of_nat (Suc i + j))"
    "\<And>j. j < length ts \<Longrightarrow> \<not> is_reserved_display_id (t_id (ts ! j)) \<and> Suc i + j < 2 ^ 32 \<and>
       ((bt_get out)(t_id t \<mapsto> of_nat i)) (t_id (ts ! j)) = None"
    using IH rest head "2.prems"(2) unfolding get
    by (auto simp: bt_wf_insert)
  have split: "(\<exists>j < length (t # ts). t_id ((t # ts) ! j) = d \<and> k = of_nat (i + j)) \<longleftrightarrow>
      d = t_id t \<and> k = of_nat i \<or> (\<exists>j < length ts. t_id (ts ! j) = d \<and> k = of_nat (Suc i + j))"
    for d and k :: task_key
    by (auto simp: less_Suc_eq_0_disj)
  show ?case
  proof (intro conjI allI impI)
    fix d k
    show "bt_get m d = Some k \<longleftrightarrow> bt_get out d = Some k \<or>
      (\<exists>j < length (t # ts). t_id ((t # ts) ! j) = d \<and> k = of_nat (i + j))"
      unfolding spec(2) split using head(3) by auto
  next
    fix j assume "j < length (t # ts)"
    then show "\<not> is_reserved_display_id (t_id ((t # ts) ! j))" "i + j < 2 ^ 32"
      "bt_get out (t_id ((t # ts) ! j)) = None"
      using head spec(3) [of "j - 1"] by (cases j; fastforce split: if_splits)+
  qed (rule spec(1))
qed auto

lemma keys_by_display_id_spec:
  assumes "keys_by_display_id pl = Inr m"
  shows "bt_wf m"
    and "bt_get m d = Some k \<longleftrightarrow> (\<exists>j < length (p_tasks pl). t_id (p_tasks pl ! j) = d \<and> k = of_nat j)"
    and "j < length (p_tasks pl) \<Longrightarrow> \<not> is_reserved_display_id (t_id (p_tasks pl ! j))"
  using keys_by_display_from_spec [of "length (p_tasks pl)" 0 "p_tasks pl" "[]" m] assms
  by (auto simp: keys_by_display_id_def bt_get_def)

lemma frozen_rungs_tiers: "frozen_rungs t tbs = Inr rungs \<Longrightarrow> map fg_tier rungs = map fst tbs"
  by (induction t tbs arbitrary: rungs rule: frozen_rungs.induct) (auto simp: result_simps)

definition ladder_ok :: "frozen_ladder \<Rightarrow> bool" where
  "ladder_ok l \<longleftrightarrow> fl_rungs l \<noteq> [] \<and> fl_attempts_per l \<noteq> 0 \<and> map fg_tier (fl_rungs l) = fl_tiers l"

lemma frozen_ladder_of_ok: "frozen_ladder_of t c e = Inr l \<Longrightarrow> ladder_ok l \<and> fl_admission l = Runnable"
  by (fastforce simp: frozen_ladder_of_def ladder_ok_def result_simps dest: frozen_rungs_tiers)

definition originals_ok :: "plan \<Rightarrow> string list \<Rightarrow> task_registry \<Rightarrow> nat \<Rightarrow> task_entry \<Rightarrow> bool" where
  "originals_ok pl agents r i e \<longleftrightarrow>
     unat (te_key e) = i \<and> legacy_task e = p_tasks pl ! i \<and> te_origin e = Original \<and>
     te_lineage e = None \<and> te_allowed_agents e = agents \<and> ladder_ok (te_ladder e) \<and>
     key_of r (te_display_id e) = Some (te_key e) \<and>
     list_all2 (\<lambda>k d. \<exists>e'. registry_get r k = Some e' \<and> te_display_id e' = d) (te_deps e) (te_display_deps e)"

lemma enumerate_nth: "j < length xs \<Longrightarrow> enumerate 0 xs ! j = (j, xs ! j)"
  by (simp add: nth_enumerate_eq)

lemma original_entry_Inr:
  assumes "original_entry n by_display chs ef rv en al se ag (i, t) = Inr e"
  shows "i < 2 ^ 32" "te_key e = of_nat i" "te_display_id e = t_id t" "legacy_task e = t"
    "te_origin e = Original" "te_lineage e = None" "te_allowed_agents e = ag" "ladder_ok (te_ladder e)"
    "te_display_deps e = t_depends_on t"
    "list_all2 (\<lambda>d k. bt_get by_display d = Some k) (t_depends_on t) (te_deps e)"
  using assms
  by (auto simp: original_entry_def result_simps legacy_task_def frozen_spec_def
      dest: frozen_ladder_of_ok)

lemma originals_with_agents_Inr:
  assumes "originals_with_agents pl started agents = Inr r"
  shows "\<exists>m chs ef rv en al se. keys_by_display_id pl = Inr m \<and>
    list_all2 (\<lambda>x e. original_entry (length (p_tasks pl)) m chs ef rv en al se agents x = Inr e)
      (enumerate 0 (p_tasks pl)) (rg_entries r) \<and>
    rg_by_display r = m \<and> rg_originals r = length (rg_entries r)"
proof -
  obtain ef rv en al se m chs es where
    "keys_by_display_id pl = Inr m"
    "list_all2 (\<lambda>x e. original_entry (length (p_tasks pl)) m chs ef rv en al se agents x = Inr e)
      (enumerate 0 (p_tasks pl)) es"
    "r = \<lparr>rg_entries = es, rg_by_display = m, rg_originals = length es\<rparr>"
    using assms
    by (simp only: originals_with_agents_def result_simps Let_def, elim exE conjE)
      (erule that, assumption, simp)
  then show ?thesis by simp (intro exI, assumption)
qed

lemma originals_entries:
  assumes "originals_with_agents pl started agents = Inr r" and "i < length (p_tasks pl)"
  shows "length (rg_entries r) = length (p_tasks pl) \<and> rg_originals r = length (p_tasks pl) \<and>
    originals_ok pl agents r i (rg_entries r ! i)"
proof -
  obtain m chs ef rv en al se where m: "keys_by_display_id pl = Inr m"
    and entries: "list_all2 (\<lambda>x e. original_entry (length (p_tasks pl)) m chs ef rv en al se agents x = Inr e)
      (enumerate 0 (p_tasks pl)) (rg_entries r)"
    and r: "rg_by_display r = m" "rg_originals r = length (rg_entries r)"
    using originals_with_agents_Inr [OF assms(1)] by blast
  have len: "length (rg_entries r) = length (p_tasks pl)"
    using entries by (auto simp: list_all2_lengthD [symmetric])
  have entry: "original_entry (length (p_tasks pl)) m chs ef rv en al se agents (j, p_tasks pl ! j) =
      Inr (rg_entries r ! j)" if "j < length (p_tasks pl)" for j
    using entries that by (auto simp: list_all2_conv_all_nth enumerate_nth)
  note facts = original_entry_Inr [OF entry]
  have key: "unat (te_key (rg_entries r ! j)) = j" if "j < length (p_tasks pl)" for j
    using facts(1,2) [OF that] by (simp add: unat_of_nat)
  have named: "\<exists>e'. registry_get r k = Some e' \<and> te_display_id e' = d" if got: "bt_get m d = Some k" for d k
  proof -
    obtain j where j: "j < length (p_tasks pl)" "t_id (p_tasks pl ! j) = d" "k = of_nat j"
      using got keys_by_display_id_spec(2) [OF m, of d k] by blast
    moreover have "unat k = j" using facts(2) [OF j(1)] key [OF j(1)] j(3) by simp
    ultimately show ?thesis
      using facts(3) [OF j(1)] len by (auto simp: registry_get_def vec_get_def)
  qed
  have "key_of r (te_display_id (rg_entries r ! i)) = Some (te_key (rg_entries r ! i))"
    using keys_by_display_id_spec(2) [OF m, of "t_id (p_tasks pl ! i)" "of_nat i"] assms(2)
      facts(2,3) [OF assms(2)] r(1) by (auto simp: key_of_def)
  moreover have "list_all2 (\<lambda>k d. \<exists>e'. registry_get r k = Some e' \<and> te_display_id e' = d)
      (te_deps (rg_entries r ! i)) (te_display_deps (rg_entries r ! i))"
    using facts(9,10) [OF assms(2)] named by (auto simp: list_all2_conv_all_nth)
  ultimately show ?thesis
    using len r(2) facts [OF assms(2)] key [OF assms(2)] by (simp add: originals_ok_def)
qed

text \<open>
  C30. A registry derived from a plan and a run-start record has one entry per task, in the
  plan's order: entry \<open>i\<close> has key \<open>i\<close>, gives back task \<open>i\<close> of the
  plan when read as a legacy task, is found under its display id, is an original with no
  lineage and the probed agents, has a ladder with at least one rung and one attempt whose
  rungs carry the recorded tiers, and each of its dependency keys names the entry with the
  dependency's display id.
\<close>

theorem originals_derived:
  assumes "originals_with_agents pl started agents = Inr r" and "i < length (p_tasks pl)"
  shows "length (rg_entries r) = length (p_tasks pl) \<and> rg_originals r = length (p_tasks pl) \<and>
    originals_ok pl agents r i (rg_entries r ! i)"
  using assms by (rule originals_entries)

definition sample_chain :: "string \<Rightarrow> chain_summary" where
  "sample_chain id' =
     \<lparr>cs_task = id', cs_tiers = [Small, Mid], cs_attempts_per = 2,
      cs_bindings = Some
        [\<lparr>bs_tier = Small, bs_agent = ''claude-code'', bs_model = ''haiku'', bs_pinned = False\<rparr>,
         \<lparr>bs_tier = Mid, bs_agent = ''codex'', bs_model = ''sol'', bs_pinned = True\<rparr>]\<rparr>"

definition sample_started :: "string list \<Rightarrow> run_started" where
  "sample_started ids =
     \<lparr>rs_schema = 4, rs_upstroke_version = ''v'', rs_run_id = ''r'', rs_branch = ''b'',
      rs_base_sha = ''s'', rs_plan_path = ''p'', rs_config_path = None, rs_plan_hash = ''h'',
      rs_normalized_plan_digest = None, rs_private_dir = ''d'', rs_gates = [],
      rs_gates_from_config = False, rs_interaction_mode = ''m'',
      rs_chains = map sample_chain ids,
      rs_effort_policy = Some \<lparr>ep_small = Low, ep_mid = Medium, ep_frontier = High, ep_review = High\<rparr>,
      rs_gate_cmds = None,
      rs_reviews = Some \<lparr>rv_enabled = Some False, rv_alternative_available = Some False,
        rv_pass_timeout_secs = Some 900, rv_primary = None, rv_alternative = None,
        rv_second_opinion = []\<rparr>\<rparr>"

theorem originals_derived_witness:
  "\<exists>r. originals_with_agents (sample_plan [sample_task ''b'' [''a''], sample_task ''a'' []])
         (sample_started [''a'', ''b'']) [''codex''] = Inr r \<and>
       originals_ok (sample_plan [sample_task ''b'' [''a''], sample_task ''a'' []]) [''codex''] r 0
         (rg_entries r ! 0)"
proof -
  let ?plan = "sample_plan [sample_task ''b'' [''a''], sample_task ''a'' []]"
  have "case originals_with_agents ?plan (sample_started [''a'', ''b'']) [''codex''] of
      Inl _ \<Rightarrow> False | Inr _ \<Rightarrow> True"
    by (simp add: sample_plan_def sample_task_def sample_started_def sample_chain_def
        originals_with_agents_def keys_by_display_id_def chains_by_task_def index_key_def
        is_reserved_display_id_def split_at_checked_def is_char_boundary_def repair_prefix_def
        bt_get_def bt_keys_def original_entry_def frozen_ladder_of_def enumerate_eq_zip
        less_char_def Let_def)
  then obtain r where r: "originals_with_agents ?plan (sample_started [''a'', ''b'']) [''codex''] = Inr r"
    by (cases "originals_with_agents ?plan (sample_started [''a'', ''b'']) [''codex'']") auto
  moreover have "0 < length (p_tasks ?plan)" by (simp add: sample_plan_def)
  ultimately show ?thesis using originals_derived by blast
qed

end
