(* ===== verification/Events.thy ===== *)
theory Events
  imports Leases Records
begin

section \<open>The topology event vocabulary (src/topology/events.rs)\<close>

text \<open>
  The schema-4 log: every record a topology run writes, with the source's constructors and
  fields, and the checks a record can be put to alone (the completeness of a runner record,
  the self-consistency of an answer, of an unavailable verification, of a prepared merge).
  The serde attributes are not modelled; a record here is a record that decoded.
\<close>

type_synonym attempt_number = u32
type_synonym sequence_id = u32
type_synonym epoch = u32
type_synonym incarnation_id = string
type_synonym session_id = string
type_synonym commit_sha = string
type_synonym git_ref = string

definition topology_schema :: u32 where
  "topology_schema = 4"

record candidate_ref =
  cr_key :: task_key
  cr_generation :: generation_id
  cr_commit_sha :: commit_sha
  cr_candidate_ref :: git_ref

subsection \<open>Runners\<close>

datatype runner_kind = Host | Container

datatype runner_contract = HostV1 | ContainerV1

fun contract_kind :: "runner_contract \<Rightarrow> runner_kind" where
  "contract_kind HostV1 = Host"
| "contract_kind ContainerV1 = Container"

record image_identity =
  im_reference :: string
  im_id :: string
  im_digest :: "string option"

datatype mount_source_kind = Directory | File

datatype mount_source_identity =
    Unix mount_source_kind u64 u64
  | Windows mount_source_kind u64 string

record recorded_mount =
  mt_source :: string
  mt_target :: string
  mt_read_only :: bool
  mt_source_identity :: mount_source_identity

record runner_policy =
  ru_kind :: runner_kind
  ru_policy :: runner_contract
  ru_image :: "image_identity option"
  ru_credential_volumes :: "(string, string) btree_map option"
  ru_mounts :: "recorded_mount list"

datatype runner_field =
    RfKind | RfPolicy | RfImagePresence | RfImageReference | RfImageId | RfImageDigest
  | RfCredentialVolumes | RfMounts

datatype runner_record_defect =
    ContractDoesNotMatchKind | ContainerWithoutImage | ImageNotIdentified
  | ContainerWithoutCredentialVolumes | HostWithContainerFields | MountRecordMalformed

definition starts_with_slash :: "string \<Rightarrow> bool" where
  "starts_with_slash s \<longleftrightarrow> take 1 s = ''/''"

definition is_ascii_alphabetic :: "char \<Rightarrow> bool" where
  "is_ascii_alphabetic c \<longleftrightarrow>
     (65 \<le> (of_char c :: nat) \<and> (of_char c :: nat) \<le> 90) \<or>
     (97 \<le> (of_char c :: nat) \<and> (of_char c :: nat) \<le> 122)"

definition is_lower_hex :: "char \<Rightarrow> bool" where
  "is_lower_hex c \<longleftrightarrow> is_digit c \<or> (97 \<le> (of_char c :: nat) \<and> (of_char c :: nat) \<le> 102)"

definition recorded_mount_is_well_formed :: "recorded_mount \<Rightarrow> bool" where
  "recorded_mount_is_well_formed mount \<longleftrightarrow>
     starts_with_slash (mt_target mount) \<and>
     (case mt_source_identity mount of
        Unix _ _ _ \<Rightarrow> starts_with_slash (mt_source mount)
      | Windows _ _ file_id \<Rightarrow>
          (case mt_source mount of
             letter # c # b # _ \<Rightarrow> is_ascii_alphabetic letter \<and> c = CHR '':'' \<and> b = CHR 0x5C
           | _ \<Rightarrow> False) \<and>
          CHR ''/'' \<notin> set (mt_source mount) \<and> length file_id = 32 \<and> list_all is_lower_hex file_id)"

definition completeness :: "runner_policy \<Rightarrow> (runner_record_defect, unit) result" where
  "completeness r =
     (if contract_kind (ru_policy r) \<noteq> ru_kind r then Inl ContractDoesNotMatchKind
      else (case ru_kind r of
        Host \<Rightarrow>
          if ru_image r \<noteq> None \<or> ru_credential_volumes r \<noteq> None \<or> ru_mounts r \<noteq> []
          then Inl HostWithContainerFields else Inr ()
      | Container \<Rightarrow>
          res_bind (ok_or (ru_image r) ContainerWithoutImage) (\<lambda>image.
          if im_reference image = [] \<or> im_id image = [] then Inl ImageNotIdentified
          else if ru_credential_volumes r = None then Inl ContainerWithoutCredentialVolumes
          else if \<not> successively (\<lambda>first second. mt_target first < mt_target second) (ru_mounts r) \<or>
                  \<not> list_all recorded_mount_is_well_formed (ru_mounts r)
          then Inl MountRecordMalformed
          else Inr ())))"

definition runner_difference :: "runner_policy \<Rightarrow> runner_policy \<Rightarrow> runner_field option" where
  "runner_difference self other =
     (if ru_kind self \<noteq> ru_kind other then Some RfKind
      else if ru_policy self \<noteq> ru_policy other then Some RfPolicy
      else (case (case (ru_image self, ru_image other) of
                    (Some mine, Some theirs) \<Rightarrow>
                      if im_reference mine \<noteq> im_reference theirs then Some RfImageReference
                      else if im_id mine \<noteq> im_id theirs then Some RfImageId
                      else if im_digest mine \<noteq> im_digest theirs then Some RfImageDigest
                      else None
                  | (None, None) \<Rightarrow> None
                  | _ \<Rightarrow> Some RfImagePresence) of
              Some field \<Rightarrow> Some field
            | None \<Rightarrow>
                if ru_credential_volumes self \<noteq> ru_credential_volumes other
                then Some RfCredentialVolumes
                else if ru_mounts self \<noteq> ru_mounts other then Some RfMounts
                else None))"

subsection \<open>Run records\<close>

record topology_limits =
  tl_max_parallel :: u32
  tl_max_defers :: u32
  tl_max_merge_repairs :: u32

record run_started4 =
  s4_schema :: u32
  s4_upstroke_version :: string
  s4_run_id :: string
  s4_incarnation :: incarnation_id
  s4_runner :: runner_policy
  s4_probed_agents :: "string list"
  s4_shell :: shell_kind
  s4_branch :: string
  s4_integration_ref :: git_ref
  s4_base_sha :: commit_sha
  s4_execution_root :: string
  s4_private_dir :: string
  s4_plan_path :: string
  s4_config_path :: "string option"
  s4_plan_hash :: string
  s4_normalized_plan_digest :: string
  s4_registry_digest :: string
  s4_path_policy :: path_policy
  s4_limits :: topology_limits
  s4_gates :: "string list"
  s4_gates_from_config :: bool
  s4_gate_cmds :: "gate_summary list"
  s4_interaction_mode :: string
  s4_chains :: "chain_summary list"
  s4_effort_policy :: resolved_effort_policy
  s4_reviews :: review_plan

definition registry_record :: "run_started4 \<Rightarrow> run_started" where
  "registry_record s =
     \<lparr>rs_schema = s4_schema s, rs_upstroke_version = s4_upstroke_version s,
      rs_run_id = s4_run_id s, rs_branch = s4_branch s, rs_base_sha = s4_base_sha s,
      rs_plan_path = s4_plan_path s, rs_config_path = s4_config_path s,
      rs_plan_hash = s4_plan_hash s,
      rs_normalized_plan_digest = Some (s4_normalized_plan_digest s),
      rs_private_dir = s4_private_dir s, rs_gates = s4_gates s,
      rs_gates_from_config = s4_gates_from_config s,
      rs_interaction_mode = s4_interaction_mode s, rs_chains = s4_chains s,
      rs_effort_policy = Some (s4_effort_policy s), rs_gate_cmds = Some (s4_gate_cmds s),
      rs_reviews = Some (s4_reviews s)\<rparr>"

definition is_topology_schema :: "run_started4 \<Rightarrow> bool" where
  "is_topology_schema s \<longleftrightarrow> s4_schema s = topology_schema"

record run_resumed4 =
  r4_incarnation :: incarnation_id
  r4_runner :: runner_policy
  r4_probed_agents :: "string list"
  r4_upstroke_version :: string

record run_finished4 =
  f4_outcome :: run_outcome
  f4_halted_at :: "task_key option"
  f4_merged :: u32
  f4_parked :: u32

datatype derived_outcome = NotEnding | Ending run_outcome | OutcomeFoldError

record budget_stop =
  bst_epoch :: epoch
  bst_budget :: budget_kind

record budget_exceeded4 =
  b4_epoch :: epoch
  b4_budget :: budget_kind
  b4_limit_usd :: f64
  b4_spent_usd :: f64
  b4_key :: "task_key option"

definition budget_exceeded_stop :: "budget_exceeded4 \<Rightarrow> budget_stop" where
  "budget_exceeded_stop b = \<lparr>bst_epoch = b4_epoch b, bst_budget = b4_budget b\<rparr>"

subsection \<open>Questions and spawns\<close>

record frozen_question =
  fq_id :: question_id
  fq_key :: task_key
  fq_kind :: question_kind
  fq_context :: string
  fq_options :: "string list"

definition is_complete :: "frozen_question \<Rightarrow> bool" where
  "is_complete q \<longleftrightarrow> \<not> is_blank (fq_id q) \<and> \<not> is_blank (fq_context q) \<and> fq_options q \<noteq> []"

record question_raised4 =
  qr_question :: frozen_question

record binding_override =
  bo_key :: task_key
  bo_question :: question_id
  bo_option_index :: u32
  bo_agent :: string
  bo_model :: string
  bo_effort :: effort

datatype answer4 = Answered u32 "binding_override option" | Declined bool

record question_answered4 =
  qa_key :: task_key
  qa_question :: question_id
  qa_answer :: answer4
  qa_via :: string
  qa_text :: "string option"

datatype answer_defect =
    OverrideNamesAnotherQuestion | OverrideNamesAnotherTask | OverrideNamesAnotherOption
  | DeclineWithOverride | DeclineWithText

fun is_declined :: "answer4 \<Rightarrow> bool" where
  "is_declined (Declined _) = True"
| "is_declined (Answered _ _) = False"

definition answer_self_consistency :: "question_answered4 \<Rightarrow> (answer_defect, unit) result" where
  "answer_self_consistency a =
     (if is_declined (qa_answer a) \<and> qa_text a \<noteq> None then Inl DeclineWithText
      else (case qa_answer a of
        Answered option_index (Some binding) \<Rightarrow>
          if bo_question binding \<noteq> qa_question a then Inl OverrideNamesAnotherQuestion
          else if bo_key binding \<noteq> qa_key a then Inl OverrideNamesAnotherTask
          else if bo_option_index binding \<noteq> option_index then Inl OverrideNamesAnotherOption
          else Inr ()
      | _ \<Rightarrow> Inr ()))"

definition answer_halts_run :: "question_answered4 \<Rightarrow> bool" where
  "answer_halts_run a \<longleftrightarrow> qa_answer a = Declined True"

datatype spawn_admission =
    SpawnRunnable
  | SpawnHumanRequired u32 frozen_question
  | SpawnHumanBinding "string list" frozen_question

fun admission_question :: "spawn_admission \<Rightarrow> frozen_question option" where
  "admission_question SpawnRunnable = None"
| "admission_question (SpawnHumanRequired _ question) = Some question"
| "admission_question (SpawnHumanBinding _ question) = Some question"

record frozen_spawn =
  sw_key :: task_key
  sw_entry :: task_entry
  sw_admission :: spawn_admission

record task_spawned =
  tsp_spawn :: frozen_spawn

subsection \<open>Dispatch and attempts\<close>

datatype lease_grant = GrantPredicted path_set | GrantInheritedLineage task_key

record task_dispatched =
  td_key :: task_key
  td_generation :: generation_id
  td_base_sha :: commit_sha
  td_worktree_path :: string
  td_lease :: lease_grant
  td_source_candidate :: "candidate_ref option"

record rung_binding =
  rg_tier :: tier
  rg_agent :: string
  rg_model :: string
  rg_pinned :: bool
  rg_effort :: effort

definition binding_from_frozen :: "frozen_rung \<Rightarrow> effort \<Rightarrow> rung_binding" where
  "binding_from_frozen rung effort =
     \<lparr>rg_tier = fg_tier rung, rg_agent = fg_agent rung, rg_model = fg_model rung,
      rg_pinned = fg_pinned rung, rg_effort = effort\<rparr>"

definition matches_frozen :: "rung_binding \<Rightarrow> frozen_rung \<Rightarrow> effort \<Rightarrow> bool" where
  "matches_frozen b rung effort \<longleftrightarrow> b = binding_from_frozen rung effort"

definition binding_from_override :: "binding_override \<Rightarrow> tier \<Rightarrow> rung_binding" where
  "binding_from_override binding tier =
     \<lparr>rg_tier = tier, rg_agent = bo_agent binding, rg_model = bo_model binding,
      rg_pinned = True, rg_effort = bo_effort binding\<rparr>"

definition matches_override :: "rung_binding \<Rightarrow> binding_override \<Rightarrow> tier \<Rightarrow> bool" where
  "matches_override b binding tier \<longleftrightarrow> b = binding_from_override binding tier"

datatype materialization = MatClean | MatConflict | MatEmpty | MatRetained

record attempt_started4 =
  as_key :: task_key
  as_generation :: generation_id
  as_attempt :: attempt_number
  as_rung :: u32
  as_binding :: rung_binding
  as_pool :: "string option"
  as_resume_session :: "session_id option"
  as_materialization_observed :: "materialization option"

datatype settlement_transition =
    TrSucceeded
  | TrRetry
  | TrEscalated u32
  | TrDeferred u32 string
  | TrParked frozen_question
  | TrFailed bool string

datatype attempt_settlement =
    SettleRetained session_id epoch
  | SettleClosed settlement_transition lease_disposition

record attempt_finished4 =
  af4_key :: task_key
  af4_generation :: generation_id
  af4_attempt :: attempt_number
  af4_record :: attempt_record
  af4_settlement :: attempt_settlement

fun settlement_halts_run :: "attempt_settlement \<Rightarrow> bool" where
  "settlement_halts_run (SettleClosed (TrFailed True _) _) = True"
| "settlement_halts_run _ = False"

definition attempt_halts_run :: "attempt_finished4 \<Rightarrow> bool" where
  "attempt_halts_run f = settlement_halts_run (af4_settlement f)"

definition finished_retained :: "attempt_finished4 \<Rightarrow> (session_id \<times> epoch) option" where
  "finished_retained f =
     (case af4_settlement f of
        SettleRetained session incarnation \<Rightarrow> Some (session, incarnation)
      | SettleClosed _ _ \<Rightarrow> None)"

record attempt_interrupted4 =
  ai_key :: task_key
  ai_generation :: generation_id
  ai_attempt :: attempt_number
  ai_lease :: lease_disposition
  ai_detail :: string

datatype generation_close_reason =
    ResumeDiscardsRetainedSession | WorktreeMissing | RunEnding run_outcome

record generation_closed =
  gc_key :: task_key
  gc_generation :: generation_id
  gc_reason :: generation_close_reason
  gc_lease :: lease_disposition

record defer_wait_elapsed4 =
  dw_waited_ms :: u64
  dw_round :: u32

subsection \<open>Candidates\<close>

datatype candidate_lease_effect =
    ReplacesPredicted path_set
  | CandidateWidensLineage task_key path_set

record candidate_prepared =
  cp_key :: task_key
  cp_generation :: generation_id
  cp_attempt :: attempt_record
  cp_base_sha :: commit_sha
  cp_parent_sha :: commit_sha
  cp_tree_sha :: commit_sha
  cp_commit_sha :: commit_sha
  cp_message :: string
  cp_prepared_ref :: git_ref
  cp_candidate_ref :: git_ref
  cp_actual_paths :: path_set
  cp_lease_effect :: candidate_lease_effect

definition parent_is_base :: "candidate_prepared \<Rightarrow> bool" where
  "parent_is_base c \<longleftrightarrow> cp_parent_sha c = cp_base_sha c"

definition candidate_of_prepared :: "candidate_prepared \<Rightarrow> candidate_ref" where
  "candidate_of_prepared c =
     \<lparr>cr_key = cp_key c, cr_generation = cp_generation c, cr_commit_sha = cp_commit_sha c,
      cr_candidate_ref = cp_candidate_ref c\<rparr>"

record task_candidate_created =
  tc_candidate :: candidate_ref

subsection \<open>Integration\<close>

datatype verification_basis = BasisStaleClean git_ref | BasisAlreadyPresent

record merge_verification_started =
  vs_sequence :: sequence_id
  vs_candidate :: candidate_ref
  vs_basis :: verification_basis
  vs_expected_head :: commit_sha
  vs_proposed_sha :: commit_sha

datatype verification_verdict = VerdictPassed | VerdictGatesFailed | VerdictRejected

record verification_record =
  vr_verdict :: verification_verdict
  vr_gates_passed :: bool
  vr_reviews :: "review_record list"
  vr_detail :: string

definition verification_passed :: "verification_record \<Rightarrow> bool" where
  "verification_passed r \<longleftrightarrow> vr_verdict r = VerdictPassed"

datatype infrastructure_kind =
    InfraRateLimited | InfraReviewUnavailable | InfraReviewerTimeout | InfraRunnerSpawnFailure
  | InfraOther string

datatype unavailable_cause = CauseHumanRequired string | CauseInfrastructure infrastructure_kind

datatype unavailable_outcome = UnavailableDeferred u32 | UnavailableParked frozen_question

record merge_verification_unavailable =
  vu_sequence :: sequence_id
  vu_cause :: unavailable_cause
  vu_outcome :: unavailable_outcome
  vu_reviews :: "review_record list"

datatype unavailable_defect = HumanRequiredWithoutPark | ParkedWithoutCompleteQuestion

definition unavailable_self_consistency ::
  "merge_verification_unavailable \<Rightarrow> (unavailable_defect, unit) result" where
  "unavailable_self_consistency u =
     (if (case vu_cause u of CauseHumanRequired _ \<Rightarrow> True | CauseInfrastructure _ \<Rightarrow> False) \<and>
         (case vu_outcome u of UnavailableParked _ \<Rightarrow> False | _ \<Rightarrow> True)
      then Inl HumanRequiredWithoutPark
      else (case vu_outcome u of
        UnavailableParked question \<Rightarrow>
          if \<not> is_complete question then Inl ParkedWithoutCompleteQuestion else Inr ()
      | UnavailableDeferred _ \<Rightarrow> Inr ()))"

record merge_verification_interrupted =
  vi_sequence :: sequence_id
  vi_detail :: string

record merge_verification_charged =
  vc_sequence :: sequence_id
  vc_reviews :: "review_record list"

datatype prepared_disposition = PdFast | PdStaleClean | PdAlreadyPresent

datatype verification_source =
    SourceCandidatePrepared task_key generation_id
  | SourceVerification sequence_id

record merge_prepared =
  mp_sequence :: sequence_id
  mp_disposition :: prepared_disposition
  mp_expected_head :: commit_sha
  mp_proposed_sha :: commit_sha
  mp_key :: task_key
  mp_generation :: generation_id
  mp_candidate_sha :: commit_sha
  mp_candidate_ref :: git_ref
  mp_prepared_ref :: "git_ref option"
  mp_verification_source :: verification_source
  mp_verification :: "verification_record option"
  mp_satisfies :: "task_key list"

datatype prepared_defect =
    FastWithPreparedRef | FastProposesAnotherCommit | FastWithoutCandidateSource
  | FastWithVerification | StaleWithoutPreparedRef | AlreadyPresentMovesTheHead
  | VerifiedWithoutVerificationSource | VerifiedWithoutRecord | VerificationDidNotPass

definition merge_candidate :: "merge_prepared \<Rightarrow> candidate_ref" where
  "merge_candidate m =
     \<lparr>cr_key = mp_key m, cr_generation = mp_generation m, cr_commit_sha = mp_candidate_sha m,
      cr_candidate_ref = mp_candidate_ref m\<rparr>"

fun cites_candidate :: "verification_source \<Rightarrow> bool" where
  "cites_candidate (SourceCandidatePrepared _ _) = True"
| "cites_candidate (SourceVerification _) = False"

definition prepared_self_consistency :: "merge_prepared \<Rightarrow> (prepared_defect, unit) result" where
  "prepared_self_consistency m =
     (if mp_disposition m = PdFast then
        if mp_prepared_ref m \<noteq> None then Inl FastWithPreparedRef
        else if mp_proposed_sha m \<noteq> mp_candidate_sha m then Inl FastProposesAnotherCommit
        else if \<not> cites_candidate (mp_verification_source m) then Inl FastWithoutCandidateSource
        else if mp_verification m \<noteq> None then Inl FastWithVerification
        else Inr ()
      else
        if mp_disposition m = PdStaleClean \<and> mp_prepared_ref m = None
        then Inl StaleWithoutPreparedRef
        else if mp_disposition m = PdAlreadyPresent \<and> mp_proposed_sha m \<noteq> mp_expected_head m
        then Inl AlreadyPresentMovesTheHead
        else if cites_candidate (mp_verification_source m)
        then Inl VerifiedWithoutVerificationSource
        else res_bind (ok_or (mp_verification m) VerifiedWithoutRecord) (\<lambda>record.
          if \<not> verification_passed record then Inl VerificationDidNotPass else Inr ()))"

datatype rejection_disposition = RdConflict path_set | RdCodeRejected verification_record

datatype rejection_lease_effect =
    CreatesLineage task_key path_set
  | RejectionWidensLineage task_key path_set

record merge_rejected =
  mr_sequence :: sequence_id
  mr_candidate :: candidate_ref
  mr_rejecting_head :: commit_sha
  mr_disposition :: rejection_disposition
  mr_repair :: frozen_spawn
  mr_lease_effect :: rejection_lease_effect

datatype merge_lease_release =
    ReleaseCandidate task_key generation_id
  | ReleaseLineage task_key

record task_merged =
  tm_sequence :: sequence_id
  tm_merged_sha :: commit_sha
  tm_satisfies :: "task_key list"
  tm_lease_release :: merge_lease_release

subsection \<open>The event body\<close>

datatype halt_carrier =
    TaskFailure task_key generation_id attempt_number
  | DeclinedQuestion task_key question_id

fun halt_carrier_key :: "halt_carrier \<Rightarrow> task_key" where
  "halt_carrier_key (TaskFailure key _ _) = key"
| "halt_carrier_key (DeclinedQuestion key _) = key"

datatype (plugins only: code size) topology_event_body =
    EvRunStarted run_started4
  | EvRunResumed run_resumed4
  | EvTaskSpawned task_spawned
  | EvTaskDispatched task_dispatched
  | EvAttemptStarted attempt_started4
  | EvAttemptFinished attempt_finished4
  | EvAttemptInterrupted attempt_interrupted4
  | EvGenerationClosed generation_closed
  | EvDeferWaitElapsed defer_wait_elapsed4
  | EvCandidatePrepared candidate_prepared
  | EvTaskCandidateCreated task_candidate_created
  | EvMergeVerificationStarted merge_verification_started
  | EvMergeVerificationUnavailable merge_verification_unavailable
  | EvMergeVerificationInterrupted merge_verification_interrupted
  | EvMergePrepared merge_prepared
  | EvMergeRejected merge_rejected
  | EvTaskMerged task_merged
  | EvQuestionRaised question_raised4
  | EvQuestionAnswered question_answered4
  | EvBudgetExceeded budget_exceeded4
  | EvRunFinished run_finished4
  | EvCapacitySnapshot capacity_snapshot
  | EvPoolExhausted pool_exhausted
  | EvDesignDefect design_defect
  | EvMergeVerificationCharged merge_verification_charged

definition topology_event_kinds :: "string list" where
  "topology_event_kinds =
     [''run_started'', ''run_resumed'', ''task_spawned'', ''task_dispatched'',
      ''attempt_started'', ''attempt_finished'', ''attempt_interrupted'', ''generation_closed'',
      ''defer_wait_elapsed'', ''candidate_prepared'', ''task_candidate_created'',
      ''merge_verification_started'', ''merge_verification_unavailable'',
      ''merge_verification_interrupted'', ''merge_prepared'', ''merge_rejected'',
      ''task_merged'', ''question_raised'', ''question_answered'', ''budget_exceeded'',
      ''run_finished'', ''capacity_snapshot'', ''pool_exhausted'', ''design_defect'',
      ''merge_verification_charged'']"

definition event_kind :: "topology_event_body \<Rightarrow> string" where
  "event_kind body =
     (case body of
        EvRunStarted _ \<Rightarrow> ''run_started''
      | EvRunResumed _ \<Rightarrow> ''run_resumed''
      | EvTaskSpawned _ \<Rightarrow> ''task_spawned''
      | EvTaskDispatched _ \<Rightarrow> ''task_dispatched''
      | EvAttemptStarted _ \<Rightarrow> ''attempt_started''
      | EvAttemptFinished _ \<Rightarrow> ''attempt_finished''
      | EvAttemptInterrupted _ \<Rightarrow> ''attempt_interrupted''
      | EvGenerationClosed _ \<Rightarrow> ''generation_closed''
      | EvDeferWaitElapsed _ \<Rightarrow> ''defer_wait_elapsed''
      | EvCandidatePrepared _ \<Rightarrow> ''candidate_prepared''
      | EvTaskCandidateCreated _ \<Rightarrow> ''task_candidate_created''
      | EvMergeVerificationStarted _ \<Rightarrow> ''merge_verification_started''
      | EvMergeVerificationUnavailable _ \<Rightarrow> ''merge_verification_unavailable''
      | EvMergeVerificationInterrupted _ \<Rightarrow> ''merge_verification_interrupted''
      | EvMergePrepared _ \<Rightarrow> ''merge_prepared''
      | EvMergeRejected _ \<Rightarrow> ''merge_rejected''
      | EvTaskMerged _ \<Rightarrow> ''task_merged''
      | EvQuestionRaised _ \<Rightarrow> ''question_raised''
      | EvQuestionAnswered _ \<Rightarrow> ''question_answered''
      | EvBudgetExceeded _ \<Rightarrow> ''budget_exceeded''
      | EvRunFinished _ \<Rightarrow> ''run_finished''
      | EvCapacitySnapshot _ \<Rightarrow> ''capacity_snapshot''
      | EvPoolExhausted _ \<Rightarrow> ''pool_exhausted''
      | EvDesignDefect _ \<Rightarrow> ''design_defect''
      | EvMergeVerificationCharged _ \<Rightarrow> ''merge_verification_charged'')"

definition is_transaction :: "topology_event_body \<Rightarrow> bool" where
  "is_transaction body =
     (case body of EvCapacitySnapshot _ \<Rightarrow> False | EvPoolExhausted _ \<Rightarrow> False
      | EvDesignDefect _ \<Rightarrow> False | _ \<Rightarrow> True)"

definition event_key :: "topology_event_body \<Rightarrow> task_key option" where
  "event_key body =
     (case body of
        EvTaskSpawned d \<Rightarrow> Some (sw_key (tsp_spawn d))
      | EvTaskDispatched d \<Rightarrow> Some (td_key d)
      | EvAttemptStarted d \<Rightarrow> Some (as_key d)
      | EvAttemptFinished d \<Rightarrow> Some (af4_key d)
      | EvAttemptInterrupted d \<Rightarrow> Some (ai_key d)
      | EvGenerationClosed d \<Rightarrow> Some (gc_key d)
      | EvCandidatePrepared d \<Rightarrow> Some (cp_key d)
      | EvTaskCandidateCreated d \<Rightarrow> Some (cr_key (tc_candidate d))
      | EvMergeVerificationStarted d \<Rightarrow> Some (cr_key (vs_candidate d))
      | EvMergePrepared d \<Rightarrow> Some (mp_key d)
      | EvMergeRejected d \<Rightarrow> Some (cr_key (mr_candidate d))
      | EvQuestionRaised d \<Rightarrow> Some (fq_key (qr_question d))
      | EvQuestionAnswered d \<Rightarrow> Some (qa_key d)
      | EvBudgetExceeded d \<Rightarrow> b4_key d
      | _ \<Rightarrow> None)"

definition event_sequence :: "topology_event_body \<Rightarrow> sequence_id option" where
  "event_sequence body =
     (case body of
        EvMergeVerificationStarted d \<Rightarrow> Some (vs_sequence d)
      | EvMergeVerificationUnavailable d \<Rightarrow> Some (vu_sequence d)
      | EvMergeVerificationInterrupted d \<Rightarrow> Some (vi_sequence d)
      | EvMergePrepared d \<Rightarrow> Some (mp_sequence d)
      | EvMergeRejected d \<Rightarrow> Some (mr_sequence d)
      | EvTaskMerged d \<Rightarrow> Some (tm_sequence d)
      | EvMergeVerificationCharged d \<Rightarrow> Some (vc_sequence d)
      | _ \<Rightarrow> None)"

definition event_halt_carrier :: "topology_event_body \<Rightarrow> halt_carrier option" where
  "event_halt_carrier body =
     (case body of
        EvAttemptFinished d \<Rightarrow>
          if attempt_halts_run d
          then Some (TaskFailure (af4_key d) (af4_generation d) (af4_attempt d)) else None
      | EvQuestionAnswered d \<Rightarrow>
          if answer_halts_run d then Some (DeclinedQuestion (qa_key d) (qa_question d)) else None
      | _ \<Rightarrow> None)"

record topology_event =
  ev_ts :: string
  ev_body :: topology_event_body

end
