(* ===== verification/Queue.thy ===== *)
theory Queue
  imports Events
begin

section \<open>The candidate queue (src/topology/queue.rs)\<close>

text \<open>
  Candidates wait for integration in the order they were created. An entry is passed over
  while its task awaits input, while its verification is deferred, while a repair lineage
  holds a region it overlaps, or, inside a lineage, while an older lineage does.
\<close>

record queue_entry =
  qe_candidate :: candidate_ref
  qe_paths :: path_set
  qe_lineage_root :: "task_key option"
  qe_verification_deferred :: bool
  qe_defers :: u32
  qe_sequence :: "sequence_id option"

definition qe_key :: "queue_entry \<Rightarrow> task_key" where
  "qe_key e = cr_key (qe_candidate e)"

definition qe_generation :: "queue_entry \<Rightarrow> generation_id" where
  "qe_generation e = cr_generation (qe_candidate e)"

datatype ineligible =
    IneligibleAwaitingInput
  | IneligibleVerificationDeferred
  | InsideLineage task_key
  | BehindOlderLineage task_key

type_synonym candidate_queue = "queue_entry list"

definition is_entry :: "task_key \<Rightarrow> generation_id \<Rightarrow> queue_entry \<Rightarrow> bool" where
  "is_entry key generation e \<longleftrightarrow> qe_key e = key \<and> qe_generation e = generation"

definition queue_push :: "queue_entry \<Rightarrow> candidate_queue \<Rightarrow> candidate_queue" where
  "queue_push entry q = q @ [entry]"

definition queue_remove :: "task_key \<Rightarrow> generation_id \<Rightarrow> candidate_queue \<Rightarrow> candidate_queue" where
  "queue_remove key generation q = filter (\<lambda>e. qe_key e \<noteq> key \<or> qe_generation e \<noteq> generation) q"

definition queue_get :: "candidate_queue \<Rightarrow> task_key \<Rightarrow> generation_id \<Rightarrow> queue_entry option" where
  "queue_get q key generation = find (is_entry key generation) q"

definition queue_update ::
  "task_key \<Rightarrow> generation_id \<Rightarrow> (queue_entry \<Rightarrow> queue_entry) \<Rightarrow> candidate_queue \<Rightarrow> candidate_queue" where
  "queue_update key generation f q = update_first (is_entry key generation) f q"

definition holds_task :: "candidate_queue \<Rightarrow> task_key \<Rightarrow> bool" where
  "holds_task q key \<longleftrightarrow> list_ex (\<lambda>e. qe_key e = key) q"

definition wake_deferred :: "candidate_queue \<Rightarrow> candidate_queue" where
  "wake_deferred q = map (\<lambda>e. e\<lparr>qe_verification_deferred := False\<rparr>) q"

definition ineligible_for ::
  "case_map \<Rightarrow> queue_entry \<Rightarrow> (task_key \<Rightarrow> bool) \<Rightarrow> lease_table \<Rightarrow> path_policy \<Rightarrow> ineligible option" where
  "ineligible_for lc entry awaiting_input leases policy =
     (if awaiting_input (qe_key entry) then Some IneligibleAwaitingInput
      else if qe_verification_deferred entry then Some IneligibleVerificationDeferred
      else
        let overlapping = overlapping_lineages lc leases (qe_paths entry) policy in
        (case qe_lineage_root entry of
           None \<Rightarrow>
             (case overlapping of [] \<Rightarrow> None | lease # _ \<Rightarrow> Some (InsideLineage (ll_root lease)))
         | Some mine \<Rightarrow>
             let own_age = (case lineage_of leases mine of None \<Rightarrow> - 1 | Some lease \<Rightarrow> ll_age lease) in
             (case find (\<lambda>lease. ll_root lease \<noteq> mine \<and> ll_age lease < own_age) overlapping of
                None \<Rightarrow> None
              | Some lease \<Rightarrow> Some (BehindOlderLineage (ll_root lease)))))"

definition first_eligible ::
  "case_map \<Rightarrow> candidate_queue \<Rightarrow> (task_key \<Rightarrow> bool) \<Rightarrow> lease_table \<Rightarrow> path_policy \<Rightarrow>
     queue_entry option" where
  "first_eligible lc q awaiting_input leases policy =
     find (\<lambda>entry. ineligible_for lc entry awaiting_input leases policy = None) q"

subsection \<open>The contract of the queue\<close>

lemma queue_get_push:
  "queue_get (queue_push e q) key g =
     (case queue_get q key g of Some x \<Rightarrow> Some x | None \<Rightarrow> if is_entry key g e then Some e else None)"
  by (simp add: queue_get_def queue_push_def find_append split: option.splits)

lemma find_filter_other:
  "(\<And>x. p x \<Longrightarrow> r x) \<Longrightarrow> find p (filter r xs) = find p xs"
  by (induction xs) auto

lemma queue_get_remove:
  "queue_get (queue_remove key g q) key' g' =
     (if key' = key \<and> g' = g then None else queue_get q key' g')"
proof (cases "key' = key \<and> g' = g")
  case True
  then show ?thesis
    by (auto simp: queue_get_def queue_remove_def find_None_iff' is_entry_def)
next
  case False
  then have "queue_get (queue_remove key g q) key' g' = queue_get q key' g'"
    unfolding queue_get_def queue_remove_def by (intro find_filter_other) (auto simp: is_entry_def)
  with False show ?thesis by auto
qed

lemma queue_get_update:
  assumes "\<And>e. qe_candidate (f e) = qe_candidate e"
  shows "queue_get (queue_update key g f q) key' g' =
     (if key' = key \<and> g' = g then map_option f (queue_get q key g) else queue_get q key' g')"
proof -
  have same: "is_entry k h (f e) \<longleftrightarrow> is_entry k h e" for k h e
    using assms by (simp add: is_entry_def qe_key_def qe_generation_def)
  have other: "\<not> (key' = key \<and> g' = g) \<Longrightarrow> is_entry key g e \<Longrightarrow> \<not> is_entry key' g' e" for e
    by (auto simp: is_entry_def)
  show ?thesis
    unfolding queue_get_def queue_update_def
    using same other by (induction q) auto
qed

locale keyed_queue =
  fixes push :: "'e \<Rightarrow> 'q \<Rightarrow> 'q"
    and remove :: "'k \<Rightarrow> 'q \<Rightarrow> 'q"
    and get :: "'q \<Rightarrow> 'k \<Rightarrow> 'e option"
    and key_of_entry :: "'e \<Rightarrow> 'k"
  assumes get_push: "get (push e q) k =
      (case get q k of Some x \<Rightarrow> Some x | None \<Rightarrow> if key_of_entry e = k then Some e else None)"
    and get_remove: "get (remove k q) k' = (if k' = k then None else get q k')"
begin

lemma push_then_get: "get q (key_of_entry e) = None \<Longrightarrow> get (push e q) (key_of_entry e) = Some e"
  by (simp add: get_push)

lemma remove_push_fresh:
  "get q (key_of_entry e) = None \<Longrightarrow> get (remove (key_of_entry e) (push e q)) k = get q k"
  by (auto simp: get_push get_remove split: option.splits)

lemma others_kept: "k \<noteq> key_of_entry e \<Longrightarrow> get (push e q) k = get q k"
  by (auto simp: get_push split: option.splits)

end

interpretation candidates: keyed_queue queue_push "\<lambda>(k, g). queue_remove k g"
    "\<lambda>q (k, g). queue_get q k g" "\<lambda>e. (qe_key e, qe_generation e)"
  by unfold_locales (auto simp: queue_get_push queue_get_remove is_entry_def split: option.splits if_splits)

lemma wake_deferred_keys [simp]:
  "map qe_candidate (wake_deferred q) = map qe_candidate q"
  by (simp add: wake_deferred_def)

subsection \<open>Order\<close>

text \<open>
  The queue is first in, first out among what may integrate: the entry chosen is
  eligible, every entry ahead of it is not, and an answer of none means no entry is
  eligible.
\<close>

theorem first_eligible_is_first:
  "(case first_eligible lc q awaiting leases policy of
      None \<Rightarrow> list_all (\<lambda>e. ineligible_for lc e awaiting leases policy \<noteq> None) q
    | Some e \<Rightarrow> \<exists>i < length q. q ! i = e \<and> ineligible_for lc e awaiting leases policy = None \<and>
        list_all (\<lambda>e. ineligible_for lc e awaiting leases policy \<noteq> None) (take i q))"
proof (cases "first_eligible lc q awaiting leases policy")
  case None
  moreover from None have "list_all (\<lambda>e. ineligible_for lc e awaiting leases policy \<noteq> None) q"
    by (simp add: first_eligible_def find_None_iff' list_all_iff)
  ultimately show ?thesis by simp
next
  case (Some e)
  then obtain i where i: "i < length q" "e = q ! i" "ineligible_for lc (q ! i) awaiting leases policy = None"
    "\<And>j. j < i \<Longrightarrow> ineligible_for lc (q ! j) awaiting leases policy \<noteq> None"
    by (auto simp: first_eligible_def find_Some_iff)
  then have "list_all (\<lambda>e. ineligible_for lc e awaiting leases policy \<noteq> None) (take i q)"
    by (auto simp: list_all_length)
  with Some i show ?thesis by auto
qed

subsection \<open>Who waits for whom\<close>

text \<open>
  An entry is held when it waits for a person or for a back-off to end. Otherwise only a lineage
  can keep it back, one that overlaps its region and, if the entry is of a lineage, is older.
\<close>

definition held_back :: "(task_key \<Rightarrow> bool) \<Rightarrow> queue_entry \<Rightarrow> bool" where
  "held_back awaiting e \<longleftrightarrow> awaiting (qe_key e) \<or> qe_verification_deferred e"

definition blocks :: "case_map \<Rightarrow> lease_table \<Rightarrow> path_policy \<Rightarrow> lineage_lease \<Rightarrow> queue_entry \<Rightarrow> bool" where
  "blocks lc leases policy lease e \<longleftrightarrow>
     lease \<in> set (lt_lineages leases) \<and> regions_overlap lc (ll_paths lease) (qe_paths e) policy \<and>
     (case qe_lineage_root e of
        None \<Rightarrow> True
      | Some mine \<Rightarrow>
          ll_root lease \<noteq> mine \<and>
          ll_age lease < (case lineage_of leases mine of None \<Rightarrow> - 1 | Some own \<Rightarrow> ll_age own))"

lemma eligible_iff:
  "ineligible_for lc e awaiting leases policy = None \<longleftrightarrow>
     \<not> held_back awaiting e \<and> (\<forall>lease. \<not> blocks lc leases policy lease e)"
proof (cases "held_back awaiting e")
  case True
  then show ?thesis by (auto simp: ineligible_for_def held_back_def)
next
  case False
  note out = this [unfolded held_back_def de_Morgan_disj]
  show ?thesis
  proof (cases "qe_lineage_root e")
    case None
    have "ineligible_for lc e awaiting leases policy = None \<longleftrightarrow> overlapping_lineages lc leases (qe_paths e) policy = []"
      using out None by (cases "overlapping_lineages lc leases (qe_paths e) policy") (simp_all add: ineligible_for_def)
    also have "\<dots> \<longleftrightarrow> (\<forall>lease. \<not> blocks lc leases policy lease e)"
      using None by (simp add: overlapping_lineages_def filter_empty_conv blocks_def) blast
    finally show ?thesis using False by simp
  next
    case (Some mine)
    let ?own = "case lineage_of leases mine of None \<Rightarrow> - 1 | Some lease \<Rightarrow> ll_age lease"
    have "ineligible_for lc e awaiting leases policy = None \<longleftrightarrow>
        find (\<lambda>lease. ll_root lease \<noteq> mine \<and> ll_age lease < ?own) (overlapping_lineages lc leases (qe_paths e) policy) = None"
      using out Some by (simp add: ineligible_for_def Let_def split: option.split)
    also have "\<dots> \<longleftrightarrow> (\<forall>lease. \<not> blocks lc leases policy lease e)"
      unfolding find_None_iff' overlapping_lineages_def set_filter blocks_def Some option.case by blast
    finally show ?thesis using False by simp
  qed
qed

text \<open>Following the lineages that keep an entry back, through the queued candidates of each.\<close>

inductive waits_for ::
  "case_map \<Rightarrow> candidate_queue \<Rightarrow> lease_table \<Rightarrow> path_policy \<Rightarrow> queue_entry \<Rightarrow> lineage_lease \<Rightarrow> bool"
  for lc q leases policy e where
  waits_direct: "blocks lc leases policy lease e \<Longrightarrow> waits_for lc q leases policy e lease"
| waits_through: "waits_for lc q leases policy e lease \<Longrightarrow> e' \<in> set q \<Longrightarrow> qe_lineage_root e' = Some (ll_root lease) \<Longrightarrow>
    blocks lc leases policy older e' \<Longrightarrow> waits_for lc q leases policy e older"

lemma waits_for_held: "waits_for lc q leases policy e lease \<Longrightarrow> lease \<in> set (lt_lineages leases)"
  by (induction rule: waits_for.induct) (simp_all add: blocks_def)

lemma lineage_of_own:
  assumes "distinct (map ll_root (lt_lineages leases))" "lease \<in> set (lt_lineages leases)"
  shows "lineage_of leases (ll_root lease) = Some lease"
proof -
  have "distinct (map ll_root ls) \<Longrightarrow> lease \<in> set ls \<Longrightarrow> find (\<lambda>l. ll_root l = ll_root lease) ls = Some lease" for ls
    by (induction ls) (auto simp: image_iff)
  with assms show ?thesis by (simp add: lineage_of_def)
qed

lemma waits_for_older:
  assumes "distinct (map ll_root (lt_lineages leases))" "qe_lineage_root e = Some mine" "waits_for lc q leases policy e lease"
  shows "ll_root lease \<noteq> mine \<and> (\<forall>own. lineage_of leases mine = Some own \<longrightarrow> ll_age lease < ll_age own)"
  using assms(3)
proof induction
  case (waits_direct lease)
  with assms(2) show ?case by (auto simp: blocks_def)
next
  case (waits_through lease e' older)
  have older: "older \<in> set (lt_lineages leases)" using waits_through.hyps(4) by (simp add: blocks_def)
  have "lineage_of leases (ll_root lease) = Some lease"
    using lineage_of_own [OF assms(1) waits_for_held [OF waits_through.hyps(1)]] .
  with waits_through.hyps(3,4) have "ll_age older < ll_age lease" by (simp add: blocks_def)
  with waits_through.IH lineage_of_own [OF assms(1) older] show ?case by fastforce
qed

text \<open>Ages fall along the way, so the way ends, and not at the entry it started from.\<close>

lemma stuck_queue_waits:
  assumes distinct: "distinct (map ll_root (lt_lineages leases))"
    and none: "first_eligible lc q awaiting leases policy = None" and e: "e \<in> set q" "\<not> held_back awaiting e"
  shows "\<exists>lease. waits_for lc q leases policy e lease \<and>
    (\<forall>e' \<in> set q. qe_lineage_root e' = Some (ll_root lease) \<longrightarrow> held_back awaiting e')"
proof -
  have blocked: "\<exists>lease. blocks lc leases policy lease e'" if "e' \<in> set q" "\<not> held_back awaiting e'" for e'
    using that none by (auto simp: first_eligible_def find_None_iff' eligible_iff)
  have "waits_for lc q leases policy e lease \<Longrightarrow> ?thesis" for lease
  proof (induction "unat (ll_age lease)" arbitrary: lease rule: less_induct)
    case less
    show ?case
    proof (cases "\<forall>e' \<in> set q. qe_lineage_root e' = Some (ll_root lease) \<longrightarrow> held_back awaiting e'")
      case False
      then obtain e' older where e': "e' \<in> set q" "qe_lineage_root e' = Some (ll_root lease)"
        "blocks lc leases policy older e'" using blocked by blast
      with lineage_of_own [OF distinct waits_for_held [OF less.prems]] have "ll_age older < ll_age lease"
        by (simp add: blocks_def)
      with less.hyps waits_through [OF less.prems e'] show ?thesis by (simp add: word_less_nat_alt)
    qed (use less.prems in blast)
  qed
  with blocked [OF e] show ?thesis by (blast intro: waits_direct)
qed

definition sample_policy :: path_policy where
  "sample_policy = \<lparr>pp_version = V2, pp_case_fold = False, pp_grammar = Globset\<rparr>"

definition sample_entry :: "task_key \<Rightarrow> task_key option \<Rightarrow> queue_entry" where
  "sample_entry key rt =
     \<lparr>qe_candidate = \<lparr>cr_key = key, cr_generation = 0, cr_commit_sha = ''c'', cr_candidate_ref = ''r''\<rparr>,
      qe_paths = RepoWide, qe_lineage_root = rt, qe_verification_deferred = False,
      qe_defers = 0, qe_sequence = None\<rparr>"

text \<open>
  A candidate outside every lineage integrates exactly when nobody is waiting for input
  on it, its verification is not deferred, and its region overlaps no region a repair
  lineage holds.
\<close>

theorem plain_candidate_eligible_iff:
  assumes "qe_lineage_root e = None"
  shows "ineligible_for lc e awaiting leases policy = None \<longleftrightarrow>
    \<not> awaiting (qe_key e) \<and> \<not> qe_verification_deferred e \<and>
    (\<forall>lease \<in> set (lt_lineages leases). \<not> regions_overlap lc (ll_paths lease) (qe_paths e) policy)"
  using assms
  by (auto simp: ineligible_for_def overlapping_lineages_def filter_empty_conv Let_def
      split: list.splits) (metis filter_empty_conv list.discI)+

theorem plain_candidate_eligible_iff_witness:
  "qe_lineage_root (sample_entry 2 None) = None \<and>
   (ineligible_for id (sample_entry 2 None) (\<lambda>_. False) lease_table_new sample_policy = None \<longleftrightarrow>
     \<not> qe_verification_deferred (sample_entry 2 None))"
  using plain_candidate_eligible_iff [of "sample_entry 2 None" id "\<lambda>_. False" lease_table_new sample_policy]
  by (simp add: sample_entry_def lease_table_new_def)

end
