(* ===== verification/Fold_State.thy ===== *)
theory Fold_State
  imports Queue Registry_Facts
begin

section \<open>The state of a run (src/topology/fold.rs, src/topology/fold/outcome.rs)\<close>

text \<open>
  What the fold derives from the log: one \<open>task_fold\<close> per registered task with its
  generations, the open questions, the candidate queue, the lease table, the integration
  transaction and the markers of the run's end, and the predicates the engine reads off
  this state (what is ready, what may integrate, which outcome the state implies).

  Two functions of other crates are parameters, gathered in \<open>externals\<close>: the Unicode
  lower-casing used on case-insensitive file systems and the SHA-256 of a byte string in
  lower-case hexadecimal. An error keeps its constructor and the values it names; the
  prose of a \<^verbatim>\<open>detail\<close> is dropped.
\<close>

record externals =
  ex_lowercase :: case_map
  ex_sha256 :: "string \<Rightarrow> string"

subsection \<open>State\<close>

datatype task_state =
  Pending | AwaitingMerge | AwaitingRepair | AwaitingInput | Deferred | Merged | Failed

definition is_terminal :: "task_state \<Rightarrow> bool" where
  "is_terminal s \<longleftrightarrow> s = Merged \<or> s = Failed"

datatype generation_class =
    OpenNoAttempt
  | InFlight attempt_number
  | RetainedIdle session_id epoch
  | Promoting
  | Closed

fun holds_pipeline :: "generation_class \<Rightarrow> bool" where
  "holds_pipeline OpenNoAttempt = True"
| "holds_pipeline (InFlight _) = True"
| "holds_pipeline Promoting = True"
| "holds_pipeline (RetainedIdle _ _) = False"
| "holds_pipeline Closed = False"

definition blocks_run_end :: "generation_class \<Rightarrow> bool" where
  "blocks_run_end c \<longleftrightarrow> c \<noteq> Closed"

record prepared_candidate =
  pc_candidate :: candidate_ref
  pc_base_sha :: commit_sha
  pc_tree_sha :: commit_sha
  pc_paths :: path_set

record generation_fold =
  gf_id :: generation_id
  gf_class :: generation_class
  gf_base_sha :: commit_sha
  gf_lease :: generation_lease
  gf_attempts :: u32
  gf_candidate :: "prepared_candidate option"

record task_fold =
  tf_state :: task_state
  tf_defers :: u32
  tf_rung :: u32
  tf_attempts_on_rung :: u32
  tf_generations :: "generation_fold list"

definition task_fold_new :: task_fold where
  "task_fold_new =
     \<lparr>tf_state = Pending, tf_defers = 0, tf_rung = 0, tf_attempts_on_rung = 0,
      tf_generations = []\<rparr>"

definition is_open :: "generation_fold \<Rightarrow> bool" where
  "is_open g \<longleftrightarrow> gf_class g \<noteq> Closed"

definition tf_open :: "task_fold \<Rightarrow> generation_fold option" where
  "tf_open t = find is_open (tf_generations t)"

definition tf_update_open :: "(generation_fold \<Rightarrow> generation_fold) \<Rightarrow> task_fold \<Rightarrow> task_fold" where
  "tf_update_open f t = t\<lparr>tf_generations := update_first is_open f (tf_generations t)\<rparr>"

datatype question_origin = VerificationPark | AdmissionOrigin

record open_question =
  oq_question :: frozen_question
  oq_origin :: question_origin
  oq_binding :: "string list option"

datatype transaction_class =
    VerificationStarted verification_basis commit_sha commit_sha
  | Prepared commit_sha commit_sha "task_key list" prepared_disposition "git_ref option"

record transaction =
  tx_sequence :: sequence_id
  tx_candidate :: candidate_ref
  tx_class :: transaction_class

record run_state =
  st_started :: run_started4
  st_registry :: task_registry
  st_tasks :: "task_fold list"
  st_epoch :: epoch
  st_incarnation :: incarnation_id
  st_questions :: "(question_id, open_question) btree_map"
  st_seen_questions :: "question_id btree_set"
  st_deferred_tasks :: "task_key btree_set"
  st_overrides :: "(task_key, binding_override) btree_map"
  st_queue :: candidate_queue
  st_leases :: lease_table
  st_transaction :: "transaction option"
  st_next_sequence :: u32
  st_charged :: "sequence_id option"
  st_halted_at :: "task_key option"
  st_halted_epoch :: "epoch option"
  st_budget_stop :: "budget_stop option"
  st_finished :: "run_outcome option"

record frozen_inputs =
  fi_plan :: plan
  fi_normalized_plan_digest :: string

record topology_fold =
  fo_inputs :: frozen_inputs
  fo_run :: "run_state option"
  fo_poisoned :: bool

definition fold_new :: "frozen_inputs \<Rightarrow> topology_fold" where
  "fold_new inputs = \<lparr>fo_inputs = inputs, fo_run = None, fo_poisoned = False\<rparr>"

definition run_start :: "run_started4 \<Rightarrow> task_registry \<Rightarrow> run_state" where
  "run_start started registry =
     \<lparr>st_started = started, st_registry = registry,
      st_tasks = replicate (registry_len registry) task_fold_new,
      st_epoch = 0, st_incarnation = s4_incarnation started,
      st_questions = [], st_seen_questions = [], st_deferred_tasks = [], st_overrides = [],
      st_queue = [], st_leases = lease_table_new, st_transaction = None,
      st_next_sequence = 0, st_charged = None, st_halted_at = None, st_halted_epoch = None,
      st_budget_stop = None, st_finished = None\<rparr>"

subsection \<open>Errors\<close>

datatype ladder_defect =
    FloorAboveCeiling | FloorAboveStart | NoAttemptsPerRung | TiersDoNotEscalate
  | CeilingIsNotHighest | RunnableWithoutRungs | HumanBindingWithRungs
  | HumanBindingWithoutOptions | RungCount | RungTier

datatype (plugins only: code size) fold_error =
    NotStarted string
  | AlreadyStarted
  | NotTopologySchema u32
  | IncompleteRunner runner_record_defect
  | UnusableLimit string u32
  | RunnerMoved runner_field
  | FoldDigestMismatch string string string
  | RegistryUnbuildable registry_error
  | MalformedLadder task_key ladder_defect
  | UnknownKey string task_key
  | NonDenseKey string u32 nat
  | MalformedEntry string task_key
  | WrongTaskState string task_key task_state
  | NotTheOpenGeneration string task_key generation_id
  | WrongAttempt string task_key generation_id attempt_number attempt_number
  | WrongRung string task_key attempt_number u32
  | StaleIncarnation task_key attempt_number
  | BindingMismatch task_key attempt_number
  | InvalidLeaseDisposition string task_key lease_disposition lease_disposition
  | NonDenseSequence string sequence_id u32
  | WrongSequence string sequence_id "sequence_id option"
  | TransactionAlreadyOpen string sequence_id sequence_id
  | NotFirstEligible string task_key generation_id
  | InconsistentRecord string
  | InvalidSatisfies string "task_key list" "task_key list"
  | InvalidDefers u32
  | UnanswerableQuestion string
  | WrongQuestion string question_id
  | FoldRunEnding string
  | RunIsOver string run_outcome
  | OutcomeMismatch run_outcome derived_outcome
  | Poisoned
  | RewrittenLog nat

subsection \<open>Reading the state\<close>

definition st_entry :: "run_state \<Rightarrow> string \<Rightarrow> task_key \<Rightarrow> (fold_error, task_entry) result" where
  "st_entry run kind key = ok_or (registry_get (st_registry run) key) (UnknownKey kind key)"

definition task_get :: "run_state \<Rightarrow> task_key \<Rightarrow> task_fold option" where
  "task_get run key = vec_get (st_tasks run) (unat key)"

definition st_task :: "run_state \<Rightarrow> string \<Rightarrow> task_key \<Rightarrow> (fold_error, task_fold) result" where
  "st_task run kind key = ok_or (task_get run key) (UnknownKey kind key)"

definition task_holds_pipeline :: "task_fold \<Rightarrow> bool" where
  "task_holds_pipeline t = (case tf_open t of None \<Rightarrow> False | Some g \<Rightarrow> holds_pipeline (gf_class g))"

definition pipeline_held :: "run_state \<Rightarrow> nat" where
  "pipeline_held run =
     length (filter task_holds_pipeline (st_tasks run)) +
     (if st_transaction run \<noteq> None then 1 else 0)"

definition budget_stop_is_current :: "run_state \<Rightarrow> bool" where
  "budget_stop_is_current run =
     (case st_budget_stop run of None \<Rightarrow> False | Some stop \<Rightarrow> bst_epoch stop = st_epoch run)"

definition run_is_ending :: "run_state \<Rightarrow> bool" where
  "run_is_ending run \<longleftrightarrow> st_halted_at run \<noteq> None \<or> budget_stop_is_current run"

definition open_question_for :: "run_state \<Rightarrow> task_key \<Rightarrow> open_question option" where
  "open_question_for run key =
     find (\<lambda>open'. fq_key (oq_question open') = key) (bt_values (st_questions run))"

definition entry_lineage :: "run_state \<Rightarrow> task_key \<Rightarrow> lineage option" where
  "entry_lineage run key = Option.bind (registry_get (st_registry run) key) te_lineage"

definition lineage_root :: "run_state \<Rightarrow> task_key \<Rightarrow> task_key" where
  "lineage_root run key = (case entry_lineage run key of None \<Rightarrow> key | Some l \<Rightarrow> ln_root l)"

definition lineage_has_question :: "run_state \<Rightarrow> task_key \<Rightarrow> bool" where
  "lineage_has_question run key =
     (let root' = lineage_root run key in
      list_ex (\<lambda>open'. lineage_root run (fq_key (oq_question open')) = root')
        (bt_values (st_questions run)))"

definition predicted_region :: "task_entry \<Rightarrow> path_set" where
  "predicted_region entry = region_of_hints (sp_path_hints (te_spec entry))"

definition task_is_awaiting_input :: "run_state \<Rightarrow> task_key \<Rightarrow> bool" where
  "task_is_awaiting_input run key \<longleftrightarrow>
     lineage_has_question run key \<or>
     (case task_get run key of None \<Rightarrow> False | Some t \<Rightarrow> tf_state t = AwaitingInput)"

text \<open>The tasks a publication of \<open>key\<close> settles: itself and its chain of parents.\<close>

function ancestors :: "run_state \<Rightarrow> task_key \<Rightarrow> task_key list" where
  "ancestors run key =
     (case entry_lineage run key of
        None \<Rightarrow> []
      | Some l \<Rightarrow> if key \<le> ln_parent l then [] else ln_parent l # ancestors run (ln_parent l))"
  by pat_completeness auto
termination
  by (relation "measure (\<lambda>(run, key). unat key)") (auto simp: not_le word_less_nat_alt)

declare ancestors.simps [simp del]

definition satisfies_closure :: "run_state \<Rightarrow> task_key \<Rightarrow> task_key list" where
  "satisfies_closure run key = remdups_adj (sort (key # ancestors run key))"

definition lineage_members :: "run_state \<Rightarrow> task_key \<Rightarrow> u32" where
  "lineage_members run root' =
     (let n = length (filter (\<lambda>e. case te_lineage e of None \<Rightarrow> False | Some l \<Rightarrow> ln_root l = root')
                (rg_entries (st_registry run)))
      in if n < 2 ^ 32 then of_nat n else - 1)"

subsection \<open>What may run\<close>

definition pipeline_reservable :: "run_state \<Rightarrow> bool" where
  "pipeline_reservable run \<longleftrightarrow> pipeline_held run < unat (tl_max_parallel (s4_limits (st_started run)))"

definition dispatch_lease_check ::
  "externals \<Rightarrow> run_state \<Rightarrow> task_key \<Rightarrow> task_entry \<Rightarrow> task_fold \<Rightarrow> bool" where
  "dispatch_lease_check x run key entry task \<longleftrightarrow>
     te_lineage entry \<noteq> None \<or>
     length (tf_generations task) < 2 ^ 32 \<and>
     \<not> overlaps_another (ex_lowercase x) (st_leases run)
         (OwnerGeneration key (of_nat (length (tf_generations task))))
         (predicted_region entry) (s4_path_policy (st_started run))"

definition transaction_is_for :: "run_state \<Rightarrow> task_key \<Rightarrow> bool" where
  "transaction_is_for run key =
     (case st_transaction run of None \<Rightarrow> False | Some tx \<Rightarrow> cr_key (tx_candidate tx) = key)"

definition dep_is_merged :: "run_state \<Rightarrow> task_key \<Rightarrow> bool" where
  "dep_is_merged run dep = (case task_get run dep of None \<Rightarrow> False | Some t \<Rightarrow> tf_state t = Merged)"

definition ready :: "externals \<Rightarrow> run_state \<Rightarrow> task_key \<Rightarrow> bool" where
  "ready x run key =
     (case (task_get run key, registry_get (st_registry run) key) of
        (Some task, Some entry) \<Rightarrow>
          tf_state task = Pending \<and> tf_open task = None \<and>
          list_all (dep_is_merged run) (te_deps entry) \<and>
          \<not> lineage_has_question run key \<and> \<not> holds_task (st_queue run) key \<and>
          \<not> transaction_is_for run key \<and> dispatch_lease_check x run key entry task \<and>
          pipeline_reservable run \<and> \<not> run_is_ending run
      | _ \<Rightarrow> False)"

definition is_retained_now :: "run_state \<Rightarrow> generation_fold \<Rightarrow> bool" where
  "is_retained_now run g =
     (case gf_class g of RetainedIdle _ incarnation \<Rightarrow> incarnation = st_epoch run | _ \<Rightarrow> False)"

definition ready_retry :: "run_state \<Rightarrow> task_key \<Rightarrow> bool" where
  "ready_retry run key =
     (case task_get run key of
        None \<Rightarrow> False
      | Some task \<Rightarrow>
          tf_state task = Pending \<and>
          (case tf_open task of None \<Rightarrow> False | Some g \<Rightarrow> is_retained_now run g) \<and>
          \<not> lineage_has_question run key \<and> \<not> transaction_is_for run key \<and>
          pipeline_reservable run \<and> \<not> run_is_ending run)"

definition open_no_attempt_in :: "task_fold \<Rightarrow> generation_id option" where
  "open_no_attempt_in task =
     (case tf_open task of
        None \<Rightarrow> None
      | Some g \<Rightarrow> if gf_class g = OpenNoAttempt then Some (gf_id g) else None)"

definition eligible_continuation :: "run_state \<Rightarrow> task_key \<Rightarrow> generation_id option" where
  "eligible_continuation run key =
     (if run_is_ending run \<or> lineage_has_question run key then None
      else Option.bind (task_get run key) open_no_attempt_in)"

definition run_first_eligible :: "externals \<Rightarrow> run_state \<Rightarrow> queue_entry option" where
  "run_first_eligible x run =
     first_eligible (ex_lowercase x) (st_queue run) (task_is_awaiting_input run) (st_leases run)
       (s4_path_policy (st_started run))"

definition eligible_integration_candidate :: "externals \<Rightarrow> run_state \<Rightarrow> candidate_ref option" where
  "eligible_integration_candidate x run =
     (if st_transaction run \<noteq> None \<or> \<not> pipeline_reservable run \<or> run_is_ending run then None
      else map_option qe_candidate (run_first_eligible x run))"

definition integration_admissible :: "externals \<Rightarrow> run_state \<Rightarrow> bool" where
  "integration_admissible x run \<longleftrightarrow> eligible_integration_candidate x run \<noteq> None"

definition structurally_admissible :: "externals \<Rightarrow> run_state \<Rightarrow> bool" where
  "structurally_admissible x run \<longleftrightarrow>
     list_ex (\<lambda>i. ready x run (of_nat i) \<or> ready_retry run (of_nat i))
       [0..<min (length (st_tasks run)) (2 ^ 32 - 1)] \<or>
     integration_admissible x run"

definition backoff_pending :: "run_state \<Rightarrow> bool" where
  "backoff_pending run \<longleftrightarrow>
     st_deferred_tasks run \<noteq> [] \<or> list_ex qe_verification_deferred (st_queue run)"

definition questions_open :: "run_state \<Rightarrow> bool" where
  "questions_open run \<longleftrightarrow> st_questions run \<noteq> []"

subsection \<open>The derived outcome\<close>

definition run_common :: "run_state \<Rightarrow> bool" where
  "run_common run \<longleftrightarrow>
     list_all (\<lambda>t. case tf_open t of None \<Rightarrow> True | Some g \<Rightarrow> \<not> blocks_run_end (gf_class g))
       (st_tasks run) \<and>
     st_transaction run = None"

definition dep_has_failed :: "run_state \<Rightarrow> task_key \<Rightarrow> bool" where
  "dep_has_failed run dep = (case task_get run dep of None \<Rightarrow> False | Some t \<Rightarrow> tf_state t = Failed)"

definition becomes_blocked :: "run_state \<Rightarrow> task_key btree_set \<Rightarrow> nat \<Rightarrow> bool" where
  "becomes_blocked run blocked index =
     (index < 2 ^ 32 \<and>
      (case vec_get (st_tasks run) index of
         None \<Rightarrow> False
       | Some task \<Rightarrow>
           tf_state task = Pending \<and> \<not> bs_contains blocked (of_nat index) \<and>
           (case registry_get (st_registry run) (of_nat index) of
              None \<Rightarrow> False
            | Some entry \<Rightarrow>
                list_ex (\<lambda>dep. bs_contains blocked dep \<or> dep_has_failed run dep) (te_deps entry))))"

fun blocked_sweep ::
  "run_state \<Rightarrow> nat list \<Rightarrow> task_key btree_set \<times> bool \<Rightarrow> task_key btree_set \<times> bool" where
  "blocked_sweep run [] acc = acc"
| "blocked_sweep run (index # indices) (blocked, grew) =
     blocked_sweep run indices
       (if becomes_blocked run blocked index then (bs_insert (of_nat index) blocked, True)
        else (blocked, grew))"

text \<open>How many indices are not blocked yet: each sweep that grows the set lowers it.\<close>

definition unblocked :: "run_state \<Rightarrow> task_key btree_set \<Rightarrow> nat" where
  "unblocked run blocked =
     length (filter (\<lambda>i. \<not> bs_contains blocked (of_nat i)) [0..<length (st_tasks run)])"

lemma unblocked_insert:
  "becomes_blocked run blocked i \<Longrightarrow> unblocked run (bs_insert (of_nat i) blocked) < unblocked run blocked"
  unfolding unblocked_def
  by (rule length_filter_strict [where y = i])
    (auto simp: becomes_blocked_def vec_get_def split: if_splits)

lemma blocked_sweep_unblocked:
  "blocked_sweep run is (blocked, grew) = (blocked', grew') \<Longrightarrow>
     unblocked run blocked' \<le> unblocked run blocked \<and>
     (grew' \<and> \<not> grew \<longrightarrow> unblocked run blocked' < unblocked run blocked)"
proof (induction "is" arbitrary: blocked grew)
  case (Cons i "is")
  show ?case
  proof (cases "becomes_blocked run blocked i")
    case True
    with Cons.prems have "unblocked run blocked' \<le> unblocked run (bs_insert (of_nat i) blocked)"
      using Cons.IH by auto
    with unblocked_insert [OF True] show ?thesis by auto
  next
    case False
    with Cons show ?thesis by auto
  qed
qed simp

function blocked_loop :: "run_state \<Rightarrow> task_key btree_set \<Rightarrow> task_key btree_set" where
  "blocked_loop run blocked =
     (case blocked_sweep run [0..<length (st_tasks run)] (blocked, False) of
        (blocked', grew) \<Rightarrow> if grew then blocked_loop run blocked' else blocked')"
  by pat_completeness auto
termination
  by (relation "measure (\<lambda>(run, blocked). unblocked run blocked)")
    (auto dest: blocked_sweep_unblocked [OF sym])

declare blocked_loop.simps [simp del]

definition blocked_tasks :: "run_state \<Rightarrow> task_key btree_set" where
  "blocked_tasks run = blocked_loop run []"

definition complete_shape :: "run_state \<Rightarrow> bool" where
  "complete_shape run =
     (let blocked = blocked_tasks run in
      list_all (\<lambda>(index, task). is_terminal (tf_state task) \<or>
          (tf_state task = Pending \<and> index < 2 ^ 32 \<and> bs_contains blocked (of_nat index)))
        (enumerate 0 (st_tasks run)) \<and>
      st_queue run = [] \<and> \<not> any_candidate_or_lineage (st_leases run))"

definition run_derived_outcome :: "externals \<Rightarrow> run_state \<Rightarrow> derived_outcome" where
  "run_derived_outcome x run =
     (if \<not> run_common run then NotEnding
      else if st_halted_at run \<noteq> None then Ending OutHalted
      else if budget_stop_is_current run then Ending OutBudgetExceeded
      else if structurally_admissible x run \<or> backoff_pending run then NotEnding
      else if questions_open run then Ending OutParked
      else if complete_shape run then Ending OutComplete
      else OutcomeFoldError)"

end
