(* ===== verification/Fold_Check.thy ===== *)
theory Fold_Check
  imports Fold_State
begin

section \<open>Checking an event against the state (src/topology/fold/check\_*.rs, start.rs)\<close>

text \<open>
  One function per \<^verbatim>\<open>check_*\<close> method of the source, in its order of tests: it
  returns the error of the first test that fails, or unit. Nothing here changes the state.
\<close>

subsection \<open>Ladders and leases\<close>

definition check_admission_rungs :: "task_key \<Rightarrow> frozen_ladder \<Rightarrow> (fold_error, unit) result" where
  "check_admission_rungs key ladder =
     (case fl_admission ladder of
        Runnable \<Rightarrow>
          if fl_rungs ladder = [] then Inl (MalformedLadder key RunnableWithoutRungs) else Inr ()
      | HumanBinding options \<Rightarrow>
          if fl_rungs ladder \<noteq> [] then Inl (MalformedLadder key HumanBindingWithRungs)
          else if options = [] then Inl (MalformedLadder key HumanBindingWithoutOptions)
          else Inr ())"

definition check_ladder :: "task_key \<Rightarrow> frozen_ladder \<Rightarrow> (fold_error, unit) result" where
  "check_ladder key ladder =
     (if (case (fl_floor ladder, fl_ceiling ladder) of
            (Some floor', Some ceiling') \<Rightarrow> ceiling' < floor' | _ \<Rightarrow> False)
      then Inl (MalformedLadder key FloorAboveCeiling)
      else if (case (fl_floor ladder, fl_tiers ladder) of
            (Some floor', start # _) \<Rightarrow> start < floor' | _ \<Rightarrow> False)
      then Inl (MalformedLadder key FloorAboveStart)
      else if fl_attempts_per ladder = 0 then Inl (MalformedLadder key NoAttemptsPerRung)
      else if \<exists>(previous, tier) \<in> set (zip (fl_tiers ladder) (drop 1 (fl_tiers ladder))). tier \<le> previous
      then Inl (MalformedLadder key TiersDoNotEscalate)
      else if fl_ceiling ladder \<noteq> tiers_max (fl_tiers ladder)
      then Inl (MalformedLadder key CeilingIsNotHighest)
      else res_bind (check_admission_rungs key ladder) (\<lambda>_.
        if fl_rungs ladder \<noteq> [] \<and> length (fl_rungs ladder) \<noteq> length (fl_tiers ladder)
        then Inl (MalformedLadder key RungCount)
        else if \<exists>(rung, tier) \<in> set (zip (fl_rungs ladder) (fl_tiers ladder)). fg_tier rung \<noteq> tier
        then Inl (MalformedLadder key RungTier)
        else Inr ()))"

definition check_lease_disposition ::
  "string \<Rightarrow> task_key \<Rightarrow> generation_lease \<Rightarrow> lease_disposition \<Rightarrow> (fold_error, unit) result" where
  "check_lease_disposition kind key lease recorded =
     (let expected = expected_disposition lease False in
      if recorded = expected then Inr ()
      else Inl (InvalidLeaseDisposition kind key recorded expected))"

subsection \<open>Run start\<close>

definition check_run_started ::
  "externals \<Rightarrow> topology_fold \<Rightarrow> run_started4 \<Rightarrow> (fold_error, task_registry) result" where
  "check_run_started x fold' started =
     (if fo_run fold' \<noteq> None then Inl AlreadyStarted
      else if \<not> is_topology_schema started then Inl (NotTopologySchema (s4_schema started))
      else (case completeness (s4_runner started) of
        Inl defect \<Rightarrow> Inl (IncompleteRunner defect)
      | Inr _ \<Rightarrow>
          if pp_version (s4_path_policy started) = V1 then Inl (InconsistentRecord ''run_started'')
          else if tl_max_parallel (s4_limits started) = 0
          then Inl (UnusableLimit ''max_parallel'' (tl_max_parallel (s4_limits started)))
          else if s4_normalized_plan_digest started \<noteq> fi_normalized_plan_digest (fo_inputs fold')
          then Inl (FoldDigestMismatch ''normalized plan'' (s4_normalized_plan_digest started)
                      (fi_normalized_plan_digest (fo_inputs fold')))
          else (case originals_with_agents (fi_plan (fo_inputs fold')) (registry_record started)
                       (s4_probed_agents started) of
            Inl error \<Rightarrow> Inl (RegistryUnbuildable error)
          | Inr registry \<Rightarrow>
              let actual = registry_digest (ex_sha256 x) registry in
              if actual \<noteq> s4_registry_digest started
              then Inl (FoldDigestMismatch ''registry'' (s4_registry_digest started) actual)
              else res_bind (res_each (\<lambda>entry. check_ladder (te_key entry) (te_ladder entry))
                               (rg_entries registry)) (\<lambda>_. Inr registry))))"

definition check_run_resumed :: "run_state \<Rightarrow> run_resumed4 \<Rightarrow> (fold_error, unit) result" where
  "check_run_resumed run resumed =
     (case runner_difference (s4_runner (st_started run)) (r4_runner resumed) of
        Some field \<Rightarrow> Inl (RunnerMoved field)
      | None \<Rightarrow> Inr ())"

subsection \<open>Questions\<close>

definition check_new_question ::
  "run_state \<Rightarrow> string \<Rightarrow> frozen_question \<Rightarrow> task_key \<Rightarrow> (fold_error, unit) result" where
  "check_new_question run kind question key =
     (if \<not> is_complete question then Inl (UnanswerableQuestion kind)
      else if fq_key question \<noteq> key then Inl (UnanswerableQuestion kind)
      else if bs_contains (st_seen_questions run) (fq_id question)
      then Inl (WrongQuestion kind (fq_id question))
      else Inr ())"

definition check_question_can_park_lineage ::
  "run_state \<Rightarrow> string \<Rightarrow> task_key \<Rightarrow> (fold_error, unit) result" where
  "check_question_can_park_lineage run kind key =
     (let root' = lineage_root run key in
      if (case st_transaction run of
            None \<Rightarrow> False | Some tx \<Rightarrow> lineage_root run (cr_key (tx_candidate tx)) = root')
      then Inl (InconsistentRecord kind)
      else res_each (\<lambda>entry.
             if lineage_root run (te_key entry) = root' \<and>
                Option.bind (task_get run (te_key entry)) tf_open \<noteq> None
             then Inl (InconsistentRecord kind) else Inr ()) (rg_entries (st_registry run)))"

definition check_question_raised :: "run_state \<Rightarrow> frozen_question \<Rightarrow> (fold_error, unit) result" where
  "check_question_raised run question =
     (let kind = ''question_raised'' in
      res_bind (st_entry run kind (fq_key question)) (\<lambda>_.
      res_bind (st_task run kind (fq_key question)) (\<lambda>task.
      if is_terminal (tf_state task)
      then Inl (WrongTaskState kind (fq_key question) (tf_state task))
      else res_bind (check_question_can_park_lineage run kind (fq_key question)) (\<lambda>_.
        check_new_question run kind question (fq_key question)))))"

fun check_binding_choice ::
  "string \<Rightarrow> question_id \<Rightarrow> nat \<Rightarrow> binding_override option \<Rightarrow> string list option \<Rightarrow>
     (fold_error, unit) result" where
  "check_binding_choice kind question chosen (Some _) None = Inl (WrongQuestion kind question)"
| "check_binding_choice kind question chosen None (Some _) = Inl (WrongQuestion kind question)"
| "check_binding_choice kind question chosen (Some binding) (Some authorized) =
     (case vec_get authorized chosen of
        None \<Rightarrow> Inl (WrongQuestion kind question)
      | Some agent \<Rightarrow>
          if bo_agent binding \<noteq> agent then Inl (WrongQuestion kind question) else Inr ())"
| "check_binding_choice kind question chosen None None = Inr ()"

definition check_declined_transaction ::
  "run_state \<Rightarrow> string \<Rightarrow> question_answered4 \<Rightarrow> (fold_error, unit) result" where
  "check_declined_transaction run kind answered =
     (case st_transaction run of
        None \<Rightarrow> Inr ()
      | Some tx \<Rightarrow>
          if is_declined (qa_answer answered) \<and>
             lineage_root run (cr_key (tx_candidate tx)) = lineage_root run (qa_key answered)
          then (case tx_class tx of
                  VerificationStarted _ _ _ \<Rightarrow> Inr ()
                | Prepared _ _ _ _ _ \<Rightarrow> Inl (InconsistentRecord kind))
          else Inr ())"

definition check_question_answered ::
  "run_state \<Rightarrow> question_answered4 \<Rightarrow> (fold_error, question_origin) result" where
  "check_question_answered run answered =
     (let kind = ''question_answered'' in
      if st_halted_epoch run = Some (st_epoch run) then Inl (FoldRunEnding kind)
      else if budget_stop_is_current run then Inl (FoldRunEnding kind)
      else (case answer_self_consistency answered of
        Inl _ \<Rightarrow> Inl (InconsistentRecord kind)
      | Inr _ \<Rightarrow>
          res_bind (ok_or (bt_get (st_questions run) (qa_question answered))
                      (WrongQuestion kind (qa_question answered))) (\<lambda>open'.
          if fq_key (oq_question open') \<noteq> qa_key answered
          then Inl (WrongQuestion kind (qa_question answered))
          else res_bind (check_declined_transaction run kind answered) (\<lambda>_.
          res_bind (case qa_answer answered of
              Declined _ \<Rightarrow> Inr ()
            | Answered option_index binding_override \<Rightarrow>
                if length (fq_options (oq_question open')) \<le> unat option_index
                then Inl (WrongQuestion kind (qa_question answered))
                else check_binding_choice kind (qa_question answered) (unat option_index)
                       binding_override (oq_binding open')) (\<lambda>_.
          Inr (oq_origin open'))))))"

subsection \<open>Spawns\<close>

definition check_admission ::
  "run_state \<Rightarrow> string \<Rightarrow> frozen_spawn \<Rightarrow> (fold_error, unit) result" where
  "check_admission run kind spawn =
     res_bind (case (sw_admission spawn, fl_admission (te_ladder (sw_entry spawn))) of
         (SpawnRunnable, Runnable) \<Rightarrow> Inr ()
       | (SpawnHumanRequired limit _, Runnable) \<Rightarrow>
           if limit \<noteq> tl_max_merge_repairs (s4_limits (st_started run))
           then Inl (MalformedEntry kind (sw_key spawn)) else Inr ()
       | (SpawnHumanBinding options _, HumanBinding frozen) \<Rightarrow>
           if options \<noteq> frozen then Inl (MalformedEntry kind (sw_key spawn)) else Inr ()
       | _ \<Rightarrow> Inl (MalformedEntry kind (sw_key spawn))) (\<lambda>_.
     case admission_question (sw_admission spawn) of
       Some question \<Rightarrow> check_new_question run ''task_spawned'' question (sw_key spawn)
     | None \<Rightarrow> Inr ())"

definition check_spawn_dep ::
  "run_state \<Rightarrow> string \<Rightarrow> task_key \<Rightarrow> task_key \<times> task_id \<Rightarrow> (fold_error, unit) result" where
  "check_spawn_dep run kind key dd =
     (case dd of (dep, display) \<Rightarrow>
        if key \<le> dep then Inl (MalformedEntry kind key)
        else res_bind (st_entry run kind dep) (\<lambda>known.
          if te_display_id known \<noteq> display then Inl (MalformedEntry kind key)
          else res_bind (st_task run kind dep) (\<lambda>t.
            if tf_state t \<noteq> Merged then Inl (MalformedEntry kind key) else Inr ())))"

definition check_spawn_ancestor ::
  "run_state \<Rightarrow> string \<Rightarrow> task_key \<Rightarrow> task_key \<Rightarrow> (fold_error, unit) result" where
  "check_spawn_ancestor run kind key ancestor =
     res_bind (st_task run kind ancestor) (\<lambda>t.
       if tf_state t = Failed then Inl (MalformedEntry kind key) else Inr ())"

definition check_spawn ::
  "run_state \<Rightarrow> frozen_spawn \<Rightarrow> string \<Rightarrow> (fold_error, unit) result" where
  "check_spawn run spawn kind =
     (let malformed = MalformedEntry kind (sw_key spawn); entry = sw_entry spawn in
      if unat (sw_key spawn) \<noteq> registry_len (st_registry run)
      then Inl (NonDenseKey kind (sw_key spawn) (registry_len (st_registry run)))
      else if te_key entry \<noteq> sw_key spawn then Inl malformed
      else if key_of (st_registry run) (te_display_id entry) \<noteq> None then Inl malformed
      else res_bind (ok_or (te_lineage entry) malformed) (\<lambda>lineage.
        if sw_key spawn \<le> ln_root lineage \<or> sw_key spawn \<le> ln_parent lineage then Inl malformed
        else
          res_bind (st_entry run kind (ln_root lineage)) (\<lambda>_.
          res_bind (st_entry run kind (ln_parent lineage)) (\<lambda>_.
          if lineage_root run (ln_parent lineage) \<noteq> ln_root lineage then Inl malformed
          else
            res_bind (res_each (check_spawn_ancestor run kind (sw_key spawn))
                        [ln_root lineage, ln_parent lineage]) (\<lambda>_.
            if te_allowed_agents entry \<noteq> s4_probed_agents (st_started run) then Inl malformed
            else if length (te_deps entry) \<noteq> length (te_display_deps entry) then Inl malformed
            else
              res_bind (res_each (check_spawn_dep run kind (sw_key spawn))
                          (zip (te_deps entry) (te_display_deps entry))) (\<lambda>_.
              res_bind (check_ladder (sw_key spawn) (te_ladder entry)) (\<lambda>_.
              check_admission run kind spawn)))))))"

definition check_task_spawned :: "run_state \<Rightarrow> frozen_spawn \<Rightarrow> (fold_error, unit) result" where
  "check_task_spawned run spawn =
     res_bind (check_spawn run spawn ''task_spawned'') (\<lambda>_.
     if admission_question (sw_admission spawn) \<noteq> None then
       (case te_lineage (sw_entry spawn) of
          Some lineage \<Rightarrow> check_question_can_park_lineage run ''task_spawned'' (ln_root lineage)
        | None \<Rightarrow> Inr ())
     else Inr ())"

subsection \<open>Dispatch and attempts\<close>

fun check_dispatch_lease ::
  "task_entry \<Rightarrow> task_key \<Rightarrow> lease_grant \<Rightarrow> lineage option \<Rightarrow> (fold_error, unit) result" where
  "check_dispatch_lease entry key (GrantPredicted paths) None =
     (if paths \<noteq> predicted_region entry then Inl (MalformedEntry ''task_dispatched'' key) else Inr ())"
| "check_dispatch_lease entry key (GrantInheritedLineage root') (Some lineage) =
     (if root' \<noteq> ln_root lineage then Inl (MalformedEntry ''task_dispatched'' key) else Inr ())"
| "check_dispatch_lease entry key (GrantPredicted _) (Some _) =
     Inl (MalformedEntry ''task_dispatched'' key)"
| "check_dispatch_lease entry key (GrantInheritedLineage _) None =
     Inl (MalformedEntry ''task_dispatched'' key)"

definition check_dispatched :: "run_state \<Rightarrow> task_dispatched \<Rightarrow> (fold_error, unit) result" where
  "check_dispatched run d =
     (let kind = ''task_dispatched''; key = td_key d in
      res_bind (st_entry run kind key) (\<lambda>entry.
      res_bind (st_task run kind key) (\<lambda>task.
      if tf_state task \<noteq> Pending then Inl (WrongTaskState kind key (tf_state task))
      else if lineage_has_question run key \<or> holds_task (st_queue run) key \<or>
              transaction_is_for run key
      then Inl (InconsistentRecord kind)
      else if tf_open task \<noteq> None then Inl (NotTheOpenGeneration kind key (td_generation d))
      else if unat (td_generation d) \<noteq> length (tf_generations task)
      then Inl (NonDenseKey kind (td_generation d) (length (tf_generations task)))
      else res_bind (check_dispatch_lease entry key (td_lease d) (te_lineage entry)) (\<lambda>_.
        if (te_lineage entry \<noteq> None) \<noteq> (td_source_candidate d \<noteq> None)
        then Inl (MalformedEntry kind key) else Inr ()))))"

definition open_generation ::
  "string \<Rightarrow> task_fold \<Rightarrow> task_key \<Rightarrow> generation_id \<Rightarrow> (fold_error, generation_fold) result" where
  "open_generation kind task key generation =
     res_bind (ok_or (tf_open task) (NotTheOpenGeneration kind key generation)) (\<lambda>open'.
     if gf_id open' \<noteq> generation then Inl (NotTheOpenGeneration kind key generation)
     else Inr open')"

definition in_flight ::
  "string \<Rightarrow> task_fold \<Rightarrow> task_key \<Rightarrow> generation_id \<Rightarrow> attempt_number \<Rightarrow>
     (fold_error, generation_fold) result" where
  "in_flight kind task key generation attempt =
     res_bind (open_generation kind task key generation) (\<lambda>open'.
     case gf_class open' of
       InFlight running \<Rightarrow>
         if running \<noteq> attempt then Inl (WrongAttempt kind key generation attempt running)
         else Inr open'
     | _ \<Rightarrow> Inl (NotTheOpenGeneration kind key generation))"

definition check_resumes ::
  "run_state \<Rightarrow> attempt_started4 \<Rightarrow> generation_fold \<Rightarrow> (fold_error, unit) result" where
  "check_resumes run started generation =
     (case (gf_class generation, as_resume_session started) of
        (OpenNoAttempt, None) \<Rightarrow> Inr ()
      | (RetainedIdle session incarnation, Some resumed) \<Rightarrow>
          if session \<noteq> resumed then Inl (StaleIncarnation (as_key started) (as_attempt started))
          else if incarnation \<noteq> st_epoch run
          then Inl (StaleIncarnation (as_key started) (as_attempt started))
          else Inr ()
      | _ \<Rightarrow> Inl (NotTheOpenGeneration ''attempt_started'' (as_key started) (as_generation started)))"

definition check_attempt_binding ::
  "run_state \<Rightarrow> attempt_started4 \<Rightarrow> task_entry \<Rightarrow> (fold_error, unit) result" where
  "check_attempt_binding run started entry =
     (let mismatch = BindingMismatch (as_key started) (as_attempt started) in
      case bt_get (st_overrides run) (as_key started) of
        Some binding \<Rightarrow>
          res_bind (ok_or (fl_floor (te_ladder entry)) mismatch) (\<lambda>floor'.
          if as_binding started \<noteq> binding_from_override binding floor' then Inl mismatch else Inr ())
      | None \<Rightarrow>
          res_bind (ok_or (vec_get (fl_rungs (te_ladder entry)) (unat (as_rung started))) mismatch)
            (\<lambda>frozen.
          if \<not> matches_frozen (as_binding started) frozen
                 (implementation_for (fl_effort (te_ladder entry)) (fg_tier frozen))
          then Inl mismatch else Inr ()))"

definition check_attempt_started :: "run_state \<Rightarrow> attempt_started4 \<Rightarrow> (fold_error, unit) result" where
  "check_attempt_started run started =
     (let kind = ''attempt_started''; key = as_key started in
      res_bind (st_entry run kind key) (\<lambda>entry.
      res_bind (st_task run kind key) (\<lambda>task.
      res_bind (open_generation kind task key (as_generation started)) (\<lambda>generation.
      if lineage_has_question run key then Inl (InconsistentRecord kind)
      else
        res_bind (check_resumes run started generation) (\<lambda>_.
        res_bind (ok_or (checked_add (gf_attempts generation) 1) (InconsistentRecord kind))
          (\<lambda>next_attempt.
        if as_attempt started \<noteq> next_attempt
        then Inl (WrongAttempt kind key (as_generation started) (as_attempt started) next_attempt)
        else if as_rung started \<noteq> tf_rung task
        then Inl (WrongRung kind key (as_attempt started) (as_rung started))
        else
          res_bind (check_attempt_binding run started entry) (\<lambda>_.
          if (te_lineage entry \<noteq> None) \<noteq> (as_materialization_observed started \<noteq> None)
          then Inl (MalformedEntry kind key) else Inr ())))))))"

definition next_rung :: "task_fold \<Rightarrow> nat \<Rightarrow> u32 option" where
  "next_rung task rungs =
     (case checked_add (tf_rung task) 1 of
        None \<Rightarrow> None
      | Some r \<Rightarrow> if unat r < rungs then Some r else None)"

definition check_settled_transition ::
  "run_state \<Rightarrow> task_fold \<Rightarrow> attempt_finished4 \<Rightarrow> settlement_transition \<Rightarrow> (fold_error, unit) result" where
  "check_settled_transition run task finished transition =
     (let kind = ''attempt_finished''; key = af4_key finished in
      case transition of
        TrParked question \<Rightarrow> check_new_question run kind question key
      | TrEscalated rung \<Rightarrow>
          res_bind (st_entry run kind key) (\<lambda>entry.
          if next_rung task (length (fl_rungs (te_ladder entry))) \<noteq> Some rung
          then Inl (WrongRung kind key (af4_attempt finished) rung) else Inr ())
      | _ \<Rightarrow> Inr ())"

definition check_attempt_finished :: "run_state \<Rightarrow> attempt_finished4 \<Rightarrow> (fold_error, unit) result" where
  "check_attempt_finished run finished =
     (let kind = ''attempt_finished''; key = af4_key finished;
          wrong = WrongAttempt kind key (af4_generation finished) (at_attempt (af4_record finished))
                    (af4_attempt finished) in
      res_bind (st_task run kind key) (\<lambda>task.
      res_bind (in_flight kind task key (af4_generation finished) (af4_attempt finished))
        (\<lambda>generation.
      case af4_settlement finished of
        SettleRetained session incarnation \<Rightarrow>
          if incarnation \<noteq> st_epoch run then Inl (StaleIncarnation key (af4_attempt finished))
          else if at_attempt (af4_record finished) \<noteq> af4_attempt finished then Inl wrong
          else if is_successful (af4_record finished) then Inl (InconsistentRecord kind)
          else if at_session_id (af4_record finished) \<noteq> Some session
          then Inl (InconsistentRecord kind)
          else Inr ()
      | SettleClosed transition lease \<Rightarrow>
          if transition = TrSucceeded then Inl (InconsistentRecord kind)
          else if is_successful (af4_record finished) then Inl (InconsistentRecord kind)
          else if at_attempt (af4_record finished) \<noteq> af4_attempt finished then Inl wrong
          else
            res_bind (check_lease_disposition kind key (gf_lease generation) lease) (\<lambda>_.
            check_settled_transition run task finished transition))))"

definition check_attempt_interrupted ::
  "run_state \<Rightarrow> attempt_interrupted4 \<Rightarrow> (fold_error, unit) result" where
  "check_attempt_interrupted run i =
     (let kind = ''attempt_interrupted'' in
      res_bind (st_task run kind (ai_key i)) (\<lambda>task.
      res_bind (in_flight kind task (ai_key i) (ai_generation i) (ai_attempt i)) (\<lambda>generation.
      check_lease_disposition kind (ai_key i) (gf_lease generation) (ai_lease i))))"

definition check_generation_closed ::
  "run_state \<Rightarrow> generation_closed \<Rightarrow> (fold_error, unit) result" where
  "check_generation_closed run closed =
     (let kind = ''generation_closed''; key = gc_key closed in
      res_bind (st_task run kind key) (\<lambda>task.
      res_bind (open_generation kind task key (gc_generation closed)) (\<lambda>generation.
      if (case gf_class generation of
            OpenNoAttempt \<Rightarrow> False | RetainedIdle _ _ \<Rightarrow> False | _ \<Rightarrow> True)
      then Inl (NotTheOpenGeneration kind key (gc_generation closed))
      else check_lease_disposition kind key (gf_lease generation) (gc_lease closed))))"

definition check_defer_wait_elapsed :: "run_state \<Rightarrow> (fold_error, unit) result" where
  "check_defer_wait_elapsed run =
     (if st_halted_at run \<noteq> None then Inl (FoldRunEnding ''defer_wait_elapsed'')
      else if budget_stop_is_current run then Inl (FoldRunEnding ''defer_wait_elapsed'')
      else Inr ())"

end
