(* ===== verification/Fold_Integration.thy ===== *)
theory Fold_Integration
  imports Fold_Check
begin

section \<open>Checking candidates, integrations and the run's end\<close>

text \<open>
  The rest of the \<^verbatim>\<open>check_*\<close> methods: src/topology/fold/check\_candidate.rs,
  check\_integration.rs and check\_end.rs, and the dispatch over the kinds of events in
  start.rs.
\<close>

subsection \<open>Candidates\<close>

fun check_lease_effect ::
  "candidate_lease_effect \<Rightarrow> task_key option \<Rightarrow> path_set \<Rightarrow> (fold_error, unit) result" where
  "check_lease_effect (ReplacesPredicted paths) None actual =
     (if paths \<noteq> actual then Inl (InconsistentRecord ''candidate_prepared'') else Inr ())"
| "check_lease_effect (CandidateWidensLineage root' paths) (Some lineage_root') actual =
     (if root' \<noteq> lineage_root' then Inl (InconsistentRecord ''candidate_prepared'')
      else if paths \<noteq> actual then Inl (InconsistentRecord ''candidate_prepared'')
      else Inr ())"
| "check_lease_effect (ReplacesPredicted _) (Some _) _ = Inl (InconsistentRecord ''candidate_prepared'')"
| "check_lease_effect (CandidateWidensLineage _ _) None _ =
     Inl (InconsistentRecord ''candidate_prepared'')"

definition refuse_repeated_candidate ::
  "generation_fold \<Rightarrow> task_key \<Rightarrow> generation_id \<Rightarrow> (fold_error, unit) result" where
  "refuse_repeated_candidate generation key generation_id =
     (if gf_candidate generation \<noteq> None
      then Inl (NotTheOpenGeneration ''candidate_prepared'' key generation_id) else Inr ())"

definition promoting_candidate :: "generation_fold \<Rightarrow> prepared_candidate option" where
  "promoting_candidate generation =
     (if gf_class generation = Promoting then gf_candidate generation else None)"

fun is_in_flight :: "generation_class \<Rightarrow> bool" where
  "is_in_flight (InFlight _) = True"
| "is_in_flight _ = False"

definition check_candidate_prepared ::
  "run_state \<Rightarrow> candidate_prepared \<Rightarrow> (fold_error, unit) result" where
  "check_candidate_prepared run prepared =
     (let kind = ''candidate_prepared''; key = cp_key prepared in
      res_bind (st_entry run kind key) (\<lambda>entry.
      res_bind (st_task run kind key) (\<lambda>task.
      res_bind (open_generation kind task key (cp_generation prepared)) (\<lambda>generation.
      if \<not> is_in_flight (gf_class generation)
      then Inl (NotTheOpenGeneration kind key (cp_generation prepared))
      else
        res_bind (refuse_repeated_candidate generation key (cp_generation prepared)) (\<lambda>_.
        if \<not> is_successful (cp_attempt prepared) then Inl (InconsistentRecord kind)
        else if map rr_pass (at_reviews (cp_attempt prepared)) \<noteq>
                map lens_name (fv_obliged_lenses (te_reviews entry))
        then Inl (InconsistentRecord kind)
        else if at_attempt (cp_attempt prepared) \<noteq> gf_attempts generation
        then Inl (WrongAttempt kind key (cp_generation prepared) (at_attempt (cp_attempt prepared))
                    (gf_attempts generation))
        else if \<not> parent_is_base prepared then Inl (InconsistentRecord kind)
        else if cp_base_sha prepared \<noteq> gf_base_sha generation then Inl (InconsistentRecord kind)
        else check_lease_effect (cp_lease_effect prepared) (map_option ln_root (te_lineage entry))
               (cp_actual_paths prepared))))))"

definition check_candidate_created ::
  "run_state \<Rightarrow> task_candidate_created \<Rightarrow> (fold_error, unit) result" where
  "check_candidate_created run created =
     (let kind = ''task_candidate_created''; candidate = tc_candidate created in
      res_bind (st_task run kind (cr_key candidate)) (\<lambda>task.
      res_bind (open_generation kind task (cr_key candidate) (cr_generation candidate)) (\<lambda>generation.
      res_bind (ok_or (promoting_candidate generation)
                  (NotTheOpenGeneration kind (cr_key candidate) (cr_generation candidate)))
        (\<lambda>prepared.
      if pc_candidate prepared \<noteq> candidate then Inl (InconsistentRecord kind) else Inr ()))))"

subsection \<open>Integration\<close>

definition check_transaction_start ::
  "externals \<Rightarrow> run_state \<Rightarrow> string \<Rightarrow> sequence_id \<Rightarrow> candidate_ref \<Rightarrow>
     (fold_error, queue_entry) result" where
  "check_transaction_start x run kind sequence candidate =
     (case st_transaction run of
        Some open' \<Rightarrow> Inl (TransactionAlreadyOpen kind sequence (tx_sequence open'))
      | None \<Rightarrow>
          if sequence \<noteq> st_next_sequence run
          then Inl (NonDenseSequence kind sequence (st_next_sequence run))
          else
            res_bind (ok_or (run_first_eligible x run)
                        (NotFirstEligible kind (cr_key candidate) (cr_generation candidate)))
              (\<lambda>first.
            if qe_candidate first \<noteq> candidate
            then Inl (NotFirstEligible kind (cr_key candidate) (cr_generation candidate))
            else Inr first))"

definition open_transaction ::
  "run_state \<Rightarrow> string \<Rightarrow> sequence_id \<Rightarrow> (fold_error, transaction) result" where
  "open_transaction run kind sequence =
     res_bind (ok_or (st_transaction run) (WrongSequence kind sequence None)) (\<lambda>open'.
     if tx_sequence open' \<noteq> sequence
     then Inl (WrongSequence kind sequence (Some (tx_sequence open')))
     else Inr open')"

definition find_prepared :: "task_fold \<Rightarrow> candidate_ref \<Rightarrow> prepared_candidate option" where
  "find_prepared task candidate =
     (case find (\<lambda>p. cr_generation (pc_candidate p) = cr_generation candidate)
             (List.map_filter gf_candidate (tf_generations task)) of
        None \<Rightarrow> None
      | Some p \<Rightarrow> if pc_candidate p = candidate then Some p else None)"

definition prepared_record ::
  "run_state \<Rightarrow> string \<Rightarrow> candidate_ref \<Rightarrow> (fold_error, prepared_candidate) result" where
  "prepared_record run kind candidate =
     res_bind (st_task run kind (cr_key candidate)) (\<lambda>task.
     ok_or (find_prepared task candidate) (InconsistentRecord kind))"

definition check_verification_started ::
  "externals \<Rightarrow> run_state \<Rightarrow> merge_verification_started \<Rightarrow> (fold_error, unit) result" where
  "check_verification_started x run started =
     (let kind = ''merge_verification_started'' in
      res_bind (check_transaction_start x run kind (vs_sequence started) (vs_candidate started)) (\<lambda>_.
      res_bind (prepared_record run kind (vs_candidate started)) (\<lambda>prepared.
      if vs_expected_head started = pc_base_sha prepared then Inl (InconsistentRecord kind)
      else (case vs_basis started of
              BasisAlreadyPresent \<Rightarrow>
                if vs_proposed_sha started \<noteq> vs_expected_head started
                then Inl (InconsistentRecord kind) else Inr ()
            | BasisStaleClean _ \<Rightarrow>
                if vs_proposed_sha started = vs_expected_head started
                then Inl (InconsistentRecord kind) else Inr ()))))"

fun is_verifying :: "transaction_class \<Rightarrow> bool" where
  "is_verifying (VerificationStarted _ _ _) = True"
| "is_verifying (Prepared _ _ _ _ _) = False"

definition check_candidate_not_failed ::
  "run_state \<Rightarrow> string \<Rightarrow> transaction \<Rightarrow> (fold_error, unit) result" where
  "check_candidate_not_failed run kind tx =
     res_bind (st_task run kind (cr_key (tx_candidate tx))) (\<lambda>t.
     if tf_state t = Failed then Inl (InconsistentRecord kind) else Inr ())"

definition check_spend_unrecorded ::
  "run_state \<Rightarrow> string \<Rightarrow> sequence_id \<Rightarrow> (fold_error, unit) result" where
  "check_spend_unrecorded run kind sequence =
     (if st_charged run = Some sequence then Inl (InconsistentRecord kind) else Inr ())"

definition check_defer_allowance ::
  "unavailable_cause \<Rightarrow> unavailable_outcome \<Rightarrow> u32 \<Rightarrow> u32 \<Rightarrow> (fold_error, unit) result" where
  "check_defer_allowance cause outcome taken max' =
     (let next' = sat_add taken 1 in
      case outcome of
        UnavailableDeferred defers \<Rightarrow>
          if defers \<noteq> next' then Inl (InvalidDefers defers)
          else if max' \<le> defers then Inl (InvalidDefers defers)
          else Inr ()
      | UnavailableParked _ \<Rightarrow>
          if (case cause of CauseInfrastructure _ \<Rightarrow> True | CauseHumanRequired _ \<Rightarrow> False) \<and> next' < max'
          then Inl (InvalidDefers next') else Inr ())"

definition check_verification_unavailable ::
  "run_state \<Rightarrow> merge_verification_unavailable \<Rightarrow> (fold_error, unit) result" where
  "check_verification_unavailable run u =
     (let kind = ''merge_verification_unavailable'' in
      res_bind (open_transaction run kind (vu_sequence u)) (\<lambda>tx.
      if \<not> is_verifying (tx_class tx) then Inl (InconsistentRecord kind)
      else
        res_bind (check_candidate_not_failed run kind tx) (\<lambda>_.
        res_bind (check_spend_unrecorded run kind (vu_sequence u)) (\<lambda>_.
        case unavailable_self_consistency u of
          Inl _ \<Rightarrow> Inl (InconsistentRecord kind)
        | Inr _ \<Rightarrow>
            res_bind (ok_or (queue_get (st_queue run) (cr_key (tx_candidate tx))
                               (cr_generation (tx_candidate tx))) (InconsistentRecord kind)) (\<lambda>queued.
            res_bind (case vu_outcome u of
                UnavailableParked question \<Rightarrow>
                  check_new_question run kind question (cr_key (tx_candidate tx))
              | UnavailableDeferred _ \<Rightarrow> Inr ()) (\<lambda>_.
            check_defer_allowance (vu_cause u) (vu_outcome u) (qe_defers queued)
              (tl_max_defers (s4_limits (st_started run)))))))))"

definition check_verification_interrupted ::
  "run_state \<Rightarrow> merge_verification_interrupted \<Rightarrow> (fold_error, unit) result" where
  "check_verification_interrupted run i =
     (let kind = ''merge_verification_interrupted'' in
      res_bind (open_transaction run kind (vi_sequence i)) (\<lambda>tx.
      if \<not> is_verifying (tx_class tx) then Inl (InconsistentRecord kind) else Inr ()))"

definition check_verification_charged ::
  "run_state \<Rightarrow> merge_verification_charged \<Rightarrow> (fold_error, unit) result" where
  "check_verification_charged run c =
     (let kind = ''merge_verification_charged'' in
      if vc_reviews c = [] then Inl (InconsistentRecord kind)
      else
        res_bind (check_spend_unrecorded run kind (vc_sequence c)) (\<lambda>_.
        res_bind (open_transaction run kind (vc_sequence c)) (\<lambda>tx.
        if \<not> is_verifying (tx_class tx) then Inl (InconsistentRecord kind) else Inr ())))"

fun check_proposal_pin :: "verification_basis \<Rightarrow> git_ref option \<Rightarrow> (fold_error, unit) result" where
  "check_proposal_pin (BasisStaleClean prepared_ref) pin =
     (if pin \<noteq> Some prepared_ref then Inl (InconsistentRecord ''merge_prepared'') else Inr ())"
| "check_proposal_pin BasisAlreadyPresent pin =
     (if pin \<noteq> None then Inl (InconsistentRecord ''merge_prepared'') else Inr ())"

definition check_fast_publication ::
  "externals \<Rightarrow> run_state \<Rightarrow> merge_prepared \<Rightarrow> prepared_candidate \<Rightarrow> (fold_error, unit) result" where
  "check_fast_publication x run prepared candidate_record =
     (let kind = ''merge_prepared'' in
      res_bind (check_transaction_start x run kind (mp_sequence prepared) (merge_candidate prepared))
        (\<lambda>_.
      if mp_expected_head prepared \<noteq> pc_base_sha candidate_record then Inl (InconsistentRecord kind)
      else if mp_proposed_sha prepared \<noteq> cr_commit_sha (pc_candidate candidate_record)
      then Inl (InconsistentRecord kind)
      else (case mp_verification_source prepared of
              SourceCandidatePrepared key generation \<Rightarrow>
                if key \<noteq> mp_key prepared \<or> generation \<noteq> mp_generation prepared
                then Inl (InconsistentRecord kind) else Inr ()
            | SourceVerification _ \<Rightarrow> Inl (InconsistentRecord kind))))"

definition check_verified_publication ::
  "run_state \<Rightarrow> merge_prepared \<Rightarrow> (fold_error, unit) result" where
  "check_verified_publication run prepared =
     (let kind = ''merge_prepared'' in
      res_bind (open_transaction run kind (mp_sequence prepared)) (\<lambda>tx.
      case tx_class tx of
        Prepared _ _ _ _ _ \<Rightarrow> Inl (InconsistentRecord kind)
      | VerificationStarted basis expected_head proposed_sha \<Rightarrow>
          res_bind (check_candidate_not_failed run kind tx) (\<lambda>_.
          res_bind (check_spend_unrecorded run kind (mp_sequence prepared)) (\<lambda>_.
          if tx_candidate tx \<noteq> merge_candidate prepared then Inl (InconsistentRecord kind)
          else if (mp_disposition prepared = PdStaleClean) \<noteq>
                  (case basis of BasisStaleClean _ \<Rightarrow> True | BasisAlreadyPresent \<Rightarrow> False)
          then Inl (InconsistentRecord kind)
          else if mp_expected_head prepared \<noteq> expected_head then Inl (InconsistentRecord kind)
          else if mp_proposed_sha prepared \<noteq> proposed_sha then Inl (InconsistentRecord kind)
          else
            res_bind (check_proposal_pin basis (mp_prepared_ref prepared)) (\<lambda>_.
            case mp_verification_source prepared of
              SourceVerification sequence \<Rightarrow>
                if sequence \<noteq> mp_sequence prepared then Inl (InconsistentRecord kind) else Inr ()
            | SourceCandidatePrepared _ _ \<Rightarrow> Inl (InconsistentRecord kind))))))"

definition check_merge_prepared ::
  "externals \<Rightarrow> run_state \<Rightarrow> merge_prepared \<Rightarrow> (fold_error, unit) result" where
  "check_merge_prepared x run prepared =
     (let kind = ''merge_prepared'' in
      case prepared_self_consistency prepared of
        Inl _ \<Rightarrow> Inl (InconsistentRecord kind)
      | Inr _ \<Rightarrow>
          res_bind (prepared_record run kind (merge_candidate prepared)) (\<lambda>candidate_record.
          if lineage_has_question run (mp_key prepared) then Inl (InconsistentRecord kind)
          else
            res_bind (if mp_disposition prepared = PdFast
                      then check_fast_publication x run prepared candidate_record
                      else check_verified_publication run prepared) (\<lambda>_.
            let derived = satisfies_closure run (mp_key prepared) in
            if mp_satisfies prepared \<noteq> derived
            then Inl (InvalidSatisfies kind (mp_satisfies prepared) derived)
            else Inr ())))"

fun rejection_lineage_root ::
  "rejection_lease_effect \<Rightarrow> lineage option \<Rightarrow> task_key \<Rightarrow> (fold_error, task_key) result" where
  "rejection_lineage_root (CreatesLineage root' _) None key =
     (if root' \<noteq> key then Inl (InconsistentRecord ''merge_rejected'') else Inr root')"
| "rejection_lineage_root (RejectionWidensLineage root' _) (Some lineage) key =
     (if root' \<noteq> ln_root lineage then Inl (InconsistentRecord ''merge_rejected'') else Inr root')"
| "rejection_lineage_root (CreatesLineage _ _) (Some _) key = Inl (InconsistentRecord ''merge_rejected'')"
| "rejection_lineage_root (RejectionWidensLineage _ _) None key =
     Inl (InconsistentRecord ''merge_rejected'')"

definition check_rejection_transaction ::
  "externals \<Rightarrow> run_state \<Rightarrow> merge_rejected \<Rightarrow> (fold_error, unit) result" where
  "check_rejection_transaction x run rejected =
     (let kind = ''merge_rejected'' in
      case mr_disposition rejected of
        RdConflict _ \<Rightarrow>
          res_bind (check_transaction_start x run kind (mr_sequence rejected) (mr_candidate rejected))
            (\<lambda>_. Inr ())
      | RdCodeRejected verification \<Rightarrow>
          res_bind (open_transaction run kind (mr_sequence rejected)) (\<lambda>tx.
          case tx_class tx of
            Prepared _ _ _ _ _ \<Rightarrow> Inl (InconsistentRecord kind)
          | VerificationStarted _ expected_head _ \<Rightarrow>
              res_bind (check_candidate_not_failed run kind tx) (\<lambda>_.
              res_bind (check_spend_unrecorded run kind (mr_sequence rejected)) (\<lambda>_.
              if tx_candidate tx \<noteq> mr_candidate rejected then Inl (InconsistentRecord kind)
              else if mr_rejecting_head rejected \<noteq> expected_head then Inl (InconsistentRecord kind)
              else if vr_verdict verification = VerdictPassed then Inl (InconsistentRecord kind)
              else Inr ()))))"

definition check_repair_admission ::
  "run_state \<Rightarrow> spawn_admission \<Rightarrow> u32 \<Rightarrow> (fold_error, unit) result" where
  "check_repair_admission run admission index =
     (let over_limit = tl_max_merge_repairs (s4_limits (st_started run)) \<le> index in
      case admission of
        SpawnRunnable \<Rightarrow>
          if over_limit then Inl (InconsistentRecord ''merge_rejected'') else Inr ()
      | SpawnHumanRequired _ _ \<Rightarrow>
          if \<not> over_limit then Inl (InconsistentRecord ''merge_rejected'') else Inr ()
      | SpawnHumanBinding _ _ \<Rightarrow> Inr ())"

definition check_merge_rejected ::
  "externals \<Rightarrow> run_state \<Rightarrow> merge_rejected \<Rightarrow> (fold_error, unit) result" where
  "check_merge_rejected x run rejected =
     (let kind = ''merge_rejected''; key = cr_key (mr_candidate rejected) in
      res_bind (check_rejection_transaction x run rejected) (\<lambda>_.
      res_bind (st_entry run kind key) (\<lambda>entry.
      res_bind (rejection_lineage_root (mr_lease_effect rejected) (te_lineage entry) key) (\<lambda>root'.
      res_bind (check_spawn run (mr_repair rejected) kind) (\<lambda>_.
      res_bind (ok_or (te_lineage (sw_entry (mr_repair rejected))) (InconsistentRecord kind))
        (\<lambda>lineage.
      if ln_root lineage \<noteq> root' then Inl (InconsistentRecord kind)
      else if ln_parent lineage \<noteq> key then Inl (InconsistentRecord kind)
      else if ln_index lineage \<noteq> lineage_members run root' then Inl (InconsistentRecord kind)
      else check_repair_admission run (sw_admission (mr_repair rejected))
             (lineage_members run root')))))))"

fun check_lease_release ::
  "merge_lease_release \<Rightarrow> task_key option \<Rightarrow> candidate_ref \<Rightarrow> (fold_error, unit) result" where
  "check_lease_release (ReleaseCandidate key generation) None candidate =
     (if key \<noteq> cr_key candidate \<or> generation \<noteq> cr_generation candidate
      then Inl (InconsistentRecord ''task_merged'') else Inr ())"
| "check_lease_release (ReleaseLineage root') (Some settled) candidate =
     (if root' \<noteq> settled then Inl (InconsistentRecord ''task_merged'') else Inr ())"
| "check_lease_release (ReleaseCandidate _ _) (Some _) candidate = Inl (InconsistentRecord ''task_merged'')"
| "check_lease_release (ReleaseLineage _) None candidate = Inl (InconsistentRecord ''task_merged'')"

definition check_task_merged :: "run_state \<Rightarrow> task_merged \<Rightarrow> (fold_error, unit) result" where
  "check_task_merged run merged =
     (let kind = ''task_merged'' in
      res_bind (open_transaction run kind (tm_sequence merged)) (\<lambda>tx.
      case tx_class tx of
        VerificationStarted _ _ _ \<Rightarrow> Inl (InconsistentRecord kind)
      | Prepared _ proposed_sha satisfies _ _ \<Rightarrow>
          if tm_merged_sha merged \<noteq> proposed_sha then Inl (InconsistentRecord kind)
          else if tm_satisfies merged \<noteq> satisfies
          then Inl (InvalidSatisfies kind (tm_satisfies merged) satisfies)
          else
            res_bind (st_entry run kind (cr_key (tx_candidate tx))) (\<lambda>entry.
            check_lease_release (tm_lease_release merged) (map_option ln_root (te_lineage entry))
              (tx_candidate tx))))"

subsection \<open>The end\<close>

definition check_budget_exceeded ::
  "run_state \<Rightarrow> budget_exceeded4 \<Rightarrow> (fold_error, unit) result" where
  "check_budget_exceeded run e =
     (let kind = ''budget_exceeded'' in
      if \<not> f64_is_finite (b4_limit_usd e) \<or> \<not> f64_is_finite (b4_spent_usd e)
      then Inl (InconsistentRecord kind)
      else if f64_less (b4_spent_usd e) (b4_limit_usd e) then Inl (InconsistentRecord kind)
      else
        res_bind (case b4_key e of
            None \<Rightarrow> Inr () | Some key \<Rightarrow> res_bind (st_entry run kind key) (\<lambda>_. Inr ())) (\<lambda>_.
        if b4_epoch e \<noteq> st_epoch run then Inl (InconsistentRecord kind) else Inr ()))"

definition check_run_finished ::
  "externals \<Rightarrow> run_state \<Rightarrow> run_finished4 \<Rightarrow> (fold_error, unit) result" where
  "check_run_finished x run finished =
     (let derived = run_derived_outcome x run in
      if derived \<noteq> Ending (f4_outcome finished)
      then Inl (OutcomeMismatch (f4_outcome finished) derived)
      else if f4_halted_at finished \<noteq> st_halted_at run then Inl (InconsistentRecord ''run_finished'')
      else Inr ())"

subsection \<open>One event\<close>

datatype derived = DerivedNone | DerivedRegistry task_registry | DerivedAnswer question_origin

definition no_derived :: "(fold_error, unit) result \<Rightarrow> (fold_error, derived) result" where
  "no_derived r = res_bind r (\<lambda>_. Inr DerivedNone)"

fun continues_run :: "run_outcome \<Rightarrow> topology_event_body \<Rightarrow> bool" where
  "continues_run OutParked (EvRunResumed _) = True"
| "continues_run OutBudgetExceeded (EvRunResumed _) = True"
| "continues_run _ _ = False"

definition check_body ::
  "externals \<Rightarrow> run_state \<Rightarrow> topology_event_body \<Rightarrow> (fold_error, derived) result" where
  "check_body x run body =
     (case body of
        EvRunStarted _ \<Rightarrow> Inl AlreadyStarted
      | EvRunResumed d \<Rightarrow> no_derived (check_run_resumed run d)
      | EvTaskSpawned d \<Rightarrow> no_derived (check_task_spawned run (tsp_spawn d))
      | EvTaskDispatched d \<Rightarrow> no_derived (check_dispatched run d)
      | EvAttemptStarted d \<Rightarrow> no_derived (check_attempt_started run d)
      | EvAttemptFinished d \<Rightarrow> no_derived (check_attempt_finished run d)
      | EvAttemptInterrupted d \<Rightarrow> no_derived (check_attempt_interrupted run d)
      | EvGenerationClosed d \<Rightarrow> no_derived (check_generation_closed run d)
      | EvDeferWaitElapsed _ \<Rightarrow> no_derived (check_defer_wait_elapsed run)
      | EvCandidatePrepared d \<Rightarrow> no_derived (check_candidate_prepared run d)
      | EvTaskCandidateCreated d \<Rightarrow> no_derived (check_candidate_created run d)
      | EvMergeVerificationStarted d \<Rightarrow> no_derived (check_verification_started x run d)
      | EvMergeVerificationUnavailable d \<Rightarrow> no_derived (check_verification_unavailable run d)
      | EvMergeVerificationInterrupted d \<Rightarrow> no_derived (check_verification_interrupted run d)
      | EvMergePrepared d \<Rightarrow> no_derived (check_merge_prepared x run d)
      | EvMergeRejected d \<Rightarrow> no_derived (check_merge_rejected x run d)
      | EvTaskMerged d \<Rightarrow> no_derived (check_task_merged run d)
      | EvQuestionRaised d \<Rightarrow> no_derived (check_question_raised run (qr_question d))
      | EvQuestionAnswered d \<Rightarrow>
          res_bind (check_question_answered run d) (\<lambda>origin'. Inr (DerivedAnswer origin'))
      | EvBudgetExceeded d \<Rightarrow> no_derived (check_budget_exceeded run d)
      | EvRunFinished d \<Rightarrow> no_derived (check_run_finished x run d)
      | EvCapacitySnapshot _ \<Rightarrow> Inr DerivedNone
      | EvPoolExhausted _ \<Rightarrow> Inr DerivedNone
      | EvDesignDefect _ \<Rightarrow> Inr DerivedNone
      | EvMergeVerificationCharged d \<Rightarrow> no_derived (check_verification_charged run d))"

definition check_started_run ::
  "externals \<Rightarrow> run_state \<Rightarrow> topology_event_body \<Rightarrow> (fold_error, derived) result" where
  "check_started_run x run body =
     (case st_finished run of
        Some outcome \<Rightarrow>
          if continues_run outcome body then check_body x run body
          else Inl (RunIsOver (event_kind body) outcome)
      | None \<Rightarrow> check_body x run body)"

end
