(* ===== verification/Fold_Apply.thy ===== *)
theory Fold_Apply
  imports Fold_Integration
begin

section \<open>Applying an event (src/topology/fold/apply.rs) and folding a log (fold.rs, parse.rs)\<close>

text \<open>
  One state transformer per \<^verbatim>\<open>apply_*\<close> method, then the transition (check, then
  apply), the replay of a log, and the reading of a log file into events. A
  \<^verbatim>\<open>\&mut self\<close> method is a function from the state to the state; a reference taken
  with \<^verbatim>\<open>get_mut\<close> is an update of that one element.
\<close>

subsection \<open>Small updates\<close>

definition update_task :: "task_key \<Rightarrow> (task_fold \<Rightarrow> task_fold) \<Rightarrow> run_state \<Rightarrow> run_state" where
  "update_task key f run = run\<lparr>st_tasks := update_at (unat key) f (st_tasks run)\<rparr>"

definition update_open_generation ::
  "task_key \<Rightarrow> (generation_fold \<Rightarrow> generation_fold) \<Rightarrow> run_state \<Rightarrow> run_state" where
  "update_open_generation key f run = update_task key (tf_update_open f) run"

definition defer_marks :: "task_state \<Rightarrow> task_key \<Rightarrow> task_key btree_set \<Rightarrow> task_key btree_set" where
  "defer_marks state key deferred =
     (case state of
        Deferred \<Rightarrow> bs_insert key deferred
      | AwaitingInput \<Rightarrow> deferred
      | _ \<Rightarrow> bs_remove key deferred)"

definition set_state :: "task_key \<Rightarrow> task_state \<Rightarrow> run_state \<Rightarrow> run_state" where
  "set_state key state run =
     update_task key (\<lambda>t. t\<lparr>tf_state := state\<rparr>)
       (run\<lparr>st_deferred_tasks := defer_marks state key (st_deferred_tasks run)\<rparr>)"

definition set_defers :: "task_key \<Rightarrow> u32 \<Rightarrow> run_state \<Rightarrow> run_state" where
  "set_defers key defers run = update_task key (\<lambda>t. t\<lparr>tf_defers := defers\<rparr>) run"

definition open_the_question ::
  "frozen_question \<Rightarrow> question_origin \<Rightarrow> string list option \<Rightarrow> run_state \<Rightarrow> run_state" where
  "open_the_question question origin' binding run =
     run\<lparr>st_seen_questions := bs_insert (fq_id question) (st_seen_questions run),
         st_questions := bt_insert (fq_id question)
           \<lparr>oq_question = question, oq_origin = origin', oq_binding = binding\<rparr> (st_questions run)\<rparr>"

fun releases_own_region :: "generation_lease \<Rightarrow> bool" where
  "releases_own_region OwnLease = True"
| "releases_own_region (InheritedLineage _) = False"

definition run_open :: "run_state \<Rightarrow> task_key \<Rightarrow> generation_fold option" where
  "run_open run key = Option.bind (task_get run key) tf_open"

definition update_leases :: "(lease_table \<Rightarrow> lease_table) \<Rightarrow> run_state \<Rightarrow> run_state" where
  "update_leases f run = run\<lparr>st_leases := f (st_leases run)\<rparr>"

definition update_queue :: "(candidate_queue \<Rightarrow> candidate_queue) \<Rightarrow> run_state \<Rightarrow> run_state" where
  "update_queue f run = run\<lparr>st_queue := f (st_queue run)\<rparr>"

definition close_generation :: "task_key \<Rightarrow> run_state \<Rightarrow> run_state" where
  "close_generation key run =
     (case run_open run key of
        None \<Rightarrow> run
      | Some g \<Rightarrow>
          let closed = update_open_generation key (\<lambda>g. g\<lparr>gf_class := Closed\<rparr>) run in
          if releases_own_region (gf_lease g)
          then update_leases (release (OwnerGeneration key (gf_id g))) closed
          else closed)"

definition charge_allowance :: "task_key \<Rightarrow> attempt_record \<Rightarrow> run_state \<Rightarrow> run_state" where
  "charge_allowance key record run =
     (if spends_allowance (map_option failure_record_shape (at_failure record))
      then update_task key (\<lambda>t. t\<lparr>tf_attempts_on_rung := sat_add (tf_attempts_on_rung t) 1\<rparr>) run
      else run)"

definition record_halt :: "task_key \<Rightarrow> run_state \<Rightarrow> run_state" where
  "record_halt key run =
     (if st_halted_at run = None
      then run\<lparr>st_halted_at := Some key, st_halted_epoch := Some (st_epoch run)\<rparr>
      else run)"

definition is_lineage_member :: "run_state \<Rightarrow> task_key \<Rightarrow> bool" where
  "is_lineage_member run key \<longleftrightarrow> entry_lineage run key \<noteq> None"

subsection \<open>Derived task states\<close>

record visible_facts =
  vf_terminal :: bool
  vf_own_question :: bool
  vf_queued_candidate :: bool
  vf_owns_transaction :: bool
  vf_repair_child :: bool
  vf_unelapsed_backoff :: bool

definition derived_state :: "visible_facts \<Rightarrow> task_state option" where
  "derived_state facts =
     (if vf_terminal facts then None
      else Some (if vf_own_question facts then AwaitingInput
                 else if vf_queued_candidate facts \<or> vf_owns_transaction facts then AwaitingMerge
                 else if vf_repair_child facts then AwaitingRepair
                 else if vf_unelapsed_backoff facts then Deferred
                 else Pending))"

definition facts_of :: "run_state \<Rightarrow> task_key \<Rightarrow> task_fold \<Rightarrow> visible_facts" where
  "facts_of run key task =
     \<lparr>vf_terminal = is_terminal (tf_state task),
      vf_own_question = (open_question_for run key \<noteq> None),
      vf_queued_candidate = holds_task (st_queue run) key,
      vf_owns_transaction = transaction_is_for run key,
      vf_repair_child =
        list_ex (\<lambda>e. case te_lineage e of None \<Rightarrow> False | Some l \<Rightarrow> ln_parent l = key)
          (rg_entries (st_registry run)),
      vf_unelapsed_backoff = bs_contains (st_deferred_tasks run) key\<rparr>"

definition refresh_task_state :: "task_key \<Rightarrow> run_state \<Rightarrow> run_state" where
  "refresh_task_state key run =
     (case task_get run key of
        None \<Rightarrow> run
      | Some task \<Rightarrow>
          (case derived_state (facts_of run key task) of
             None \<Rightarrow> run
           | Some state \<Rightarrow> set_state key state run))"

definition wake_backoff :: "run_state \<Rightarrow> run_state" where
  "wake_backoff run =
     (let woken = update_queue wake_deferred run in
      foldl (\<lambda>s key. refresh_task_state key s) (woken\<lparr>st_deferred_tasks := []\<rparr>)
        (st_deferred_tasks woken))"

subsection \<open>Failing a lineage\<close>

definition release_generation_holdings :: "task_key \<Rightarrow> run_state \<Rightarrow> generation_id \<Rightarrow> run_state" where
  "release_generation_holdings key run generation =
     update_leases (release (OwnerCandidate key generation))
       (update_queue (queue_remove key generation) run)"

definition release_holdings_of :: "task_key \<Rightarrow> run_state \<Rightarrow> run_state" where
  "release_holdings_of key run =
     (let run' = (case task_get run key of
                    None \<Rightarrow> run
                  | Some task \<Rightarrow> foldl (release_generation_holdings key) run
                                   (map gf_id (tf_generations task))) in
      case entry_lineage run' key of
        Some lineage \<Rightarrow> update_leases (release (OwnerLineage (ln_root lineage))) run'
      | None \<Rightarrow>
          if holds (st_leases run') (OwnerLineage key)
          then update_leases (release (OwnerLineage key)) run' else run')"

definition lineage_member_keys :: "run_state \<Rightarrow> task_key \<Rightarrow> task_key list" where
  "lineage_member_keys run root' =
     map te_key (filter (\<lambda>e. te_key e = root' \<or>
       (case te_lineage e of None \<Rightarrow> False | Some l \<Rightarrow> ln_root l = root'))
       (rg_entries (st_registry run)))"

definition fail_member :: "run_state \<Rightarrow> task_key \<Rightarrow> run_state" where
  "fail_member run member =
     (let closed = release_holdings_of member (close_generation member run);
          calm = closed\<lparr>st_deferred_tasks := bs_remove member (st_deferred_tasks closed)\<rparr> in
      case task_get calm member of
        None \<Rightarrow> calm
      | Some task \<Rightarrow> if tf_state task \<noteq> Merged then set_state member Failed calm else calm)"

definition fail_lineage :: "task_key \<Rightarrow> run_state \<Rightarrow> run_state" where
  "fail_lineage key run =
     (let root' = lineage_root run key;
          failed = foldl fail_member run (lineage_member_keys run root') in
      failed\<lparr>st_questions := bt_retain (\<lambda>_ open'.
        fq_key (oq_question open') \<noteq> root' \<and>
        \<not> (case entry_lineage failed (fq_key (oq_question open')) of
             None \<Rightarrow> False | Some l \<Rightarrow> ln_root l = root')) (st_questions failed)\<rparr>)"

subsection \<open>Events\<close>

definition apply_resumed :: "run_resumed4 \<Rightarrow> run_state \<Rightarrow> run_state" where
  "apply_resumed resumed run =
     wake_backoff (run\<lparr>st_epoch := sat_add (st_epoch run) 1,
       st_incarnation := r4_incarnation resumed, st_budget_stop := None, st_finished := None\<rparr>)"

definition register_spawn :: "frozen_spawn \<Rightarrow> run_state \<Rightarrow> run_state" where
  "register_spawn spawn run =
     (let registered = run\<lparr>st_registry := register_entry (sw_entry spawn) (st_registry run),
                            st_tasks := st_tasks run @ [task_fold_new]\<rparr> in
      case sw_admission spawn of
        SpawnRunnable \<Rightarrow> registered
      | SpawnHumanRequired _ question \<Rightarrow>
          set_state (sw_key spawn) AwaitingInput
            (open_the_question question AdmissionOrigin None registered)
      | SpawnHumanBinding options question \<Rightarrow>
          set_state (sw_key spawn) AwaitingInput
            (open_the_question question AdmissionOrigin (Some options) registered))"

definition apply_dispatched :: "task_dispatched \<Rightarrow> run_state \<Rightarrow> run_state" where
  "apply_dispatched d run =
     (let (lease, granted) =
        (case td_lease d of
           GrantPredicted paths \<Rightarrow>
             (OwnLease,
              update_leases (grant (OwnerGeneration (td_key d) (td_generation d)) paths) run)
         | GrantInheritedLineage root' \<Rightarrow> (InheritedLineage root', run)) in
      update_task (td_key d) (\<lambda>t. t\<lparr>tf_generations := tf_generations t @
        [\<lparr>gf_id = td_generation d, gf_class = OpenNoAttempt, gf_base_sha = td_base_sha d,
          gf_lease = lease, gf_attempts = 0, gf_candidate = None\<rparr>]\<rparr>) granted)"

definition apply_attempt_started :: "attempt_started4 \<Rightarrow> run_state \<Rightarrow> run_state" where
  "apply_attempt_started d run =
     update_open_generation (as_key d)
       (\<lambda>g. g\<lparr>gf_class := InFlight (as_attempt d), gf_attempts := as_attempt d\<rparr>) run"

definition apply_transition :: "task_key \<Rightarrow> settlement_transition \<Rightarrow> run_state \<Rightarrow> run_state" where
  "apply_transition key transition run =
     (case transition of
        TrSucceeded \<Rightarrow> run
      | TrRetry \<Rightarrow> close_generation key run
      | TrEscalated rung \<Rightarrow>
          update_task key (\<lambda>t. t\<lparr>tf_rung := rung, tf_attempts_on_rung := 0\<rparr>)
            (close_generation key run)
      | TrDeferred defers _ \<Rightarrow>
          set_defers key defers (set_state key Deferred (close_generation key run))
      | TrParked question \<Rightarrow>
          set_state key AwaitingInput
            (open_the_question question AdmissionOrigin None (close_generation key run))
      | TrFailed halts_run _ \<Rightarrow>
          (let failed = set_state key Failed (close_generation key run);
               lineage_failed = (if is_lineage_member failed key then fail_lineage key failed
                                 else failed) in
           if halts_run then record_halt key lineage_failed else lineage_failed))"

definition apply_settlement :: "attempt_finished4 \<Rightarrow> run_state \<Rightarrow> run_state" where
  "apply_settlement finished run =
     (let charged = charge_allowance (af4_key finished) (af4_record finished) run in
      case af4_settlement finished of
        SettleRetained session incarnation \<Rightarrow>
          update_open_generation (af4_key finished)
            (\<lambda>g. g\<lparr>gf_class := RetainedIdle session incarnation\<rparr>) charged
      | SettleClosed transition _ \<Rightarrow> apply_transition (af4_key finished) transition charged)"

fun take_candidate_region ::
  "candidate_lease_effect \<Rightarrow> task_key \<Rightarrow> generation_id \<Rightarrow> lease_table \<Rightarrow> lease_table" where
  "take_candidate_region (ReplacesPredicted paths) key generation leases =
     grant (OwnerCandidate key generation) paths (release (OwnerGeneration key generation) leases)"
| "take_candidate_region (CandidateWidensLineage root' paths) key generation leases =
     widen_lineage root' paths leases"

definition apply_candidate_prepared :: "candidate_prepared \<Rightarrow> run_state \<Rightarrow> run_state" where
  "apply_candidate_prepared prepared run =
     set_state (cp_key prepared) AwaitingMerge
       (update_leases (take_candidate_region (cp_lease_effect prepared) (cp_key prepared)
                         (cp_generation prepared))
         (charge_allowance (cp_key prepared) (cp_attempt prepared)
           (update_open_generation (cp_key prepared)
             (\<lambda>g. g\<lparr>gf_candidate := Some
                      \<lparr>pc_candidate = candidate_of_prepared prepared, pc_base_sha = cp_base_sha prepared,
                       pc_tree_sha = cp_tree_sha prepared, pc_paths = cp_actual_paths prepared\<rparr>,
                    gf_class := Promoting\<rparr>) run)))"

definition apply_candidate_created :: "candidate_ref \<Rightarrow> run_state \<Rightarrow> run_state" where
  "apply_candidate_created candidate run =
     (let paths = (case Option.bind (run_open run (cr_key candidate)) gf_candidate of
                     None \<Rightarrow> RepoWide | Some prepared \<Rightarrow> pc_paths prepared);
          lineage_root' = map_option ln_root (entry_lineage run (cr_key candidate)) in
      update_queue (queue_push
        \<lparr>qe_candidate = candidate, qe_paths = paths, qe_lineage_root = lineage_root',
         qe_verification_deferred = False, qe_defers = 0, qe_sequence = None\<rparr>)
        (close_generation (cr_key candidate) run))"

definition bump_sequence :: "run_state \<Rightarrow> run_state" where
  "bump_sequence run = run\<lparr>st_next_sequence := sat_add (st_next_sequence run) 1\<rparr>"

definition update_queued ::
  "candidate_ref \<Rightarrow> (queue_entry \<Rightarrow> queue_entry) \<Rightarrow> run_state \<Rightarrow> run_state" where
  "update_queued candidate f run =
     update_queue (queue_update (cr_key candidate) (cr_generation candidate) f) run"

definition apply_verification_started :: "merge_verification_started \<Rightarrow> run_state \<Rightarrow> run_state" where
  "apply_verification_started started run =
     (update_queued (vs_candidate started) (\<lambda>e. e\<lparr>qe_sequence := Some (vs_sequence started)\<rparr>)
        (bump_sequence run))
     \<lparr>st_transaction := Some
        \<lparr>tx_sequence = vs_sequence started, tx_candidate = vs_candidate started,
         tx_class = VerificationStarted (vs_basis started) (vs_expected_head started)
                      (vs_proposed_sha started)\<rparr>\<rparr>"

definition apply_verification_unavailable ::
  "merge_verification_unavailable \<Rightarrow> run_state \<Rightarrow> run_state" where
  "apply_verification_unavailable u run =
     (case st_transaction run of
        None \<Rightarrow> run
      | Some tx \<Rightarrow>
          let taken = run\<lparr>st_transaction := None\<rparr>; candidate = tx_candidate tx in
          (case vu_outcome u of
             UnavailableDeferred defers \<Rightarrow>
               update_queued candidate
                 (\<lambda>e. e\<lparr>qe_sequence := None, qe_verification_deferred := True, qe_defers := defers\<rparr>)
                 taken
           | UnavailableParked question \<Rightarrow>
               set_state (cr_key candidate) AwaitingInput
                 (open_the_question question VerificationPark None
                   (update_queued candidate (\<lambda>e. e\<lparr>qe_sequence := None\<rparr>) taken))))"

definition release_transaction :: "run_state \<Rightarrow> run_state" where
  "release_transaction run =
     (case st_transaction run of
        None \<Rightarrow> run
      | Some tx \<Rightarrow>
          update_queued (tx_candidate tx) (\<lambda>e. e\<lparr>qe_sequence := None\<rparr>)
            (run\<lparr>st_transaction := None\<rparr>))"

definition apply_merge_prepared :: "merge_prepared \<Rightarrow> run_state \<Rightarrow> run_state" where
  "apply_merge_prepared prepared run =
     (if mp_disposition prepared = PdFast then bump_sequence run else run)
     \<lparr>st_transaction := Some
        \<lparr>tx_sequence = mp_sequence prepared, tx_candidate = merge_candidate prepared,
         tx_class = Prepared (mp_expected_head prepared) (mp_proposed_sha prepared)
                      (mp_satisfies prepared) (mp_disposition prepared)
                      (mp_prepared_ref prepared)\<rparr>\<rparr>"

definition candidate_paths_held :: "run_state \<Rightarrow> candidate_ref \<Rightarrow> path_set option" where
  "candidate_paths_held run candidate =
     (case task_get run (cr_key candidate) of
        None \<Rightarrow> None
      | Some task \<Rightarrow>
          (case find (\<lambda>g. gf_id g = cr_generation candidate) (tf_generations task) of
             None \<Rightarrow> None
           | Some g \<Rightarrow> map_option pc_paths (gf_candidate g)))"

fun rejection_leases ::
  "rejection_lease_effect \<Rightarrow> candidate_ref \<Rightarrow> path_set option \<Rightarrow> lease_table \<Rightarrow> lease_table" where
  "rejection_leases (CreatesLineage root' paths) candidate held leases =
     release (OwnerCandidate (cr_key candidate) (cr_generation candidate))
       (widen_lineage root' paths
         (case held of None \<Rightarrow> leases | Some region \<Rightarrow> widen_lineage root' region leases))"
| "rejection_leases (RejectionWidensLineage root' paths) candidate held leases =
     widen_lineage root' paths leases"

definition apply_merge_rejected :: "merge_rejected \<Rightarrow> run_state \<Rightarrow> run_state" where
  "apply_merge_rejected rejected run =
     (let candidate = mr_candidate rejected;
          bumped = (case mr_disposition rejected of
                      RdConflict _ \<Rightarrow> bump_sequence run | RdCodeRejected _ \<Rightarrow> run);
          dequeued = update_queue (queue_remove (cr_key candidate) (cr_generation candidate))
                       (bumped\<lparr>st_transaction := None\<rparr>) in
      register_spawn (mr_repair rejected)
        (set_state (cr_key candidate) AwaitingRepair
          (update_leases (rejection_leases (mr_lease_effect rejected) candidate
                            (candidate_paths_held dequeued candidate)) dequeued)))"

fun merge_release_owner :: "merge_lease_release \<Rightarrow> lease_owner" where
  "merge_release_owner (ReleaseCandidate key generation) = OwnerCandidate key generation"
| "merge_release_owner (ReleaseLineage root') = OwnerLineage root'"

definition apply_task_merged :: "task_merged \<Rightarrow> run_state \<Rightarrow> run_state" where
  "apply_task_merged merged run =
     (case st_transaction run of
        None \<Rightarrow> run
      | Some tx \<Rightarrow>
          let dequeued = update_queue (queue_remove (cr_key (tx_candidate tx))
                           (cr_generation (tx_candidate tx))) (run\<lparr>st_transaction := None\<rparr>) in
          update_leases (release (merge_release_owner (tm_lease_release merged)))
            (foldl (\<lambda>s key. set_state key Merged s) dequeued (tm_satisfies merged)))"

definition apply_answer :: "question_answered4 \<Rightarrow> run_state \<Rightarrow> run_state" where
  "apply_answer answered run =
     (let closed = run\<lparr>st_questions := bt_remove (qa_question answered) (st_questions run)\<rparr> in
      case qa_answer answered of
        Answered _ binding_override \<Rightarrow>
          refresh_task_state (qa_key answered)
            (case binding_override of
               None \<Rightarrow> closed
             | Some binding \<Rightarrow>
                 closed\<lparr>st_overrides := bt_insert (qa_key answered) binding (st_overrides closed)\<rparr>)
      | Declined decline_halts_run \<Rightarrow>
          (let failed = fail_lineage (qa_key answered) closed in
           if decline_halts_run then record_halt (qa_key answered) failed else failed))"

definition apply_body :: "topology_event_body \<Rightarrow> derived \<Rightarrow> run_state \<Rightarrow> run_state" where
  "apply_body body derived run =
     (case body of
        EvRunStarted _ \<Rightarrow> run
      | EvRunResumed d \<Rightarrow> apply_resumed d run
      | EvTaskSpawned d \<Rightarrow> register_spawn (tsp_spawn d) run
      | EvTaskDispatched d \<Rightarrow> apply_dispatched d run
      | EvAttemptStarted d \<Rightarrow> apply_attempt_started d run
      | EvAttemptFinished d \<Rightarrow> apply_settlement d run
      | EvAttemptInterrupted d \<Rightarrow> set_state (ai_key d) Pending (close_generation (ai_key d) run)
      | EvGenerationClosed d \<Rightarrow> close_generation (gc_key d) run
      | EvDeferWaitElapsed _ \<Rightarrow> wake_backoff run
      | EvCandidatePrepared d \<Rightarrow> apply_candidate_prepared d run
      | EvTaskCandidateCreated d \<Rightarrow> apply_candidate_created (tc_candidate d) run
      | EvMergeVerificationStarted d \<Rightarrow> apply_verification_started d run
      | EvMergeVerificationUnavailable d \<Rightarrow> apply_verification_unavailable d run
      | EvMergeVerificationInterrupted _ \<Rightarrow> release_transaction run
      | EvMergePrepared d \<Rightarrow> apply_merge_prepared d run
      | EvMergeRejected d \<Rightarrow> apply_merge_rejected d run
      | EvTaskMerged d \<Rightarrow> apply_task_merged d run
      | EvQuestionRaised d \<Rightarrow>
          set_state (fq_key (qr_question d)) AwaitingInput
            (open_the_question (qr_question d) AdmissionOrigin None run)
      | EvQuestionAnswered d \<Rightarrow>
          (case derived of DerivedAnswer _ \<Rightarrow> apply_answer d run | _ \<Rightarrow> run)
      | EvBudgetExceeded d \<Rightarrow>
          if budget_stop_is_current run then run
          else run\<lparr>st_budget_stop := Some (budget_exceeded_stop d)\<rparr>
      | EvRunFinished d \<Rightarrow> run\<lparr>st_finished := Some (f4_outcome d)\<rparr>
      | EvCapacitySnapshot _ \<Rightarrow> run
      | EvPoolExhausted _ \<Rightarrow> run
      | EvDesignDefect _ \<Rightarrow> run
      | EvMergeVerificationCharged d \<Rightarrow> run\<lparr>st_charged := Some (vc_sequence d)\<rparr>)"

subsection \<open>The fold\<close>

record topology_delta =
  de_event :: topology_event
  de_derived :: derived

definition plan_transition ::
  "externals \<Rightarrow> topology_fold \<Rightarrow> topology_event \<Rightarrow> (fold_error, topology_delta) result" where
  "plan_transition x fold' event =
     (if fo_poisoned fold' then Inl Poisoned
      else (case ev_body event of
        EvRunStarted d \<Rightarrow>
          res_bind (check_run_started x fold' d) (\<lambda>registry.
          Inr \<lparr>de_event = event, de_derived = DerivedRegistry registry\<rparr>)
      | body \<Rightarrow>
          res_bind (ok_or (fo_run fold') (NotStarted (event_kind body))) (\<lambda>run.
          res_bind (check_started_run x run body) (\<lambda>derived.
          Inr \<lparr>de_event = event, de_derived = derived\<rparr>))))"

definition apply_delta :: "topology_delta \<Rightarrow> topology_fold \<Rightarrow> topology_fold" where
  "apply_delta delta fold' =
     (case (ev_body (de_event delta), de_derived delta) of
        (EvRunStarted d, DerivedRegistry registry) \<Rightarrow> fold'\<lparr>fo_run := Some (run_start d registry)\<rparr>
      | (body, derived) \<Rightarrow> fold'\<lparr>fo_run := map_option (apply_body body derived) (fo_run fold')\<rparr>)"

fun replay_from ::
  "externals \<Rightarrow> topology_fold \<Rightarrow> topology_event list \<Rightarrow> (fold_error, topology_fold) result" where
  "replay_from x fold' [] = Inr fold'"
| "replay_from x fold' (event # events) =
     res_bind (plan_transition x fold' event) (\<lambda>delta.
     replay_from x (apply_delta delta fold') events)"

definition replay ::
  "externals \<Rightarrow> frozen_inputs \<Rightarrow> topology_event list \<Rightarrow> (fold_error, topology_fold) result" where
  "replay x inputs events = replay_from x (fold_new inputs) events"

definition poison :: "topology_fold \<Rightarrow> topology_fold" where
  "poison fold' = fold'\<lparr>fo_poisoned := True\<rparr>"

definition fold_ready :: "externals \<Rightarrow> topology_fold \<Rightarrow> task_key \<Rightarrow> bool" where
  "fold_ready x fold' key \<longleftrightarrow>
     \<not> fo_poisoned fold' \<and> (case fo_run fold' of None \<Rightarrow> False | Some run \<Rightarrow> ready x run key)"

definition fold_derived_outcome :: "externals \<Rightarrow> topology_fold \<Rightarrow> derived_outcome" where
  "fold_derived_outcome x fold' =
     (case fo_run fold' of None \<Rightarrow> NotEnding | Some run \<Rightarrow> run_derived_outcome x run)"

definition frozen_rung_binding :: "run_state \<Rightarrow> task_key \<Rightarrow> u32 \<Rightarrow> rung_binding option" where
  "frozen_rung_binding run key rung =
     (case registry_get (st_registry run) key of
        None \<Rightarrow> None
      | Some entry \<Rightarrow>
          map_option (\<lambda>frozen. binding_from_frozen frozen
              (implementation_for (fl_effort (te_ladder entry)) (fg_tier frozen)))
            (vec_get (fl_rungs (te_ladder entry)) (unat rung)))"

definition run_rung_binding :: "run_state \<Rightarrow> task_key \<Rightarrow> u32 \<Rightarrow> rung_binding option" where
  "run_rung_binding run key rung =
     (case registry_get (st_registry run) key of
        None \<Rightarrow> None
      | Some entry \<Rightarrow>
          (case bt_get (st_overrides run) key of
             Some binding \<Rightarrow>
               map_option (binding_from_override binding) (fl_floor (te_ladder entry))
           | None \<Rightarrow> frozen_rung_binding run key rung))"

subsection \<open>Reading the log\<close>

text \<open>
  \<^verbatim>\<open>split_inclusive('\n')\<close> as the complete lines and the unterminated rest; decoding
  one line (UTF-8, then JSON) is a parameter, since serde is not code of the repository.
\<close>

definition newline :: char where
  "newline = CHR 0x0A"

fun committed_lines :: "string \<Rightarrow> string list" where
  "committed_lines [] = []"
| "committed_lines (c # cs) =
     (if c = newline then [] # committed_lines cs
      else (case committed_lines cs of [] \<Rightarrow> [] | l # ls \<Rightarrow> (c # l) # ls))"

fun parse_lines ::
  "(string \<Rightarrow> topology_event option) \<Rightarrow> nat \<Rightarrow> string list \<Rightarrow>
     (fold_error, topology_event list) result" where
  "parse_lines decode line [] = Inr []"
| "parse_lines decode line (l # ls) =
     (case decode l of
        None \<Rightarrow> Inl (RewrittenLog line)
      | Some event \<Rightarrow> res_bind (parse_lines decode (Suc line) ls) (\<lambda>events. Inr (event # events)))"

definition parse_log ::
  "(string \<Rightarrow> topology_event option) \<Rightarrow> string \<Rightarrow> (fold_error, topology_event list) result" where
  "parse_log decode bytes = parse_lines decode 1 (committed_lines bytes)"

end
