(* ===== verification/Fold_Frame.thy ===== *)
theory Fold_Frame
  imports Fold_Apply
begin

section \<open>What each transition leaves alone\<close>

text \<open>
  For every state transformer of Fold\_Apply the fields it does not touch, as rewrite rules.
  They let the invariants look only at the transitions that concern them.
\<close>

lemma foldl_same: "(\<And>s x. g (f s x) = g s) \<Longrightarrow> g (foldl f s xs) = g s"
  by (induction xs arbitrary: s) auto

lemma frame_update_task [simp]:
  "st_started (update_task key f run) = st_started run"
  "st_registry (update_task key f run) = st_registry run"
  "st_epoch (update_task key f run) = st_epoch run"
  "st_incarnation (update_task key f run) = st_incarnation run"
  "st_questions (update_task key f run) = st_questions run"
  "st_seen_questions (update_task key f run) = st_seen_questions run"
  "st_deferred_tasks (update_task key f run) = st_deferred_tasks run"
  "st_overrides (update_task key f run) = st_overrides run"
  "st_queue (update_task key f run) = st_queue run"
  "st_leases (update_task key f run) = st_leases run"
  "st_transaction (update_task key f run) = st_transaction run"
  "st_next_sequence (update_task key f run) = st_next_sequence run"
  "st_charged (update_task key f run) = st_charged run"
  "st_halted_at (update_task key f run) = st_halted_at run"
  "st_halted_epoch (update_task key f run) = st_halted_epoch run"
  "st_budget_stop (update_task key f run) = st_budget_stop run"
  "st_finished (update_task key f run) = st_finished run"
  by (simp_all add: update_task_def)

lemma frame_update_open_generation [simp]:
  "st_started (update_open_generation key g run) = st_started run"
  "st_registry (update_open_generation key g run) = st_registry run"
  "st_epoch (update_open_generation key g run) = st_epoch run"
  "st_incarnation (update_open_generation key g run) = st_incarnation run"
  "st_questions (update_open_generation key g run) = st_questions run"
  "st_seen_questions (update_open_generation key g run) = st_seen_questions run"
  "st_deferred_tasks (update_open_generation key g run) = st_deferred_tasks run"
  "st_overrides (update_open_generation key g run) = st_overrides run"
  "st_queue (update_open_generation key g run) = st_queue run"
  "st_leases (update_open_generation key g run) = st_leases run"
  "st_transaction (update_open_generation key g run) = st_transaction run"
  "st_next_sequence (update_open_generation key g run) = st_next_sequence run"
  "st_charged (update_open_generation key g run) = st_charged run"
  "st_halted_at (update_open_generation key g run) = st_halted_at run"
  "st_halted_epoch (update_open_generation key g run) = st_halted_epoch run"
  "st_budget_stop (update_open_generation key g run) = st_budget_stop run"
  "st_finished (update_open_generation key g run) = st_finished run"
  by (simp_all add: update_open_generation_def)

lemma frame_set_state [simp]:
  "st_started (set_state key s run) = st_started run"
  "st_registry (set_state key s run) = st_registry run"
  "st_epoch (set_state key s run) = st_epoch run"
  "st_incarnation (set_state key s run) = st_incarnation run"
  "st_questions (set_state key s run) = st_questions run"
  "st_seen_questions (set_state key s run) = st_seen_questions run"
  "st_overrides (set_state key s run) = st_overrides run"
  "st_queue (set_state key s run) = st_queue run"
  "st_leases (set_state key s run) = st_leases run"
  "st_transaction (set_state key s run) = st_transaction run"
  "st_next_sequence (set_state key s run) = st_next_sequence run"
  "st_charged (set_state key s run) = st_charged run"
  "st_halted_at (set_state key s run) = st_halted_at run"
  "st_halted_epoch (set_state key s run) = st_halted_epoch run"
  "st_budget_stop (set_state key s run) = st_budget_stop run"
  "st_finished (set_state key s run) = st_finished run"
  by (simp_all add: set_state_def)

lemma frame_set_defers [simp]:
  "st_started (set_defers key n run) = st_started run"
  "st_registry (set_defers key n run) = st_registry run"
  "st_epoch (set_defers key n run) = st_epoch run"
  "st_incarnation (set_defers key n run) = st_incarnation run"
  "st_questions (set_defers key n run) = st_questions run"
  "st_seen_questions (set_defers key n run) = st_seen_questions run"
  "st_deferred_tasks (set_defers key n run) = st_deferred_tasks run"
  "st_overrides (set_defers key n run) = st_overrides run"
  "st_queue (set_defers key n run) = st_queue run"
  "st_leases (set_defers key n run) = st_leases run"
  "st_transaction (set_defers key n run) = st_transaction run"
  "st_next_sequence (set_defers key n run) = st_next_sequence run"
  "st_charged (set_defers key n run) = st_charged run"
  "st_halted_at (set_defers key n run) = st_halted_at run"
  "st_halted_epoch (set_defers key n run) = st_halted_epoch run"
  "st_budget_stop (set_defers key n run) = st_budget_stop run"
  "st_finished (set_defers key n run) = st_finished run"
  by (simp_all add: set_defers_def)

lemma frame_open_the_question [simp]:
  "st_started (open_the_question q og b run) = st_started run"
  "st_registry (open_the_question q og b run) = st_registry run"
  "st_tasks (open_the_question q og b run) = st_tasks run"
  "st_epoch (open_the_question q og b run) = st_epoch run"
  "st_incarnation (open_the_question q og b run) = st_incarnation run"
  "st_deferred_tasks (open_the_question q og b run) = st_deferred_tasks run"
  "st_overrides (open_the_question q og b run) = st_overrides run"
  "st_queue (open_the_question q og b run) = st_queue run"
  "st_leases (open_the_question q og b run) = st_leases run"
  "st_transaction (open_the_question q og b run) = st_transaction run"
  "st_next_sequence (open_the_question q og b run) = st_next_sequence run"
  "st_charged (open_the_question q og b run) = st_charged run"
  "st_halted_at (open_the_question q og b run) = st_halted_at run"
  "st_halted_epoch (open_the_question q og b run) = st_halted_epoch run"
  "st_budget_stop (open_the_question q og b run) = st_budget_stop run"
  "st_finished (open_the_question q og b run) = st_finished run"
  by (simp_all add: open_the_question_def)

lemma frame_update_leases [simp]:
  "st_started (update_leases h run) = st_started run"
  "st_registry (update_leases h run) = st_registry run"
  "st_tasks (update_leases h run) = st_tasks run"
  "st_epoch (update_leases h run) = st_epoch run"
  "st_incarnation (update_leases h run) = st_incarnation run"
  "st_questions (update_leases h run) = st_questions run"
  "st_seen_questions (update_leases h run) = st_seen_questions run"
  "st_deferred_tasks (update_leases h run) = st_deferred_tasks run"
  "st_overrides (update_leases h run) = st_overrides run"
  "st_queue (update_leases h run) = st_queue run"
  "st_transaction (update_leases h run) = st_transaction run"
  "st_next_sequence (update_leases h run) = st_next_sequence run"
  "st_charged (update_leases h run) = st_charged run"
  "st_halted_at (update_leases h run) = st_halted_at run"
  "st_halted_epoch (update_leases h run) = st_halted_epoch run"
  "st_budget_stop (update_leases h run) = st_budget_stop run"
  "st_finished (update_leases h run) = st_finished run"
  by (simp_all add: update_leases_def)

lemma frame_update_queue [simp]:
  "st_started (update_queue h run) = st_started run"
  "st_registry (update_queue h run) = st_registry run"
  "st_tasks (update_queue h run) = st_tasks run"
  "st_epoch (update_queue h run) = st_epoch run"
  "st_incarnation (update_queue h run) = st_incarnation run"
  "st_questions (update_queue h run) = st_questions run"
  "st_seen_questions (update_queue h run) = st_seen_questions run"
  "st_deferred_tasks (update_queue h run) = st_deferred_tasks run"
  "st_overrides (update_queue h run) = st_overrides run"
  "st_leases (update_queue h run) = st_leases run"
  "st_transaction (update_queue h run) = st_transaction run"
  "st_next_sequence (update_queue h run) = st_next_sequence run"
  "st_charged (update_queue h run) = st_charged run"
  "st_halted_at (update_queue h run) = st_halted_at run"
  "st_halted_epoch (update_queue h run) = st_halted_epoch run"
  "st_budget_stop (update_queue h run) = st_budget_stop run"
  "st_finished (update_queue h run) = st_finished run"
  by (simp_all add: update_queue_def)

lemma frame_close_generation [simp]:
  "st_started (close_generation key run) = st_started run"
  "st_registry (close_generation key run) = st_registry run"
  "st_epoch (close_generation key run) = st_epoch run"
  "st_incarnation (close_generation key run) = st_incarnation run"
  "st_questions (close_generation key run) = st_questions run"
  "st_seen_questions (close_generation key run) = st_seen_questions run"
  "st_deferred_tasks (close_generation key run) = st_deferred_tasks run"
  "st_overrides (close_generation key run) = st_overrides run"
  "st_queue (close_generation key run) = st_queue run"
  "st_transaction (close_generation key run) = st_transaction run"
  "st_next_sequence (close_generation key run) = st_next_sequence run"
  "st_charged (close_generation key run) = st_charged run"
  "st_halted_at (close_generation key run) = st_halted_at run"
  "st_halted_epoch (close_generation key run) = st_halted_epoch run"
  "st_budget_stop (close_generation key run) = st_budget_stop run"
  "st_finished (close_generation key run) = st_finished run"
  by (simp_all add: close_generation_def Let_def split: option.splits)

lemma frame_charge_allowance [simp]:
  "st_started (charge_allowance key r run) = st_started run"
  "st_registry (charge_allowance key r run) = st_registry run"
  "st_epoch (charge_allowance key r run) = st_epoch run"
  "st_incarnation (charge_allowance key r run) = st_incarnation run"
  "st_questions (charge_allowance key r run) = st_questions run"
  "st_seen_questions (charge_allowance key r run) = st_seen_questions run"
  "st_deferred_tasks (charge_allowance key r run) = st_deferred_tasks run"
  "st_overrides (charge_allowance key r run) = st_overrides run"
  "st_queue (charge_allowance key r run) = st_queue run"
  "st_leases (charge_allowance key r run) = st_leases run"
  "st_transaction (charge_allowance key r run) = st_transaction run"
  "st_next_sequence (charge_allowance key r run) = st_next_sequence run"
  "st_charged (charge_allowance key r run) = st_charged run"
  "st_halted_at (charge_allowance key r run) = st_halted_at run"
  "st_halted_epoch (charge_allowance key r run) = st_halted_epoch run"
  "st_budget_stop (charge_allowance key r run) = st_budget_stop run"
  "st_finished (charge_allowance key r run) = st_finished run"
  by (simp_all add: charge_allowance_def)

lemma frame_record_halt [simp]:
  "st_started (record_halt key run) = st_started run"
  "st_registry (record_halt key run) = st_registry run"
  "st_tasks (record_halt key run) = st_tasks run"
  "st_epoch (record_halt key run) = st_epoch run"
  "st_incarnation (record_halt key run) = st_incarnation run"
  "st_questions (record_halt key run) = st_questions run"
  "st_seen_questions (record_halt key run) = st_seen_questions run"
  "st_deferred_tasks (record_halt key run) = st_deferred_tasks run"
  "st_overrides (record_halt key run) = st_overrides run"
  "st_queue (record_halt key run) = st_queue run"
  "st_leases (record_halt key run) = st_leases run"
  "st_transaction (record_halt key run) = st_transaction run"
  "st_next_sequence (record_halt key run) = st_next_sequence run"
  "st_charged (record_halt key run) = st_charged run"
  "st_budget_stop (record_halt key run) = st_budget_stop run"
  "st_finished (record_halt key run) = st_finished run"
  by (simp_all add: record_halt_def)

lemma frame_refresh_task_state [simp]:
  "st_started (refresh_task_state key run) = st_started run"
  "st_registry (refresh_task_state key run) = st_registry run"
  "st_epoch (refresh_task_state key run) = st_epoch run"
  "st_incarnation (refresh_task_state key run) = st_incarnation run"
  "st_questions (refresh_task_state key run) = st_questions run"
  "st_seen_questions (refresh_task_state key run) = st_seen_questions run"
  "st_overrides (refresh_task_state key run) = st_overrides run"
  "st_queue (refresh_task_state key run) = st_queue run"
  "st_leases (refresh_task_state key run) = st_leases run"
  "st_transaction (refresh_task_state key run) = st_transaction run"
  "st_next_sequence (refresh_task_state key run) = st_next_sequence run"
  "st_charged (refresh_task_state key run) = st_charged run"
  "st_halted_at (refresh_task_state key run) = st_halted_at run"
  "st_halted_epoch (refresh_task_state key run) = st_halted_epoch run"
  "st_budget_stop (refresh_task_state key run) = st_budget_stop run"
  "st_finished (refresh_task_state key run) = st_finished run"
  by (simp_all add: refresh_task_state_def split: option.splits)

lemma frame_wake_backoff [simp]:
  "st_started (wake_backoff run) = st_started run"
  "st_registry (wake_backoff run) = st_registry run"
  "st_epoch (wake_backoff run) = st_epoch run"
  "st_incarnation (wake_backoff run) = st_incarnation run"
  "st_questions (wake_backoff run) = st_questions run"
  "st_seen_questions (wake_backoff run) = st_seen_questions run"
  "st_overrides (wake_backoff run) = st_overrides run"
  "st_leases (wake_backoff run) = st_leases run"
  "st_transaction (wake_backoff run) = st_transaction run"
  "st_next_sequence (wake_backoff run) = st_next_sequence run"
  "st_charged (wake_backoff run) = st_charged run"
  "st_halted_at (wake_backoff run) = st_halted_at run"
  "st_halted_epoch (wake_backoff run) = st_halted_epoch run"
  "st_budget_stop (wake_backoff run) = st_budget_stop run"
  "st_finished (wake_backoff run) = st_finished run"
  by (simp_all add: wake_backoff_def Let_def foldl_same)

lemma frame_bump_sequence [simp]:
  "st_started (bump_sequence run) = st_started run"
  "st_registry (bump_sequence run) = st_registry run"
  "st_tasks (bump_sequence run) = st_tasks run"
  "st_epoch (bump_sequence run) = st_epoch run"
  "st_incarnation (bump_sequence run) = st_incarnation run"
  "st_questions (bump_sequence run) = st_questions run"
  "st_seen_questions (bump_sequence run) = st_seen_questions run"
  "st_deferred_tasks (bump_sequence run) = st_deferred_tasks run"
  "st_overrides (bump_sequence run) = st_overrides run"
  "st_queue (bump_sequence run) = st_queue run"
  "st_leases (bump_sequence run) = st_leases run"
  "st_transaction (bump_sequence run) = st_transaction run"
  "st_charged (bump_sequence run) = st_charged run"
  "st_halted_at (bump_sequence run) = st_halted_at run"
  "st_halted_epoch (bump_sequence run) = st_halted_epoch run"
  "st_budget_stop (bump_sequence run) = st_budget_stop run"
  "st_finished (bump_sequence run) = st_finished run"
  by (simp_all add: bump_sequence_def)

lemma frame_update_queued [simp]:
  "st_started (update_queued c e run) = st_started run"
  "st_registry (update_queued c e run) = st_registry run"
  "st_tasks (update_queued c e run) = st_tasks run"
  "st_epoch (update_queued c e run) = st_epoch run"
  "st_incarnation (update_queued c e run) = st_incarnation run"
  "st_questions (update_queued c e run) = st_questions run"
  "st_seen_questions (update_queued c e run) = st_seen_questions run"
  "st_deferred_tasks (update_queued c e run) = st_deferred_tasks run"
  "st_overrides (update_queued c e run) = st_overrides run"
  "st_leases (update_queued c e run) = st_leases run"
  "st_transaction (update_queued c e run) = st_transaction run"
  "st_next_sequence (update_queued c e run) = st_next_sequence run"
  "st_charged (update_queued c e run) = st_charged run"
  "st_halted_at (update_queued c e run) = st_halted_at run"
  "st_halted_epoch (update_queued c e run) = st_halted_epoch run"
  "st_budget_stop (update_queued c e run) = st_budget_stop run"
  "st_finished (update_queued c e run) = st_finished run"
  by (simp_all add: update_queued_def)

lemma frame_release_generation_holdings [simp]:
  "st_started (release_generation_holdings key run generation) = st_started run"
  "st_registry (release_generation_holdings key run generation) = st_registry run"
  "st_tasks (release_generation_holdings key run generation) = st_tasks run"
  "st_epoch (release_generation_holdings key run generation) = st_epoch run"
  "st_incarnation (release_generation_holdings key run generation) = st_incarnation run"
  "st_questions (release_generation_holdings key run generation) = st_questions run"
  "st_seen_questions (release_generation_holdings key run generation) = st_seen_questions run"
  "st_deferred_tasks (release_generation_holdings key run generation) = st_deferred_tasks run"
  "st_overrides (release_generation_holdings key run generation) = st_overrides run"
  "st_transaction (release_generation_holdings key run generation) = st_transaction run"
  "st_next_sequence (release_generation_holdings key run generation) = st_next_sequence run"
  "st_charged (release_generation_holdings key run generation) = st_charged run"
  "st_halted_at (release_generation_holdings key run generation) = st_halted_at run"
  "st_halted_epoch (release_generation_holdings key run generation) = st_halted_epoch run"
  "st_budget_stop (release_generation_holdings key run generation) = st_budget_stop run"
  "st_finished (release_generation_holdings key run generation) = st_finished run"
  by (simp_all add: release_generation_holdings_def)

lemma frame_release_holdings_of [simp]:
  "st_started (release_holdings_of key run) = st_started run"
  "st_registry (release_holdings_of key run) = st_registry run"
  "st_tasks (release_holdings_of key run) = st_tasks run"
  "st_epoch (release_holdings_of key run) = st_epoch run"
  "st_incarnation (release_holdings_of key run) = st_incarnation run"
  "st_questions (release_holdings_of key run) = st_questions run"
  "st_seen_questions (release_holdings_of key run) = st_seen_questions run"
  "st_deferred_tasks (release_holdings_of key run) = st_deferred_tasks run"
  "st_overrides (release_holdings_of key run) = st_overrides run"
  "st_transaction (release_holdings_of key run) = st_transaction run"
  "st_next_sequence (release_holdings_of key run) = st_next_sequence run"
  "st_charged (release_holdings_of key run) = st_charged run"
  "st_halted_at (release_holdings_of key run) = st_halted_at run"
  "st_halted_epoch (release_holdings_of key run) = st_halted_epoch run"
  "st_budget_stop (release_holdings_of key run) = st_budget_stop run"
  "st_finished (release_holdings_of key run) = st_finished run"
  by (simp_all add: release_holdings_of_def Let_def foldl_same split: option.splits)

lemma frame_register_spawn [simp]:
  "st_started (register_spawn sp run) = st_started run"
  "st_epoch (register_spawn sp run) = st_epoch run"
  "st_incarnation (register_spawn sp run) = st_incarnation run"
  "st_deferred_tasks (register_spawn sp run) = st_deferred_tasks run"
  "st_overrides (register_spawn sp run) = st_overrides run"
  "st_queue (register_spawn sp run) = st_queue run"
  "st_leases (register_spawn sp run) = st_leases run"
  "st_transaction (register_spawn sp run) = st_transaction run"
  "st_next_sequence (register_spawn sp run) = st_next_sequence run"
  "st_charged (register_spawn sp run) = st_charged run"
  "st_halted_at (register_spawn sp run) = st_halted_at run"
  "st_halted_epoch (register_spawn sp run) = st_halted_epoch run"
  "st_budget_stop (register_spawn sp run) = st_budget_stop run"
  "st_finished (register_spawn sp run) = st_finished run"
  by (simp_all add: register_spawn_def Let_def set_state_def defer_marks_def split: spawn_admission.splits)

lemma frame_apply_dispatched [simp]:
  "st_started (apply_dispatched d run) = st_started run"
  "st_registry (apply_dispatched d run) = st_registry run"
  "st_epoch (apply_dispatched d run) = st_epoch run"
  "st_incarnation (apply_dispatched d run) = st_incarnation run"
  "st_questions (apply_dispatched d run) = st_questions run"
  "st_seen_questions (apply_dispatched d run) = st_seen_questions run"
  "st_deferred_tasks (apply_dispatched d run) = st_deferred_tasks run"
  "st_overrides (apply_dispatched d run) = st_overrides run"
  "st_queue (apply_dispatched d run) = st_queue run"
  "st_transaction (apply_dispatched d run) = st_transaction run"
  "st_next_sequence (apply_dispatched d run) = st_next_sequence run"
  "st_charged (apply_dispatched d run) = st_charged run"
  "st_halted_at (apply_dispatched d run) = st_halted_at run"
  "st_halted_epoch (apply_dispatched d run) = st_halted_epoch run"
  "st_budget_stop (apply_dispatched d run) = st_budget_stop run"
  "st_finished (apply_dispatched d run) = st_finished run"
  by (simp_all add: apply_dispatched_def Let_def split: lease_grant.splits prod.splits)

lemma frame_apply_attempt_started [simp]:
  "st_started (apply_attempt_started d run) = st_started run"
  "st_registry (apply_attempt_started d run) = st_registry run"
  "st_epoch (apply_attempt_started d run) = st_epoch run"
  "st_incarnation (apply_attempt_started d run) = st_incarnation run"
  "st_questions (apply_attempt_started d run) = st_questions run"
  "st_seen_questions (apply_attempt_started d run) = st_seen_questions run"
  "st_deferred_tasks (apply_attempt_started d run) = st_deferred_tasks run"
  "st_overrides (apply_attempt_started d run) = st_overrides run"
  "st_queue (apply_attempt_started d run) = st_queue run"
  "st_leases (apply_attempt_started d run) = st_leases run"
  "st_transaction (apply_attempt_started d run) = st_transaction run"
  "st_next_sequence (apply_attempt_started d run) = st_next_sequence run"
  "st_charged (apply_attempt_started d run) = st_charged run"
  "st_halted_at (apply_attempt_started d run) = st_halted_at run"
  "st_halted_epoch (apply_attempt_started d run) = st_halted_epoch run"
  "st_budget_stop (apply_attempt_started d run) = st_budget_stop run"
  "st_finished (apply_attempt_started d run) = st_finished run"
  by (simp_all add: apply_attempt_started_def)

lemma frame_apply_candidate_prepared [simp]:
  "st_started (apply_candidate_prepared d run) = st_started run"
  "st_registry (apply_candidate_prepared d run) = st_registry run"
  "st_epoch (apply_candidate_prepared d run) = st_epoch run"
  "st_incarnation (apply_candidate_prepared d run) = st_incarnation run"
  "st_questions (apply_candidate_prepared d run) = st_questions run"
  "st_seen_questions (apply_candidate_prepared d run) = st_seen_questions run"
  "st_overrides (apply_candidate_prepared d run) = st_overrides run"
  "st_queue (apply_candidate_prepared d run) = st_queue run"
  "st_transaction (apply_candidate_prepared d run) = st_transaction run"
  "st_next_sequence (apply_candidate_prepared d run) = st_next_sequence run"
  "st_charged (apply_candidate_prepared d run) = st_charged run"
  "st_halted_at (apply_candidate_prepared d run) = st_halted_at run"
  "st_halted_epoch (apply_candidate_prepared d run) = st_halted_epoch run"
  "st_budget_stop (apply_candidate_prepared d run) = st_budget_stop run"
  "st_finished (apply_candidate_prepared d run) = st_finished run"
  by (simp_all add: apply_candidate_prepared_def)

lemma frame_apply_candidate_created [simp]:
  "st_started (apply_candidate_created d run) = st_started run"
  "st_registry (apply_candidate_created d run) = st_registry run"
  "st_epoch (apply_candidate_created d run) = st_epoch run"
  "st_incarnation (apply_candidate_created d run) = st_incarnation run"
  "st_questions (apply_candidate_created d run) = st_questions run"
  "st_seen_questions (apply_candidate_created d run) = st_seen_questions run"
  "st_deferred_tasks (apply_candidate_created d run) = st_deferred_tasks run"
  "st_overrides (apply_candidate_created d run) = st_overrides run"
  "st_transaction (apply_candidate_created d run) = st_transaction run"
  "st_next_sequence (apply_candidate_created d run) = st_next_sequence run"
  "st_charged (apply_candidate_created d run) = st_charged run"
  "st_halted_at (apply_candidate_created d run) = st_halted_at run"
  "st_halted_epoch (apply_candidate_created d run) = st_halted_epoch run"
  "st_budget_stop (apply_candidate_created d run) = st_budget_stop run"
  "st_finished (apply_candidate_created d run) = st_finished run"
  by (simp_all add: apply_candidate_created_def Let_def)

lemma frame_apply_verification_started [simp]:
  "st_started (apply_verification_started d run) = st_started run"
  "st_registry (apply_verification_started d run) = st_registry run"
  "st_tasks (apply_verification_started d run) = st_tasks run"
  "st_epoch (apply_verification_started d run) = st_epoch run"
  "st_incarnation (apply_verification_started d run) = st_incarnation run"
  "st_questions (apply_verification_started d run) = st_questions run"
  "st_seen_questions (apply_verification_started d run) = st_seen_questions run"
  "st_deferred_tasks (apply_verification_started d run) = st_deferred_tasks run"
  "st_overrides (apply_verification_started d run) = st_overrides run"
  "st_leases (apply_verification_started d run) = st_leases run"
  "st_charged (apply_verification_started d run) = st_charged run"
  "st_halted_at (apply_verification_started d run) = st_halted_at run"
  "st_halted_epoch (apply_verification_started d run) = st_halted_epoch run"
  "st_budget_stop (apply_verification_started d run) = st_budget_stop run"
  "st_finished (apply_verification_started d run) = st_finished run"
  by (simp_all add: apply_verification_started_def)

lemma frame_apply_verification_unavailable [simp]:
  "st_started (apply_verification_unavailable d run) = st_started run"
  "st_registry (apply_verification_unavailable d run) = st_registry run"
  "st_epoch (apply_verification_unavailable d run) = st_epoch run"
  "st_incarnation (apply_verification_unavailable d run) = st_incarnation run"
  "st_overrides (apply_verification_unavailable d run) = st_overrides run"
  "st_leases (apply_verification_unavailable d run) = st_leases run"
  "st_next_sequence (apply_verification_unavailable d run) = st_next_sequence run"
  "st_charged (apply_verification_unavailable d run) = st_charged run"
  "st_halted_at (apply_verification_unavailable d run) = st_halted_at run"
  "st_halted_epoch (apply_verification_unavailable d run) = st_halted_epoch run"
  "st_budget_stop (apply_verification_unavailable d run) = st_budget_stop run"
  "st_finished (apply_verification_unavailable d run) = st_finished run"
  by (simp_all add: apply_verification_unavailable_def Let_def split: option.splits unavailable_outcome.splits)

lemma frame_release_transaction [simp]:
  "st_started (release_transaction run) = st_started run"
  "st_registry (release_transaction run) = st_registry run"
  "st_tasks (release_transaction run) = st_tasks run"
  "st_epoch (release_transaction run) = st_epoch run"
  "st_incarnation (release_transaction run) = st_incarnation run"
  "st_questions (release_transaction run) = st_questions run"
  "st_seen_questions (release_transaction run) = st_seen_questions run"
  "st_deferred_tasks (release_transaction run) = st_deferred_tasks run"
  "st_overrides (release_transaction run) = st_overrides run"
  "st_leases (release_transaction run) = st_leases run"
  "st_next_sequence (release_transaction run) = st_next_sequence run"
  "st_charged (release_transaction run) = st_charged run"
  "st_halted_at (release_transaction run) = st_halted_at run"
  "st_halted_epoch (release_transaction run) = st_halted_epoch run"
  "st_budget_stop (release_transaction run) = st_budget_stop run"
  "st_finished (release_transaction run) = st_finished run"
  by (simp_all add: release_transaction_def split: option.splits)

lemma frame_apply_merge_prepared [simp]:
  "st_started (apply_merge_prepared d run) = st_started run"
  "st_registry (apply_merge_prepared d run) = st_registry run"
  "st_tasks (apply_merge_prepared d run) = st_tasks run"
  "st_epoch (apply_merge_prepared d run) = st_epoch run"
  "st_incarnation (apply_merge_prepared d run) = st_incarnation run"
  "st_questions (apply_merge_prepared d run) = st_questions run"
  "st_seen_questions (apply_merge_prepared d run) = st_seen_questions run"
  "st_deferred_tasks (apply_merge_prepared d run) = st_deferred_tasks run"
  "st_overrides (apply_merge_prepared d run) = st_overrides run"
  "st_queue (apply_merge_prepared d run) = st_queue run"
  "st_leases (apply_merge_prepared d run) = st_leases run"
  "st_charged (apply_merge_prepared d run) = st_charged run"
  "st_halted_at (apply_merge_prepared d run) = st_halted_at run"
  "st_halted_epoch (apply_merge_prepared d run) = st_halted_epoch run"
  "st_budget_stop (apply_merge_prepared d run) = st_budget_stop run"
  "st_finished (apply_merge_prepared d run) = st_finished run"
  by (simp_all add: apply_merge_prepared_def)

lemma frame_fail_member [simp]:
  "st_started (fail_member run member) = st_started run"
  "st_registry (fail_member run member) = st_registry run"
  "st_epoch (fail_member run member) = st_epoch run"
  "st_incarnation (fail_member run member) = st_incarnation run"
  "st_questions (fail_member run member) = st_questions run"
  "st_seen_questions (fail_member run member) = st_seen_questions run"
  "st_overrides (fail_member run member) = st_overrides run"
  "st_transaction (fail_member run member) = st_transaction run"
  "st_next_sequence (fail_member run member) = st_next_sequence run"
  "st_charged (fail_member run member) = st_charged run"
  "st_halted_at (fail_member run member) = st_halted_at run"
  "st_halted_epoch (fail_member run member) = st_halted_epoch run"
  "st_budget_stop (fail_member run member) = st_budget_stop run"
  "st_finished (fail_member run member) = st_finished run"
  by (simp_all add: fail_member_def Let_def split: option.splits)

lemma frame_fail_lineage [simp]:
  "st_started (fail_lineage key run) = st_started run"
  "st_registry (fail_lineage key run) = st_registry run"
  "st_epoch (fail_lineage key run) = st_epoch run"
  "st_incarnation (fail_lineage key run) = st_incarnation run"
  "st_seen_questions (fail_lineage key run) = st_seen_questions run"
  "st_overrides (fail_lineage key run) = st_overrides run"
  "st_transaction (fail_lineage key run) = st_transaction run"
  "st_next_sequence (fail_lineage key run) = st_next_sequence run"
  "st_charged (fail_lineage key run) = st_charged run"
  "st_halted_at (fail_lineage key run) = st_halted_at run"
  "st_halted_epoch (fail_lineage key run) = st_halted_epoch run"
  "st_budget_stop (fail_lineage key run) = st_budget_stop run"
  "st_finished (fail_lineage key run) = st_finished run"
  by (simp_all add: fail_lineage_def Let_def foldl_same)

lemma frame_apply_resumed [simp]:
  "st_started (apply_resumed d run) = st_started run"
  "st_registry (apply_resumed d run) = st_registry run"
  "st_questions (apply_resumed d run) = st_questions run"
  "st_seen_questions (apply_resumed d run) = st_seen_questions run"
  "st_overrides (apply_resumed d run) = st_overrides run"
  "st_leases (apply_resumed d run) = st_leases run"
  "st_transaction (apply_resumed d run) = st_transaction run"
  "st_next_sequence (apply_resumed d run) = st_next_sequence run"
  "st_charged (apply_resumed d run) = st_charged run"
  "st_halted_at (apply_resumed d run) = st_halted_at run"
  "st_halted_epoch (apply_resumed d run) = st_halted_epoch run"
  by (simp_all add: apply_resumed_def)

lemma frame_apply_transition [simp]:
  "st_started (apply_transition key t run) = st_started run"
  "st_registry (apply_transition key t run) = st_registry run"
  "st_epoch (apply_transition key t run) = st_epoch run"
  "st_incarnation (apply_transition key t run) = st_incarnation run"
  "st_overrides (apply_transition key t run) = st_overrides run"
  "st_transaction (apply_transition key t run) = st_transaction run"
  "st_next_sequence (apply_transition key t run) = st_next_sequence run"
  "st_charged (apply_transition key t run) = st_charged run"
  "st_budget_stop (apply_transition key t run) = st_budget_stop run"
  "st_finished (apply_transition key t run) = st_finished run"
  by (simp_all add: apply_transition_def Let_def split: settlement_transition.splits)

lemma frame_apply_settlement [simp]:
  "st_started (apply_settlement d run) = st_started run"
  "st_registry (apply_settlement d run) = st_registry run"
  "st_epoch (apply_settlement d run) = st_epoch run"
  "st_incarnation (apply_settlement d run) = st_incarnation run"
  "st_overrides (apply_settlement d run) = st_overrides run"
  "st_transaction (apply_settlement d run) = st_transaction run"
  "st_next_sequence (apply_settlement d run) = st_next_sequence run"
  "st_charged (apply_settlement d run) = st_charged run"
  "st_budget_stop (apply_settlement d run) = st_budget_stop run"
  "st_finished (apply_settlement d run) = st_finished run"
  by (simp_all add: apply_settlement_def Let_def split: attempt_settlement.splits)

lemma frame_apply_merge_rejected [simp]:
  "st_started (apply_merge_rejected d run) = st_started run"
  "st_epoch (apply_merge_rejected d run) = st_epoch run"
  "st_incarnation (apply_merge_rejected d run) = st_incarnation run"
  "st_overrides (apply_merge_rejected d run) = st_overrides run"
  "st_charged (apply_merge_rejected d run) = st_charged run"
  "st_halted_at (apply_merge_rejected d run) = st_halted_at run"
  "st_halted_epoch (apply_merge_rejected d run) = st_halted_epoch run"
  "st_budget_stop (apply_merge_rejected d run) = st_budget_stop run"
  "st_finished (apply_merge_rejected d run) = st_finished run"
  by (simp_all add: apply_merge_rejected_def Let_def split: rejection_disposition.splits)

lemma frame_apply_task_merged [simp]:
  "st_started (apply_task_merged d run) = st_started run"
  "st_registry (apply_task_merged d run) = st_registry run"
  "st_epoch (apply_task_merged d run) = st_epoch run"
  "st_incarnation (apply_task_merged d run) = st_incarnation run"
  "st_questions (apply_task_merged d run) = st_questions run"
  "st_seen_questions (apply_task_merged d run) = st_seen_questions run"
  "st_overrides (apply_task_merged d run) = st_overrides run"
  "st_next_sequence (apply_task_merged d run) = st_next_sequence run"
  "st_charged (apply_task_merged d run) = st_charged run"
  "st_halted_at (apply_task_merged d run) = st_halted_at run"
  "st_halted_epoch (apply_task_merged d run) = st_halted_epoch run"
  "st_budget_stop (apply_task_merged d run) = st_budget_stop run"
  "st_finished (apply_task_merged d run) = st_finished run"
  by (simp_all add: apply_task_merged_def Let_def foldl_same split: option.splits)

lemma frame_apply_answer [simp]:
  "st_started (apply_answer d run) = st_started run"
  "st_registry (apply_answer d run) = st_registry run"
  "st_epoch (apply_answer d run) = st_epoch run"
  "st_incarnation (apply_answer d run) = st_incarnation run"
  "st_seen_questions (apply_answer d run) = st_seen_questions run"
  "st_transaction (apply_answer d run) = st_transaction run"
  "st_next_sequence (apply_answer d run) = st_next_sequence run"
  "st_charged (apply_answer d run) = st_charged run"
  "st_budget_stop (apply_answer d run) = st_budget_stop run"
  "st_finished (apply_answer d run) = st_finished run"
  by (simp_all add: apply_answer_def Let_def split: option.splits answer4.splits)

end
