(* ===== verification/Fold_Replay.thy ===== *)
theory Fold_Replay
  imports Fold_Frame
begin

section \<open>Replaying a log\<close>

text \<open>
  The contract of an event-sourced state is the locale \<open>event_sourced\<close>: a transition is
  planned against the state (and may be refused) and then applied; a log is replayed event
  by event. Its interpretation on the fold gives the laws of replay, and the invariants of
  later theories are lifted through it: \<open>reachable\<close> is the set of run states some log
  leads to, with its induction rule.
\<close>

locale event_sourced =
  fixes plan :: "'s \<Rightarrow> 'e \<Rightarrow> ('err, 'd) result"
    and app :: "'d \<Rightarrow> 's \<Rightarrow> 's"
    and run_log :: "'s \<Rightarrow> 'e list \<Rightarrow> ('err, 's) result"
  assumes run_Nil: "run_log s [] = Inr s"
    and run_Cons: "run_log s (e # es) = res_bind (plan s e) (\<lambda>d. run_log (app d s) es)"
begin

lemma run_append: "run_log s (es @ fs) = res_bind (run_log s es) (\<lambda>s'. run_log s' fs)"
proof (induction es arbitrary: s)
  case (Cons e es)
  then show ?case by (cases "plan s e") (simp_all add: run_Cons)
qed (simp add: run_Nil)

lemma run_prefix: "run_log s (es @ fs) = Inr s' \<Longrightarrow> \<exists>s1. run_log s es = Inr s1 \<and> run_log s1 fs = Inr s'"
  by (simp add: run_append result_simps)

lemma run_snoc: "run_log s (es @ [e]) = res_bind (run_log s es) (\<lambda>s'. res_bind (plan s' e) (\<lambda>d. Inr (app d s')))"
  by (simp add: run_append run_Cons run_Nil)

lemma run_invariant:
  assumes "\<And>s e d. I s \<Longrightarrow> plan s e = Inr d \<Longrightarrow> I (app d s)"
  shows "I s \<Longrightarrow> run_log s es = Inr s' \<Longrightarrow> I s'"
proof (induction es arbitrary: s)
  case (Cons e es)
  then show ?case using assms by (auto simp: run_Cons result_simps)
qed (simp add: run_Nil)

end

interpretation fold: event_sourced "plan_transition x" apply_delta "replay_from x" for x
  by unfold_locales simp_all

subsection \<open>Reachable run states\<close>

inductive reachable :: "externals \<Rightarrow> frozen_inputs \<Rightarrow> run_state \<Rightarrow> bool"
  for x :: externals and inputs :: frozen_inputs where
  started: "check_run_started x (fold_new inputs) d = Inr registry \<Longrightarrow>
     reachable x inputs (run_start d registry)"
| stepped: "reachable x inputs run \<Longrightarrow> check_started_run x run body = Inr dv \<Longrightarrow>
     reachable x inputs (apply_body body dv run)"

lemma plan_transition_started:
  "ev_body e = EvRunStarted d \<Longrightarrow> plan_transition x f e = Inr delta \<longleftrightarrow>
     \<not> fo_poisoned f \<and> (\<exists>registry. check_run_started x f d = Inr registry \<and>
        delta = \<lparr>de_event = e, de_derived = DerivedRegistry registry\<rparr>)"
  by (auto simp: plan_transition_def result_simps)

lemma plan_transition_other:
  "(\<And>d. ev_body e \<noteq> EvRunStarted d) \<Longrightarrow> plan_transition x f e = Inr delta \<longleftrightarrow>
     \<not> fo_poisoned f \<and> (\<exists>run dv. fo_run f = Some run \<and> check_started_run x run (ev_body e) = Inr dv \<and>
        delta = \<lparr>de_event = e, de_derived = dv\<rparr>)"
  by (cases "ev_body e") (auto simp: plan_transition_def result_simps)

lemma apply_delta_started:
  "ev_body e = EvRunStarted d \<Longrightarrow>
     apply_delta \<lparr>de_event = e, de_derived = DerivedRegistry registry\<rparr> f =
       f\<lparr>fo_run := Some (run_start d registry)\<rparr>"
  by (simp add: apply_delta_def)

lemma apply_delta_other:
  "(\<And>d. ev_body e \<noteq> EvRunStarted d) \<Longrightarrow>
     apply_delta \<lparr>de_event = e, de_derived = dv\<rparr> f =
       f\<lparr>fo_run := map_option (apply_body (ev_body e) dv) (fo_run f)\<rparr>"
  by (cases "ev_body e") (auto simp: apply_delta_def)

lemma fold_new_simps [simp]:
  "fo_inputs (fold_new inputs) = inputs" "fo_run (fold_new inputs) = None"
  "fo_poisoned (fold_new inputs) = False"
  by (simp_all add: fold_new_def)

lemma check_run_started_run: "check_run_started x f d = Inr registry \<Longrightarrow> fo_run f = None"
  by (auto simp: check_run_started_def result_simps split: if_splits)

lemma check_run_started_inputs:
  "fo_run f = None \<Longrightarrow> check_run_started x f d = check_run_started x (fold_new (fo_inputs f)) d"
  unfolding check_run_started_def fold_new_simps by simp

definition fold_inv :: "externals \<Rightarrow> frozen_inputs \<Rightarrow> topology_fold \<Rightarrow> bool" where
  "fold_inv x inputs f \<longleftrightarrow> fo_inputs f = inputs \<and> \<not> fo_poisoned f \<and>
     (\<forall>run. fo_run f = Some run \<longrightarrow> reachable x inputs run)"

lemma fold_inv_step:
  assumes inv: "fold_inv x inputs f" and plan: "plan_transition x f e = Inr delta"
  shows "fold_inv x inputs (apply_delta delta f)"
proof (cases "\<exists>d. ev_body e = EvRunStarted d")
  case True
  then obtain d where d: "ev_body e = EvRunStarted d" by blast
  with plan obtain registry where reg: "check_run_started x f d = Inr registry"
    and delta: "delta = \<lparr>de_event = e, de_derived = DerivedRegistry registry\<rparr>"
    by (auto simp: plan_transition_started)
  have "reachable x inputs (run_start d registry)"
    using reg inv check_run_started_run [OF reg] check_run_started_inputs [of f x d]
    by (auto simp: fold_inv_def intro: reachable.started)
  with inv d delta show ?thesis by (simp add: fold_inv_def apply_delta_started)
next
  case False
  with plan obtain run dv where run: "fo_run f = Some run"
    and dv: "check_started_run x run (ev_body e) = Inr dv"
    and delta: "delta = \<lparr>de_event = e, de_derived = dv\<rparr>"
    by (auto simp: plan_transition_other)
  from inv run have "reachable x inputs run" by (simp add: fold_inv_def)
  then have "reachable x inputs (apply_body (ev_body e) dv run)" using dv by (rule reachable.stepped)
  with inv run delta False show ?thesis by (simp add: fold_inv_def apply_delta_other)
qed

lemma replay_reachable:
  assumes "replay x inputs es = Inr f"
  shows "fold_inv x inputs f"
  using assms unfolding replay_def
proof (rule fold.run_invariant [rotated 2])
  show "fold_inv x inputs (fold_new inputs)" by (simp add: fold_inv_def)
qed (rule fold_inv_step)

lemma reachable_replay:
  "reachable x inputs run \<Longrightarrow> \<exists>es f. replay x inputs es = Inr f \<and> fo_run f = Some run \<and>
     fo_inputs f = inputs \<and> \<not> fo_poisoned f"
proof (induction rule: reachable.induct)
  case (started d registry)
  let ?e = "\<lparr>ev_ts = [], ev_body = EvRunStarted d\<rparr>"
  have "replay x inputs [?e] = Inr ((fold_new inputs)\<lparr>fo_run := Some (run_start d registry)\<rparr>)"
    using started by (simp add: replay_def plan_transition_def apply_delta_def fold_new_def)
  then show ?case by (force simp: fold_new_def)
next
  case (stepped run body dv)
  then obtain es f where f: "replay x inputs es = Inr f" "fo_run f = Some run" "fo_inputs f = inputs"
    "\<not> fo_poisoned f" by blast
  let ?e = "\<lparr>ev_ts = [], ev_body = body\<rparr>"
  have body: "body \<noteq> EvRunStarted d" for d
    using stepped(2) by (auto simp: check_started_run_def check_body_def split: option.splits if_splits)
  then have "plan_transition x f ?e = Inr \<lparr>de_event = ?e, de_derived = dv\<rparr>"
    using f stepped(2) by (simp add: plan_transition_other)
  then have "replay x inputs (es @ [?e]) = Inr (f\<lparr>fo_run := Some (apply_body body dv run)\<rparr>)"
    using f body unfolding replay_def by (simp add: fold.run_snoc apply_delta_other)
  moreover have "fo_run (f\<lparr>fo_run := Some (apply_body body dv run)\<rparr>) = Some (apply_body body dv run)"
    "fo_inputs (f\<lparr>fo_run := Some (apply_body body dv run)\<rparr>) = inputs"
    "\<not> fo_poisoned (f\<lparr>fo_run := Some (apply_body body dv run)\<rparr>)"
    using f by simp_all
  ultimately show ?case by blast
qed

subsection \<open>Laws of replay\<close>

text \<open>
  Replaying is incremental: replaying a log and then a continuation is replaying the
  whole. So a log that is accepted has all its prefixes accepted, and the refusal of an
  event does not depend on what follows it.
\<close>

theorem replay_incremental:
  "replay x inputs (es @ fs) = res_bind (replay x inputs es) (\<lambda>f. replay_from x f fs)"
  unfolding replay_def by (rule fold.run_append)

end
