(* ===== verification/Fold_Invariants.thy ===== *)
theory Fold_Invariants
  imports Fold_Replay
begin

section \<open>Invariants of the fold\<close>

text \<open>
  First, per field of the run state, the events that change it. Then the locale
  \<open>task_invariant\<close>: a property of one task's fold that the elementary updates keep is
  kept by every event, up to the four that need a look of their own (dispatch, attempt start,
  settlement, prepared candidate). It is interpreted for the generations of a task and for
  its place on the ladder. The registry, the open questions and the markers of the run's end
  have invariants of their own.
\<close>

lemma check_started_run_Inr [result_simps]:
  "check_started_run x run body = Inr dv \<longleftrightarrow>
     check_body x run body = Inr dv \<and>
     (\<forall>outcome. st_finished run = Some outcome \<longrightarrow> continues_run outcome body)"
  by (auto simp: check_started_run_def split: option.splits if_splits)

lemma no_derived_Inr [result_simps]: "no_derived r = Inr dv \<longleftrightarrow> r = Inr () \<and> dv = DerivedNone"
  by (cases r) (auto simp: no_derived_def)

subsection \<open>Which events change which field\<close>

lemma started_apply_body [simp]: "st_started (apply_body body dv run) = st_started run"
  by (cases body; cases dv) (simp_all add: apply_body_def)

lemma st_registry_register_spawn [simp]:
  "st_registry (register_spawn sp run) = register_entry (sw_entry sp) (st_registry run)"
  by (simp add: register_spawn_def Let_def split: spawn_admission.splits)

lemma st_registry_merge_rejected [simp]:
  "st_registry (apply_merge_rejected d run) = register_entry (sw_entry (mr_repair d)) (st_registry run)"
  by (simp add: apply_merge_rejected_def Let_def split: rejection_disposition.splits)

definition event_spawn :: "topology_event_body \<Rightarrow> frozen_spawn option" where
  "event_spawn body =
     (case body of
        EvTaskSpawned d \<Rightarrow> Some (tsp_spawn d)
      | EvMergeRejected d \<Rightarrow> Some (mr_repair d)
      | _ \<Rightarrow> None)"

lemma registry_apply_body:
  "st_registry (apply_body body dv run) =
     (case event_spawn body of
        None \<Rightarrow> st_registry run | Some sp \<Rightarrow> register_entry (sw_entry sp) (st_registry run))"
  by (cases body; cases dv) (simp_all add: apply_body_def event_spawn_def)

lemma length_tasks_simps [simp]:
  "length (st_tasks (update_task key f run)) = length (st_tasks run)"
  "length (st_tasks (set_state key s run)) = length (st_tasks run)"
  "length (st_tasks (set_defers key n run)) = length (st_tasks run)"
  "length (st_tasks (update_open_generation key g run)) = length (st_tasks run)"
  "length (st_tasks (charge_allowance key r run)) = length (st_tasks run)"
  by (simp_all add: update_task_def set_state_def set_defers_def update_open_generation_def
      charge_allowance_def)

lemma length_tasks_close [simp]: "length (st_tasks (close_generation key run)) = length (st_tasks run)"
  by (simp add: close_generation_def Let_def split: option.splits)

lemma length_tasks_refresh [simp]: "length (st_tasks (refresh_task_state key run)) = length (st_tasks run)"
  by (simp add: refresh_task_state_def split: option.splits)

lemma length_tasks_wake [simp]: "length (st_tasks (wake_backoff run)) = length (st_tasks run)"
  by (simp add: wake_backoff_def Let_def foldl_same [where g = "\<lambda>s. length (st_tasks s)"])

lemma length_tasks_fail_member [simp]: "length (st_tasks (fail_member run m)) = length (st_tasks run)"
  by (simp add: fail_member_def Let_def split: option.splits)

lemma length_tasks_fail_lineage [simp]: "length (st_tasks (fail_lineage key run)) = length (st_tasks run)"
  by (simp add: fail_lineage_def Let_def foldl_same [where g = "\<lambda>s. length (st_tasks s)"])

lemma length_tasks_register [simp]:
  "length (st_tasks (register_spawn sp run)) = Suc (length (st_tasks run))"
  by (simp add: register_spawn_def Let_def split: spawn_admission.splits)

lemma length_tasks_apply_body:
  "length (st_tasks (apply_body body dv run)) =
     length (st_tasks run) + (if event_spawn body = None then 0 else 1)"
  by (cases body; cases dv)
    (simp_all add: apply_body_def event_spawn_def apply_resumed_def apply_dispatched_def
      apply_attempt_started_def apply_settlement_def apply_transition_def apply_candidate_prepared_def
      apply_candidate_created_def apply_verification_unavailable_def apply_merge_rejected_def
      apply_task_merged_def apply_answer_def Let_def foldl_same [where g = "\<lambda>s. length (st_tasks s)"]
      split: prod.splits lease_grant.splits attempt_settlement.splits settlement_transition.splits
        option.splits unavailable_outcome.splits rejection_disposition.splits answer4.splits)

subsection \<open>The registry\<close>

definition lineage_ok :: "run_state \<Rightarrow> task_entry \<Rightarrow> bool" where
  "lineage_ok run e \<longleftrightarrow>
     (case te_lineage e of
        None \<Rightarrow> True
      | Some l \<Rightarrow> ln_root l < te_key e \<and> ln_parent l < te_key e \<and>
          lineage_root run (ln_parent l) = ln_root l \<and> entry_lineage run (ln_root l) = None)"

definition registry_inv :: "run_state \<Rightarrow> bool" where
  "registry_inv run \<longleftrightarrow>
     length (st_tasks run) = length (rg_entries (st_registry run)) \<and>
     (\<forall>i < length (rg_entries (st_registry run)). unat (te_key (rg_entries (st_registry run) ! i)) = i) \<and>
     (\<forall>e \<in> set (rg_entries (st_registry run)).
        check_ladder (te_key e) (te_ladder e) = Inr () \<and> lineage_ok run e)"

lemma registry_get_register:
  "registry_get (register_entry e r) k =
     (if unat k < length (rg_entries r) then Some (rg_entries r ! unat k)
      else if unat k = length (rg_entries r) then Some e else None)"
  by (simp add: registry_get_def register_entry_def vec_get_snoc)

lemma registry_get_register_old:
  "registry_get r k = Some e' \<Longrightarrow> registry_get (register_entry e r) k = Some e'"
  by (simp add: registry_get_register) (auto simp: registry_get_def vec_get_def split: if_splits)

lemma registry_inv_key:
  "registry_inv run \<Longrightarrow> registry_get (st_registry run) k = Some e \<Longrightarrow> te_key e = k"
  by (auto simp: registry_inv_def registry_get_def vec_get_def word_unat_eq_iff split: if_splits)

lemma registry_inv_mem:
  assumes "registry_inv run" "e \<in> set (rg_entries (st_registry run))"
  shows "registry_get (st_registry run) (te_key e) = Some e"
proof -
  obtain i where "i < length (rg_entries (st_registry run))" "rg_entries (st_registry run) ! i = e"
    using assms(2) by (metis in_set_conv_nth)
  with assms(1) show ?thesis by (auto simp: registry_inv_def registry_get_def vec_get_def)
qed

lemma entry_lineage_apply_old:
  "registry_get (st_registry run) k = Some e \<Longrightarrow> entry_lineage (apply_body body dv run) k = entry_lineage run k"
  by (auto simp: entry_lineage_def registry_apply_body registry_get_register_old split: option.splits)

lemma lineage_root_apply_old:
  "registry_get (st_registry run) k = Some e \<Longrightarrow> lineage_root (apply_body body dv run) k = lineage_root run k"
  by (simp add: lineage_root_def entry_lineage_apply_old)

lemma check_spawn_Inr:
  assumes "check_spawn run sp kind = Inr u"
  shows "\<exists>l rt pa. unat (sw_key sp) = registry_len (st_registry run) \<and> te_key (sw_entry sp) = sw_key sp \<and>
    key_of (st_registry run) (te_display_id (sw_entry sp)) = None \<and>
    te_lineage (sw_entry sp) = Some l \<and> ln_root l < sw_key sp \<and> ln_parent l < sw_key sp \<and>
    registry_get (st_registry run) (ln_root l) = Some rt \<and>
    registry_get (st_registry run) (ln_parent l) = Some pa \<and>
    lineage_root run (ln_parent l) = ln_root l \<and>
    check_ladder (sw_key sp) (te_ladder (sw_entry sp)) = Inr () \<and>
    check_admission run kind sp = Inr ()"
  using assms
  by (clarsimp simp: check_spawn_def result_simps Let_def st_entry_def not_le)

lemma event_spawn_checked:
  assumes "check_body x run body = Inr dv" "event_spawn body = Some sp"
  shows "\<exists>kind. check_spawn run sp kind = Inr ()"
  using assms
  by (cases body)
    (auto simp: check_body_def event_spawn_def check_task_spawned_def check_merge_rejected_def
      result_simps Let_def)

lemma check_run_started_Inr:
  assumes "check_run_started x f d = Inr r"
  shows "fo_run f = None" "is_topology_schema d" "completeness (s4_runner d) = Inr ()"
    "pp_version (s4_path_policy d) = V2" "tl_max_parallel (s4_limits d) \<noteq> 0"
    "s4_normalized_plan_digest d = fi_normalized_plan_digest (fo_inputs f)"
    "originals_with_agents (fi_plan (fo_inputs f)) (registry_record d) (s4_probed_agents d) = Inr r"
    "registry_digest (ex_sha256 x) r = s4_registry_digest d"
    "\<And>e. e \<in> set (rg_entries r) \<Longrightarrow> check_ladder (te_key e) (te_ladder e) = Inr ()"
  using assms path_policy_version.exhaust [of "pp_version (s4_path_policy d)"]
  by (auto simp: check_run_started_def result_simps Let_def split: if_splits sum.splits)

lemma originals_length:
  assumes "originals_with_agents pl started agents = Inr r"
  shows "length (rg_entries r) = length (p_tasks pl)"
proof -
  obtain m chs ef rv en al se where
    "list_all2 (\<lambda>y e. original_entry (length (p_tasks pl)) m chs ef rv en al se agents y = Inr e)
      (enumerate 0 (p_tasks pl)) (rg_entries r)"
    using originals_with_agents_Inr [OF assms] by blast
  then show ?thesis by (auto dest: list_all2_lengthD)
qed

lemma originals_nth:
  assumes "originals_with_agents pl started agents = Inr r" "i < length (rg_entries r)"
  shows "originals_ok pl agents r i (rg_entries r ! i)"
  using originals_entries [OF assms(1)] assms(2) originals_length [OF assms(1)] by simp

lemma registry_inv_start:
  assumes "check_run_started x f d = Inr r"
  shows "registry_inv (run_start d r)"
proof -
  note originals = originals_nth [OF check_run_started_Inr(7) [OF assms]]
  have "lineage_ok (run_start d r) e" if e: "e \<in> set (rg_entries r)" for e
  proof -
    obtain i where "i < length (rg_entries r)" "rg_entries r ! i = e"
      using e by (auto simp: in_set_conv_nth)
    then show ?thesis
      using originals [of i] by (simp add: originals_ok_def lineage_ok_def)
  qed
  then show ?thesis
    using check_run_started_Inr(9) [OF assms] originals
    by (simp add: registry_inv_def run_start_def registry_len_def originals_ok_def)
qed

lemma lineage_root_of_root:
  assumes "registry_inv run" "registry_get (st_registry run) k = Some e"
  shows "entry_lineage run (lineage_root run k) = None"
proof (cases "te_lineage e")
  case None
  with assms(2) show ?thesis by (simp add: lineage_root_def entry_lineage_def)
next
  case (Some l)
  have "e \<in> set (rg_entries (st_registry run))"
    using assms(2) by (auto simp: registry_get_def vec_get_def split: if_splits)
  with assms(1) Some have "entry_lineage run (ln_root l) = None"
    by (auto simp: registry_inv_def lineage_ok_def)
  with assms(2) Some show ?thesis by (simp add: lineage_root_def entry_lineage_def)
qed

lemma registry_inv_step:
  assumes inv: "registry_inv run" and chk: "check_body x run body = Inr dv"
  shows "registry_inv (apply_body body dv run)"
proof (cases "event_spawn body")
  case None
  then have same: "st_registry (apply_body body dv run) = st_registry run"
    "length (st_tasks (apply_body body dv run)) = length (st_tasks run)"
    by (simp_all add: registry_apply_body length_tasks_apply_body)
  then show ?thesis using inv
    by (simp add: registry_inv_def lineage_ok_def lineage_root_def entry_lineage_def cong: option.case_cong)
next
  case (Some sp)
  let ?run = "apply_body body dv run" and ?es = "rg_entries (st_registry run)"
  obtain kind where "check_spawn run sp kind = Inr ()"
    using event_spawn_checked [OF chk Some] by blast
  from check_spawn_Inr [OF this] obtain l rt pa where
    key: "unat (sw_key sp) = length ?es" "te_key (sw_entry sp) = sw_key sp"
    and lin: "te_lineage (sw_entry sp) = Some l" "ln_root l < sw_key sp" "ln_parent l < sw_key sp"
    and rt: "registry_get (st_registry run) (ln_root l) = Some rt"
    and pa: "registry_get (st_registry run) (ln_parent l) = Some pa"
    and root: "lineage_root run (ln_parent l) = ln_root l"
    and lad: "check_ladder (sw_key sp) (te_ladder (sw_entry sp)) = Inr ()"
    by (auto simp: registry_len_def)
  have reg: "rg_entries (st_registry ?run) = ?es @ [sw_entry sp]"
    using Some by (simp add: registry_apply_body register_entry_def)
  have old: "lineage_ok ?run e" if "e \<in> set ?es" for e
  proof (cases "te_lineage e")
    case (Some l)
    have inr: "ln_root l < te_key e" "ln_parent l < te_key e"
      and more: "lineage_root run (ln_parent l) = ln_root l" "entry_lineage run (ln_root l) = None"
      using inv that Some by (auto simp: registry_inv_def lineage_ok_def)
    have ke: "unat (te_key e) < length ?es"
      using registry_inv_mem [OF inv that] by (auto simp: registry_get_def vec_get_def split: if_splits)
    then obtain p q where "registry_get (st_registry run) (ln_parent l) = Some p"
      "registry_get (st_registry run) (ln_root l) = Some q"
      using inr by (auto simp: registry_get_def vec_get_def word_less_nat_alt)
    then show ?thesis
      using inr more Some
      by (simp add: lineage_ok_def lineage_root_apply_old entry_lineage_apply_old)
  qed (simp add: lineage_ok_def)
  have "lineage_ok ?run (sw_entry sp)"
    using lin key rt pa root lineage_root_of_root [OF inv pa]
    by (simp add: lineage_ok_def lineage_root_apply_old entry_lineage_apply_old)
  with old inv lad key show ?thesis
    unfolding registry_inv_def reg length_tasks_apply_body
    using Some by (auto simp: nth_append less_Suc_eq)
qed

end
