(* ===== verification/Fold_Tasks.thy ===== *)
theory Fold_Tasks
  imports Fold_Invariants
begin

section \<open>Invariants of the tasks\<close>

text \<open>
  The locale \<open>task_invariant\<close> and its two interpretations: the generations of a task are
  numbered densely and only the last can be open, with what each class of generation implies
  (\<open>gens_ok\<close>); and a task stands on a rung of its frozen ladder.
\<close>

definition tasks_all :: "(nat \<Rightarrow> task_fold \<Rightarrow> bool) \<Rightarrow> run_state \<Rightarrow> bool" where
  "tasks_all P run \<longleftrightarrow> (\<forall>i < length (st_tasks run). P i (st_tasks run ! i))"

lemma tasks_all_cong: "st_tasks run' = st_tasks run \<Longrightarrow> tasks_all P run \<Longrightarrow> tasks_all P run'"
  by (simp add: tasks_all_def)

lemma tasks_all_update:
  "tasks_all P run \<Longrightarrow>
   (\<And>t. unat key < length (st_tasks run) \<Longrightarrow> st_tasks run ! unat key = t \<Longrightarrow> P (unat key) t \<Longrightarrow> P (unat key) (f t)) \<Longrightarrow>
   tasks_all P (update_task key f run)"
  by (auto simp: tasks_all_def update_task_def nth_update_at)

lemma tasks_all_get: "tasks_all P run \<Longrightarrow> task_get run key = Some t \<Longrightarrow> P (unat key) t"
  by (auto simp: tasks_all_def task_get_def vec_get_def split: if_splits)

lemma tasks_all_foldl:
  "(\<And>s y. tasks_all P s \<Longrightarrow> tasks_all P (f s y)) \<Longrightarrow> tasks_all P s \<Longrightarrow> tasks_all P (foldl f s xs)"
  by (induction xs arbitrary: s) auto

locale task_invariant =
  fixes P :: "nat \<Rightarrow> task_fold \<Rightarrow> bool"
  assumes keep_state: "P i t \<Longrightarrow> P i (t\<lparr>tf_state := s\<rparr>)"
    and keep_defers: "P i t \<Longrightarrow> P i (t\<lparr>tf_defers := n\<rparr>)"
    and keep_allowance: "P i t \<Longrightarrow> P i (t\<lparr>tf_attempts_on_rung := n\<rparr>)"
    and keep_close: "P i t \<Longrightarrow> P i (tf_update_open (\<lambda>g. g\<lparr>gf_class := Closed\<rparr>) t)"
begin

lemma all_set_state: "tasks_all P run \<Longrightarrow> tasks_all P (set_state key s run)"
  unfolding set_state_def
  by (rule tasks_all_update) (auto simp: tasks_all_def keep_state)

lemma all_set_defers: "tasks_all P run \<Longrightarrow> tasks_all P (set_defers key n run)"
  unfolding set_defers_def by (rule tasks_all_update) (auto simp: keep_defers)

lemma all_charge: "tasks_all P run \<Longrightarrow> tasks_all P (charge_allowance key r run)"
  unfolding charge_allowance_def by (auto intro!: tasks_all_update keep_allowance)

lemma all_close: "tasks_all P run \<Longrightarrow> tasks_all P (close_generation key run)"
proof -
  assume all: "tasks_all P run"
  have "tasks_all P (update_open_generation key (\<lambda>g. g\<lparr>gf_class := Closed\<rparr>) run)"
    unfolding update_open_generation_def using all by (rule tasks_all_update) (rule keep_close)
  with all show ?thesis
    by (auto simp: close_generation_def Let_def intro: tasks_all_cong split: option.splits)
qed

lemma all_refresh: "tasks_all P run \<Longrightarrow> tasks_all P (refresh_task_state key run)"
  by (auto simp: refresh_task_state_def all_set_state split: option.splits)

lemma all_wake: "tasks_all P run \<Longrightarrow> tasks_all P (wake_backoff run)"
  unfolding wake_backoff_def Let_def
  by (rule tasks_all_foldl) (auto simp: tasks_all_def intro: all_refresh [unfolded tasks_all_def, rule_format])

lemma all_fail_member: "tasks_all P run \<Longrightarrow> tasks_all P (fail_member run m)"
proof -
  assume "tasks_all P run"
  then have "tasks_all P (release_holdings_of m (close_generation m run))"
    by (rule all_close [THEN tasks_all_cong [rotated]]) simp
  then have "tasks_all P ((release_holdings_of m (close_generation m run))\<lparr>st_deferred_tasks := ds\<rparr>)" for ds
    by (rule tasks_all_cong [rotated]) simp
  then show ?thesis
    by (auto simp: fail_member_def Let_def intro!: all_set_state split: option.splits)
qed

lemma all_fail_lineage: "tasks_all P run \<Longrightarrow> tasks_all P (fail_lineage key run)"
proof -
  assume "tasks_all P run"
  then have "tasks_all P (foldl fail_member run ms)" for ms
    by (rule tasks_all_foldl [rotated]) (rule all_fail_member)
  then show ?thesis
    unfolding fail_lineage_def Let_def by (auto intro: tasks_all_cong)
qed

lemma all_register:
  assumes "tasks_all P run" "P (length (st_tasks run)) task_fold_new"
  shows "tasks_all P (register_spawn sp run)"
proof -
  let ?r = "run\<lparr>st_registry := register_entry (sw_entry sp) (st_registry run),
    st_tasks := st_tasks run @ [task_fold_new]\<rparr>"
  have "tasks_all P ?r" using assms by (auto simp: tasks_all_def nth_append less_Suc_eq)
  moreover have "st_tasks (open_the_question q og b ?r) = st_tasks ?r" for q og b
    by (simp del: run_state.select_convs run_state.update_convs)
  ultimately have "tasks_all P (open_the_question q og b ?r)" for q og b
    by (rule tasks_all_cong [rotated])
  with \<open>tasks_all P ?r\<close> show ?thesis
    by (simp add: register_spawn_def Let_def all_set_state split: spawn_admission.splits)
qed

lemma all_transition:
  assumes "tasks_all P run"
    and "\<And>r. t = TrEscalated r \<Longrightarrow>
      tasks_all P (update_task key (\<lambda>t. t\<lparr>tf_rung := r, tf_attempts_on_rung := 0\<rparr>) (close_generation key run))"
  shows "tasks_all P (apply_transition key t run)"
proof -
  have close: "tasks_all P (close_generation key run)" using assms(1) by (rule all_close)
  have "tasks_all P (open_the_question q og b (close_generation key run))" for q og b
    using close by (rule tasks_all_cong [rotated]) simp
  moreover have "tasks_all P (record_halt k run')" if "tasks_all P run'" for k run'
    using that by (rule tasks_all_cong [rotated]) simp
  ultimately show ?thesis
    using assms close
    by (auto simp: apply_transition_def Let_def all_set_state all_set_defers all_fail_lineage
        split: settlement_transition.splits)
qed

lemma all_step:
  assumes all: "tasks_all P run"
    and spawn: "event_spawn body \<noteq> None \<Longrightarrow> P (length (st_tasks run)) task_fold_new"
    and dispatch: "\<And>d. body = EvTaskDispatched d \<Longrightarrow> tasks_all P (apply_dispatched d run)"
    and attempt: "\<And>d. body = EvAttemptStarted d \<Longrightarrow> tasks_all P (apply_attempt_started d run)"
    and settle: "\<And>d. body = EvAttemptFinished d \<Longrightarrow> tasks_all P (apply_settlement d run)"
    and prepared: "\<And>d. body = EvCandidatePrepared d \<Longrightarrow> tasks_all P (apply_candidate_prepared d run)"
  shows "tasks_all P (apply_body body dv run)"
proof -
  have same: "tasks_all P run'" if "st_tasks run' = st_tasks run" for run'
    using all by (rule tasks_all_cong [OF that])
  have q: "tasks_all P (set_state k s (open_the_question q og b run'))" if "st_tasks run' = st_tasks run"
    for k s q og b run'
    using same [of "open_the_question q og b run'"] that by (simp add: all_set_state)
  have merged: "tasks_all P (foldl (\<lambda>s key. set_state key Merged s) run' ks)"
    if "st_tasks run' = st_tasks run" for run' ks
    using same [OF that] by (rule tasks_all_foldl [rotated]) (rule all_set_state)
  have wake: "tasks_all P (wake_backoff run')" if "st_tasks run' = st_tasks run" for run'
    using same [OF that] by (rule all_wake)
  have created: "tasks_all P (apply_candidate_created c run)" for c
    using all_close [OF all, of "cr_key c"] unfolding apply_candidate_created_def Let_def
    by (rule tasks_all_cong [rotated]) simp
  have unavailable: "tasks_all P (apply_verification_unavailable d run)" for d
    using same by (auto simp: apply_verification_unavailable_def Let_def intro!: q
        split: option.splits unavailable_outcome.splits)
  have rejected: "tasks_all P (apply_merge_rejected d run)" if "body = EvMergeRejected d" for d
    unfolding apply_merge_rejected_def Let_def
    using spawn that
    by (intro all_register all_set_state same) (auto simp: event_spawn_def split: rejection_disposition.splits)
  have merged': "tasks_all P (apply_task_merged d run)" for d
    unfolding apply_task_merged_def Let_def
    using all by (auto intro!: tasks_all_cong [where run = "foldl (\<lambda>s key. set_state key Merged s) y ks" for y ks]
        merged split: option.splits)
  have refresh: "tasks_all P (refresh_task_state k run')" if "st_tasks run' = st_tasks run" for k run'
    using same [OF that] by (rule all_refresh)
  have fail: "tasks_all P (fail_lineage k run')" if "st_tasks run' = st_tasks run" for k run'
    using same [OF that] by (rule all_fail_lineage)
  have halt: "tasks_all P (record_halt k (fail_lineage k' run'))" if "st_tasks run' = st_tasks run" for k k' run'
    using fail [OF that] by (rule tasks_all_cong [rotated]) simp
  have answer: "tasks_all P (apply_answer d run)" for d
    by (simp add: apply_answer_def Let_def refresh fail halt split: answer4.splits option.splits)
  show ?thesis
    using all spawn dispatch attempt settle prepared rejected
    by (cases body; cases dv)
      (simp_all add: apply_body_def apply_resumed_def wake q created unavailable merged' answer same
        all_close all_set_state all_register event_spawn_def)
qed

end

subsection \<open>Generations\<close>

definition gen_ok :: "nat \<Rightarrow> generation_fold \<Rightarrow> bool" where
  "gen_ok i g \<longleftrightarrow>
     (case gf_class g of
        OpenNoAttempt \<Rightarrow> gf_attempts g = 0 \<and> gf_candidate g = None
      | InFlight a \<Rightarrow> gf_attempts g = a \<and> a \<noteq> 0 \<and> gf_candidate g = None
      | RetainedIdle _ _ \<Rightarrow> gf_attempts g \<noteq> 0 \<and> gf_candidate g = None
      | Promoting \<Rightarrow> gf_attempts g \<noteq> 0 \<and> gf_candidate g \<noteq> None
      | Closed \<Rightarrow> True) \<and>
     (case gf_candidate g of
        None \<Rightarrow> True
      | Some p \<Rightarrow> unat (cr_key (pc_candidate p)) = i \<and> cr_generation (pc_candidate p) = gf_id g)"

definition gens_ok :: "nat \<Rightarrow> generation_fold list \<Rightarrow> bool" where
  "gens_ok i gs \<longleftrightarrow>
     (\<forall>j < length gs. unat (gf_id (gs ! j)) = j \<and> gen_ok i (gs ! j)) \<and>
     (\<forall>j. Suc j < length gs \<longrightarrow> \<not> is_open (gs ! j))"

lemma update_first_last:
  "(\<And>j. Suc j < length xs \<Longrightarrow> \<not> p (xs ! j)) \<Longrightarrow>
   update_first p f xs = (if xs \<noteq> [] \<and> p (last xs) then butlast xs @ [f (last xs)] else xs)"
proof (induction xs)
  case (Cons x xs)
  have "update_first p f xs = (if xs \<noteq> [] \<and> p (last xs) then butlast xs @ [f (last xs)] else xs)"
    using Cons.prems [of "Suc j" for j] by (intro Cons.IH) auto
  then show ?case using Cons.prems [of 0] by auto
qed simp

lemma find_last:
  "(\<And>j. Suc j < length xs \<Longrightarrow> \<not> p (xs ! j)) \<Longrightarrow>
   find p xs = (if xs \<noteq> [] \<and> p (last xs) then Some (last xs) else None)"
proof (induction xs)
  case (Cons x xs)
  have "find p xs = (if xs \<noteq> [] \<and> p (last xs) then Some (last xs) else None)"
    using Cons.prems [of "Suc j" for j] by (intro Cons.IH) auto
  then show ?case using Cons.prems [of 0] by auto
qed simp

lemma gens_ok_find: "gens_ok i gs \<Longrightarrow> find is_open gs = (if gs \<noteq> [] \<and> is_open (last gs) then Some (last gs) else None)"
  by (rule find_last) (simp add: gens_ok_def)

lemma gens_ok_update_open:
  assumes ok: "gens_ok i gs"
    and f: "\<And>g. find is_open gs = Some g \<Longrightarrow> gen_ok i g \<Longrightarrow> gen_ok i (f g) \<and> gf_id (f g) = gf_id g"
  shows "gens_ok i (update_first is_open f gs)"
proof (cases "gs \<noteq> [] \<and> is_open (last gs)")
  case True
  have upd: "update_first is_open f gs = butlast gs @ [f (last gs)]"
    using update_first_last [of gs is_open f] ok True by (simp add: gens_ok_def)
  have last: "unat (gf_id (last gs)) = length gs - 1" "gen_ok i (last gs)"
    using ok True by (auto simp: gens_ok_def last_conv_nth)
  have "gen_ok i (f (last gs)) \<and> gf_id (f (last gs)) = gf_id (last gs)"
    using f [OF _ last(2)] True gens_ok_find [OF ok] by simp
  with ok True last show ?thesis
    unfolding upd by (auto simp: gens_ok_def nth_append nth_butlast less_Suc_eq)
next
  case False
  then have "update_first is_open f gs = gs"
    using update_first_last [of gs is_open f] ok by (auto simp: gens_ok_def)
  with ok show ?thesis by simp
qed

lemma gens_ok_snoc:
  assumes "gens_ok i gs" "find is_open gs = None" "unat (gf_id g) = length gs" "gen_ok i g"
  shows "gens_ok i (gs @ [g])"
proof -
  have "\<not> is_open (gs ! j)" if "j < length gs" for j
    using assms(2) that by (auto simp: find_None_iff')
  with assms show ?thesis by (auto simp: gens_ok_def nth_append less_Suc_eq)
qed

definition task_gens_ok :: "nat \<Rightarrow> task_fold \<Rightarrow> bool" where
  "task_gens_ok i t \<longleftrightarrow> gens_ok i (tf_generations t)"

lemma task_gens_ok_update_open:
  "task_gens_ok i t \<Longrightarrow>
   (\<And>g. tf_open t = Some g \<Longrightarrow> gen_ok i g \<Longrightarrow> gen_ok i (f g) \<and> gf_id (f g) = gf_id g) \<Longrightarrow>
   task_gens_ok i (tf_update_open f t)"
  by (simp add: task_gens_ok_def tf_update_open_def tf_open_def gens_ok_update_open)

interpretation gens: task_invariant task_gens_ok
proof
  fix i t
  assume "task_gens_ok i t"
  then show "task_gens_ok i (tf_update_open (\<lambda>g. g\<lparr>gf_class := Closed\<rparr>) t)"
    by (rule task_gens_ok_update_open) (auto simp: gen_ok_def split: option.splits)
qed (simp_all add: task_gens_ok_def)

lemma gens_update_open:
  assumes "tasks_all task_gens_ok run"
    and "\<And>t g. task_get run key = Some t \<Longrightarrow> tf_open t = Some g \<Longrightarrow> gen_ok (unat key) g \<Longrightarrow>
      gen_ok (unat key) (f g) \<and> gf_id (f g) = gf_id g"
  shows "tasks_all task_gens_ok (update_open_generation key f run)"
  unfolding update_open_generation_def using assms
  by (intro tasks_all_update task_gens_ok_update_open) (auto simp: task_get_def vec_get_def)

lemma checked_succ_nonzero: "checked_add a 1 = Some b \<Longrightarrow> b \<noteq> 0" for a b :: u32
  by (drule checked_add_Some_unat) (auto simp: unsigned_eq_0_iff)

lemma open_generation_Inr [result_simps]:
  "open_generation kind t key gid = Inr g \<longleftrightarrow> tf_open t = Some g \<and> gf_id g = gid"
  by (auto simp: open_generation_def result_simps)

lemma in_flight_Inr [result_simps]:
  "in_flight kind t key gid a = Inr g \<longleftrightarrow> tf_open t = Some g \<and> gf_id g = gid \<and> gf_class g = InFlight a"
  by (cases "tf_open t"; cases "gf_class (the (tf_open t))")
    (auto simp: in_flight_def open_generation_def)

lemma gens_dispatched:
  assumes "tasks_all task_gens_ok run" "check_dispatched run d = Inr ()"
  shows "tasks_all task_gens_ok (apply_dispatched d run)"
proof -
  from assms(2) obtain t where t: "task_get run (td_key d) = Some t" "tf_open t = None"
    "unat (td_generation d) = length (tf_generations t)"
    by (auto simp: check_dispatched_def result_simps st_task_def Let_def)
  let ?g = "\<lambda>lease. \<lparr>gf_id = td_generation d, gf_class = OpenNoAttempt, gf_base_sha = td_base_sha d,
    gf_lease = lease, gf_attempts = 0, gf_candidate = None\<rparr>"
  have "tasks_all task_gens_ok (update_task (td_key d) (\<lambda>t. t\<lparr>tf_generations := tf_generations t @ [?g lease]\<rparr>) run')"
    if run': "st_tasks run' = st_tasks run" for lease run'
  proof (rule tasks_all_update)
    show "tasks_all task_gens_ok run'" using run' assms(1) by (rule tasks_all_cong)
    fix u assume "unat (td_key d) < length (st_tasks run')" "st_tasks run' ! unat (td_key d) = u"
      "task_gens_ok (unat (td_key d)) u"
    then show "task_gens_ok (unat (td_key d)) (u\<lparr>tf_generations := tf_generations u @ [?g lease]\<rparr>)"
      using t run' unfolding task_gens_ok_def
      by (auto simp: task_get_def vec_get_def tf_open_def gen_ok_def intro!: gens_ok_snoc)
  qed
  then show ?thesis
    by (auto simp: apply_dispatched_def Let_def split: lease_grant.splits)
qed

lemma gens_attempt_started:
  assumes "tasks_all task_gens_ok run" "check_attempt_started run d = Inr ()"
  shows "tasks_all task_gens_ok (apply_attempt_started d run)"
proof -
  from assms(2) obtain t g where t: "task_get run (as_key d) = Some t" "tf_open t = Some g"
    and resumes: "check_resumes run d g = Inr ()" and next': "checked_add (gf_attempts g) 1 = Some (as_attempt d)"
    by (auto simp: check_attempt_started_def result_simps st_task_def Let_def)
  from resumes have "gf_class g = OpenNoAttempt \<or> (\<exists>s e. gf_class g = RetainedIdle s e)"
    by (auto simp: check_resumes_def split: generation_class.splits option.splits)
  then show ?thesis
    unfolding apply_attempt_started_def using t assms(1) checked_succ_nonzero [OF next']
    by (intro gens_update_open) (auto simp: gen_ok_def)
qed

lemma gens_settled:
  assumes "tasks_all task_gens_ok run" "check_attempt_finished run d = Inr ()"
  shows "tasks_all task_gens_ok (apply_settlement d run)"
proof -
  from assms(2) obtain t g where t: "task_get run (af4_key d) = Some t" "tf_open t = Some g"
    and fly: "gf_class g = InFlight (af4_attempt d)"
    by (auto simp: check_attempt_finished_def result_simps st_task_def Let_def)
  let ?c = "charge_allowance (af4_key d) (af4_record d) run"
  have ch: "tasks_all task_gens_ok ?c" using assms(1) by (rule gens.all_charge)
  have open': "\<exists>u. task_get ?c (af4_key d) = Some u \<and> tf_open u = Some g"
    using t by (auto simp: charge_allowance_def task_get_def update_task_def vec_get_update_at tf_open_def)
  have "tasks_all task_gens_ok (update_open_generation (af4_key d) (\<lambda>g. g\<lparr>gf_class := RetainedIdle s e\<rparr>) ?c)" for s e
    using ch open' fly by (intro gens_update_open) (auto simp: gen_ok_def)
  moreover have "tasks_all task_gens_ok (apply_transition (af4_key d) tr ?c)" for tr
    using ch by (rule gens.all_transition)
      (auto intro!: tasks_all_update gens.all_close ch simp: task_gens_ok_def)
  ultimately show ?thesis
    by (simp add: apply_settlement_def Let_def split: attempt_settlement.splits)
qed

lemma gens_prepared:
  assumes "tasks_all task_gens_ok run" "check_candidate_prepared run d = Inr ()"
  shows "tasks_all task_gens_ok (apply_candidate_prepared d run)"
proof -
  from assms(2) obtain t g where t: "task_get run (cp_key d) = Some t" "tf_open t = Some g"
    "gf_id g = cp_generation d" and fly: "is_in_flight (gf_class g)"
    by (auto simp: check_candidate_prepared_def result_simps st_task_def Let_def)
  let ?u = "update_open_generation (cp_key d) (\<lambda>g. g\<lparr>gf_candidate := Some
      \<lparr>pc_candidate = candidate_of_prepared d, pc_base_sha = cp_base_sha d,
       pc_tree_sha = cp_tree_sha d, pc_paths = cp_actual_paths d\<rparr>, gf_class := Promoting\<rparr>) run"
  have "tasks_all task_gens_ok ?u"
    using assms(1) t fly
    by (intro gens_update_open)
      (auto simp: gen_ok_def candidate_of_prepared_def split: generation_class.splits)
  then have ch: "tasks_all task_gens_ok (charge_allowance (cp_key d) (cp_attempt d) ?u)"
    by (rule gens.all_charge)
  show ?thesis
    unfolding apply_candidate_prepared_def
    by (intro gens.all_set_state tasks_all_cong [OF _ ch]) simp
qed

lemma gens_step:
  assumes "tasks_all task_gens_ok run" "check_body x run body = Inr dv"
  shows "tasks_all task_gens_ok (apply_body body dv run)"
  using assms
  by (intro gens.all_step)
    (auto simp: check_body_def result_simps gens_dispatched gens_attempt_started gens_settled gens_prepared,
     simp add: task_gens_ok_def gens_ok_def task_fold_new_def)

subsection \<open>The place on the ladder\<close>

definition rung_ok :: "task_registry \<Rightarrow> nat \<Rightarrow> task_fold \<Rightarrow> bool" where
  "rung_ok r i t \<longleftrightarrow>
     tf_rung t = 0 \<or> (\<exists>e. vec_get (rg_entries r) i = Some e \<and> unat (tf_rung t) < length (fl_rungs (te_ladder e)))"

interpretation rung: task_invariant "rung_ok r" for r
  by unfold_locales (auto simp: rung_ok_def tf_update_open_def)

lemma rung_ok_register: "rung_ok r i t \<Longrightarrow> rung_ok (register_entry e r) i t"
  by (auto simp: rung_ok_def register_entry_def vec_get_append_left)

lemma rung_ok_apply:
  "tasks_all (rung_ok (st_registry run)) run \<Longrightarrow> tasks_all (rung_ok (st_registry (apply_body body dv run))) run"
  by (auto simp: tasks_all_def registry_apply_body rung_ok_register split: option.splits)

lemma rung_update_open:
  "tasks_all (rung_ok r) run \<Longrightarrow> tasks_all (rung_ok r) (update_open_generation key f run)"
  unfolding update_open_generation_def
  by (rule tasks_all_update) (auto simp: rung_ok_def tf_update_open_def)

lemma rung_settled:
  assumes "tasks_all (rung_ok (st_registry run)) run" "check_attempt_finished run d = Inr ()"
  shows "tasks_all (rung_ok (st_registry run)) (apply_settlement d run)"
proof -
  let ?c = "charge_allowance (af4_key d) (af4_record d) run"
  have ch: "tasks_all (rung_ok (st_registry run)) ?c" using assms(1) by (rule rung.all_charge)
  have "tasks_all (rung_ok (st_registry run)) (apply_transition (af4_key d) tr ?c)"
    if tr: "af4_settlement d = SettleClosed tr l" for tr l
  proof (rule rung.all_transition [OF ch], rule tasks_all_update [OF rung.all_close [OF ch]])
    fix r t assume "tr = TrEscalated r"
    with assms(2) tr obtain u e where "registry_get (st_registry run) (af4_key d) = Some e"
      "next_rung u (length (fl_rungs (te_ladder e))) = Some r"
      by (auto simp: check_attempt_finished_def check_settled_transition_def result_simps st_entry_def Let_def)
    then show "rung_ok (st_registry run) (unat (af4_key d)) (t\<lparr>tf_rung := r, tf_attempts_on_rung := 0\<rparr>)"
      by (auto simp: rung_ok_def next_rung_def registry_get_def split: option.splits if_splits)
  qed
  then show ?thesis
    using ch by (auto simp: apply_settlement_def Let_def rung_update_open split: attempt_settlement.splits)
qed

lemma rung_step:
  assumes "tasks_all (rung_ok (st_registry run)) run" "check_body x run body = Inr dv"
  shows "tasks_all (rung_ok (st_registry (apply_body body dv run))) (apply_body body dv run)"
proof -
  let ?r = "st_registry (apply_body body dv run)"
  have all: "tasks_all (rung_ok ?r) run" using assms(1) by (rule rung_ok_apply)
  show ?thesis
  proof (rule rung.all_step [OF all])
    show "rung_ok ?r (length (st_tasks run)) task_fold_new" by (simp add: rung_ok_def task_fold_new_def)
    show "tasks_all (rung_ok ?r) (apply_dispatched d run)" for d
      using all by (auto simp: apply_dispatched_def Let_def rung_ok_def
          intro!: tasks_all_update intro: tasks_all_cong split: lease_grant.splits)
    show "tasks_all (rung_ok ?r) (apply_attempt_started d run)" for d
      using all by (simp add: apply_attempt_started_def rung_update_open)
    show "tasks_all (rung_ok ?r) (apply_candidate_prepared d run)" for d
      unfolding apply_candidate_prepared_def
      by (intro rung.all_set_state tasks_all_cong [OF _ rung.all_charge [OF rung_update_open [OF all]]]) simp
    show "tasks_all (rung_ok ?r) (apply_settlement d run)" if "body = EvAttemptFinished d" for d
      using assms that rung_settled [OF assms(1), of d]
      by (simp add: check_body_def result_simps registry_apply_body event_spawn_def)
  qed
qed

subsection \<open>Reachable states\<close>

lemma reachable_registry: "reachable x inputs run \<Longrightarrow> registry_inv run"
  by (induction rule: reachable.induct) (auto simp: result_simps intro: registry_inv_start registry_inv_step)

lemma reachable_gens: "reachable x inputs run \<Longrightarrow> tasks_all task_gens_ok run"
proof (induction rule: reachable.induct)
  case (started d registry)
  show ?case by (simp add: tasks_all_def run_start_def task_gens_ok_def gens_ok_def task_fold_new_def)
qed (auto simp: result_simps intro: gens_step)

lemma reachable_rung: "reachable x inputs run \<Longrightarrow> tasks_all (rung_ok (st_registry run)) run"
proof (induction rule: reachable.induct)
  case (started d registry)
  show ?case by (simp add: tasks_all_def run_start_def rung_ok_def task_fold_new_def)
qed (auto simp: result_simps intro: rung_step)

lemma replay_reachable_run:
  "replay x inputs es = Inr f \<Longrightarrow> fo_run f = Some run \<Longrightarrow> reachable x inputs run"
  using replay_reachable by (auto simp: fold_inv_def)

end
