(* ===== verification/Fold_States.thy ===== *)
theory Fold_States
  imports Fold_Tasks
begin

section \<open>The state of each task, event by event\<close>

text \<open>
  \<open>state_of\<close> is the map from keys to task states. Every transition is described by what
  it does to this map; the questions a task waits on, the deferred set and the final states
  are then read off.
\<close>

definition state_of :: "run_state \<Rightarrow> task_key \<Rightarrow> task_state option" where
  "state_of run key = map_option tf_state (task_get run key)"

lemma unat_key_eq: "unat k = unat k' \<longleftrightarrow> k = k'" for k k' :: task_key
  by (simp add: word_unat_eq_iff)

lemma task_get_update_task:
  "task_get (update_task key f run) k = (if k = key then map_option f (task_get run k) else task_get run k)"
  by (simp add: task_get_def update_task_def vec_get_update_at unat_key_eq)

lemma task_get_cong: "st_tasks run' = st_tasks run \<Longrightarrow> task_get run' k = task_get run k"
  by (simp add: task_get_def)

lemma state_of_cong: "st_tasks run' = st_tasks run \<Longrightarrow> state_of run' = state_of run"
  by (simp add: state_of_def task_get_def fun_eq_iff)

lemma state_of_update_task:
  "(\<And>t. tf_state (f t) = tf_state t) \<Longrightarrow> state_of (update_task key f run) = state_of run"
  by (auto simp: state_of_def task_get_update_task fun_eq_iff option.map_comp comp_def)

lemma state_of_set_state:
  "state_of (set_state key s run) =
     (\<lambda>k. if k = key then map_option (\<lambda>_. s) (state_of run k) else state_of run k)"
proof -
  have "task_get (run\<lparr>st_deferred_tasks := ds\<rparr>) k = task_get run k" for ds k
    by (simp add: task_get_def)
  then show ?thesis
    by (auto simp: state_of_def set_state_def task_get_update_task fun_eq_iff option.map_comp comp_def)
qed

lemma state_of_update_open [simp]: "state_of (update_open_generation key f run) = state_of run"
  by (simp add: update_open_generation_def state_of_update_task tf_update_open_def)

lemma state_of_counts [simp]:
  "state_of (set_defers key n run) = state_of run"
  "state_of (charge_allowance key r run) = state_of run"
  by (simp_all add: set_defers_def charge_allowance_def state_of_update_task)

lemma state_of_simple [simp]:
  "state_of (update_leases h run) = state_of run"
  "state_of (update_queue q run) = state_of run"
  "state_of (update_queued c e run) = state_of run"
  "state_of (open_the_question qu og b run) = state_of run"
  "state_of (record_halt key run) = state_of run"
  "state_of (bump_sequence run) = state_of run"
  "state_of (release_holdings_of key run) = state_of run"
  "state_of (run\<lparr>st_deferred_tasks := ds\<rparr>) = state_of run"
  "state_of (run\<lparr>st_questions := qs\<rparr>) = state_of run"
  "state_of (run\<lparr>st_overrides := ov\<rparr>) = state_of run"
  "state_of (run\<lparr>st_transaction := tx\<rparr>) = state_of run"
  by (rule state_of_cong, simp)+

lemma state_of_close [simp]: "state_of (close_generation key run) = state_of run"
  by (simp add: close_generation_def Let_def split: option.splits)

definition fail_unless_merged :: "task_state \<Rightarrow> task_state" where
  "fail_unless_merged s = (if s = Merged then Merged else Failed)"

lemma state_of_fail_member:
  "state_of (fail_member run m) =
     (\<lambda>k. if k = m then map_option fail_unless_merged (state_of run k) else state_of run k)"
proof -
  let ?c = "release_holdings_of m (close_generation m run)"
  let ?d = "?c\<lparr>st_deferred_tasks := bs_remove m (st_deferred_tasks ?c)\<rparr>"
  have "state_of ?d = state_of run" by simp
  then have eq: "state_of run k = map_option tf_state (task_get ?d k)" for k
    unfolding state_of_def [symmetric] by metis
  show ?thesis
  proof (cases "task_get ?d m")
    case None
    then have "fail_member run m = ?d" by (simp add: fail_member_def Let_def)
    with None show ?thesis using eq [of m] by (auto simp: fun_eq_iff)
  next
    case (Some t)
    then have "fail_member run m = (if tf_state t \<noteq> Merged then set_state m Failed ?d else ?d)"
      by (simp add: fail_member_def Let_def)
    with Some show ?thesis
      using eq [of m] by (auto simp: fun_eq_iff state_of_set_state fail_unless_merged_def)
  qed
qed

lemma fail_unless_merged_idem [simp]: "fail_unless_merged (fail_unless_merged s) = fail_unless_merged s"
  by (simp add: fail_unless_merged_def)

lemma state_of_fail_members:
  "state_of (foldl fail_member run ms) =
     (\<lambda>k. if k \<in> set ms then map_option fail_unless_merged (state_of run k) else state_of run k)"
  by (induction ms arbitrary: run)
    (auto simp: state_of_fail_member fun_eq_iff option.map_comp comp_def)

lemma state_of_fail_lineage:
  "state_of (fail_lineage key run) =
     (\<lambda>k. if k \<in> set (lineage_member_keys run (lineage_root run key))
          then map_option fail_unless_merged (state_of run k) else state_of run k)"
  by (simp add: fail_lineage_def Let_def state_of_fail_members)

lemma state_of_merge_all:
  "state_of (foldl (\<lambda>s key. set_state key Merged s) run ks) =
     (\<lambda>k. if k \<in> set ks then map_option (\<lambda>_. Merged) (state_of run k) else state_of run k)"
  by (induction ks arbitrary: run)
    (auto simp: state_of_set_state fun_eq_iff option.map_comp comp_def)

definition refreshed :: "run_state \<Rightarrow> task_key \<Rightarrow> task_state \<Rightarrow> task_state" where
  "refreshed run key s =
     (if is_terminal s then s
      else if open_question_for run key \<noteq> None then AwaitingInput
      else if holds_task (st_queue run) key \<or> transaction_is_for run key then AwaitingMerge
      else if list_ex (\<lambda>e. case te_lineage e of None \<Rightarrow> False | Some l \<Rightarrow> ln_parent l = key)
                (rg_entries (st_registry run)) then AwaitingRepair
      else if bs_contains (st_deferred_tasks run) key then Deferred
      else Pending)"

lemma state_of_refresh:
  "state_of (refresh_task_state key run) =
     (\<lambda>k. if k = key then map_option (refreshed run key) (state_of run k) else state_of run k)"
proof (cases "task_get run key")
  case None
  then show ?thesis by (auto simp: refresh_task_state_def state_of_def fun_eq_iff)
next
  case (Some t)
  then have st: "state_of run key = Some (tf_state t)" by (simp add: state_of_def)
  show ?thesis
  proof (cases "is_terminal (tf_state t)")
    case True
    with Some st show ?thesis
      by (auto simp: refresh_task_state_def derived_state_def facts_of_def refreshed_def fun_eq_iff)
  next
    case False
    then have "derived_state (facts_of run key t) = Some (refreshed run key (tf_state t))"
      by (simp add: derived_state_def facts_of_def refreshed_def)
    with Some st show ?thesis
      by (auto simp: refresh_task_state_def state_of_set_state fun_eq_iff)
  qed
qed

lemma state_of_register:
  assumes "unat (sw_key sp) = length (st_tasks run)"
  shows "state_of (register_spawn sp run) =
    (state_of run)(sw_key sp \<mapsto> (if sw_admission sp = SpawnRunnable then Pending else AwaitingInput))"
proof -
  let ?r = "run\<lparr>st_registry := register_entry (sw_entry sp) (st_registry run),
    st_tasks := st_tasks run @ [task_fold_new]\<rparr>"
  have "state_of ?r = (state_of run)(sw_key sp \<mapsto> Pending)"
  proof
    fix k
    show "state_of ?r k = ((state_of run)(sw_key sp \<mapsto> Pending)) k"
      using assms unat_key_eq [of k "sw_key sp"]
      by (auto simp: state_of_def task_get_def vec_get_snoc vec_get_def task_fold_new_def nth_append)
  qed
  then show ?thesis
    by (auto simp: register_spawn_def Let_def state_of_set_state fun_eq_iff split: spawn_admission.splits)
qed

subsection \<open>Merged is reached through a publication only\<close>

definition merged_in :: "run_state \<Rightarrow> task_key \<Rightarrow> bool" where
  "merged_in run key \<longleftrightarrow> state_of run key = Some Merged"

lemma refreshed_merged: "refreshed run key s = Merged \<longleftrightarrow> s = Merged"
  by (auto simp: refreshed_def is_terminal_def)

lemma merged_in_wake: "merged_in (wake_backoff run) k \<Longrightarrow> merged_in run k"
proof -
  have "merged_in (foldl (\<lambda>s key. refresh_task_state key s) run' ks) k \<Longrightarrow> merged_in run' k" for run' ks
    by (induction ks arbitrary: run')
      (force simp: merged_in_def state_of_refresh refreshed_merged split: if_splits)+
  then show "merged_in (wake_backoff run) k \<Longrightarrow> merged_in run k"
    by (force simp: wake_backoff_def Let_def merged_in_def)
qed

lemma state_of_transition:
  "state_of (apply_transition key t run) k = Some Merged \<Longrightarrow> state_of run k = Some Merged"
  by (auto simp: apply_transition_def Let_def state_of_set_state state_of_update_task
      state_of_fail_lineage fail_unless_merged_def
      split: settlement_transition.splits if_splits)

lemma merged_in_answer: "merged_in (apply_answer d run) k \<Longrightarrow> merged_in run k"
  by (auto simp: merged_in_def apply_answer_def Let_def state_of_refresh state_of_fail_lineage
      refreshed_merged fail_unless_merged_def split: answer4.splits option.splits if_splits)

lemma merged_in_dispatched: "merged_in (apply_dispatched d run) k \<Longrightarrow> merged_in run k"
  by (auto simp: merged_in_def apply_dispatched_def Let_def state_of_update_task split: lease_grant.splits)

lemma merged_in_settlement: "merged_in (apply_settlement d run) k \<Longrightarrow> merged_in run k"
  by (auto simp: merged_in_def apply_settlement_def Let_def dest: state_of_transition
      split: attempt_settlement.splits)

lemma merged_in_prepared: "merged_in (apply_candidate_prepared d run) k \<Longrightarrow> merged_in run k"
  by (auto simp: merged_in_def apply_candidate_prepared_def state_of_set_state split: if_splits)

lemma merged_in_created: "merged_in (apply_candidate_created d run) k \<Longrightarrow> merged_in run k"
  by (auto simp: merged_in_def apply_candidate_created_def Let_def)

lemma merged_in_unavailable: "merged_in (apply_verification_unavailable d run) k \<Longrightarrow> merged_in run k"
  by (auto simp: merged_in_def apply_verification_unavailable_def Let_def state_of_set_state
      split: option.splits unavailable_outcome.splits if_splits)

lemma merged_in_register:
  "unat (sw_key sp) = length (st_tasks run) \<Longrightarrow> merged_in (register_spawn sp run) k \<Longrightarrow> merged_in run k"
  by (auto simp: merged_in_def state_of_register split: if_splits)

lemma merged_in_rejected:
  "unat (sw_key (mr_repair d)) = length (st_tasks run) \<Longrightarrow> merged_in (apply_merge_rejected d run) k \<Longrightarrow> merged_in run k"
  unfolding apply_merge_rejected_def Let_def
  by (drule merged_in_register [rotated])
    (auto simp: merged_in_def state_of_set_state split: if_splits rejection_disposition.splits)

lemma merged_in_same: "st_tasks run' = st_tasks run \<Longrightarrow> merged_in run' k = merged_in run k"
  by (simp add: merged_in_def state_of_def task_get_def)

lemma merged_in_frames [simp]:
  "merged_in (run\<lparr>st_budget_stop := b\<rparr>) k = merged_in run k"
  "merged_in (run\<lparr>st_finished := o'\<rparr>) k = merged_in run k"
  "merged_in (run\<lparr>st_charged := c\<rparr>) k = merged_in run k"
  "merged_in (release_transaction run) k = merged_in run k"
  "merged_in (apply_verification_started vs run) k = merged_in run k"
  "merged_in (apply_merge_prepared mp run) k = merged_in run k"
  "merged_in (run\<lparr>st_epoch := e\<rparr>) k = merged_in run k"
  "merged_in (run\<lparr>st_incarnation := i\<rparr>) k = merged_in run k"
  by (rule merged_in_same, simp)+

lemma merged_in_simple [simp]:
  "merged_in (apply_attempt_started d run) k = merged_in run k"
  "merged_in (close_generation key run) k = merged_in run k"
  "merged_in (open_the_question q og b run) k = merged_in run k"
  by (simp_all add: merged_in_def apply_attempt_started_def)

lemma merged_in_set_state: "merged_in (set_state key s run) k \<Longrightarrow> s \<noteq> Merged \<Longrightarrow> merged_in run k"
  by (auto simp: merged_in_def state_of_set_state split: if_splits)

lemma merged_in_task_merged:
  assumes "check_task_merged run m = Inr ()" "merged_in (apply_task_merged m run) k"
  shows "merged_in run k \<or> (\<exists>tx eh d r. st_transaction run = Some tx \<and>
    tx_class tx = Prepared eh (tm_merged_sha m) (tm_satisfies m) d r \<and> k \<in> set (tm_satisfies m))"
proof -
  obtain tx where tx: "st_transaction run = Some tx" "open_transaction run ''task_merged'' (tm_sequence m) = Inr tx"
    using assms(1) by (auto simp: check_task_merged_def open_transaction_def result_simps Let_def)
  with assms(1) have "\<exists>eh d r. tx_class tx = Prepared eh (tm_merged_sha m) (tm_satisfies m) d r"
    by (auto simp: check_task_merged_def result_simps Let_def split: transaction_class.splits if_splits)
  with assms(2) tx show ?thesis
    by (auto simp: merged_in_def apply_task_merged_def Let_def state_of_merge_all split: if_splits)
qed

lemma spawn_key_next:
  assumes "registry_inv run" "check_body x run body = Inr dv" "event_spawn body = Some sp"
  shows "unat (sw_key sp) = length (st_tasks run)"
  using event_spawn_checked [OF assms(2,3)] check_spawn_Inr [of run sp] assms(1)
  by (fastforce simp: registry_inv_def registry_len_def)

lemma merged_step:
  assumes "registry_inv run" "check_body x run body = Inr dv" "merged_in (apply_body body dv run) k"
  shows "merged_in run k \<or> (\<exists>m tx eh d r. body = EvTaskMerged m \<and> st_transaction run = Some tx \<and>
    tx_class tx = Prepared eh (tm_merged_sha m) (tm_satisfies m) d r \<and> k \<in> set (tm_satisfies m))"
proof (cases "\<exists>m. body = EvTaskMerged m")
  case True
  then obtain m where m: "body = EvTaskMerged m" by blast
  with assms(2,3) merged_in_task_merged [of run m k] show ?thesis
    by (auto simp: check_body_def apply_body_def result_simps)
next
  case False
  have key: "event_spawn body = Some sp \<Longrightarrow> unat (sw_key sp) = length (st_tasks run)" for sp
    using spawn_key_next [OF assms(1,2)] .
  have "merged_in run k"
    using False assms(3) key
    by (cases body; cases dv)
      (auto simp: apply_body_def event_spawn_def apply_resumed_def
        dest!: merged_in_dispatched merged_in_settlement merged_in_prepared merged_in_created
          merged_in_unavailable merged_in_answer merged_in_wake merged_in_register merged_in_rejected
          merged_in_set_state split: if_splits)
  then show ?thesis ..
qed

end
