(* ===== verification/Fold_Markers.thy ===== *)
theory Fold_Markers
  imports Fold_States
begin

section \<open>Epochs, sequences, stops and publications\<close>

text \<open>
  The scalar markers of a run: the epoch counts resumes, the halt is recorded once, a budget
  stop belongs to its epoch, the open transaction holds the sequence number handed out last,
  and an authorized publication settles exactly the chain of its candidate.
\<close>

subsection \<open>Fields\<close>

lemma epoch_apply_body:
  "st_epoch (apply_body body dv run) =
     (case body of EvRunResumed _ \<Rightarrow> sat_add (st_epoch run) 1 | _ \<Rightarrow> st_epoch run)"
  by (cases body; cases dv) (simp_all add: apply_body_def apply_resumed_def)

lemma incarnation_apply_body:
  "st_incarnation (apply_body body dv run) =
     (case body of EvRunResumed d \<Rightarrow> r4_incarnation d | _ \<Rightarrow> st_incarnation run)"
  by (cases body; cases dv) (simp_all add: apply_body_def apply_resumed_def)

lemma halted_record [simp]:
  "st_halted_at run = Some k \<Longrightarrow> st_halted_at (record_halt key run) = Some k"
  "st_halted_at run = Some k \<Longrightarrow> st_halted_epoch (record_halt key run) = st_halted_epoch run"
  by (simp_all add: record_halt_def)

lemma halted_apply_body:
  assumes "st_halted_at run = Some k"
  shows "st_halted_at (apply_body body dv run) = Some k \<and>
    st_halted_epoch (apply_body body dv run) = st_halted_epoch run"
  using assms
  by (cases body; cases dv)
    (simp_all add: apply_body_def apply_settlement_def apply_transition_def apply_answer_def Let_def
      split: attempt_settlement.splits settlement_transition.splits answer4.splits option.splits)

lemma budget_apply_body:
  "st_budget_stop (apply_body body dv run) =
     (case body of
        EvRunResumed _ \<Rightarrow> None
      | EvBudgetExceeded d \<Rightarrow>
          if budget_stop_is_current run then st_budget_stop run else Some (budget_exceeded_stop d)
      | _ \<Rightarrow> st_budget_stop run)"
  by (cases body; cases dv) (simp_all add: apply_body_def apply_resumed_def)

lemma finished_apply_body:
  "st_finished (apply_body body dv run) =
     (case body of
        EvRunResumed _ \<Rightarrow> None | EvRunFinished d \<Rightarrow> Some (f4_outcome d) | _ \<Rightarrow> st_finished run)"
  by (cases body; cases dv) (simp_all add: apply_body_def apply_resumed_def)

lemma transaction_merge_rejected [simp]: "st_transaction (apply_merge_rejected d run) = None"
  by (simp add: apply_merge_rejected_def Let_def split: rejection_disposition.splits)

lemma transaction_cleared [simp]:
  "st_transaction (apply_verification_unavailable u run) = None"
  "st_transaction (release_transaction run) = None"
  "st_transaction (apply_task_merged m run) = None"
  by (simp_all add: apply_verification_unavailable_def release_transaction_def apply_task_merged_def
      Let_def foldl_same [where g = st_transaction] split: option.splits unavailable_outcome.splits)

lemma transaction_apply_body:
  "st_transaction (apply_body body dv run) =
     (case body of
        EvMergeVerificationStarted d \<Rightarrow>
          Some \<lparr>tx_sequence = vs_sequence d, tx_candidate = vs_candidate d,
                tx_class = VerificationStarted (vs_basis d) (vs_expected_head d) (vs_proposed_sha d)\<rparr>
      | EvMergePrepared d \<Rightarrow>
          Some \<lparr>tx_sequence = mp_sequence d, tx_candidate = merge_candidate d,
                tx_class = Prepared (mp_expected_head d) (mp_proposed_sha d) (mp_satisfies d)
                  (mp_disposition d) (mp_prepared_ref d)\<rparr>
      | EvMergeVerificationUnavailable _ \<Rightarrow> None
      | EvMergeVerificationInterrupted _ \<Rightarrow> None
      | EvMergeRejected _ \<Rightarrow> None
      | EvTaskMerged _ \<Rightarrow> None
      | _ \<Rightarrow> st_transaction run)"
  by (cases body; cases dv)
    (simp_all add: apply_body_def apply_verification_started_def apply_merge_prepared_def)

lemma next_sequence_apply_body:
  "st_next_sequence (apply_body body dv run) =
     (case body of
        EvMergeVerificationStarted _ \<Rightarrow> sat_add (st_next_sequence run) 1
      | EvMergePrepared d \<Rightarrow>
          if mp_disposition d = PdFast then sat_add (st_next_sequence run) 1 else st_next_sequence run
      | EvMergeRejected d \<Rightarrow>
          (case mr_disposition d of
             RdConflict _ \<Rightarrow> sat_add (st_next_sequence run) 1 | _ \<Rightarrow> st_next_sequence run)
      | _ \<Rightarrow> st_next_sequence run)"
  by (cases body; cases dv)
    (simp_all add: apply_body_def apply_verification_started_def apply_merge_prepared_def
      apply_merge_rejected_def bump_sequence_def Let_def split: rejection_disposition.splits)

subsection \<open>Budget stops and halts\<close>

definition budget_inv :: "run_state \<Rightarrow> bool" where
  "budget_inv run \<longleftrightarrow> (case st_budget_stop run of None \<Rightarrow> True | Some s \<Rightarrow> bst_epoch s = st_epoch run)"

lemma budget_inv_step: "budget_inv run \<Longrightarrow> check_body x run body = Inr dv \<Longrightarrow> budget_inv (apply_body body dv run)"
  by (cases body)
    (auto simp: budget_inv_def budget_apply_body epoch_apply_body check_body_def result_simps
      check_budget_exceeded_def budget_exceeded_stop_def Let_def split: option.splits)

lemma reachable_budget: "reachable x inputs run \<Longrightarrow> budget_inv run"
  by (induction rule: reachable.induct)
    (auto simp: budget_inv_def run_start_def result_simps intro: budget_inv_step [unfolded budget_inv_def])

subsection \<open>Transactions\<close>

lemma open_transaction_Inr [result_simps]:
  "open_transaction run kind sq = Inr tx \<longleftrightarrow> st_transaction run = Some tx \<and> tx_sequence tx = sq"
  by (auto simp: open_transaction_def result_simps)

lemma check_transaction_start_Inr [result_simps]:
  "check_transaction_start x run kind sq c = Inr e \<longleftrightarrow>
     st_transaction run = None \<and> sq = st_next_sequence run \<and> run_first_eligible x run = Some e \<and>
     qe_candidate e = c"
  by (auto simp: check_transaction_start_def result_simps split: option.splits)

lemma ancestors_cong:
  assumes "\<And>k. k \<le> key \<Longrightarrow> entry_lineage run' k = entry_lineage run k"
  shows "ancestors run' key = ancestors run key"
  using assms
proof (induction run key rule: ancestors.induct)
  case (1 run key)
  have same: "entry_lineage run' key = entry_lineage run key" using "1.prems" by simp
  show ?case
  proof (cases "entry_lineage run key")
    case None
    with same show ?thesis by (simp add: ancestors.simps [of _ key])
  next
    case (Some l)
    have "ancestors run' (ln_parent l) = ancestors run (ln_parent l)" if "\<not> key \<le> ln_parent l"
      using "1.prems" that by (intro "1.IH" [OF Some that]) auto
    with same Some show ?thesis by (simp add: ancestors.simps [of _ key])
  qed
qed

lemma closure_apply_body:
  assumes "registry_get (st_registry run) key = Some e"
  shows "satisfies_closure (apply_body body dv run) key = satisfies_closure run key"
proof -
  have "entry_lineage (apply_body body dv run) k = entry_lineage run k" if "k \<le> key" for k
  proof -
    have "unat k \<le> unat key" using that by (simp add: word_le_nat_alt)
    then obtain e' where "registry_get (st_registry run) k = Some e'"
      using assms by (auto simp: registry_get_def vec_get_def split: if_splits)
    then show ?thesis by (rule entry_lineage_apply_old)
  qed
  then have "ancestors (apply_body body dv run) key = ancestors run key" by (rule ancestors_cong)
  then show ?thesis by (simp add: satisfies_closure_def)
qed

definition prepared_of :: "run_state \<Rightarrow> candidate_ref \<Rightarrow> prepared_candidate option" where
  "prepared_of run c = Option.bind (task_get run (cr_key c)) (\<lambda>t. find_prepared t c)"

lemma prepared_record_Inr [result_simps]:
  "prepared_record run kind c = Inr p \<longleftrightarrow> prepared_of run c = Some p"
  by (auto simp: prepared_record_def prepared_of_def st_task_def result_simps bind_eq_Some_conv)

definition transaction_ok :: "run_state \<Rightarrow> transaction \<Rightarrow> bool" where
  "transaction_ok run tx \<longleftrightarrow>
     sat_add (tx_sequence tx) 1 = st_next_sequence run \<and>
     registry_get (st_registry run) (cr_key (tx_candidate tx)) \<noteq> None \<and>
     (case tx_class tx of
        VerificationStarted basis head proposed \<Rightarrow> (basis = BasisAlreadyPresent \<longleftrightarrow> proposed = head)
      | Prepared head proposed satisfies disposition pin \<Rightarrow>
          satisfies = satisfies_closure run (cr_key (tx_candidate tx)) \<and>
          (disposition = PdFast \<longrightarrow> proposed = cr_commit_sha (tx_candidate tx) \<and> pin = None) \<and>
          (disposition = PdAlreadyPresent \<longleftrightarrow> disposition \<noteq> PdFast \<and> proposed = head) \<and>
          (disposition = PdStaleClean \<longrightarrow> pin \<noteq> None))"

definition transaction_inv :: "run_state \<Rightarrow> bool" where
  "transaction_inv run \<longleftrightarrow> (case st_transaction run of None \<Rightarrow> True | Some tx \<Rightarrow> transaction_ok run tx)"

lemma registry_get_apply_old:
  "registry_get (st_registry run) k = Some e \<Longrightarrow> registry_get (st_registry (apply_body body dv run)) k = Some e"
  by (simp add: registry_apply_body registry_get_register_old split: option.splits)

lemma task_get_registered:
  "registry_inv run \<Longrightarrow> task_get run k = Some t \<Longrightarrow> \<exists>e. registry_get (st_registry run) k = Some e"
  by (auto simp: registry_inv_def task_get_def registry_get_def vec_get_def split: if_splits)

lemma prepared_of_registered:
  "registry_inv run \<Longrightarrow> prepared_of run c = Some p \<Longrightarrow> \<exists>e. registry_get (st_registry run) (cr_key c) = Some e"
  by (auto simp: prepared_of_def bind_eq_Some_conv dest: task_get_registered)

lemma prepared_of_candidate: "prepared_of run c = Some p \<Longrightarrow> pc_candidate p = c"
  by (auto simp: prepared_of_def find_prepared_def bind_eq_Some_conv split: option.splits if_splits)

lemma transaction_ok_keep:
  assumes "transaction_ok run tx" "st_next_sequence (apply_body body dv run) = st_next_sequence run"
  shows "transaction_ok (apply_body body dv run) tx"
proof -
  from assms(1) obtain e where e: "registry_get (st_registry run) (cr_key (tx_candidate tx)) = Some e"
    by (auto simp: transaction_ok_def)
  with assms show ?thesis
    by (cases "tx_class tx") (simp_all add: transaction_ok_def registry_get_apply_old closure_apply_body [OF e])
qed

lemma transaction_verification_started:
  assumes inv: "registry_inv run" and chk: "check_verification_started x run d = Inr ()"
  shows "transaction_inv (apply_body (EvMergeVerificationStarted d) dv run)"
proof -
  from chk obtain p where sq: "vs_sequence d = st_next_sequence run"
    and p: "prepared_of run (vs_candidate d) = Some p"
    and basis: "vs_basis d = BasisAlreadyPresent \<longleftrightarrow> vs_proposed_sha d = vs_expected_head d"
    by (auto simp: check_verification_started_def result_simps Let_def split: verification_basis.splits if_splits)
  obtain e where "registry_get (st_registry run) (cr_key (vs_candidate d)) = Some e"
    using prepared_of_registered [OF inv p] by blast
  with sq basis show ?thesis
    by (simp add: transaction_inv_def transaction_apply_body transaction_ok_def next_sequence_apply_body
        registry_get_apply_old)
qed

lemma check_verified_publication_Inr:
  assumes "check_verified_publication run d = Inr ()"
  shows "\<exists>tx basis. st_transaction run = Some tx \<and> tx_sequence tx = mp_sequence d \<and>
    tx_class tx = VerificationStarted basis (mp_expected_head d) (mp_proposed_sha d) \<and>
    tx_candidate tx = merge_candidate d \<and>
    (mp_disposition d = PdStaleClean \<longleftrightarrow> basis \<noteq> BasisAlreadyPresent)"
proof -
  obtain tx where tx: "open_transaction run ''merge_prepared'' (mp_sequence d) = Inr tx"
    using assms by (auto simp: check_verified_publication_def result_simps Let_def)
  then have "st_transaction run = Some tx" "tx_sequence tx = mp_sequence d" by (simp_all add: result_simps)
  then show ?thesis
    using assms unfolding check_verified_publication_def Let_def tx
    by (cases "tx_class tx") (auto simp: result_simps split: verification_basis.splits)
qed

lemma transaction_merge_prepared:
  assumes inv: "registry_inv run" "transaction_inv run" and chk: "check_merge_prepared x run d = Inr ()"
  shows "transaction_inv (apply_body (EvMergePrepared d) dv run)"
proof -
  let ?run = "apply_body (EvMergePrepared d) dv run"
  from chk obtain p where self: "prepared_self_consistency d = Inr ()"
    and p: "prepared_of run (merge_candidate d) = Some p"
    and sat: "mp_satisfies d = satisfies_closure run (mp_key d)"
    and pub: "(if mp_disposition d = PdFast then check_fast_publication x run d p
               else check_verified_publication run d) = Inr ()"
    by (auto simp: check_merge_prepared_def result_simps Let_def split: sum.splits if_splits)
  obtain e where e: "registry_get (st_registry run) (cr_key (merge_candidate d)) = Some e"
    using prepared_of_registered [OF inv(1) p] by blast
  have key: "cr_key (merge_candidate d) = mp_key d" "cr_commit_sha (merge_candidate d) = mp_candidate_sha d"
    by (simp_all add: merge_candidate_def)
  have closure: "satisfies_closure ?run (mp_key d) = mp_satisfies d"
    using closure_apply_body [OF e] sat by (simp add: key)
  have sq: "sat_add (mp_sequence d) 1 = st_next_sequence ?run"
  proof (cases "mp_disposition d = PdFast")
    case True
    with pub show ?thesis by (simp add: next_sequence_apply_body check_fast_publication_def result_simps Let_def)
  next
    case False
    with pub obtain tx where "st_transaction run = Some tx" "tx_sequence tx = mp_sequence d"
      using check_verified_publication_Inr [of run d] by auto
    with inv(2) False show ?thesis
      by (simp add: transaction_inv_def transaction_ok_def next_sequence_apply_body)
  qed
  have present: "mp_disposition d = PdAlreadyPresent \<longleftrightarrow>
      mp_disposition d \<noteq> PdFast \<and> mp_proposed_sha d = mp_expected_head d"
  proof (cases "mp_disposition d = PdFast")
    case False
    with pub obtain tx basis where "st_transaction run = Some tx"
      "tx_class tx = VerificationStarted basis (mp_expected_head d) (mp_proposed_sha d)"
      "mp_disposition d = PdStaleClean \<longleftrightarrow> basis \<noteq> BasisAlreadyPresent"
      using check_verified_publication_Inr [of run d] by auto
    with inv(2) False show ?thesis
      by (cases "mp_disposition d") (auto simp: transaction_inv_def transaction_ok_def)
  qed simp
  from sq closure present self e key registry_get_apply_old [OF e] show ?thesis
    by (auto simp: transaction_inv_def transaction_apply_body transaction_ok_def
        prepared_self_consistency_def split: if_splits)
qed

lemma transaction_inv_step:
  assumes "registry_inv run" "transaction_inv run" "check_body x run body = Inr dv"
  shows "transaction_inv (apply_body body dv run)"
proof (cases "st_transaction (apply_body body dv run) = st_transaction run \<and>
    st_next_sequence (apply_body body dv run) = st_next_sequence run")
  case True
  then show ?thesis using assms(2) transaction_ok_keep [of run _ body dv]
    by (simp add: transaction_inv_def split: option.splits)
next
  case False
  then consider d where "body = EvMergeVerificationStarted d" | d where "body = EvMergePrepared d"
    | "st_transaction (apply_body body dv run) = None"
    by (cases body) (simp_all add: transaction_apply_body next_sequence_apply_body)
  then show ?thesis
  proof cases
    case (1 d)
    with assms show ?thesis
      by (auto simp: check_body_def result_simps intro: transaction_verification_started)
  next
    case (2 d)
    with assms show ?thesis
      by (auto simp: check_body_def result_simps intro: transaction_merge_prepared)
  qed (simp add: transaction_inv_def)
qed

lemma reachable_transaction: "reachable x inputs run \<Longrightarrow> transaction_inv run"
proof (induction rule: reachable.induct)
  case (stepped run body dv)
  then show ?case
    using reachable_registry [OF stepped(1)] by (auto simp: result_simps intro: transaction_inv_step)
qed (simp add: transaction_inv_def run_start_def)

subsection \<open>What a publication settles\<close>

text \<open>The chain of parents as a relation, the reference for \<open>satisfies_closure\<close>.\<close>

inductive lineage_path :: "run_state \<Rightarrow> task_key \<Rightarrow> task_key \<Rightarrow> bool" for run :: run_state where
  lineage_here: "lineage_path run key key"
| lineage_up: "entry_lineage run key = Some l \<Longrightarrow> lineage_path run (ln_parent l) k \<Longrightarrow> lineage_path run key k"

inductive_simps lineage_path_iff: "lineage_path run key k"

lemma entry_lineage_less:
  assumes "registry_inv run" "entry_lineage run key = Some l"
  shows "ln_parent l < key" "ln_root l < key" "lineage_root run (ln_parent l) = ln_root l"
proof -
  obtain e where e: "registry_get (st_registry run) key = Some e" "te_lineage e = Some l"
    using assms(2) by (auto simp: entry_lineage_def bind_eq_Some_conv)
  have "e \<in> set (rg_entries (st_registry run))"
    using e(1) by (auto simp: registry_get_def vec_get_def split: if_splits)
  then have "lineage_ok run e" using assms(1) by (simp add: registry_inv_def)
  moreover have "te_key e = key" using assms(1) e(1) by (rule registry_inv_key)
  ultimately show "ln_parent l < key" "ln_root l < key" "lineage_root run (ln_parent l) = ln_root l"
    using e(2) by (simp_all add: lineage_ok_def)
qed

lemma ancestors_path:
  assumes "registry_inv run"
  shows "set (key # ancestors run key) = {k. lineage_path run key k}"
  using assms
proof (induction run key rule: ancestors.induct)
  case (1 run key)
  show ?case
  proof (cases "entry_lineage run key")
    case None
    then show ?thesis by (auto simp: ancestors.simps [of run key] lineage_path_iff [of run key])
  next
    case (Some l)
    have less: "\<not> key \<le> ln_parent l" using entry_lineage_less [OF "1.prems" Some] by simp
    have "set (ln_parent l # ancestors run (ln_parent l)) = {k. lineage_path run (ln_parent l) k}"
      using "1.IH" [OF Some less "1.prems"] .
    with Some less show ?thesis
      by (auto simp: ancestors.simps [of run key] lineage_path_iff [of run key])
  qed
qed

lemma sorted_strict_dedup: "sorted xs \<Longrightarrow> sorted_wrt (<) (remdups_adj xs)" for xs :: "'a::linorder list"
  by (induction xs rule: remdups_adj.induct) (auto simp: order.strict_iff_order)

lemma sorted_dedup: "sorted_wrt (<) (remdups_adj (sort xs))" for xs :: "'a::linorder list"
  by (rule sorted_strict_dedup) simp

lemma set_satisfies_closure:
  "registry_inv run \<Longrightarrow> set (satisfies_closure run key) = {k. lineage_path run key k}"
  using ancestors_path [of run key] unfolding satisfies_closure_def remdups_adj_set set_sort by simp

lemma sorted_satisfies_closure: "sorted_wrt (<) (satisfies_closure run key)"
  unfolding satisfies_closure_def by (rule sorted_dedup)

lemma lineage_path_root:
  assumes "registry_inv run" "lineage_path run key k"
  shows "lineage_root run k = lineage_root run key"
  using assms(2)
proof induction
  case (lineage_up key l k)
  then show ?case using entry_lineage_less [OF assms(1) lineage_up(1)] by (simp add: lineage_root_def)
qed simp

lemma lineage_path_reaches_root:
  assumes "registry_inv run"
  shows "lineage_path run key (lineage_root run key)"
proof (induction "unat key" arbitrary: key rule: less_induct)
  case less
  show ?case
  proof (cases "entry_lineage run key")
    case None
    then show ?thesis by (simp add: lineage_root_def lineage_here)
  next
    case (Some l)
    note l = entry_lineage_less [OF assms Some]
    then have "lineage_path run (ln_parent l) (lineage_root run (ln_parent l))"
      by (intro less) (simp add: word_less_nat_alt)
    with Some l show ?thesis by (auto simp: lineage_root_def intro: lineage_up)
  qed
qed

end
