(* ===== verification/Fold_Sample.thy ===== *)
theory Fold_Sample
  imports Fold_Markers "HOL-Library.Code_Target_Numeral"
begin

section \<open>A concrete run\<close>

text \<open>
  A small run used by the witnesses: a plan of two tasks, the second depending on the first,
  started, dispatched, attempted, prepared, queued, authorized and merged. The digest and the
  lower-casing are instantiated by concrete functions.
\<close>

definition sample_x :: externals where
  "sample_x = \<lparr>ex_lowercase = (\<lambda>s. s), ex_sha256 = (\<lambda>bytes. ''sha:'' @ take 4 bytes)\<rparr>"

definition sample_tasks :: "task list" where
  "sample_tasks = [sample_task ''a'' [], sample_task ''b'' [''a'']]"

definition sample_inputs :: frozen_inputs where
  "sample_inputs = \<lparr>fi_plan = sample_plan sample_tasks, fi_normalized_plan_digest = ''n''\<rparr>"

definition sample_runner :: runner_policy where
  "sample_runner = \<lparr>ru_kind = Host, ru_policy = HostV1, ru_image = None, ru_credential_volumes = None, ru_mounts = []\<rparr>"

definition sample_started4 :: run_started4 where
  "sample_started4 =
     \<lparr>s4_schema = 4, s4_upstroke_version = ''v'', s4_run_id = ''r'', s4_incarnation = ''i0'',
      s4_runner = sample_runner, s4_probed_agents = [''codex''], s4_shell = Sh, s4_branch = ''b'',
      s4_integration_ref = ''refs/heads/upstroke/run-r'', s4_base_sha = ''s0'', s4_execution_root = ''e'',
      s4_private_dir = ''d'', s4_plan_path = ''p'', s4_config_path = None, s4_plan_hash = ''h'',
      s4_normalized_plan_digest = ''n'', s4_registry_digest = ''sha256:sha:20:u'',
      s4_path_policy = \<lparr>pp_version = V2, pp_case_fold = False, pp_grammar = Globset\<rparr>,
      s4_limits = \<lparr>tl_max_parallel = 2, tl_max_defers = 3, tl_max_merge_repairs = 1\<rparr>,
      s4_gates = [], s4_gates_from_config = False, s4_gate_cmds = [], s4_interaction_mode = ''m'',
      s4_chains = map sample_chain [''a'', ''b''],
      s4_effort_policy = \<lparr>ep_small = Low, ep_mid = Medium, ep_frontier = High, ep_review = High\<rparr>,
      s4_reviews = \<lparr>rv_enabled = Some False, rv_alternative_available = Some False,
        rv_pass_timeout_secs = Some 900, rv_primary = None, rv_alternative = None,
        rv_second_opinion = []\<rparr>\<rparr>"

definition sample_candidate :: candidate_ref where
  "sample_candidate = \<lparr>cr_key = 0, cr_generation = 0, cr_commit_sha = ''c'', cr_candidate_ref = ''refs/c''\<rparr>"

definition sample_attempt :: attempt_record where
  "sample_attempt =
     \<lparr>at_attempt = 1, at_tier = ''small'', at_model = ''haiku'', at_pool = None, at_resumed = False,
      at_duration = 5, at_cost_usd = None, at_reviews = [], at_session_id = Some ''s'', at_usage = None,
      at_failure = None\<rparr>"

definition sample_dispatched :: task_dispatched where
  "sample_dispatched =
     \<lparr>td_key = 0, td_generation = 0, td_base_sha = ''s0'', td_worktree_path = ''w'',
      td_lease = GrantPredicted RepoWide, td_source_candidate = None\<rparr>"

definition sample_attempt_started :: attempt_started4 where
  "sample_attempt_started =
     \<lparr>as_key = 0, as_generation = 0, as_attempt = 1, as_rung = 0,
      as_binding = \<lparr>rg_tier = Small, rg_agent = ''claude-code'', rg_model = ''haiku'', rg_pinned = False, rg_effort = Low\<rparr>,
      as_pool = None, as_resume_session = None, as_materialization_observed = None\<rparr>"

definition sample_prepared :: candidate_prepared where
  "sample_prepared =
     \<lparr>cp_key = 0, cp_generation = 0, cp_attempt = sample_attempt, cp_base_sha = ''s0'', cp_parent_sha = ''s0'',
      cp_tree_sha = ''t'', cp_commit_sha = ''c'', cp_message = ''m'', cp_prepared_ref = ''refs/p'',
      cp_candidate_ref = ''refs/c'', cp_actual_paths = RepoWide, cp_lease_effect = ReplacesPredicted RepoWide\<rparr>"

definition sample_merge_prepared :: merge_prepared where
  "sample_merge_prepared =
     \<lparr>mp_sequence = 0, mp_disposition = PdFast, mp_expected_head = ''s0'', mp_proposed_sha = ''c'', mp_key = 0,
      mp_generation = 0, mp_candidate_sha = ''c'', mp_candidate_ref = ''refs/c'', mp_prepared_ref = None,
      mp_verification_source = SourceCandidatePrepared 0 0, mp_verification = None, mp_satisfies = [0]\<rparr>"

definition sample_merged :: task_merged where
  "sample_merged =
     \<lparr>tm_sequence = 0, tm_merged_sha = ''c'', tm_satisfies = [0], tm_lease_release = ReleaseCandidate 0 0\<rparr>"

definition sample_entry_of :: "task_key \<Rightarrow> string \<Rightarrow> task_key list \<Rightarrow> string list \<Rightarrow> task_entry" where
  "sample_entry_of key id' deps display_deps =
     \<lparr>te_key = key, te_display_id = id', te_origin = Original,
      te_spec = \<lparr>sp_kind = Fix, sp_title = id', sp_body = [], sp_acceptance = [], sp_path_hints = [],
        sp_suggested_tier = None, sp_min_tier = Some Small, sp_artifacts_in = [], sp_artifacts_out = []\<rparr>,
      te_deps = deps, te_display_deps = display_deps,
      te_ladder = \<lparr>fl_tiers = [Small, Mid], fl_attempts_per = 2,
        fl_rungs = [\<lparr>fg_tier = Small, fg_agent = ''claude-code'', fg_model = ''haiku'', fg_pinned = False\<rparr>,
          \<lparr>fg_tier = Mid, fg_agent = ''codex'', fg_model = ''sol'', fg_pinned = True\<rparr>],
        fl_floor = Some Small, fl_ceiling = Some Mid,
        fl_effort = \<lparr>ep_small = Low, ep_mid = Medium, ep_frontier = High, ep_review = High\<rparr>,
        fl_admission = Runnable\<rparr>,
      te_reviews = \<lparr>fv_enabled = False, fv_alternative_available = False, fv_pass_timeout_secs = 900,
        fv_primary = None, fv_alternative = None, fv_second_opinion = None\<rparr>,
      te_allowed_agents = [''codex''], te_lineage = None\<rparr>"

definition sample_registry :: task_registry where
  "sample_registry =
     \<lparr>rg_entries = [sample_entry_of 0 ''a'' [] [], sample_entry_of 1 ''b'' [0] [''a'']],
      rg_by_display = [(''a'', 0), (''b'', 1)], rg_originals = 2\<rparr>"

definition sample_record :: prepared_candidate where
  "sample_record = \<lparr>pc_candidate = sample_candidate, pc_base_sha = ''s0'', pc_tree_sha = ''t'', pc_paths = RepoWide\<rparr>"

text \<open>The state of the run when the first task has one generation of the given class.\<close>

definition sample_run ::
  "task_state \<Rightarrow> (generation_class \<times> u32 \<times> prepared_candidate option) list \<Rightarrow> u32 \<Rightarrow>
     (lease_owner \<times> path_set) list \<Rightarrow> bool \<Rightarrow> transaction option \<Rightarrow> u32 \<Rightarrow> run_state" where
  "sample_run state gens spent held queued tx sequence =
     (run_start sample_started4 sample_registry)
     \<lparr>st_tasks :=
        [\<lparr>tf_state = state, tf_defers = 0, tf_rung = 0, tf_attempts_on_rung = spent,
          tf_generations = map (\<lambda>(class, attempts, candidate).
            \<lparr>gf_id = 0, gf_class = class, gf_base_sha = ''s0'', gf_lease = OwnLease,
             gf_attempts = attempts, gf_candidate = candidate\<rparr>) gens\<rparr>, task_fold_new],
      st_leases := \<lparr>lt_held = held, lt_lineages = [], lt_next_age = 0\<rparr>,
      st_queue := (if queued then
        [\<lparr>qe_candidate = sample_candidate, qe_paths = RepoWide, qe_lineage_root = None,
          qe_verification_deferred = False, qe_defers = 0, qe_sequence = None\<rparr>] else []),
      st_transaction := tx, st_next_sequence := sequence\<rparr>"

definition sample_tx :: transaction where
  "sample_tx = \<lparr>tx_sequence = 0, tx_candidate = sample_candidate, tx_class = Prepared ''s0'' ''c'' [0] PdFast None\<rparr>"

abbreviation "sample_fresh \<equiv> sample_run Pending [] 0 [] False None 0"
abbreviation "sample_open \<equiv> sample_run Pending [(OpenNoAttempt, 0, None)] 0 [(OwnerGeneration 0 0, RepoWide)] False None 0"
abbreviation "sample_flying \<equiv> sample_run Pending [(InFlight 1, 1, None)] 0 [(OwnerGeneration 0 0, RepoWide)] False None 0"
abbreviation "sample_promoting \<equiv>
  sample_run AwaitingMerge [(Promoting, 1, Some sample_record)] 1 [(OwnerCandidate 0 0, RepoWide)] False None 0"
abbreviation "sample_queued \<equiv>
  sample_run AwaitingMerge [(Closed, 1, Some sample_record)] 1 [(OwnerCandidate 0 0, RepoWide)] True None 0"
abbreviation "sample_publishing \<equiv>
  sample_run AwaitingMerge [(Closed, 1, Some sample_record)] 1 [(OwnerCandidate 0 0, RepoWide)] True (Some sample_tx) 1"
abbreviation "sample_done \<equiv> sample_run Merged [(Closed, 1, Some sample_record)] 1 [] False None 1"

text \<open>Each event is accepted in the state before it and leads to the state after it.\<close>

lemma sample_start:
  "check_run_started sample_x (fold_new sample_inputs) sample_started4 = Inr sample_registry \<and>
   run_start sample_started4 sample_registry = sample_fresh"
  by code_simp

lemma sample_step_open:
  "check_started_run sample_x sample_fresh (EvTaskDispatched sample_dispatched) = Inr DerivedNone \<and>
   apply_body (EvTaskDispatched sample_dispatched) DerivedNone sample_fresh = sample_open"
  by code_simp

lemma sample_step_flying:
  "check_started_run sample_x sample_open (EvAttemptStarted sample_attempt_started) = Inr DerivedNone \<and>
   apply_body (EvAttemptStarted sample_attempt_started) DerivedNone sample_open = sample_flying"
  by code_simp

lemma sample_step_promoting:
  "check_started_run sample_x sample_flying (EvCandidatePrepared sample_prepared) = Inr DerivedNone \<and>
   apply_body (EvCandidatePrepared sample_prepared) DerivedNone sample_flying = sample_promoting"
  by code_simp

lemma sample_step_queued:
  "check_started_run sample_x sample_promoting (EvTaskCandidateCreated \<lparr>tc_candidate = sample_candidate\<rparr>) = Inr DerivedNone \<and>
   apply_body (EvTaskCandidateCreated \<lparr>tc_candidate = sample_candidate\<rparr>) DerivedNone sample_promoting = sample_queued"
  by code_simp

lemma sample_step_publishing:
  "check_started_run sample_x sample_queued (EvMergePrepared sample_merge_prepared) = Inr DerivedNone \<and>
   apply_body (EvMergePrepared sample_merge_prepared) DerivedNone sample_queued = sample_publishing"
  by code_simp

lemma sample_step_done:
  "check_started_run sample_x sample_publishing (EvTaskMerged sample_merged) = Inr DerivedNone \<and>
   apply_body (EvTaskMerged sample_merged) DerivedNone sample_publishing = sample_done"
  by code_simp

lemma sample_reachable_start: "reachable sample_x sample_inputs sample_fresh"
  using reachable.started [of sample_x sample_inputs sample_started4] sample_start by metis

lemma sample_reachable:
  "reachable sample_x sample_inputs sample_open"
  "reachable sample_x sample_inputs sample_flying"
  "reachable sample_x sample_inputs sample_promoting"
  "reachable sample_x sample_inputs sample_queued"
  "reachable sample_x sample_inputs sample_publishing"
  "reachable sample_x sample_inputs sample_done"
proof -
  have step: "reachable sample_x sample_inputs s \<Longrightarrow> check_started_run sample_x s b = Inr d \<and> apply_body b d s = s' \<Longrightarrow>
    reachable sample_x sample_inputs s'" for s s' b d
    by (auto intro: reachable.stepped)
  show o: "reachable sample_x sample_inputs sample_open"
    using sample_reachable_start sample_step_open by (rule step)
  show f: "reachable sample_x sample_inputs sample_flying" using o sample_step_flying by (rule step)
  show p: "reachable sample_x sample_inputs sample_promoting" using f sample_step_promoting by (rule step)
  show q: "reachable sample_x sample_inputs sample_queued" using p sample_step_queued by (rule step)
  show u: "reachable sample_x sample_inputs sample_publishing" using q sample_step_publishing by (rule step)
  show "reachable sample_x sample_inputs sample_done" using u sample_step_done by (rule step)
qed

end
