(* ===== verification/Fold_Laws.thy ===== *)
theory Fold_Laws
  imports Fold_Sample
begin

section \<open>What every accepted log guarantees\<close>

text \<open>
  The invariants of the preceding theories, stated of every log that replays, and the laws
  that relate two points of one log. A witness applies each at the sample run.
\<close>

lemma sample_replay:
  assumes "reachable sample_x sample_inputs run"
  obtains es f where "replay sample_x sample_inputs es = Inr f" "fo_run f = Some run"
  using reachable_replay [OF assms] by blast

subsection \<open>Invariants\<close>

text \<open>
  C5. In every state a log leads to, the tasks and the registry run in parallel, the key of
  a task is its index, every frozen ladder passes its check, and the lineage of a repair
  points down: root and parent have smaller keys, the parent belongs to the same root, and
  the root has no lineage itself.
\<close>

theorem registry_stays_dense:
  assumes "replay x inputs es = Inr f" "fo_run f = Some run"
  shows "length (st_tasks run) = registry_len (st_registry run) \<and>
    map (\<lambda>e. unat (te_key e)) (rg_entries (st_registry run)) = [0..<registry_len (st_registry run)] \<and>
    list_all (\<lambda>e. check_ladder (te_key e) (te_ladder e) = Inr () \<and> lineage_ok run e)
      (rg_entries (st_registry run))"
  using reachable_registry [OF replay_reachable_run [OF assms]]
  by (auto simp: registry_inv_def registry_len_def list_all_iff intro!: nth_equalityI)

theorem registry_stays_dense_witness:
  "map (\<lambda>e. unat (te_key e)) (rg_entries (st_registry sample_done)) =
     [0..<registry_len (st_registry sample_done)]"
  using sample_replay [OF sample_reachable(6)] registry_stays_dense by metis

text \<open>
  C4. In every state a log leads to, the generations of a task are numbered from zero
  without gaps, all but the last are closed, and the class of a generation agrees with its
  attempts and candidate: an open one has no attempt, one in flight runs its last attempt,
  a promoting one holds a candidate of this task and generation.
\<close>

theorem generations_stay_dense:
  assumes "replay x inputs es = Inr f" "fo_run f = Some run" "task_get run key = Some t"
  shows "gens_ok (unat key) (tf_generations t)"
  using tasks_all_get [OF reachable_gens [OF replay_reachable_run [OF assms(1,2)]] assms(3)]
  by (simp add: task_gens_ok_def)

theorem generations_stay_dense_witness:
  "\<exists>t. task_get sample_promoting 0 = Some t \<and> gens_ok 0 (tf_generations t) \<and> tf_generations t \<noteq> []"
proof -
  let ?t = "\<lparr>tf_state = AwaitingMerge, tf_defers = 0, tf_rung = 0, tf_attempts_on_rung = 1,
    tf_generations = [\<lparr>gf_id = 0, gf_class = Promoting, gf_base_sha = ''s0'', gf_lease = OwnLease,
      gf_attempts = 1, gf_candidate = Some sample_record\<rparr>]\<rparr>"
  have t: "task_get sample_promoting 0 = Some ?t"
    by (simp add: task_get_def sample_run_def vec_get_def)
  obtain es f where "replay sample_x sample_inputs es = Inr f" "fo_run f = Some sample_promoting"
    using sample_replay [OF sample_reachable(3)] .
  from generations_stay_dense [OF this t] t show ?thesis by auto
qed

text \<open>
  C23. A task always stands on a rung of its frozen ladder: the index of its rung is zero or
  inside the list of rungs, whatever escalations the log records.
\<close>

theorem rung_stays_on_ladder:
  assumes "replay x inputs es = Inr f" "fo_run f = Some run"
    and "task_get run key = Some t" "registry_get (st_registry run) key = Some e"
  shows "tf_rung t = 0 \<or> unat (tf_rung t) < length (fl_rungs (te_ladder e))"
  using tasks_all_get [OF reachable_rung [OF replay_reachable_run [OF assms(1,2)]] assms(3)] assms(4)
  by (auto simp: rung_ok_def registry_get_def)

theorem rung_stays_on_ladder_witness:
  "\<exists>t e. task_get sample_open 0 = Some t \<and> registry_get (st_registry sample_open) 0 = Some e \<and>
     (tf_rung t = 0 \<or> unat (tf_rung t) < length (fl_rungs (te_ladder e)))"
proof -
  obtain t where t: "task_get sample_open 0 = Some t"
    by (simp add: task_get_def sample_run_def vec_get_def)
  obtain e where e: "registry_get (st_registry sample_open) 0 = Some e"
    by (simp add: registry_get_def sample_run_def vec_get_def run_start_def sample_registry_def)
  obtain es f where "replay sample_x sample_inputs es = Inr f" "fo_run f = Some sample_open"
    using sample_replay [OF sample_reachable(1)] .
  from rung_stays_on_ladder [OF this t e] t e show ?thesis by blast
qed

text \<open>
  C6. The open transaction holds the sequence number handed out last. Once authorized it
  settles exactly the chain of its candidate, a fast publication proposes the candidate's own
  commit and pins nothing, a stale one keeps its pinned proposal, and the head stays where it
  is exactly when the changes were already present.
\<close>

theorem open_transaction_is_sound:
  assumes "replay x inputs es = Inr f" "fo_run f = Some run" "st_transaction run = Some tx"
  shows "transaction_ok run tx"
  using reachable_transaction [OF replay_reachable_run [OF assms(1,2)]] assms(3)
  by (simp add: transaction_inv_def)

theorem open_transaction_is_sound_witness:
  "st_transaction sample_publishing = Some sample_tx \<and> transaction_ok sample_publishing sample_tx"
proof -
  have tx: "st_transaction sample_publishing = Some sample_tx" by (simp add: sample_run_def)
  obtain es f where "replay sample_x sample_inputs es = Inr f" "fo_run f = Some sample_publishing"
    using sample_replay [OF sample_reachable(5)] .
  from open_transaction_is_sound [OF this tx] tx show ?thesis by blast
qed

text \<open>
  C7. What a publication settles is the chain of parents: the closure a merge records is
  strictly sorted, holds exactly the tasks on the path from the candidate's task through its
  parents, ends at the root of the lineage, and all of it shares that root.
\<close>

theorem closure_is_the_chain_of_parents:
  assumes "replay x inputs es = Inr f" "fo_run f = Some run"
  shows "sorted_wrt (<) (satisfies_closure run key) \<and>
    set (satisfies_closure run key) = {k. lineage_path run key k} \<and>
    lineage_root run key \<in> set (satisfies_closure run key) \<and>
    list_all (\<lambda>k. lineage_root run k = lineage_root run key) (satisfies_closure run key)"
proof -
  note inv = reachable_registry [OF replay_reachable_run [OF assms]]
  show ?thesis
    using sorted_satisfies_closure lineage_path_reaches_root [OF inv] lineage_path_root [OF inv]
    by (simp add: set_satisfies_closure [OF inv] list_all_iff)
qed

theorem closure_is_the_chain_of_parents_witness:
  "set (satisfies_closure sample_publishing 0) = {k. lineage_path sample_publishing 0 k}"
  using sample_replay [OF sample_reachable(5)] closure_is_the_chain_of_parents by metis

end
