(* ===== verification/Fold_History.thy ===== *)
theory Fold_History
  imports Fold_Sample
begin

section \<open>What a log's history determines\<close>

text \<open>
  Counters and markers are functions of the history: the epoch counts the resumes, the next
  sequence number counts the transactions started, a merged task was settled by a recorded
  publication, a halt is recorded once, and a finished run accepts at most a resume.
\<close>

lemma replay_snoc:
  assumes "replay x inputs (es @ [e]) = Inr f"
  obtains f1 delta where "replay x inputs es = Inr f1" "plan_transition x f1 e = Inr delta"
    "f = apply_delta delta f1"
  using assms unfolding replay_def by (auto simp: fold.run_snoc result_simps)

text \<open>One event of an accepted log: it starts the run, or it is applied to a run.\<close>

lemma replay_snoc_cases:
  assumes "replay x inputs (es @ [e]) = Inr f"
  obtains (start) d registry where "ev_body e = EvRunStarted d" "fo_run f = Some (run_start d registry)"
      "\<And>f1. replay x inputs es = Inr f1 \<Longrightarrow> fo_run f1 = None" "\<exists>f1. replay x inputs es = Inr f1"
      "check_run_started x (fold_new inputs) d = Inr registry"
    | (step) f1 run dv where "replay x inputs es = Inr f1" "fo_run f1 = Some run"
      "check_started_run x run (ev_body e) = Inr dv" "fo_run f = Some (apply_body (ev_body e) dv run)"
      "\<And>d. ev_body e \<noteq> EvRunStarted d"
proof -
  from assms obtain f1 delta where f1: "replay x inputs es = Inr f1"
    and plan: "plan_transition x f1 e = Inr delta" and f: "f = apply_delta delta f1"
    by (rule replay_snoc)
  show thesis
  proof (cases "\<exists>d. ev_body e = EvRunStarted d")
    case True
    then obtain d where d: "ev_body e = EvRunStarted d" by blast
    with plan obtain registry where reg: "check_run_started x f1 d = Inr registry"
      and delta: "delta = \<lparr>de_event = e, de_derived = DerivedRegistry registry\<rparr>"
      by (auto simp: plan_transition_started)
    have none: "fo_run f1 = None" using reg by (rule check_run_started_run)
    have "fo_inputs f1 = inputs" using replay_reachable [OF f1] by (simp add: fold_inv_def)
    then have "check_run_started x (fold_new inputs) d = Inr registry"
      using reg check_run_started_inputs [OF none, of x d] by metis
    moreover have "fo_run f = Some (run_start d registry)" using f d delta by (simp add: apply_delta_started)
    ultimately show thesis using d f1 none by (intro start) auto
  next
    case False
    with plan f f1 step show thesis by (auto simp: plan_transition_other apply_delta_other)
  qed
qed

lemma replay_Nil [simp]: "replay x inputs [] = Inr (fold_new inputs)"
  by (simp add: replay_def)

lemma replay_empty_run: "replay x inputs es = Inr f \<Longrightarrow> fo_run f = None \<Longrightarrow> es = []"
proof (induction es rule: rev_induct)
  case (snoc e es)
  from snoc.prems(1) show ?case by (cases rule: replay_snoc_cases) (use snoc.prems(2) in auto)
qed simp

subsection \<open>Counters\<close>

definition resumes :: "topology_event_body \<Rightarrow> bool" where
  "resumes body = (case body of EvRunResumed _ \<Rightarrow> True | _ \<Rightarrow> False)"

definition starts_transaction :: "topology_event_body \<Rightarrow> bool" where
  "starts_transaction body =
     (case body of
        EvMergeVerificationStarted _ \<Rightarrow> True
      | EvMergePrepared d \<Rightarrow> mp_disposition d = PdFast
      | EvMergeRejected d \<Rightarrow> (case mr_disposition d of RdConflict _ \<Rightarrow> True | RdCodeRejected _ \<Rightarrow> False)
      | _ \<Rightarrow> False)"

text \<open>How many events of a log satisfy \<open>p\<close>, as a saturating 32-bit counter reads it.\<close>

definition count_sat :: "(topology_event_body \<Rightarrow> bool) \<Rightarrow> topology_event list \<Rightarrow> nat" where
  "count_sat p es = min (2 ^ 32 - 1) (length (filter (\<lambda>e. p (ev_body e)) es))"

lemma count_sat_snoc:
  "count_sat p (es @ [e]) =
     (if p (ev_body e) then min (2 ^ 32 - 1) (Suc (count_sat p es)) else count_sat p es)"
  by (auto simp: count_sat_def)

lemma unat_sat_add_one: "unat (sat_add n 1) = min (2 ^ 32 - 1) (Suc (unat n))" for n :: u32
  by (simp add: unat_sat_add)

lemma replay_counter:
  fixes g :: "run_state \<Rightarrow> u32"
  assumes init: "\<And>d r. g (run_start d r) = 0 \<and> \<not> p (EvRunStarted d)"
    and step: "\<And>body dv run. g (apply_body body dv run) = (if p body then sat_add (g run) 1 else g run)"
  shows "replay x inputs es = Inr f \<Longrightarrow> fo_run f = Some run \<Longrightarrow> unat (g run) = count_sat p es"
proof (induction es arbitrary: f run rule: rev_induct)
  case (snoc e es)
  from snoc.prems(1) show ?case
  proof (cases rule: replay_snoc_cases)
    case (start d registry)
    then have "es = []" using replay_empty_run by blast
    with start snoc.prems(2) init show ?thesis by (auto simp: count_sat_def)
  next
    case s: (step f1 run1 dv)
    then have "unat (g run1) = count_sat p es" using snoc.IH by blast
    with s snoc.prems(2) step show ?thesis by (auto simp: count_sat_snoc unat_sat_add_one)
  qed
qed auto

text \<open>
  C20. The epoch of a run is the number of resumes in its log, and the next sequence number
  is the number of integration transactions the log has started (verifications, fast
  publications, conflicts), both saturating at 2^32 - 1.
\<close>

theorem counters_count_events:
  assumes "replay x inputs es = Inr f" "fo_run f = Some run"
  shows "unat (st_epoch run) = count_sat resumes es \<and>
    unat (st_next_sequence run) = count_sat starts_transaction es"
proof
  show "unat (st_epoch run) = count_sat resumes es"
    by (rule replay_counter [OF _ _ assms])
      (auto simp: run_start_def resumes_def epoch_apply_body split: topology_event_body.splits)
  show "unat (st_next_sequence run) = count_sat starts_transaction es"
    by (rule replay_counter [OF _ _ assms])
      (auto simp: run_start_def starts_transaction_def next_sequence_apply_body
        split: topology_event_body.splits rejection_disposition.splits)
qed

text \<open>A concrete log, for the witnesses of laws about logs.\<close>

definition sample_log :: "topology_event list" where
  "sample_log = map (\<lambda>b. \<lparr>ev_ts = [], ev_body = b\<rparr>)
     [EvRunStarted sample_started4, EvTaskDispatched sample_dispatched,
      EvAttemptStarted sample_attempt_started, EvCandidatePrepared sample_prepared,
      EvTaskCandidateCreated \<lparr>tc_candidate = sample_candidate\<rparr>,
      EvMergePrepared sample_merge_prepared, EvTaskMerged sample_merged]"

definition sample_fold :: "run_state \<Rightarrow> topology_fold" where
  "sample_fold run = \<lparr>fo_inputs = sample_inputs, fo_run = Some run, fo_poisoned = False\<rparr>"

lemma sample_fold_simps [simp]:
  "fo_inputs (sample_fold run) = sample_inputs" "fo_run (sample_fold run) = Some run"
  "\<not> fo_poisoned (sample_fold run)"
  by (simp_all add: sample_fold_def)

lemma sample_fold_step:
  assumes "check_started_run sample_x run body = Inr dv \<and> apply_body body dv run = run'"
    and "\<And>d. body \<noteq> EvRunStarted d"
  shows "replay_from sample_x (sample_fold run) (\<lparr>ev_ts = [], ev_body = body\<rparr> # es) =
    replay_from sample_x (sample_fold run') es"
proof -
  let ?e = "\<lparr>ev_ts = [], ev_body = body\<rparr>"
  have "plan_transition sample_x (sample_fold run) ?e = Inr \<lparr>de_event = ?e, de_derived = dv\<rparr>"
    using assms by (simp add: plan_transition_other)
  moreover have "apply_delta \<lparr>de_event = ?e, de_derived = dv\<rparr> (sample_fold run) = sample_fold run'"
    using assms by (simp add: apply_delta_other sample_fold_def)
  ultimately show ?thesis by simp
qed

lemma sample_fold_start:
  "replay sample_x sample_inputs (\<lparr>ev_ts = [], ev_body = EvRunStarted sample_started4\<rparr> # es) =
     replay_from sample_x (sample_fold sample_fresh) es"
proof -
  let ?e = "\<lparr>ev_ts = [], ev_body = EvRunStarted sample_started4\<rparr>"
  have "plan_transition sample_x (fold_new sample_inputs) ?e =
      Inr \<lparr>de_event = ?e, de_derived = DerivedRegistry sample_registry\<rparr>"
    using sample_start by (simp add: plan_transition_started)
  moreover have "apply_delta \<lparr>de_event = ?e, de_derived = DerivedRegistry sample_registry\<rparr>
      (fold_new sample_inputs) = sample_fold sample_fresh"
    using sample_start by (simp add: apply_delta_started sample_fold_def fold_new_def)
  ultimately show ?thesis unfolding replay_def by simp
qed

lemma sample_log_replays: "replay sample_x sample_inputs sample_log = Inr (sample_fold sample_done)"
  unfolding sample_log_def list.map
  by (simp only: sample_fold_start sample_fold_step [OF sample_step_open]
      sample_fold_step [OF sample_step_flying] sample_fold_step [OF sample_step_promoting]
      sample_fold_step [OF sample_step_queued] sample_fold_step [OF sample_step_publishing]
      sample_fold_step [OF sample_step_done] topology_event_body.distinct replay_from.simps(1) simp_thms)

theorem counters_count_events_witness:
  "unat (st_epoch sample_done) = count_sat resumes sample_log \<and>
   unat (st_next_sequence sample_done) = count_sat starts_transaction sample_log"
  using counters_count_events [OF sample_log_replays] by simp

subsection \<open>Where a merged task comes from\<close>

lemma merged_provenance:
  assumes "replay x inputs es = Inr f" "fo_run f = Some run" "merged_in run k"
  shows "\<exists>pre e post m f1 run1 tx eh d r. es = pre @ e # post \<and> ev_body e = EvTaskMerged m \<and>
    replay x inputs pre = Inr f1 \<and> fo_run f1 = Some run1 \<and> st_transaction run1 = Some tx \<and>
    tx_class tx = Prepared eh (tm_merged_sha m) (tm_satisfies m) d r \<and> k \<in> set (tm_satisfies m)"
  using assms
proof (induction es arbitrary: f run rule: rev_induct)
  case (snoc e es)
  from snoc.prems(1) show ?case
  proof (cases rule: replay_snoc_cases)
    case (start d registry)
    have "\<not> merged_in (run_start d registry) k"
      by (auto simp: merged_in_def state_of_def task_get_def run_start_def vec_get_def task_fold_new_def
          split: if_splits)
    with start snoc.prems(2,3) show ?thesis by simp
  next
    case (step f1 run1 dv)
    have inv: "registry_inv run1"
      using reachable_registry [OF replay_reachable_run [OF step(1,2)]] .
    have chk: "check_body x run1 (ev_body e) = Inr dv" using step(3) by (simp add: result_simps)
    have "merged_in (apply_body (ev_body e) dv run1) k" using snoc.prems(2,3) step(4) by simp
    from merged_step [OF inv chk this] show ?thesis
    proof
      assume "merged_in run1 k"
      from snoc.IH [OF step(1,2) this] show ?thesis by (metis append.assoc append_Cons)
    next
      assume "\<exists>m tx eh d r. ev_body e = EvTaskMerged m \<and> st_transaction run1 = Some tx \<and>
        tx_class tx = Prepared eh (tm_merged_sha m) (tm_satisfies m) d r \<and> k \<in> set (tm_satisfies m)"
      with step(1,2) show ?thesis by fast
    qed
  qed
qed auto

text \<open>
  C1. A task is merged only through a recorded publication: if a log leads to a state in
  which a task is merged, the log holds a merge event, written while an authorized
  transaction for the same commit was open, and the task is in the set that transaction was
  authorized to settle, which is the chain of parents of its candidate.
\<close>

theorem merged_only_by_publication:
  assumes "replay x inputs es = Inr f" "fo_run f = Some run" "state_of run k = Some Merged"
  shows "\<exists>pre e post m f1 run1 tx eh d r. es = pre @ e # post \<and> ev_body e = EvTaskMerged m \<and>
    replay x inputs pre = Inr f1 \<and> fo_run f1 = Some run1 \<and> st_transaction run1 = Some tx \<and>
    tx_class tx = Prepared eh (tm_merged_sha m) (tm_satisfies m) d r \<and>
    tm_satisfies m = satisfies_closure run1 (cr_key (tx_candidate tx)) \<and> k \<in> set (tm_satisfies m)"
proof -
  obtain pre e post m f1 run1 tx eh d r where w: "es = pre @ e # post" "ev_body e = EvTaskMerged m"
    "replay x inputs pre = Inr f1" "fo_run f1 = Some run1" "st_transaction run1 = Some tx"
    "tx_class tx = Prepared eh (tm_merged_sha m) (tm_satisfies m) d r" "k \<in> set (tm_satisfies m)"
    using merged_provenance [OF assms(1,2) assms(3) [folded merged_in_def]] by blast
  have "transaction_ok run1 tx"
    using reachable_transaction [OF replay_reachable_run [OF w(3,4)]] w(5) by (simp add: transaction_inv_def)
  with w(6) have "tm_satisfies m = satisfies_closure run1 (cr_key (tx_candidate tx))"
    by (simp add: transaction_ok_def)
  with w show ?thesis by blast
qed

theorem merged_only_by_publication_witness:
  "state_of sample_done 0 = Some Merged \<and>
   (\<exists>pre e post m. sample_log = pre @ e # post \<and> ev_body e = EvTaskMerged m \<and> 0 \<in> set (tm_satisfies m))"
proof -
  have m: "state_of sample_done 0 = Some Merged"
    by (simp add: state_of_def task_get_def sample_run_def vec_get_def)
  from merged_only_by_publication [OF sample_log_replays _ m] m show ?thesis by (auto; blast)
qed

end
