(* ===== verification/Fold_End.thy ===== *)
theory Fold_End
  imports Fold_History
begin

section \<open>How a run ends\<close>

text \<open>
  The sweep that finds the tasks a failure blocks computes the least set closed under
  dependencies; the outcome a finished run records is the one its state implies; a finished
  run is over, except that a parked or stopped one may be resumed under the same runner.
\<close>

subsection \<open>Blocked tasks\<close>

text \<open>The reference: a pending task is stuck when a dependency failed or is itself stuck.\<close>

inductive stuck :: "run_state \<Rightarrow> task_key \<Rightarrow> bool" for run :: run_state where
  stuck_on: "task_get run k = Some t \<Longrightarrow> tf_state t = Pending \<Longrightarrow>
     registry_get (st_registry run) k = Some e \<Longrightarrow> dep \<in> set (te_deps e) \<Longrightarrow>
     dep_has_failed run dep \<or> stuck run dep \<Longrightarrow> stuck run k"

lemma becomes_blocked_stuck:
  assumes "becomes_blocked run blocked i" "\<And>k. bs_contains blocked k \<Longrightarrow> stuck run k"
  shows "stuck run (of_nat i)"
proof -
  have "unat (of_nat i :: task_key) = i"
    using assms(1) by (auto simp: becomes_blocked_def unat_of_nat)
  with assms(1) obtain t e dep where "task_get run (of_nat i) = Some t" "tf_state t = Pending"
    "registry_get (st_registry run) (of_nat i) = Some e" "dep \<in> set (te_deps e)"
    "bs_contains blocked dep \<or> dep_has_failed run dep"
    by (auto simp: becomes_blocked_def task_get_def list_ex_iff split: option.splits)
  with assms(2) show ?thesis by (auto intro: stuck_on)
qed

lemma blocked_sweep_stuck:
  "blocked_sweep run is (blocked, grew) = (blocked', grew') \<Longrightarrow>
   (\<And>k. bs_contains blocked k \<Longrightarrow> stuck run k) \<Longrightarrow> bs_contains blocked' k \<Longrightarrow> stuck run k"
proof (induction "is" arbitrary: blocked grew)
  case (Cons i "is")
  show ?case
  proof (cases "becomes_blocked run blocked i")
    case True
    have "stuck run (of_nat i)" using becomes_blocked_stuck [OF True Cons.prems(2)] .
    with True Cons.prems Cons.IH [of "bs_insert (of_nat i) blocked" True] show ?thesis by auto
  next
    case False
    with Cons show ?thesis by auto
  qed
qed simp

lemma blocked_sweep_grew: "blocked_sweep run is (blocked, True) = (blocked', grew') \<Longrightarrow> grew'"
  by (induction "is" arbitrary: blocked) (auto split: if_splits)

lemma blocked_sweep_fixed:
  "blocked_sweep run is (blocked, False) = (blocked', False) \<Longrightarrow>
     blocked' = blocked \<and> (\<forall>i \<in> set is. \<not> becomes_blocked run blocked i)"
  by (induction "is" arbitrary: blocked) (auto dest: blocked_sweep_grew split: if_splits)

lemma blocked_loop_stuck:
  "(\<And>k. bs_contains blocked k \<Longrightarrow> stuck run k) \<Longrightarrow> bs_contains (blocked_loop run blocked) k \<Longrightarrow> stuck run k"
proof (induction run blocked rule: blocked_loop.induct)
  case (1 run blocked)
  obtain b g where sweep: "blocked_sweep run [0..<length (st_tasks run)] (blocked, False) = (b, g)"
    by fastforce
  note stuck = blocked_sweep_stuck [OF sweep "1.prems"(1)]
  show ?case
  proof (cases g)
    case True
    with sweep "1.prems"(2) have "bs_contains (blocked_loop run b) k"
      by (simp add: blocked_loop.simps [of run blocked])
    with "1.IH" [OF sweep [symmetric] True] stuck show ?thesis by blast
  next
    case False
    with sweep "1.prems"(2) stuck show ?thesis by (simp add: blocked_loop.simps [of run blocked])
  qed
qed

lemma blocked_loop_fixed: "i < length (st_tasks run) \<Longrightarrow> \<not> becomes_blocked run (blocked_loop run blocked) i"
proof (induction run blocked rule: blocked_loop.induct)
  case (1 run blocked)
  obtain b g where sweep: "blocked_sweep run [0..<length (st_tasks run)] (blocked, False) = (b, g)"
    by fastforce
  show ?case
  proof (cases g)
    case True
    with "1.IH" [OF sweep [symmetric] True "1.prems"] sweep show ?thesis
      by (simp add: blocked_loop.simps [of run blocked])
  next
    case False
    with sweep blocked_sweep_fixed [of run "[0..<length (st_tasks run)]" blocked b] "1.prems"
    show ?thesis by (auto simp: blocked_loop.simps [of run blocked])
  qed
qed

lemma stuck_blocked: "stuck run k \<Longrightarrow> bs_contains (blocked_tasks run) k"
proof (induction rule: stuck.induct)
  case (stuck_on k t e dep)
  have "unat k < length (st_tasks run)"
    using stuck_on(1) by (auto simp: task_get_def vec_get_def split: if_splits)
  then have "\<not> becomes_blocked run (blocked_tasks run) (unat k)"
    unfolding blocked_tasks_def by (rule blocked_loop_fixed)
  with stuck_on show ?case
    using unsigned_less [of k] by (auto simp: becomes_blocked_def task_get_def list_ex_iff)
qed

lemma stuck_iff_blocked: "bs_contains (blocked_tasks run) k \<longleftrightarrow> stuck run k"
  using stuck_blocked blocked_loop_stuck [of "[]" run k]
  by (auto simp: blocked_tasks_def bs_contains_def)

text \<open>
  C8. The sweep over the tasks terminates, and the tasks it reports blocked are exactly the
  stuck ones: pending, with a dependency that failed or is itself stuck, to any depth.
\<close>

theorem blocked_tasks_exact: "bs_contains (blocked_tasks run) k \<longleftrightarrow> stuck run k"
  by (rule stuck_iff_blocked)

subsection \<open>The recorded outcome\<close>

lemma run_finished_Inr:
  assumes "check_started_run x run (EvRunFinished d) = Inr dv"
  shows "run_derived_outcome x run = Ending (f4_outcome d)" "f4_halted_at d = st_halted_at run"
    "st_finished run = None"
  using assms
  by (auto simp: result_simps check_body_def check_run_finished_def Let_def elim!: continues_run.elims)

lemma tf_open_class: "tf_open t = Some g \<Longrightarrow> gf_class g \<noteq> Closed"
  by (auto simp: tf_open_def is_open_def find_Some_iff)

lemma derived_complete:
  assumes "run_derived_outcome x run = Ending OutComplete"
  shows "complete_shape run" "\<not> questions_open run" "\<not> backoff_pending run" "\<not> structurally_admissible x run"
    "st_halted_at run = None"
  using assms by (auto simp: run_derived_outcome_def split: if_splits)

text \<open>
  C9. A run that records itself complete is: the record is accepted only when no task is
  open, nothing is queued, being published, asked, deferred or ready, no candidate or lineage
  holds a region, and every task is merged, failed, or pending behind a failed dependency.
\<close>

theorem complete_means_complete:
  assumes "check_started_run x run (EvRunFinished d) = Inr dv" "f4_outcome d = OutComplete"
  shows "list_all (\<lambda>(i, t). tf_state t = Merged \<or> tf_state t = Failed \<or>
        tf_state t = Pending \<and> stuck run (of_nat i)) (enumerate 0 (st_tasks run)) \<and>
    st_queue run = [] \<and> st_transaction run = None \<and> st_questions run = [] \<and>
    st_deferred_tasks run = [] \<and> list_all (\<lambda>t. tf_open t = None) (st_tasks run) \<and>
    \<not> any_candidate_or_lineage (st_leases run) \<and> st_halted_at run = None \<and>
    \<not> structurally_admissible x run"
proof -
  have out: "run_derived_outcome x run = Ending OutComplete"
    using run_finished_Inr [OF assms(1)] assms(2) by simp
  note shape = derived_complete [OF out]
  have common: "run_common run" using out by (auto simp: run_derived_outcome_def split: if_splits)
  have "list_all (\<lambda>t. tf_open t = None) (st_tasks run)"
    using common tf_open_class by (fastforce simp: run_common_def list_all_iff blocks_run_end_def split: option.splits)
  with shape common show ?thesis
    by (auto simp: complete_shape_def Let_def list_all_iff is_terminal_def questions_open_def
        backoff_pending_def run_common_def stuck_iff_blocked)
qed

subsection \<open>Nothing follows the end\<close>

lemma runner_difference_None: "runner_difference a b = None \<longleftrightarrow> a = b"
  by (auto simp: runner_difference_def split: option.splits if_splits intro!: runner_policy.equality
      image_identity.equality)

lemma finished_next:
  assumes "fo_run f = Some run" "st_finished run = Some outcome" "plan_transition x f e = Inr delta"
  shows "outcome \<in> {OutParked, OutBudgetExceeded} \<and>
    (\<exists>r. ev_body e = EvRunResumed r \<and> r4_runner r = s4_runner (st_started run))"
proof -
  have "ev_body e \<noteq> EvRunStarted d" for d
    using assms(1,3) check_run_started_run [of x f d] by (auto simp: plan_transition_started)
  then obtain dv where "check_started_run x run (ev_body e) = Inr dv"
    using assms(1,3) by (auto simp: plan_transition_other)
  with assms(2) have "continues_run outcome (ev_body e)" "check_body x run (ev_body e) = Inr dv"
    by (auto simp: result_simps)
  then show ?thesis
    by (auto simp: check_body_def result_simps check_run_resumed_def runner_difference_None
        split: option.splits elim!: continues_run.elims)
qed

text \<open>
  C10. A finished run is over: whatever follows the record of its end in an accepted log is
  nothing, or, for a parked run or one stopped by its budget only, begins with a resume
  under the runner the run was started with.
\<close>

theorem finished_run_is_over:
  assumes "fo_run f = Some run" "st_finished run = Some outcome" "replay_from x f fs = Inr f'"
  shows "fs = [] \<or> outcome \<in> {OutParked, OutBudgetExceeded} \<and>
    (\<exists>e r fs'. fs = e # fs' \<and> ev_body e = EvRunResumed r \<and> r4_runner r = s4_runner (st_started run))"
proof (cases fs)
  case (Cons e fs')
  with assms(3) obtain delta where "plan_transition x f e = Inr delta" by (auto simp: result_simps)
  from finished_next [OF assms(1,2) this] Cons show ?thesis by blast
qed simp

lemma halt_step:
  assumes "fo_run f = Some run" "st_halted_at run = Some k" "plan_transition x f e = Inr delta"
  shows "\<exists>run'. fo_run (apply_delta delta f) = Some run' \<and> st_halted_at run' = Some k \<and>
    st_halted_epoch run' = st_halted_epoch run"
proof -
  have "ev_body e \<noteq> EvRunStarted d" for d
    using assms(1,3) check_run_started_run [of x f d] by (auto simp: plan_transition_started)
  then obtain dv where "delta = \<lparr>de_event = e, de_derived = dv\<rparr>"
    "fo_run (apply_delta delta f) = Some (apply_body (ev_body e) dv run)"
    using assms(1,3) by (auto simp: plan_transition_other apply_delta_other)
  with halted_apply_body [OF assms(2)] show ?thesis by auto
qed

text \<open>
  C19. A halt is recorded once and for all: no later event of the log, resumes included,
  moves the halting task or the epoch it halted in.
\<close>

theorem halt_is_permanent:
  assumes "fo_run f = Some run" "st_halted_at run = Some k" "replay_from x f fs = Inr f'"
  shows "\<exists>run'. fo_run f' = Some run' \<and> st_halted_at run' = Some k \<and>
    st_halted_epoch run' = st_halted_epoch run"
proof -
  let ?I = "\<lambda>f. \<exists>run'. fo_run f = Some run' \<and> st_halted_at run' = Some k \<and>
    st_halted_epoch run' = st_halted_epoch run"
  have step: "?I (apply_delta d g)" if "?I g" "plan_transition x g e = Inr d" for g e d
    using that halt_step by fastforce
  have start: "?I f" using assms(1,2) by blast
  show ?thesis by (rule fold.run_invariant [where I = ?I, OF _ start assms(3)]) (rule step)
qed

subsection \<open>Two endings of the sample run\<close>

definition sample_failure :: "bool \<Rightarrow> attempt_finished4" where
  "sample_failure halts =
     \<lparr>af4_key = 0, af4_generation = 0, af4_attempt = 1,
      af4_record = sample_attempt\<lparr>at_failure := Some
        \<lparr>fr_kind = AgentError, fr_origin = Worker, fr_reason = ''crash'', fr_detail = None\<rparr>\<rparr>,
      af4_settlement = SettleClosed (TrFailed halts ''crash'') PredictedReleased\<rparr>"

definition sample_failed :: "bool \<Rightarrow> run_state" where
  "sample_failed halts =
     (sample_run Failed [(Closed, 1, None)] 1 [] False None 0)
     \<lparr>st_halted_at := (if halts then Some 0 else None), st_halted_epoch := (if halts then Some 0 else None)\<rparr>"

definition sample_finish :: "bool \<Rightarrow> run_finished4" where
  "sample_finish halts =
     \<lparr>f4_outcome = (if halts then OutHalted else OutComplete),
      f4_halted_at = (if halts then Some 0 else None), f4_merged = 0, f4_parked = 0\<rparr>"

lemma sample_step_halted:
  "check_started_run sample_x sample_flying (EvAttemptFinished (sample_failure True)) = Inr DerivedNone \<and>
   apply_body (EvAttemptFinished (sample_failure True)) DerivedNone sample_flying = sample_failed True"
  by code_simp

lemma sample_step_failed:
  "check_started_run sample_x sample_flying (EvAttemptFinished (sample_failure False)) = Inr DerivedNone \<and>
   apply_body (EvAttemptFinished (sample_failure False)) DerivedNone sample_flying = sample_failed False"
  by code_simp

lemma sample_step_finished:
  "check_started_run sample_x (sample_failed True) (EvRunFinished (sample_finish True)) = Inr DerivedNone \<and>
   check_started_run sample_x (sample_failed False) (EvRunFinished (sample_finish False)) = Inr DerivedNone"
  by code_simp

theorem complete_means_complete_witness:
  "check_started_run sample_x (sample_failed False) (EvRunFinished (sample_finish False)) = Inr DerivedNone \<and>
   f4_outcome (sample_finish False) = OutComplete \<and>
   list_all (\<lambda>(i, t). tf_state t = Merged \<or> tf_state t = Failed \<or>
     tf_state t = Pending \<and> stuck (sample_failed False) (of_nat i)) (enumerate 0 (st_tasks (sample_failed False)))"
proof -
  have out: "f4_outcome (sample_finish False) = OutComplete" by (simp add: sample_finish_def)
  from complete_means_complete [OF sample_step_finished [THEN conjunct2] out] out sample_step_finished
  show ?thesis by blast
qed

theorem halt_is_permanent_witness:
  "\<exists>f' run'. replay_from sample_x (sample_fold (sample_failed True))
       [\<lparr>ev_ts = [], ev_body = EvRunFinished (sample_finish True)\<rparr>] = Inr f' \<and>
     fo_run f' = Some run' \<and> st_halted_at run' = Some 0"
proof -
  let ?run = "apply_body (EvRunFinished (sample_finish True)) DerivedNone (sample_failed True)"
  have "replay_from sample_x (sample_fold (sample_failed True))
      [\<lparr>ev_ts = [], ev_body = EvRunFinished (sample_finish True)\<rparr>] = Inr (sample_fold ?run)"
    using sample_step_finished by (subst sample_fold_step) auto
  moreover have "st_halted_at (sample_failed True) = Some 0" by (simp add: sample_failed_def)
  ultimately show ?thesis
    using halt_is_permanent [of "sample_fold (sample_failed True)" "sample_failed True" 0] by fastforce
qed

theorem finished_run_is_over_witness:
  "let run = sample_fresh\<lparr>st_finished := Some OutParked\<rparr>;
       r = \<lparr>r4_incarnation = ''i1'', r4_runner = sample_runner, r4_probed_agents = [], r4_upstroke_version = ''v''\<rparr>
   in st_finished run = Some OutParked \<and>
      (\<exists>f'. replay_from sample_x (sample_fold run) [\<lparr>ev_ts = [], ev_body = EvRunResumed r\<rparr>] = Inr f') \<and>
      r4_runner r = s4_runner (st_started run)"
proof -
  let ?run = "sample_fresh\<lparr>st_finished := Some OutParked\<rparr>"
  let ?r = "\<lparr>r4_incarnation = ''i1'', r4_runner = sample_runner, r4_probed_agents = [], r4_upstroke_version = ''v''\<rparr>"
  have "st_started ?run = sample_started4" by (simp add: sample_run_def run_start_def)
  moreover have "runner_difference sample_runner sample_runner = None" by (simp add: runner_difference_None)
  ultimately have "check_started_run sample_x ?run (EvRunResumed ?r) = Inr DerivedNone"
    by (simp add: check_started_run_def check_body_def no_derived_def check_run_resumed_def
        sample_started4_def)
  then have rep: "\<exists>f'. replay_from sample_x (sample_fold ?run) [\<lparr>ev_ts = [], ev_body = EvRunResumed ?r\<rparr>] = Inr f'"
    by (subst sample_fold_step) auto
  with finished_run_is_over [of "sample_fold ?run" ?run OutParked sample_x "[\<lparr>ev_ts = [], ev_body = EvRunResumed ?r\<rparr>]"]
  have "r4_runner ?r = s4_runner (st_started ?run)" by auto
  with rep show ?thesis by (simp add: Let_def)
qed

end
