(* ===== verification/Fold_Leases.thy ===== *)
theory Fold_Leases
  imports Fold_History
begin

section \<open>Leases, dispatch and admission\<close>

text \<open>
  The lease table stays well formed, so the contract of the lease store applies to every
  state of a run. The engine's readiness predicates agree with the checks on the events it
  then writes: what is ready may be dispatched and what is eligible may be integrated,
  within the limit on parallel work and on disjoint regions of the repository.
\<close>

subsection \<open>The table stays well formed\<close>

declare grant.simps [simp del] release.simps [simp del]
declare lt_wf_release [simp] lt_wf_grant [simp] lt_wf_widen [simp]

definition leases_wf :: "run_state \<Rightarrow> bool" where
  "leases_wf run \<longleftrightarrow> lt_wf (st_leases run)"

lemma leases_wf_cong: "st_leases run' = st_leases run \<Longrightarrow> leases_wf run \<Longrightarrow> leases_wf run'"
  by (simp add: leases_wf_def)

lemma st_leases_update_leases [simp]: "st_leases (update_leases h run) = h (st_leases run)"
  by (simp add: update_leases_def)

lemma leases_wf_update: "leases_wf run \<Longrightarrow> (\<And>t. lt_wf t \<Longrightarrow> lt_wf (h t)) \<Longrightarrow> leases_wf (update_leases h run)"
  by (simp add: leases_wf_def)

lemma leases_wf_release: "leases_wf run \<Longrightarrow> leases_wf (update_leases (release owner) run)"
  by (rule leases_wf_update) (auto intro: lt_wf_release)

lemma leases_wf_close: "leases_wf run \<Longrightarrow> leases_wf (close_generation key run)"
  by (simp add: leases_wf_def close_generation_def Let_def split: option.splits)

lemma leases_wf_foldl:
  "(\<And>s y. leases_wf s \<Longrightarrow> leases_wf (f s y)) \<Longrightarrow> leases_wf s \<Longrightarrow> leases_wf (foldl f s xs)"
  by (induction xs arbitrary: s) auto

lemma leases_wf_release_generation: "leases_wf run \<Longrightarrow> leases_wf (release_generation_holdings key run g)"
  by (simp add: leases_wf_def release_generation_holdings_def)

lemma leases_wf_release_holdings: "leases_wf run \<Longrightarrow> leases_wf (release_holdings_of key run)"
  by (auto simp: release_holdings_of_def Let_def
      intro!: leases_wf_release leases_wf_foldl leases_wf_release_generation split: option.splits)

lemma leases_wf_fail_member: "leases_wf run \<Longrightarrow> leases_wf (fail_member run m)"
proof -
  assume "leases_wf run"
  then have "leases_wf (release_holdings_of m (close_generation m run))"
    by (intro leases_wf_release_holdings leases_wf_close)
  then show ?thesis by (simp add: leases_wf_def fail_member_def Let_def split: option.splits)
qed

lemma leases_wf_fail_lineage: "leases_wf run \<Longrightarrow> leases_wf (fail_lineage key run)"
  using leases_wf_foldl [of fail_member run "lineage_member_keys run (lineage_root run key)"] leases_wf_fail_member
  by (simp add: leases_wf_def fail_lineage_def Let_def)

lemma leases_wf_transition: "leases_wf run \<Longrightarrow> leases_wf (apply_transition key t run)"
proof -
  assume "leases_wf run"
  then have close: "leases_wf (close_generation key run)" by (rule leases_wf_close)
  have failed: "leases_wf (set_state key Failed (close_generation key run))"
    using close by (rule leases_wf_cong [rotated]) simp
  have "leases_wf (record_halt k run')" if "leases_wf run'" for k run'
    using that by (rule leases_wf_cong [rotated]) simp
  with close failed \<open>leases_wf run\<close> leases_wf_fail_lineage [OF failed] show ?thesis
    by (auto simp: apply_transition_def Let_def intro: leases_wf_cong split: settlement_transition.splits)
qed

lemma lt_wf_candidate_region: "lt_wf t \<Longrightarrow> lt_wf (take_candidate_region eff key g t)"
  by (cases eff) (auto intro: lt_wf_grant lt_wf_release lt_wf_widen)

lemma lt_wf_rejection: "lt_wf t \<Longrightarrow> lt_wf (rejection_leases eff c held t)"
  by (cases eff) (auto intro!: lt_wf_release lt_wf_widen split: option.splits)

lemma leases_wf_dispatched: "leases_wf run \<Longrightarrow> leases_wf (apply_dispatched d run)"
  by (auto simp: leases_wf_def apply_dispatched_def Let_def lt_wf_grant
      split: lease_grant.splits)

lemma leases_wf_settlement: "leases_wf run \<Longrightarrow> leases_wf (apply_settlement d run)"
proof -
  assume "leases_wf run"
  then have "leases_wf (charge_allowance (af4_key d) (af4_record d) run)"
    by (rule leases_wf_cong [rotated]) simp
  then show ?thesis
    using leases_wf_transition [of "charge_allowance (af4_key d) (af4_record d) run" "af4_key d"]
    by (simp add: leases_wf_def apply_settlement_def Let_def split: attempt_settlement.splits)
qed

lemma leases_wf_rejected: "leases_wf run \<Longrightarrow> leases_wf (apply_merge_rejected d run)"
  by (simp add: leases_wf_def apply_merge_rejected_def register_spawn_def Let_def lt_wf_rejection
      split: rejection_disposition.splits spawn_admission.splits)

lemma leases_wf_answer: "leases_wf run \<Longrightarrow> leases_wf (apply_answer d run)"
proof -
  assume wf: "leases_wf run"
  then have "leases_wf (fail_lineage k (run\<lparr>st_questions := q\<rparr>))" for k q
    by (intro leases_wf_fail_lineage) (simp add: leases_wf_def)
  with wf show ?thesis
    by (simp add: leases_wf_def apply_answer_def Let_def split: answer4.splits option.splits)
qed

lemma leases_wf_merged: "leases_wf run \<Longrightarrow> leases_wf (apply_task_merged d run)"
  by (auto simp: leases_wf_def apply_task_merged_def Let_def foldl_same [where g = st_leases]
      intro!: lt_wf_release split: option.splits)

lemma leases_wf_step: "leases_wf run \<Longrightarrow> leases_wf (apply_body body dv run)"
proof -
  assume wf: "leases_wf run"
  have created: "leases_wf (apply_candidate_created c run)" for c
    using leases_wf_close [OF wf, of "cr_key c"] by (simp add: leases_wf_def apply_candidate_created_def Let_def)
  have prepared: "leases_wf (apply_candidate_prepared d run)" for d
    using wf by (simp add: leases_wf_def apply_candidate_prepared_def lt_wf_candidate_region)
  have interrupted: "leases_wf (set_state k s (close_generation k run))" for k s
    using leases_wf_close [OF wf] by (simp add: leases_wf_def)
  show ?thesis
    using wf
    by (cases body; cases dv)
      (auto simp: apply_body_def created prepared interrupted leases_wf_dispatched leases_wf_settlement
        leases_wf_rejected leases_wf_answer leases_wf_merged leases_wf_close intro: leases_wf_cong)
qed

lemma reachable_leases: "reachable x inputs run \<Longrightarrow> leases_wf run"
  by (induction rule: reachable.induct) (auto simp: run_start_def leases_wf_step, simp add: leases_wf_def)

subsection \<open>What is ready may be dispatched\<close>

text \<open>The dispatch the engine writes for a task: the next generation, its region or its lineage.\<close>

definition dispatch_of ::
  "task_entry \<Rightarrow> task_fold \<Rightarrow> task_key \<Rightarrow> commit_sha \<Rightarrow> string \<Rightarrow> candidate_ref \<Rightarrow> task_dispatched" where
  "dispatch_of entry task key base path source =
     \<lparr>td_key = key, td_generation = of_nat (length (tf_generations task)), td_base_sha = base,
      td_worktree_path = path,
      td_lease = (case te_lineage entry of
          None \<Rightarrow> GrantPredicted (predicted_region entry)
        | Some l \<Rightarrow> GrantInheritedLineage (ln_root l)),
      td_source_candidate = (if te_lineage entry = None then None else Some source)\<rparr>"

text \<open>No two owners hold overlapping regions, except as members of one lineage.\<close>

definition disjoint_regions :: "externals \<Rightarrow> run_state \<Rightarrow> bool" where
  "disjoint_regions x run \<longleftrightarrow>
     (\<forall>o1 o2 r1 r2. o1 \<noteq> o2 \<longrightarrow> region_held (st_leases run) o1 = Some r1 \<longrightarrow>
        region_held (st_leases run) o2 = Some r2 \<longrightarrow>
        \<not> regions_overlap (ex_lowercase x) r1 r2 (s4_path_policy (st_started run)))"

lemma readyD:
  assumes "ready x run key" "task_get run key = Some task" "registry_get (st_registry run) key = Some entry"
  shows "tf_state task = Pending" "tf_open task = None" "\<not> lineage_has_question run key"
    "\<not> holds_task (st_queue run) key" "\<not> transaction_is_for run key"
    "dispatch_lease_check x run key entry task" "pipeline_reservable run" "\<not> run_is_ending run"
    "list_all (dep_is_merged run) (te_deps entry)"
  using assms by (simp_all add: ready_def)

lemma ready_dispatch_accepted:
  assumes "ready x run key" "task_get run key = Some task" "registry_get (st_registry run) key = Some entry"
    and "length (tf_generations task) < 2 ^ 32"
  shows "check_dispatched run (dispatch_of entry task key base path source) = Inr ()"
proof -
  have "unat (of_nat (length (tf_generations task)) :: u32) = length (tf_generations task)"
    using assms(4) by (simp add: unat_of_nat)
  with readyD [OF assms(1-3)] assms(2,3) show ?thesis
    by (simp add: check_dispatched_def dispatch_of_def st_entry_def st_task_def Let_def split: option.splits)
qed

lemma filter_update_at:
  assumes "i < length xs" "\<not> P (xs ! i)" "P (f (xs ! i))"
  shows "length (filter P (update_at i f xs)) = Suc (length (filter P xs))"
proof -
  have xs: "xs = take i xs @ xs ! i # drop (Suc i) xs" using assms(1) by (rule id_take_nth_drop)
  have "update_at i f xs = take i xs @ f (xs ! i) # drop (Suc i) xs"
    using assms(1) by (simp add: update_at_def upd_conv_take_nth_drop)
  moreover have "length (filter P xs) = length (filter P (take i xs)) + length (filter P (drop (Suc i) xs))"
    using assms(2) by (subst xs) simp
  ultimately show ?thesis using assms(3) by simp
qed

lemma pipeline_held_dispatched:
  assumes "task_get run (td_key d) = Some task" "tf_open task = None"
  shows "pipeline_held (apply_dispatched d run) = Suc (pipeline_held run)"
proof -
  have t: "unat (td_key d) < length (st_tasks run)" "st_tasks run ! unat (td_key d) = task"
    using assms(1) by (auto simp: task_get_def vec_get_def split: if_splits)
  have none: "\<not> task_holds_pipeline task" using assms(2) by (simp add: task_holds_pipeline_def)
  have some: "task_holds_pipeline (task\<lparr>tf_generations := tf_generations task @
      [\<lparr>gf_id = g, gf_class = OpenNoAttempt, gf_base_sha = b, gf_lease = l, gf_attempts = 0, gf_candidate = None\<rparr>]\<rparr>)"
    for g b l
    using assms(2) by (simp add: task_holds_pipeline_def tf_open_def find_append is_open_def)
  show ?thesis
    using t none some
    by (simp add: pipeline_held_def apply_dispatched_def Let_def update_task_def filter_update_at
        split: lease_grant.splits)
qed

lemma regions_dispatched:
  assumes "leases_wf run" "disjoint_regions x run" "dispatch_lease_check x run key entry task"
    and "task_get run key = Some task" "length (tf_generations task) < 2 ^ 32"
  shows "disjoint_regions x (apply_dispatched (dispatch_of entry task key base path source) run)"
proof (cases "te_lineage entry")
  case None
  let ?o = "OwnerGeneration key (of_nat (length (tf_generations task)))"
    and ?run = "apply_dispatched (dispatch_of entry task key base path source) run"
    and ?overlap = "\<lambda>r r'. regions_overlap (ex_lowercase x) r r' (s4_path_policy (st_started run))"
  have "\<not> overlaps_another (ex_lowercase x) (st_leases run) ?o (predicted_region entry)
      (s4_path_policy (st_started run))"
    using assms(3) None by (simp add: dispatch_lease_check_def)
  then have free: "\<not> ?overlap r' (predicted_region entry)"
    if "o' \<noteq> ?o" "region_held (st_leases run) o' = Some r'" for o' r'
    using that assms(1) by (auto simp: overlaps_another_region leases_wf_def simp del: region_held.simps)
  have "leases.exclusive (ex_lowercase x) (s4_path_policy (st_started run)) (st_leases run)"
    using assms(2) by (simp add: disjoint_regions_def leases.exclusive_def)
  then have "leases.exclusive (ex_lowercase x) (s4_path_policy (st_started run))
      (grant ?o (predicted_region entry) (st_leases run))"
    using assms(1) free by (intro leases.exclusive_grant) (auto simp: leases_wf_def)
  moreover have "st_leases ?run = grant ?o (predicted_region entry) (st_leases run)"
    using None by (simp add: apply_dispatched_def dispatch_of_def Let_def)
  moreover have "st_started ?run = st_started run"
    using None by (simp add: apply_dispatched_def dispatch_of_def Let_def)
  ultimately show ?thesis by (simp add: disjoint_regions_def leases.exclusive_def)
next
  case (Some l)
  then have "st_leases (apply_dispatched (dispatch_of entry task key base path source) run) = st_leases run"
    "st_started (apply_dispatched (dispatch_of entry task key base path source) run) = st_started run"
    by (simp_all add: apply_dispatched_def dispatch_of_def Let_def)
  with assms(2) show ?thesis by (simp add: disjoint_regions_def)
qed

text \<open>
  C3. A task that is ready can be dispatched, safely: the check accepts the dispatch of its
  next generation, the pipeline then holds one more and still at most the configured
  parallelism, every dependency is merged, and regions that did not overlap before do not
  overlap after.
\<close>

theorem ready_task_dispatches_safely:
  assumes "replay x inputs es = Inr f" "fo_run f = Some run" "ready x run key"
    and "task_get run key = Some task" "registry_get (st_registry run) key = Some entry"
    and "length (tf_generations task) < 2 ^ 32"
  shows "let d = dispatch_of entry task key base path source; run' = apply_dispatched d run in
    check_dispatched run d = Inr () \<and>
    pipeline_held run' = Suc (pipeline_held run) \<and>
    pipeline_held run' \<le> unat (tl_max_parallel (s4_limits (st_started run))) \<and>
    list_all (dep_is_merged run) (te_deps entry) \<and>
    (disjoint_regions x run \<longrightarrow> disjoint_regions x run')"
proof -
  note r = readyD [OF assms(3-5)]
  have wf: "leases_wf run" using reachable_leases [OF replay_reachable_run [OF assms(1,2)]] .
  have key: "td_key (dispatch_of entry task key base path source) = key" by (simp add: dispatch_of_def)
  have held: "pipeline_held (apply_dispatched (dispatch_of entry task key base path source) run) = Suc (pipeline_held run)"
    using pipeline_held_dispatched assms(4) r(2) key by simp
  show ?thesis
    unfolding Let_def
    using ready_dispatch_accepted [OF assms(3-6)] held r(7,9)
      regions_dispatched [OF wf _ r(6) assms(4,6)]
    by (simp add: pipeline_reservable_def)
qed

lemma sample_ready:
  "ready sample_x sample_fresh 0 \<and> task_get sample_fresh 0 = Some task_fold_new \<and>
   registry_get (st_registry sample_fresh) 0 = Some (sample_entry_of 0 ''a'' [] []) \<and>
   st_leases sample_fresh = lease_table_new"
  by code_simp

theorem ready_task_dispatches_safely_witness:
  "ready sample_x sample_fresh 0 \<and> disjoint_regions sample_x sample_fresh \<and>
   (let d = dispatch_of (sample_entry_of 0 ''a'' [] []) task_fold_new 0 ''s0'' ''w'' sample_candidate in
    check_dispatched sample_fresh d = Inr () \<and> disjoint_regions sample_x (apply_dispatched d sample_fresh))"
proof -
  have "disjoint_regions sample_x sample_fresh"
    using sample_ready
    by (auto simp: disjoint_regions_def lease_table_new_def lineage_of_def bt_get_def elim!: region_held.elims)
  moreover obtain es f where "replay sample_x sample_inputs es = Inr f" "fo_run f = Some sample_fresh"
    using reachable_replay [OF sample_reachable_start] by blast
  moreover have "length (tf_generations task_fold_new) < 2 ^ 32" by (simp add: task_fold_new_def)
  ultimately show ?thesis
    using sample_ready ready_task_dispatches_safely
      [of sample_x sample_inputs es f sample_fresh 0 task_fold_new "sample_entry_of 0 ''a'' [] []"
        "''s0''" "''w''" sample_candidate]
    by (simp add: Let_def)
qed

subsection \<open>What an attempt runs\<close>

lemma check_attempt_started_Inr:
  assumes "check_attempt_started run d = Inr ()"
  shows "\<exists>entry task g. registry_get (st_registry run) (as_key d) = Some entry \<and>
    task_get run (as_key d) = Some task \<and> tf_open task = Some g \<and> gf_id g = as_generation d \<and>
    \<not> lineage_has_question run (as_key d) \<and> check_resumes run d g = Inr () \<and>
    checked_add (gf_attempts g) 1 = Some (as_attempt d) \<and> as_rung d = tf_rung task \<and>
    check_attempt_binding run d entry = Inr ()"
  using assms by (auto simp: check_attempt_started_def result_simps st_entry_def st_task_def Let_def)

lemma check_attempt_binding_Inr:
  assumes "check_attempt_binding run d entry = Inr ()" "registry_get (st_registry run) (as_key d) = Some entry"
  shows "run_rung_binding run (as_key d) (as_rung d) = Some (as_binding d)"
  using assms
  by (auto simp: check_attempt_binding_def run_rung_binding_def frozen_rung_binding_def matches_frozen_def
      result_simps Let_def split: option.splits if_splits)

lemma check_resumes_Inr:
  "check_resumes run d g = Inr () \<longleftrightarrow>
     gf_class g = OpenNoAttempt \<and> as_resume_session d = None \<or>
     (\<exists>session. gf_class g = RetainedIdle session (st_epoch run) \<and> as_resume_session d = Some session)"
  by (auto simp: check_resumes_def split: generation_class.splits option.splits)

text \<open>
  C21. An accepted attempt runs exactly what was frozen: its agent, model and effort are those
  the fold derives for the task's current rung (or a human's override), its number is one more
  than the last, it starts no task that waits on a question, and it resumes a session exactly
  when one was retained in this same incarnation of the run, and then that one.
\<close>

theorem attempt_runs_the_frozen_binding:
  assumes "check_started_run x run (EvAttemptStarted d) = Inr dv"
  shows "\<exists>task g. task_get run (as_key d) = Some task \<and> tf_open task = Some g \<and>
    gf_id g = as_generation d \<and> as_rung d = tf_rung task \<and>
    run_rung_binding run (as_key d) (tf_rung task) = Some (as_binding d) \<and>
    unat (as_attempt d) = Suc (unat (gf_attempts g)) \<and> \<not> lineage_has_question run (as_key d) \<and>
    (as_resume_session d = None \<and> gf_class g = OpenNoAttempt \<or>
     (\<exists>session. as_resume_session d = Some session \<and> gf_class g = RetainedIdle session (st_epoch run)))"
proof -
  have "check_attempt_started run d = Inr ()" using assms by (simp add: result_simps check_body_def)
  from check_attempt_started_Inr [OF this] obtain entry task g where
    w: "registry_get (st_registry run) (as_key d) = Some entry" "task_get run (as_key d) = Some task"
    "tf_open task = Some g" "gf_id g = as_generation d" "\<not> lineage_has_question run (as_key d)"
    "check_resumes run d g = Inr ()" "checked_add (gf_attempts g) 1 = Some (as_attempt d)"
    "as_rung d = tf_rung task" "check_attempt_binding run d entry = Inr ()" by blast
  have "unat (as_attempt d) = Suc (unat (gf_attempts g))"
    using checked_add_Some_unat [OF w(7)] by simp
  with w check_attempt_binding_Inr [OF w(9,1)] show ?thesis
    by (auto simp: check_resumes_Inr)
qed

theorem attempt_runs_the_frozen_binding_witness:
  "check_started_run sample_x sample_open (EvAttemptStarted sample_attempt_started) = Inr DerivedNone \<and>
   run_rung_binding sample_open 0 0 = Some (as_binding sample_attempt_started)"
proof -
  have acc: "check_started_run sample_x sample_open (EvAttemptStarted sample_attempt_started) = Inr DerivedNone"
    using sample_step_flying ..
  have "as_key sample_attempt_started = 0" "as_rung sample_attempt_started = 0"
    by (simp_all add: sample_attempt_started_def)
  with attempt_runs_the_frozen_binding [OF acc] acc show ?thesis by auto
qed

subsection \<open>The queue and the lineages\<close>

text \<open>
  C31. The queue is stuck only on someone. When a run has candidates queued and none may
  integrate, each of them waits for a person's answer or for a back-off, or it waits, through
  overlapping and ever older lineages, for a lineage every queued candidate of which waits for a
  person or a back-off, if it has one queued at all. No candidate waits, however far it is followed,
  for its own lineage.
\<close>

theorem stuck_queue_waits_on_someone:
  assumes "replay x inputs es = Inr f" "fo_run f = Some run"
    and "run_first_eligible x run = None" "e \<in> set (st_queue run)"
  shows "(held_back (task_is_awaiting_input run) e \<or>
    (\<exists>lease. waits_for (ex_lowercase x) (st_queue run) (st_leases run) (s4_path_policy (st_started run)) e lease \<and>
      (\<forall>e' \<in> set (st_queue run). qe_lineage_root e' = Some (ll_root lease) \<longrightarrow>
         held_back (task_is_awaiting_input run) e'))) \<and>
    (\<forall>lease. waits_for (ex_lowercase x) (st_queue run) (st_leases run) (s4_path_policy (st_started run)) e lease \<longrightarrow>
       qe_lineage_root e \<noteq> Some (ll_root lease))"
proof -
  have "leases_wf run" using reachable_leases [OF replay_reachable_run [OF assms(1,2)]] .
  then have distinct: "distinct (map ll_root (lt_lineages (st_leases run)))" by (simp add: leases_wf_def lt_wf_def)
  from stuck_queue_waits [OF this assms(3) [unfolded run_first_eligible_def] assms(4)] waits_for_older [OF distinct]
  show ?thesis by blast
qed

text \<open>A candidate whose verification has just been put off.\<close>

definition sample_verifying :: merge_verification_started where
  "sample_verifying =
     \<lparr>vs_sequence = 0, vs_candidate = sample_candidate, vs_basis = BasisAlreadyPresent, vs_expected_head = ''s1'',
      vs_proposed_sha = ''s1''\<rparr>"

definition sample_unavailable :: merge_verification_unavailable where
  "sample_unavailable =
     \<lparr>vu_sequence = 0, vu_cause = CauseInfrastructure InfraRunnerSpawnFailure,
      vu_outcome = UnavailableDeferred 1, vu_reviews = []\<rparr>"

abbreviation "sample_put_off \<equiv>
  apply_body (EvMergeVerificationUnavailable sample_unavailable) DerivedNone
    (apply_body (EvMergeVerificationStarted sample_verifying) DerivedNone sample_queued)"

lemma sample_put_off_stuck:
  "check_started_run sample_x sample_queued (EvMergeVerificationStarted sample_verifying) = Inr DerivedNone \<and>
   check_started_run sample_x (apply_body (EvMergeVerificationStarted sample_verifying) DerivedNone sample_queued)
     (EvMergeVerificationUnavailable sample_unavailable) = Inr DerivedNone \<and>
   run_first_eligible sample_x sample_put_off = None \<and> map qe_candidate (st_queue sample_put_off) = [sample_candidate]"
  by code_simp

theorem stuck_queue_waits_on_someone_witness:
  "run_first_eligible sample_x sample_put_off = None \<and> st_queue sample_put_off \<noteq> [] \<and>
   (held_back (task_is_awaiting_input sample_put_off) (hd (st_queue sample_put_off)) \<or>
    (\<exists>lease. waits_for (ex_lowercase sample_x) (st_queue sample_put_off) (st_leases sample_put_off)
      (s4_path_policy (st_started sample_put_off)) (hd (st_queue sample_put_off)) lease))"
proof -
  have "reachable sample_x sample_inputs sample_put_off"
    using sample_put_off_stuck by (intro reachable.stepped [OF reachable.stepped [OF sample_reachable(4)]]) auto
  then obtain es f where "replay sample_x sample_inputs es = Inr f" "fo_run f = Some sample_put_off"
    using reachable_replay by blast
  note stuck = stuck_queue_waits_on_someone [OF this]
  have "st_queue sample_put_off \<noteq> []" using sample_put_off_stuck by auto
  then have "hd (st_queue sample_put_off) \<in> set (st_queue sample_put_off)" by (rule hd_in_set)
  with sample_put_off_stuck stuck \<open>st_queue sample_put_off \<noteq> []\<close> show ?thesis by blast
qed

end
