(* ===== verification/Fold_Parking.thy ===== *)
theory Fold_Parking
  imports Fold_History
begin

section \<open>Questions, parked tasks and back-offs\<close>

text \<open>
  A task that waits for a human has an open question of its own, and a deferred task is in the
  set the next wake-up visits, so no task is ever left waiting for something that cannot
  happen. The open questions are well formed: filed under their own identifier, complete, and
  never asked twice.
\<close>

subsection \<open>The invariants\<close>

definition questions_ok :: "run_state \<Rightarrow> bool" where
  "questions_ok run \<longleftrightarrow>
     bt_wf (st_questions run) \<and>
     (\<forall>i q. bt_get (st_questions run) i = Some q \<longrightarrow>
        fq_id (oq_question q) = i \<and> is_complete (oq_question q) \<and> bs_contains (st_seen_questions run) i)"

definition asked :: "run_state \<Rightarrow> task_key \<Rightarrow> bool" where
  "asked run k \<longleftrightarrow> (\<exists>i q. bt_get (st_questions run) i = Some q \<and> fq_key (oq_question q) = k)"

definition parked_upto :: "task_key set \<Rightarrow> run_state \<Rightarrow> bool" where
  "parked_upto S run \<longleftrightarrow>
     (\<forall>k. (k \<notin> S \<longrightarrow>
            (state_of run k = Some AwaitingInput \<longrightarrow> asked run k) \<and>
            (state_of run k = Some Deferred \<longrightarrow> bs_contains (st_deferred_tasks run) k)) \<and>
          (bs_contains (st_deferred_tasks run) k \<longrightarrow>
             state_of run k = Some Deferred \<or> state_of run k = Some AwaitingInput))"

definition parking_inv :: "run_state \<Rightarrow> bool" where
  "parking_inv run \<longleftrightarrow> questions_ok run \<and> parked_upto {} run"

lemma questions_ok_cong:
  "st_questions run' = st_questions run \<Longrightarrow> st_seen_questions run' = st_seen_questions run \<Longrightarrow>
   questions_ok run \<Longrightarrow> questions_ok run'"
  by (simp add: questions_ok_def)

lemma asked_cong: "st_questions run' = st_questions run \<Longrightarrow> asked run' k = asked run k"
  by (simp add: asked_def)

lemma parked_upto_cong:
  "state_of run' = state_of run \<Longrightarrow> st_deferred_tasks run' = st_deferred_tasks run \<Longrightarrow>
   st_questions run' = st_questions run \<Longrightarrow> parked_upto S run \<Longrightarrow> parked_upto S run'"
  by (simp add: parked_upto_def asked_def)

lemma open_question_for_asked: "questions_ok run \<Longrightarrow> open_question_for run k \<noteq> None \<longleftrightarrow> asked run k"
proof -
  assume "questions_ok run"
  then have "open_question_for run k = None \<longleftrightarrow>
      \<not> (\<exists>q. (\<exists>i. bt_get (st_questions run) i = Some q) \<and> fq_key (oq_question q) = k)"
    by (simp add: open_question_for_def find_None_iff bt_values_set [symmetric] questions_ok_def Bex_def)
  then show ?thesis by (auto simp: asked_def)
qed

lemma questions_ok_open:
  assumes "questions_ok run" "is_complete q"
  shows "questions_ok (open_the_question q og b run)"
  using assms
  by (auto simp: questions_ok_def open_the_question_def bt_wf_insert bt_get_insert split: if_splits)

lemma ex_in_upd:
  assumes "m i0 = None"
  shows "(\<exists>i q. (m(i0 \<mapsto> v)) i = Some q \<and> P q) \<longleftrightarrow> (\<exists>i q. m i = Some q \<and> P q) \<or> P v"
  using assms by (metis fun_upd_apply option.distinct(1) option.inject)

lemma asked_open:
  assumes "questions_ok run" "\<not> bs_contains (st_seen_questions run) (fq_id q)"
  shows "asked (open_the_question q og b run) k \<longleftrightarrow> asked run k \<or> k = fq_key q"
proof -
  have "bt_get (st_questions run) (fq_id q) = None"
    using assms by (cases "bt_get (st_questions run) (fq_id q)") (auto simp: questions_ok_def)
  moreover have "bt_get (st_questions (open_the_question q og b run)) =
      (bt_get (st_questions run))(fq_id q \<mapsto> \<lparr>oq_question = q, oq_origin = og, oq_binding = b\<rparr>)"
    using assms(1) by (simp add: questions_ok_def open_the_question_def bt_get_insert)
  ultimately show ?thesis by (simp add: asked_def ex_in_upd del: fun_upd_apply) blast
qed

lemma deferred_set_state [simp]:
  "st_deferred_tasks (set_state key s run) = defer_marks s key (st_deferred_tasks run)"
  by (simp add: set_state_def)

lemma asked_set_state [simp]: "asked (set_state key s run) k = asked run k"
  by (rule asked_cong) simp

lemma contains_defer_marks:
  "bs_contains (defer_marks s key ds) k \<longleftrightarrow>
     (if k = key then s = Deferred \<or> s = AwaitingInput \<and> bs_contains ds k else bs_contains ds k)"
  by (cases s) (auto simp: defer_marks_def)

lemma parked_set_state:
  assumes "parked_upto (insert key S) run"
    and "s = AwaitingInput \<Longrightarrow> asked run key \<and> state_of run key \<noteq> None"
    and "s = Deferred \<Longrightarrow> state_of run key \<noteq> None"
  shows "parked_upto S (set_state key s run)"
  using assms
  by (auto simp: parked_upto_def state_of_set_state contains_defer_marks)

lemma parked_upto_mono: "parked_upto S run \<Longrightarrow> S \<subseteq> T \<Longrightarrow> parked_upto T run"
  unfolding parked_upto_def by blast

lemma parked_upto_drop:
  assumes "parked_upto (insert key S) run"
    and "state_of run key \<noteq> Some AwaitingInput" "state_of run key \<noteq> Some Deferred"
  shows "parked_upto S run"
  unfolding parked_upto_def
proof (intro allI)
  fix k
  show "(k \<notin> S \<longrightarrow>
      (state_of run k = Some AwaitingInput \<longrightarrow> asked run k) \<and>
      (state_of run k = Some Deferred \<longrightarrow> bs_contains (st_deferred_tasks run) k)) \<and>
      (bs_contains (st_deferred_tasks run) k \<longrightarrow>
        state_of run k = Some Deferred \<or> state_of run k = Some AwaitingInput)"
    using assms by (cases "k = key") (auto simp: parked_upto_def)
qed

lemma parked_refresh:
  assumes "parked_upto (insert key S) run" "questions_ok run"
  shows "parked_upto S (refresh_task_state key run)"
proof (cases "task_get run key")
  case None
  then have "state_of run key = None" by (simp add: state_of_def)
  with parked_upto_drop [OF assms(1)] None show ?thesis by (simp add: refresh_task_state_def)
next
  case (Some t)
  then have st: "state_of run key = Some (tf_state t)" by (simp add: state_of_def)
  show ?thesis
  proof (cases "is_terminal (tf_state t)")
    case True
    then have "parked_upto S run"
      using st by (intro parked_upto_drop [OF assms(1)]) (auto simp: is_terminal_def)
    with True Some show ?thesis by (simp add: refresh_task_state_def derived_state_def facts_of_def)
  next
    case False
    define s where "s = refreshed run key (tf_state t)"
    have "derived_state (facts_of run key t) = Some s"
      using False by (simp add: derived_state_def facts_of_def refreshed_def s_def)
    then have "refresh_task_state key run = set_state key s run" using Some by (simp add: refresh_task_state_def)
    moreover have "open_question_for run key \<noteq> None" if "s = AwaitingInput"
      using that False by (auto simp: s_def refreshed_def split: if_splits)
    ultimately show ?thesis
      using parked_set_state [OF assms(1), of s] st open_question_for_asked [OF assms(2)] by simp
  qed
qed

lemma questions_ok_refresh: "questions_ok run \<Longrightarrow> questions_ok (refresh_task_state key run)"
  by (rule questions_ok_cong [rotated 2]) simp_all

lemma parked_refresh_all:
  "parked_upto (S \<union> set ks) run \<Longrightarrow> questions_ok run \<Longrightarrow>
   parked_upto S (foldl (\<lambda>s key. refresh_task_state key s) run ks)"
proof (induction ks arbitrary: run)
  case (Cons k ks)
  have "parked_upto (S \<union> set ks) (refresh_task_state k run)"
    using Cons.prems by (intro parked_refresh) simp_all
  with Cons show ?case by (simp add: questions_ok_refresh)
qed simp

lemma parked_wake:
  assumes "parked_upto {} run" "questions_ok run"
  shows "parked_upto {} (wake_backoff run)"
proof -
  let ?w = "(update_queue wake_deferred run)\<lparr>st_deferred_tasks := []\<rparr>"
  have st: "state_of ?w = state_of run" by simp
  have "asked ?w k = asked run k" for k by (rule asked_cong) simp
  with assms(1) st have "parked_upto (set (st_deferred_tasks run)) ?w"
    by (auto simp: parked_upto_def bs_contains_def)
  moreover have "questions_ok ?w" using assms(2) by (rule questions_ok_cong [rotated 2]) simp_all
  ultimately show ?thesis
    using parked_refresh_all [of "{}" "st_deferred_tasks run" ?w] by (simp add: wake_backoff_def Let_def)
qed

subsection \<open>Failing a lineage\<close>

lemma deferred_fail_member:
  "bs_contains (st_deferred_tasks (fail_member run m)) k \<longleftrightarrow> k \<noteq> m \<and> bs_contains (st_deferred_tasks run) k"
  by (auto simp: fail_member_def Let_def contains_defer_marks split: option.splits)

lemma parked_fail_member: "parked_upto S run \<Longrightarrow> parked_upto S (fail_member run m)"
proof -
  assume p: "parked_upto S run"
  have "asked (fail_member run m) k = asked run k" for k by (rule asked_cong) simp
  with p show ?thesis
    by (auto simp: parked_upto_def state_of_fail_member deferred_fail_member fail_unless_merged_def)
qed

lemma parked_fail_members: "parked_upto S run \<Longrightarrow> parked_upto S (foldl fail_member run ms)"
  by (induction ms arbitrary: run) (simp_all add: parked_fail_member)

lemma state_of_registered:
  "registry_inv run \<Longrightarrow> state_of run k = Some s \<Longrightarrow> \<exists>e. registry_get (st_registry run) k = Some e"
  by (auto simp: state_of_def dest: task_get_registered)

lemma lineage_member_key:
  assumes "registry_inv run" "registry_get (st_registry run) k = Some e"
    and "k = root' \<or> (\<exists>l. entry_lineage run k = Some l \<and> ln_root l = root')"
  shows "k \<in> set (lineage_member_keys run root')"
proof -
  have "e \<in> set (rg_entries (st_registry run))"
    using assms(2) by (auto simp: registry_get_def vec_get_def split: if_splits)
  moreover have "te_key e = k" using assms(1,2) by (rule registry_inv_key)
  ultimately show ?thesis using assms(2,3)
    by (force simp: lineage_member_keys_def entry_lineage_def)
qed

lemma fail_lineage_questions:
  "st_questions (fail_lineage key run) =
     bt_retain (\<lambda>_ q. fq_key (oq_question q) \<noteq> lineage_root run key \<and>
       \<not> (case entry_lineage run (fq_key (oq_question q)) of
            None \<Rightarrow> False | Some l \<Rightarrow> ln_root l = lineage_root run key)) (st_questions run)"
proof -
  have "st_registry (foldl fail_member run ms) = st_registry run"
    "st_questions (foldl fail_member run ms) = st_questions run" for ms
    by (simp_all add: foldl_same [where g = st_registry] foldl_same [where g = st_questions])
  then show ?thesis by (simp add: fail_lineage_def Let_def entry_lineage_def)
qed

lemma questions_ok_fail_lineage: "questions_ok run \<Longrightarrow> questions_ok (fail_lineage key run)"
proof -
  assume q: "questions_ok run"
  have "st_seen_questions (fail_lineage key run) = st_seen_questions run" by simp
  with q show ?thesis
    by (auto simp: questions_ok_def fail_lineage_questions bt_wf_retain bt_get_retain split: option.splits if_splits)
qed

lemma parked_fail_lineage:
  assumes "parked_upto S run" "questions_ok run" "registry_inv run"
  shows "parked_upto S (fail_lineage key run)"
proof -
  let ?ms = "lineage_member_keys run (lineage_root run key)"
  let ?f = "foldl fail_member run ?ms"
  have p: "parked_upto S ?f" using assms(1) by (rule parked_fail_members)
  have st: "state_of (fail_lineage key run) = state_of ?f"
    "st_deferred_tasks (fail_lineage key run) = st_deferred_tasks ?f"
    by (simp_all add: fail_lineage_def Let_def)
  have asked: "asked (fail_lineage key run) k" if aw: "state_of ?f k = Some AwaitingInput" and k: "asked ?f k" for k
  proof -
    have "k \<notin> set ?ms"
      using aw by (auto simp: state_of_fail_members fail_unless_merged_def split: if_splits)
    moreover have "state_of run k \<noteq> None"
      using aw by (auto simp: state_of_fail_members split: if_splits)
    ultimately have out: "k \<noteq> lineage_root run key" "\<not> (\<exists>l. entry_lineage run k = Some l \<and> ln_root l = lineage_root run key)"
      using lineage_member_key [OF assms(3), of k _ "lineage_root run key"] state_of_registered [OF assms(3)] by blast+
    have "st_questions ?f = st_questions run" by (simp add: foldl_same [where g = st_questions])
    with k obtain i q where q: "bt_get (st_questions run) i = Some q" "fq_key (oq_question q) = k"
      by (auto simp: asked_def)
    with out assms(2) have "bt_get (st_questions (fail_lineage key run)) i = Some q"
      by (simp add: fail_lineage_questions questions_ok_def bt_get_retain split: option.splits)
    with q show ?thesis by (auto simp: asked_def)
  qed
  show ?thesis using p asked unfolding parked_upto_def st by blast
qed

subsection \<open>Every event\<close>

lemma parking_cong:
  "state_of run' = state_of run \<Longrightarrow> st_deferred_tasks run' = st_deferred_tasks run \<Longrightarrow>
   st_questions run' = st_questions run \<Longrightarrow> st_seen_questions run' = st_seen_questions run \<Longrightarrow>
   parking_inv run \<Longrightarrow> parking_inv run'"
  unfolding parking_inv_def using questions_ok_cong parked_upto_cong by blast

lemma parking_set_state:
  assumes "parking_inv run" "s \<noteq> AwaitingInput" "s = Deferred \<Longrightarrow> state_of run key \<noteq> None"
  shows "parking_inv (set_state key s run)"
proof -
  have "parked_upto {} run" using assms(1) by (simp add: parking_inv_def)
  then have "parked_upto {key} run" by (rule parked_upto_mono) simp
  then have "parked_upto {} (set_state key s run)" by (rule parked_set_state) (use assms in simp_all)
  moreover have "questions_ok run" using assms(1) by (simp add: parking_inv_def)
  then have "questions_ok (set_state key s run)" by (rule questions_ok_cong [rotated 2]) simp_all
  ultimately show ?thesis by (simp add: parking_inv_def)
qed

lemma check_new_question_Inr [result_simps]:
  "check_new_question run kind q key = Inr () \<longleftrightarrow>
     is_complete q \<and> fq_key q = key \<and> \<not> bs_contains (st_seen_questions run) (fq_id q)"
  by (auto simp: check_new_question_def)

lemma parking_park:
  assumes "parking_inv run" "is_complete q" "fq_key q = key"
    and "\<not> bs_contains (st_seen_questions run) (fq_id q)" "state_of run key \<noteq> None"
  shows "parking_inv (set_state key AwaitingInput (open_the_question q og b run))"
proof -
  let ?o = "open_the_question q og b run"
  have q: "questions_ok run" "parked_upto {} run" using assms(1) by (simp_all add: parking_inv_def)
  have asked: "asked ?o k \<longleftrightarrow> asked run k \<or> k = key" for k
    using asked_open [OF q(1) assms(4)] assms(3) by simp
  have "questions_ok ?o" using q(1) assms(2) by (rule questions_ok_open)
  then have "questions_ok (set_state key AwaitingInput ?o)"
    by (rule questions_ok_cong [rotated 2]) simp_all
  moreover have "parked_upto {key} ?o" using q(2) asked by (auto simp: parked_upto_def)
  then have "parked_upto {} (set_state key AwaitingInput ?o)"
    using asked assms(5) by (intro parked_set_state) simp_all
  ultimately show ?thesis by (simp add: parking_inv_def)
qed

lemma parking_wake: "parking_inv run \<Longrightarrow> parking_inv (wake_backoff run)"
proof -
  assume "parking_inv run"
  moreover have "questions_ok (wake_backoff run)" if "questions_ok run"
    using that by (rule questions_ok_cong [rotated 2]) simp_all
  ultimately show ?thesis by (simp add: parking_inv_def parked_wake)
qed

lemma parking_fail_lineage: "parking_inv run \<Longrightarrow> registry_inv run \<Longrightarrow> parking_inv (fail_lineage key run)"
  by (simp add: parking_inv_def questions_ok_fail_lineage parked_fail_lineage)

lemma parking_register:
  assumes inv: "parking_inv run" and key: "unat (sw_key sp) = length (st_tasks run)"
    and ask: "\<And>q. admission_question (sw_admission sp) = Some q \<Longrightarrow>
      check_new_question run kind q (sw_key sp) = Inr ()"
  shows "parking_inv (register_spawn sp run)"
proof -
  let ?r = "run\<lparr>st_registry := register_entry (sw_entry sp) (st_registry run),
    st_tasks := st_tasks run @ [task_fold_new]\<rparr>"
  have "sw_admission (sp\<lparr>sw_admission := SpawnRunnable\<rparr>) = SpawnRunnable" by simp
  then have st: "state_of ?r = (state_of run)(sw_key sp \<mapsto> Pending)"
    using state_of_register [of "sp\<lparr>sw_admission := SpawnRunnable\<rparr>" run] key
    by (simp add: register_spawn_def Let_def)
  have "state_of run (sw_key sp) = None"
    using key by (simp add: state_of_def task_get_def vec_get_def)
  then have "parking_inv ?r"
    using inv st by (auto simp: parking_inv_def parked_upto_def questions_ok_def asked_def)
  moreover have "state_of ?r (sw_key sp) \<noteq> None" using st by simp
  moreover have "st_seen_questions ?r = st_seen_questions run" by simp
  ultimately show ?thesis
    using ask by (auto simp: register_spawn_def Let_def result_simps intro!: parking_park split: spawn_admission.splits)
qed

lemma parking_merge_all: "parking_inv run \<Longrightarrow> parking_inv (foldl (\<lambda>s key. set_state key Merged s) run ks)"
proof (induction ks arbitrary: run)
  case (Cons k ks)
  then have "parking_inv (set_state k Merged run)" by (intro parking_set_state) simp_all
  with Cons.IH show ?case by simp
qed simp

lemma parking_transition:
  assumes "parking_inv run" "registry_inv run" "state_of run key \<noteq> None"
    and "\<And>q. t = TrParked q \<Longrightarrow> is_complete q \<and> fq_key q = key \<and> \<not> bs_contains (st_seen_questions run) (fq_id q)"
  shows "parking_inv (apply_transition key t run)"
proof -
  let ?c = "close_generation key run"
  have close: "parking_inv ?c" using assms(1) by (rule parking_cong [rotated 4]) simp_all
  have st: "state_of ?c key \<noteq> None" using assms(3) by simp
  have failed: "parking_inv (set_state key Failed ?c)" using close by (rule parking_set_state) simp_all
  have "registry_inv (set_state key Failed ?c)"
    using assms(2) by (simp add: registry_inv_def lineage_ok_def lineage_root_def entry_lineage_def cong: option.case_cong)
  then have lin: "parking_inv (fail_lineage key (set_state key Failed ?c))"
    using failed by (rule parking_fail_lineage [rotated])
  have halt: "parking_inv (record_halt k run')" if "parking_inv run'" for k run'
    using that by (rule parking_cong [rotated 4]) simp_all
  have esc: "parking_inv (update_task key (\<lambda>t. t\<lparr>tf_rung := r, tf_attempts_on_rung := 0\<rparr>) ?c)" for r
    using close by (rule parking_cong [rotated 4]) (simp_all add: state_of_update_task)
  have "parking_inv (set_state key Deferred ?c)" using close st by (intro parking_set_state) simp_all
  then have "parking_inv (set_defers key n (set_state key Deferred ?c))" for n
    by (rule parking_cong [rotated 4]) simp_all
  moreover have "parking_inv (set_state key AwaitingInput (open_the_question q AdmissionOrigin None ?c))"
    if "t = TrParked q" for q
    using assms(4) [OF that] close st by (intro parking_park) simp_all
  ultimately show ?thesis
    using assms(1) close failed lin halt esc
    by (auto simp: apply_transition_def Let_def split: settlement_transition.splits)
qed

lemma parking_settlement:
  assumes "parking_inv run" "registry_inv run" "check_attempt_finished run d = Inr ()"
  shows "parking_inv (apply_settlement d run)"
proof -
  let ?c = "charge_allowance (af4_key d) (af4_record d) run"
  have c: "parking_inv ?c" using assms(1) by (rule parking_cong [rotated 4]) simp_all
  have reg: "registry_inv ?c"
    using assms(2) by (simp add: registry_inv_def lineage_ok_def lineage_root_def entry_lineage_def cong: option.case_cong)
  obtain t where "task_get run (af4_key d) = Some t"
    using assms(3) by (auto simp: check_attempt_finished_def result_simps st_task_def Let_def)
  then have st: "state_of ?c (af4_key d) \<noteq> None" by (simp add: state_of_def)
  have "is_complete q \<and> fq_key q = af4_key d \<and> \<not> bs_contains (st_seen_questions ?c) (fq_id q)"
    if "af4_settlement d = SettleClosed (TrParked q) l" for q l
    using assms(3) that
    by (auto simp: check_attempt_finished_def check_settled_transition_def result_simps Let_def)
  then have "parking_inv (apply_transition (af4_key d) tr ?c)" if "af4_settlement d = SettleClosed tr l" for tr l
    using that c reg st by (intro parking_transition) auto
  moreover have "parking_inv (update_open_generation (af4_key d) g ?c)" for g
    using c by (rule parking_cong [rotated 4]) simp_all
  ultimately show ?thesis by (simp add: apply_settlement_def Let_def split: attempt_settlement.splits)
qed

lemma parking_unavailable:
  assumes "parking_inv run" "check_verification_unavailable run u = Inr ()"
  shows "parking_inv (apply_verification_unavailable u run)"
proof (cases "st_transaction run")
  case None
  with assms(1) show ?thesis by (simp add: apply_verification_unavailable_def)
next
  case (Some tx)
  let ?t = "\<lambda>f. update_queued (tx_candidate tx) f (run\<lparr>st_transaction := None\<rparr>)"
  have taken: "parking_inv (?t f)" for f using assms(1) by (rule parking_cong [rotated 4]) simp_all
  have open': "open_transaction run ''merge_verification_unavailable'' (vu_sequence u) = Inr tx"
    using assms(2) Some by (auto simp: check_verification_unavailable_def result_simps Let_def)
  have chk: "state_of run (cr_key (tx_candidate tx)) \<noteq> None"
    "\<And>q. vu_outcome u = UnavailableParked q \<Longrightarrow>
      check_new_question run ''merge_verification_unavailable'' q (cr_key (tx_candidate tx)) = Inr ()"
    using assms(2) unfolding check_verification_unavailable_def Let_def open'
    by (auto simp: check_candidate_not_failed_def st_task_def state_of_def result_simps split: sum.splits)
  have "parking_inv (set_state (cr_key (tx_candidate tx)) AwaitingInput (open_the_question q VerificationPark None (?t f)))"
    if "vu_outcome u = UnavailableParked q" for q f
    using chk(1) chk(2) [OF that] taken by (intro parking_park) (simp_all add: result_simps)
  with Some taken show ?thesis
    by (simp add: apply_verification_unavailable_def Let_def split: unavailable_outcome.splits)
qed

lemma parked_close_question:
  assumes "questions_ok run" "parked_upto {} run" "bt_get (st_questions run) i = Some q"
    and "st_questions run' = bt_remove i (st_questions run)" "st_seen_questions run' = st_seen_questions run"
    and "state_of run' = state_of run" "st_deferred_tasks run' = st_deferred_tasks run"
  shows "questions_ok run'" "parked_upto {fq_key (oq_question q)} run'"
proof -
  have get: "bt_get (st_questions run') = (bt_get (st_questions run))(i := None)"
    using assms(1,4) by (simp add: questions_ok_def bt_get_remove)
  show "questions_ok run'"
    using assms(1,4,5) get by (auto simp: questions_ok_def bt_wf_remove split: if_splits)
  have "asked run' k" if ask: "asked run k" and ne: "k \<noteq> fq_key (oq_question q)" for k
  proof -
    obtain j q' where j: "bt_get (st_questions run) j = Some q'" "fq_key (oq_question q') = k"
      using ask by (auto simp: asked_def)
    then have "j \<noteq> i" using ne assms(3) by auto
    with j get show ?thesis by (auto simp: asked_def)
  qed
  with assms(2) show "parked_upto {fq_key (oq_question q)} run'"
    unfolding parked_upto_def assms(6,7) by blast
qed

lemma fail_lineage_own_state:
  assumes "registry_inv run"
  shows "state_of (fail_lineage key run) key \<noteq> Some AwaitingInput" "state_of (fail_lineage key run) key \<noteq> Some Deferred"
proof -
  have "key \<in> set (lineage_member_keys run (lineage_root run key))" if st: "state_of run key \<noteq> None"
  proof -
    obtain e where "registry_get (st_registry run) key = Some e"
      using st state_of_registered [OF assms] by blast
    then show ?thesis
      by (rule lineage_member_key [OF assms]) (auto simp: lineage_root_def split: option.splits)
  qed
  then show "state_of (fail_lineage key run) key \<noteq> Some AwaitingInput" "state_of (fail_lineage key run) key \<noteq> Some Deferred"
    by (auto simp: state_of_fail_lineage fail_unless_merged_def split: if_splits)
qed

lemma parking_answer:
  assumes "parking_inv run" "registry_inv run" "check_question_answered run d = Inr og"
  shows "parking_inv (apply_answer d run)"
proof -
  let ?q = "bt_remove (qa_question d) (st_questions run)"
  let ?c = "run\<lparr>st_questions := ?q\<rparr>"
  have inv: "questions_ok run" "parked_upto {} run" using assms(1) by (simp_all add: parking_inv_def)
  obtain q where q: "bt_get (st_questions run) (qa_question d) = Some q" "fq_key (oq_question q) = qa_key d"
    using assms(3)
    by (auto simp: check_question_answered_def result_simps Let_def split: if_splits sum.splits)
  note closed = parked_close_question [OF inv q(1), unfolded q(2)]
  have refresh: "parking_inv (refresh_task_state (qa_key d) run')"
    if "questions_ok run'" "parked_upto {qa_key d} run'" for run'
    using that by (simp add: parking_inv_def parked_refresh questions_ok_refresh)
  have c: "questions_ok ?c" "parked_upto {qa_key d} ?c" by (rule closed; simp)+
  have ov: "questions_ok (?c\<lparr>st_overrides := ov\<rparr>)" "parked_upto {qa_key d} (?c\<lparr>st_overrides := ov\<rparr>)" for ov
    by (rule closed; simp)+
  have reg: "registry_inv ?c"
    using assms(2) by (simp add: registry_inv_def lineage_ok_def lineage_root_def entry_lineage_def cong: option.case_cong)
  have "parked_upto {qa_key d} (fail_lineage (qa_key d) ?c)"
    using c reg by (intro parked_fail_lineage)
  then have "parked_upto {} (fail_lineage (qa_key d) ?c)"
    using fail_lineage_own_state [OF reg] by (rule parked_upto_drop)
  then have failed: "parking_inv (fail_lineage (qa_key d) ?c)"
    using c by (simp add: parking_inv_def questions_ok_fail_lineage)
  then have "parking_inv (record_halt (qa_key d) (fail_lineage (qa_key d) ?c))"
    by (rule parking_cong [rotated 4]) simp_all
  with failed refresh [OF c] refresh [OF ov] show ?thesis
    by (simp add: apply_answer_def Let_def split: answer4.splits option.splits)
qed

lemma parking_rejected:
  assumes "parking_inv run" "registry_inv run" "check_merge_rejected x run d = Inr ()"
  shows "parking_inv (apply_merge_rejected d run)"
proof -
  have sp: "check_spawn run (mr_repair d) ''merge_rejected'' = Inr ()"
    using assms(3) by (auto simp: check_merge_rejected_def result_simps Let_def)
  have key: "unat (sw_key (mr_repair d)) = length (st_tasks run)"
    using check_spawn_Inr [OF sp] assms(2) by (auto simp: registry_inv_def registry_len_def)
  have ask: "check_new_question run ''task_spawned'' q (sw_key (mr_repair d)) = Inr ()"
    if "admission_question (sw_admission (mr_repair d)) = Some q" for q
    using check_spawn_Inr [OF sp] that by (auto simp: check_admission_def result_simps)
  define run1 where "run1 = (case mr_disposition d of RdConflict _ \<Rightarrow> bump_sequence run | RdCodeRejected _ \<Rightarrow> run)"
  define run2 where "run2 = update_queue (queue_remove (cr_key (mr_candidate d)) (cr_generation (mr_candidate d)))
    (run1\<lparr>st_transaction := None\<rparr>)"
  define run3 where "run3 = set_state (cr_key (mr_candidate d)) AwaitingRepair
    (update_leases (rejection_leases (mr_lease_effect d) (mr_candidate d) (candidate_paths_held run2 (mr_candidate d))) run2)"
  have "parking_inv run1" unfolding run1_def
    using assms(1) by (auto intro: parking_cong [rotated 4] split: rejection_disposition.splits)
  then have "parking_inv run2" unfolding run2_def by (rule parking_cong [rotated 4]) simp_all
  then have "parking_inv (update_leases h run2)" for h by (rule parking_cong [rotated 4]) simp_all
  then have "parking_inv run3" unfolding run3_def by (rule parking_set_state) simp_all
  moreover have "length (st_tasks run3) = length (st_tasks run)" "st_seen_questions run3 = st_seen_questions run"
    by (simp_all add: run3_def run2_def run1_def split: rejection_disposition.splits)
  moreover have "apply_merge_rejected d run = register_spawn (mr_repair d) run3"
    by (simp add: apply_merge_rejected_def Let_def run3_def run2_def run1_def split: rejection_disposition.splits)
  ultimately show ?thesis
    using key ask by (auto simp: result_simps intro!: parking_register [where kind = "''task_spawned''"])
qed

lemma parking_step:
  assumes inv: "parking_inv run" and reg: "registry_inv run" and chk: "check_body x run body = Inr dv"
  shows "parking_inv (apply_body body dv run)"
proof -
  have same: "parking_inv run'"
    if "state_of run' = state_of run" "st_deferred_tasks run' = st_deferred_tasks run"
      "st_questions run' = st_questions run" "st_seen_questions run' = st_seen_questions run" for run'
    using that inv by (rule parking_cong)
  have resumed: "parking_inv (apply_resumed d run)" for d
  proof -
    let ?r = "run\<lparr>st_epoch := sat_add (st_epoch run) 1, st_incarnation := r4_incarnation d, st_budget_stop := None, st_finished := None\<rparr>"
    have "state_of ?r = state_of run" by (rule state_of_cong) simp
    then have "parking_inv ?r" by (rule same) simp_all
    then show ?thesis unfolding apply_resumed_def by (rule parking_wake)
  qed
  have spawned: "parking_inv (register_spawn (tsp_spawn d) run)" if "body = EvTaskSpawned d" for d
  proof -
    have sp: "check_spawn run (tsp_spawn d) ''task_spawned'' = Inr ()"
      using chk that by (auto simp: check_body_def check_task_spawned_def result_simps)
    have "unat (sw_key (tsp_spawn d)) = length (st_tasks run)"
      using check_spawn_Inr [OF sp] reg by (auto simp: registry_inv_def registry_len_def)
    moreover have "check_new_question run ''task_spawned'' q (sw_key (tsp_spawn d)) = Inr ()"
      if "admission_question (sw_admission (tsp_spawn d)) = Some q" for q
      using check_spawn_Inr [OF sp] that by (auto simp: check_admission_def result_simps)
    ultimately show ?thesis using inv by (intro parking_register)
  qed
  have interrupted: "parking_inv (set_state k Pending (close_generation k run))" for k
    by (rule parking_set_state) (rule same, simp_all)
  have prepared: "parking_inv (apply_candidate_prepared d run)" for d
    unfolding apply_candidate_prepared_def by (rule parking_set_state) (rule same, simp_all)
  have raised: "parking_inv (set_state (fq_key (qr_question d)) AwaitingInput (open_the_question (qr_question d) AdmissionOrigin None run))"
    if "body = EvQuestionRaised d" for d
    using chk that inv
    by (intro parking_park) (auto simp: check_body_def check_question_raised_def state_of_def st_task_def result_simps Let_def)
  have merged: "parking_inv (apply_task_merged d run)" for d
  proof (cases "st_transaction run")
    case (Some tx)
    let ?d = "update_queue (queue_remove (cr_key (tx_candidate tx)) (cr_generation (tx_candidate tx))) (run\<lparr>st_transaction := None\<rparr>)"
    have "parking_inv (foldl (\<lambda>s key. set_state key Merged s) ?d (tm_satisfies d))"
      by (rule parking_merge_all, rule same) simp_all
    then have "parking_inv (update_leases h (foldl (\<lambda>s key. set_state key Merged s) ?d (tm_satisfies d)))" for h
      by (rule parking_cong [rotated 4]) simp_all
    with Some show ?thesis by (simp add: apply_task_merged_def Let_def)
  qed (simp add: apply_task_merged_def inv)
  have state: "state_of (apply_dispatched d run) = state_of run" for d
    by (auto simp: apply_dispatched_def Let_def state_of_update_task split: lease_grant.splits)
  have kept: "state_of (apply_verification_started vs run) = state_of run"
    "state_of (release_transaction run) = state_of run" "state_of (apply_merge_prepared mp run) = state_of run"
    "state_of (run\<lparr>st_budget_stop := bs\<rparr>) = state_of run" "state_of (run\<lparr>st_finished := fi\<rparr>) = state_of run"
    "state_of (run\<lparr>st_charged := ch\<rparr>) = state_of run" for vs mp bs fi ch
    by (rule state_of_cong, simp)+
  have rest: "parking_inv (apply_attempt_started as run)" "parking_inv (close_generation k run)"
    "parking_inv (apply_candidate_created c run)" "parking_inv (apply_dispatched di run)"
    "parking_inv (apply_verification_started vs run)" "parking_inv (release_transaction run)"
    "parking_inv (apply_merge_prepared mp run)" "parking_inv (run\<lparr>st_budget_stop := bs\<rparr>)"
    "parking_inv (run\<lparr>st_finished := fi\<rparr>)" "parking_inv (run\<lparr>st_charged := ch\<rparr>)" for as k c di vs mp bs fi ch
    by (rule same; simp add: kept state apply_attempt_started_def apply_candidate_created_def Let_def)+
  show ?thesis
    using chk inv reg spawned raised
    by (cases body; cases dv)
      (simp_all add: check_body_def apply_body_def result_simps resumed interrupted prepared merged rest
        parking_settlement parking_unavailable parking_rejected parking_answer parking_wake)
qed

lemma reachable_parking: "reachable x inputs run \<Longrightarrow> parking_inv run"
proof (induction rule: reachable.induct)
  case (started d registry)
  have "state_of (run_start d registry) k \<in> {None, Some Pending}" for k
    by (auto simp: state_of_def task_get_def run_start_def vec_get_def task_fold_new_def)
  then have "state_of (run_start d registry) k \<noteq> Some AwaitingInput"
    "state_of (run_start d registry) k \<noteq> Some Deferred" for k
    by (metis insert_iff option.distinct(1) option.inject singletonD task_state.distinct(5,7))+
  moreover have "st_questions (run_start d registry) = []" "st_deferred_tasks (run_start d registry) = []"
    by (simp_all add: run_start_def)
  ultimately show ?case by (simp add: parking_inv_def questions_ok_def parked_upto_def bt_get_def)
next
  case (stepped run body dv)
  then show ?case using reachable_registry [OF stepped(1)] by (auto simp: result_simps intro: parking_step)
qed

subsection \<open>No task waits for nothing\<close>

text \<open>
  C2. No task waits for something that cannot come: in every state a log leads to, a task
  awaiting input has an open question of its own, a deferred task is in the set the next
  wake-up visits and that set names only deferred or waiting tasks, and every open question
  is filed under its own identifier, complete, and recorded as asked.
\<close>

theorem waiting_tasks_are_accounted:
  assumes "replay x inputs es = Inr f" "fo_run f = Some run"
  shows "questions_ok run \<and>
    (\<forall>k. (state_of run k = Some AwaitingInput \<longrightarrow> open_question_for run k \<noteq> None) \<and>
         (state_of run k = Some Deferred \<longrightarrow> bs_contains (st_deferred_tasks run) k) \<and>
         (bs_contains (st_deferred_tasks run) k \<longrightarrow>
            state_of run k = Some Deferred \<or> state_of run k = Some AwaitingInput))"
proof -
  have "questions_ok run" "parked_upto {} run"
    using reachable_parking [OF replay_reachable_run [OF assms]] by (simp_all add: parking_inv_def)
  with open_question_for_asked [of run] show ?thesis by (simp add: parked_upto_def)
qed

definition sample_question :: frozen_question where
  "sample_question = \<lparr>fq_id = ''q'', fq_key = 0, fq_kind = Clarify, fq_context = ''which?'', fq_options = [''x'']\<rparr>"

definition sample_asked :: run_state where
  "sample_asked =
     (sample_run AwaitingInput [] 0 [] False None 0)
     \<lparr>st_questions := [(''q'', \<lparr>oq_question = sample_question, oq_origin = AdmissionOrigin, oq_binding = None\<rparr>)],
      st_seen_questions := [''q'']\<rparr>"

lemma sample_step_asked:
  "check_started_run sample_x sample_fresh (EvQuestionRaised \<lparr>qr_question = sample_question\<rparr>) = Inr DerivedNone \<and>
   apply_body (EvQuestionRaised \<lparr>qr_question = sample_question\<rparr>) DerivedNone sample_fresh = sample_asked"
  by code_simp

theorem waiting_tasks_are_accounted_witness:
  "state_of sample_asked 0 = Some AwaitingInput \<and> open_question_for sample_asked 0 \<noteq> None"
proof -
  have "reachable sample_x sample_inputs sample_asked"
    using reachable.stepped [OF sample_reachable_start, of "EvQuestionRaised \<lparr>qr_question = sample_question\<rparr>" DerivedNone]
      sample_step_asked by simp
  then obtain es f where "replay sample_x sample_inputs es = Inr f" "fo_run f = Some sample_asked"
    using reachable_replay by blast
  moreover have "state_of sample_asked 0 = Some AwaitingInput"
    by (simp add: sample_asked_def sample_run_def state_of_def task_get_def vec_get_def)
  ultimately show ?thesis using waiting_tasks_are_accounted by blast
qed

subsection \<open>Repairs\<close>

lemma check_merge_rejected_Inr:
  assumes "check_merge_rejected x run d = Inr ()"
  shows "\<exists>entry l. registry_get (st_registry run) (cr_key (mr_candidate d)) = Some entry \<and>
    te_lineage (sw_entry (mr_repair d)) = Some l \<and> ln_parent l = cr_key (mr_candidate d) \<and>
    rejection_lineage_root (mr_lease_effect d) (te_lineage entry) (cr_key (mr_candidate d)) = Inr (ln_root l) \<and>
    ln_index l = lineage_members run (ln_root l) \<and>
    check_spawn run (mr_repair d) ''merge_rejected'' = Inr () \<and>
    check_repair_admission run (sw_admission (mr_repair d)) (lineage_members run (ln_root l)) = Inr ()"
  using assms by (auto simp: check_merge_rejected_def st_entry_def result_simps Let_def)

lemma rejection_lineage_root_Inr:
  "rejection_lineage_root eff lin key = Inr r \<Longrightarrow> r = (case lin of None \<Rightarrow> key | Some l \<Rightarrow> ln_root l)"
  by (cases "(eff, lin, key)" rule: rejection_lineage_root.cases) (auto split: if_splits)

text \<open>
  C22. A rejected candidate is followed by exactly one repair, in its own lineage: the repair's
  parent is the rejected task, its root the root of that task, its index the number of repairs
  the lineage already has, and it runs without a human only while that number is below the
  configured limit. Afterwards the registry has one entry more, the repair's, under the next key,
  and there is one task more, ready to run or asked about; the rejected task awaits it, and every
  other task is as it was.
\<close>

theorem repairs_are_limited:
  assumes "replay x inputs es = Inr f" "fo_run f = Some run"
    and "check_started_run x run (EvMergeRejected d) = Inr dv"
    and "run' = apply_body (EvMergeRejected d) dv run"
  shows "\<exists>l. te_lineage (sw_entry (mr_repair d)) = Some l \<and> ln_parent l = cr_key (mr_candidate d) \<and>
    ln_root l = lineage_root run (cr_key (mr_candidate d)) \<and>
    ln_index l = lineage_members run (ln_root l) \<and>
    (sw_admission (mr_repair d) = SpawnRunnable \<longrightarrow>
       ln_index l < tl_max_merge_repairs (s4_limits (st_started run))) \<and>
    unat (sw_key (mr_repair d)) = length (st_tasks run) \<and>
    rg_entries (st_registry run') = rg_entries (st_registry run) @ [sw_entry (mr_repair d)] \<and>
    length (st_tasks run') = Suc (length (st_tasks run)) \<and>
    state_of run' = (state_of run)(cr_key (mr_candidate d) \<mapsto> AwaitingRepair,
      sw_key (mr_repair d) \<mapsto> (if sw_admission (mr_repair d) = SpawnRunnable then Pending else AwaitingInput))"
proof -
  let ?k = "cr_key (mr_candidate d)"
  have reg: "registry_inv run" using reachable_registry [OF replay_reachable_run [OF assms(1,2)]] .
  have chk: "check_merge_rejected x run d = Inr ()"
    using assms(3) by (auto simp: result_simps check_body_def)
  obtain entry l where e: "registry_get (st_registry run) ?k = Some entry"
    and l: "te_lineage (sw_entry (mr_repair d)) = Some l" "ln_parent l = ?k" "ln_index l = lineage_members run (ln_root l)"
    and root: "rejection_lineage_root (mr_lease_effect d) (te_lineage entry) ?k = Inr (ln_root l)"
    and sp: "check_spawn run (mr_repair d) ''merge_rejected'' = Inr ()"
    and adm: "check_repair_admission run (sw_admission (mr_repair d)) (lineage_members run (ln_root l)) = Inr ()"
    using check_merge_rejected_Inr [OF chk] by blast
  have key: "unat (sw_key (mr_repair d)) = length (st_tasks run)"
    using check_spawn_Inr [OF sp] reg by (auto simp: registry_inv_def registry_len_def)
  have "unat ?k < length (st_tasks run)"
    using e reg by (auto simp: registry_inv_def registry_get_def vec_get_def split: if_splits)
  then have known: "state_of run ?k \<noteq> None" by (simp add: state_of_def task_get_def vec_get_def)
  have run': "run' = apply_merge_rejected d run" by (simp add: assms(4) apply_body_def)
  have "state_of run' = (state_of run)(?k \<mapsto> AwaitingRepair,
      sw_key (mr_repair d) \<mapsto> (if sw_admission (mr_repair d) = SpawnRunnable then Pending else AwaitingInput))"
    unfolding run' apply_merge_rejected_def Let_def
    using key known by (subst state_of_register) (auto simp: state_of_set_state state_of_def task_get_def fun_eq_iff
        split: rejection_disposition.splits)
  moreover have "rg_entries (st_registry run') = rg_entries (st_registry run) @ [sw_entry (mr_repair d)]"
    "length (st_tasks run') = Suc (length (st_tasks run))"
    unfolding run' apply_merge_rejected_def Let_def
    by (simp_all add: register_entry_def split: rejection_disposition.splits)
  moreover have "ln_root l = lineage_root run ?k"
    using rejection_lineage_root_Inr [OF root] e by (simp add: lineage_root_def entry_lineage_def)
  ultimately show ?thesis using l key adm
    by (auto simp: check_repair_admission_def Let_def not_le split: if_splits)
qed

definition sample_repair :: frozen_spawn where
  "sample_repair =
     \<lparr>sw_key = 2,
      sw_entry = (sample_entry_of 2 ''a-repair'' [] [])
        \<lparr>te_origin := MergeRepair, te_lineage := Some \<lparr>ln_root = 0, ln_parent = 0, ln_index = 0\<rparr>\<rparr>,
      sw_admission = SpawnRunnable\<rparr>"

definition sample_rejected :: merge_rejected where
  "sample_rejected =
     \<lparr>mr_sequence = 0, mr_candidate = sample_candidate, mr_rejecting_head = ''s9'',
      mr_disposition = RdConflict RepoWide, mr_repair = sample_repair,
      mr_lease_effect = CreatesLineage 0 RepoWide\<rparr>"

lemma sample_rejected_accepted:
  "check_started_run sample_x sample_queued (EvMergeRejected sample_rejected) = Inr DerivedNone"
  by code_simp

theorem repairs_are_limited_witness:
  "check_started_run sample_x sample_queued (EvMergeRejected sample_rejected) = Inr DerivedNone \<and>
   rg_entries (st_registry (apply_body (EvMergeRejected sample_rejected) DerivedNone sample_queued)) =
     rg_entries (st_registry sample_queued) @ [sw_entry sample_repair] \<and>
   state_of (apply_body (EvMergeRejected sample_rejected) DerivedNone sample_queued) =
     (state_of sample_queued)(0 \<mapsto> AwaitingRepair, 2 \<mapsto> Pending)"
proof -
  obtain es f where "replay sample_x sample_inputs es = Inr f" "fo_run f = Some sample_queued"
    using reachable_replay [OF sample_reachable(4)] by blast
  from repairs_are_limited [OF this sample_rejected_accepted refl] sample_rejected_accepted show ?thesis
    by (simp add: sample_rejected_def sample_repair_def sample_candidate_def)
qed

end
