(* ===== verification/Fold_Log.thy ===== *)
theory Fold_Log
  imports Fold_History
begin

section \<open>Reading the log, and the frozen ladders it starts from\<close>

text \<open>
  Reading a log file: the unterminated tail of a crashed write is dropped, every committed
  line counts, and the first line that does not decode is reported by its number. Decoding a
  line is serde's work and enters as a parameter with its round trip as hypothesis.
\<close>

subsection \<open>Lines\<close>

text \<open>How the writer lays out a log: one encoded event per line.\<close>

definition write_log :: "('e \<Rightarrow> string) \<Rightarrow> 'e list \<Rightarrow> string" where
  "write_log encode es = concat (map (\<lambda>e. encode e @ [newline]) es)"

lemma committed_lines_tail: "newline \<notin> set tail \<Longrightarrow> committed_lines tail = []"
  by (induction tail) auto

lemma committed_lines_line:
  "newline \<notin> set l \<Longrightarrow> committed_lines (l @ newline # rest) = l # committed_lines rest"
  by (induction l) auto

lemma committed_lines_write:
  assumes "\<And>e. e \<in> set es \<Longrightarrow> newline \<notin> set (encode e)" "newline \<notin> set tail"
  shows "committed_lines (write_log encode es @ tail) = map encode es"
  using assms
proof (induction es)
  case Nil
  then show ?case by (simp add: write_log_def committed_lines_tail)
next
  case (Cons e es)
  then show ?case using committed_lines_line [of "encode e" "write_log encode es @ tail"]
    by (simp add: write_log_def)
qed

lemma parse_lines_decoded:
  "(\<And>e. e \<in> set es \<Longrightarrow> decode (encode e) = Some e) \<Longrightarrow> parse_lines decode n (map encode es) = Inr es"
  by (induction es arbitrary: n) auto

lemma parse_lines_error:
  "parse_lines decode n ls = Inl err \<longleftrightarrow>
     (\<exists>i < length ls. err = RewrittenLog (n + i) \<and> decode (ls ! i) = None \<and> (\<forall>j < i. decode (ls ! j) \<noteq> None))"
proof (induction ls arbitrary: n)
  case (Cons l ls)
  show ?case
  proof (cases "decode l")
    case None
    then show ?thesis by (auto simp: nth_Cons' gr0_conv_Suc)
  next
    case (Some e)
    have "(\<exists>i < length (l # ls). err = RewrittenLog (n + i) \<and> decode ((l # ls) ! i) = None \<and>
        (\<forall>j < i. decode ((l # ls) ! j) \<noteq> None)) \<longleftrightarrow>
      (\<exists>i < length ls. err = RewrittenLog (Suc n + i) \<and> decode (ls ! i) = None \<and> (\<forall>j < i. decode (ls ! j) \<noteq> None))"
      (is "(\<exists>i < _. ?P i) \<longleftrightarrow> (\<exists>i < _. ?Q i)")
    proof -
      have "\<not> ?P 0" "?P (Suc i) \<longleftrightarrow> ?Q i" for i
        using Some by (simp_all add: All_less_Suc2)
      then show ?thesis by (auto simp: Ex_less_Suc2)
    qed
    with Some Cons.IH [of "Suc n"] show ?thesis by (simp add: result_simps)
  qed
qed simp

text \<open>
  C24. Reading a log returns what was written, whatever a crash left behind the last newline:
  if decoding inverts encoding on the events written and none of their encodings holds a
  newline, then reading them followed by any unterminated tail yields exactly those events.
\<close>

theorem written_log_reads_back:
  assumes "\<And>e. e \<in> set es \<Longrightarrow> decode (encode e) = Some e"
    and "\<And>e. e \<in> set es \<Longrightarrow> newline \<notin> set (encode e)" and "newline \<notin> set tail"
  shows "parse_log decode (write_log encode es @ tail) = Inr es"
  unfolding parse_log_def using assms by (simp add: committed_lines_write parse_lines_decoded)

theorem written_log_reads_back_witness:
  "let e = \<lparr>ev_ts = ''t'', ev_body = EvDeferWaitElapsed \<lparr>dw_waited_ms = 0, dw_round = 1\<rparr>\<rparr>;
       encode = (\<lambda>e. ''{'' @ ev_ts e @ ''}'');
       decode = (\<lambda>l. if l = ''{t}'' then Some e else None)
   in decode (encode e) = Some e \<and> newline \<notin> set (encode e) \<and>
      parse_log decode (write_log encode [e, e] @ ''{tor'') = Inr [e, e]"
proof -
  let ?e = "\<lparr>ev_ts = ''t'', ev_body = EvDeferWaitElapsed \<lparr>dw_waited_ms = 0, dw_round = 1\<rparr>\<rparr>"
  have "newline \<notin> set ''{tor''" "newline \<notin> set ''{t}''" by (simp_all add: newline_def)
  then show ?thesis
    using written_log_reads_back [of "[?e, ?e]" "\<lambda>l. if l = ''{t}'' then Some ?e else None"
        "\<lambda>e. ''{'' @ ev_ts e @ ''}''" "''{tor''"]
    by (simp add: Let_def)
qed

text \<open>
  C25. A rewritten log is refused at its first bad line: reading fails exactly when some
  committed line does not decode, and the error carries the number of the first such line,
  counted from one.
\<close>

theorem bad_line_is_reported:
  "parse_log decode bytes = Inl err \<longleftrightarrow>
     (\<exists>i. i < length (committed_lines bytes) \<and> err = RewrittenLog (Suc i) \<and>
        decode (committed_lines bytes ! i) = None \<and>
        list_all (\<lambda>l. decode l \<noteq> None) (take i (committed_lines bytes)))"
  unfolding parse_log_def parse_lines_error by (auto simp: list_all_length)

subsection \<open>Frozen ladders\<close>

definition well_formed_ladder :: "frozen_ladder \<Rightarrow> bool" where
  "well_formed_ladder l \<longleftrightarrow>
     sorted_wrt (<) (fl_tiers l) \<and> fl_attempts_per l \<noteq> 0 \<and>
     fl_ceiling l = (if fl_tiers l = [] then None else Some (last (fl_tiers l))) \<and>
     (case fl_floor l of
        None \<Rightarrow> True
      | Some floor' \<Rightarrow> fl_tiers l \<noteq> [] \<longrightarrow> floor' \<le> hd (fl_tiers l)) \<and>
     (case fl_admission l of
        Runnable \<Rightarrow> fl_rungs l \<noteq> [] \<and> map fg_tier (fl_rungs l) = fl_tiers l
      | HumanBinding options \<Rightarrow> fl_rungs l = [] \<and> options \<noteq> [])"

lemma strictly_sorted_adjacent:
  "(\<forall>(a, b) \<in> set (zip xs (drop 1 xs)). \<not> b \<le> a) \<longleftrightarrow> sorted_wrt (<) xs" for xs :: "'a::linorder list"
  by (induction xs rule: induct_list012) (auto simp: not_le intro: less_trans)

lemma sorted_last_Max:
  fixes xs :: "'a::linorder list"
  assumes "sorted_wrt (<) xs" "xs \<noteq> []"
  shows "Max (set xs) = last xs"
proof -
  obtain ys y where xs: "xs = ys @ [y]" using assms(2) by (cases xs rule: rev_cases) auto
  with assms(1) have "\<And>z. z \<in> set ys \<Longrightarrow> z < y" by (simp add: sorted_wrt_append)
  with xs show ?thesis by (intro Max_eqI) (auto simp: less_imp_le)
qed

lemma sorted_hd_last: "sorted_wrt (<) xs \<Longrightarrow> xs \<noteq> [] \<Longrightarrow> hd xs \<le> last xs" for xs :: "'a::linorder list"
  by (cases xs) (auto simp: less_imp_le)

lemma zip_tiers:
  "length rs = length ts \<Longrightarrow> (\<forall>(r, t) \<in> set (zip rs ts). fg_tier r = t) \<longleftrightarrow> map fg_tier rs = ts"
  by (induction rs ts rule: list_induct2) auto

lemma check_ladder_well_formed: "check_ladder key l = Inr () \<longleftrightarrow> well_formed_ladder l"
proof -
  let ?ts = "fl_tiers l"
  have order: "check_ladder key l = Inr () \<longleftrightarrow>
      \<not> (case (fl_floor l, fl_ceiling l) of (Some a, Some b) \<Rightarrow> b < a | _ \<Rightarrow> False) \<and>
      \<not> (case (fl_floor l, ?ts) of (Some a, b # _) \<Rightarrow> b < a | _ \<Rightarrow> False) \<and>
      fl_attempts_per l \<noteq> 0 \<and> sorted_wrt (<) ?ts \<and> fl_ceiling l = tiers_max ?ts \<and>
      check_admission_rungs key l = Inr () \<and>
      (fl_rungs l = [] \<or> length (fl_rungs l) = length ?ts) \<and>
      (\<forall>(r, t) \<in> set (zip (fl_rungs l) ?ts). fg_tier r = t)"
    unfolding strictly_sorted_adjacent [symmetric] check_ladder_def
    by (auto simp: result_simps split: if_splits)
  have floor: "\<not> (case (fl_floor l, ?ts) of (Some a, b # _) \<Rightarrow> b < a | _ \<Rightarrow> False) \<longleftrightarrow>
      (case fl_floor l of None \<Rightarrow> True | Some a \<Rightarrow> ?ts \<noteq> [] \<longrightarrow> a \<le> hd ?ts)"
    by (cases ?ts) (auto simp: not_less split: option.splits)
  have ceiling: "tiers_max ?ts = (if ?ts = [] then None else Some (last ?ts))" if "sorted_wrt (<) ?ts"
    using sorted_last_Max [OF that] by (simp add: tiers_max_def)
  have rungs: "check_admission_rungs key l = Inr () \<and> (fl_rungs l = [] \<or> length (fl_rungs l) = length ?ts) \<and>
      (\<forall>(r, t) \<in> set (zip (fl_rungs l) ?ts). fg_tier r = t) \<longleftrightarrow>
      (case fl_admission l of
         Runnable \<Rightarrow> fl_rungs l \<noteq> [] \<and> map fg_tier (fl_rungs l) = ?ts
       | HumanBinding options \<Rightarrow> fl_rungs l = [] \<and> options \<noteq> [])"
    using zip_tiers [of "fl_rungs l" ?ts] map_eq_imp_length_eq [of fg_tier "fl_rungs l" id ?ts]
    by (auto simp: check_admission_rungs_def split: admission.splits)
  have above: "\<not> (case (fl_floor l, fl_ceiling l) of (Some a, Some b) \<Rightarrow> b < a | _ \<Rightarrow> False)"
    if "well_formed_ladder l"
    using that sorted_hd_last [of ?ts] by (auto simp: well_formed_ladder_def split: option.splits if_splits)
  show ?thesis
    using order floor ceiling rungs above unfolding well_formed_ladder_def by metis
qed

text \<open>
  The check on a frozen ladder accepts exactly the well-formed ones: the tiers ascend
  strictly, the ceiling is the last of them, the floor is not above the first, attempts are
  allowed on each rung, and a runnable ladder has one rung per tier while a ladder that needs
  a human's choice has none and offers options.
\<close>

theorem check_ladder_exact: "check_ladder key l = Inr () \<longleftrightarrow> well_formed_ladder l"
  by (rule check_ladder_well_formed)

end
