(* ===== verification/Plan_Graph.thy ===== *)
theory Plan_Graph
  imports Ir BTree
begin

section \<open>The dependency graph of a plan (src/validate/graph.rs)\<close>

text \<open>
  The checks a plan passes before it runs: unique ids, known dependencies, no cycle, and a
  warning for each artifact a task consumes without depending on its producer. The two graph
  searches keep their work list as the source does; a \<^verbatim>\<open>Vec\<close> used as a stack is a
  list whose head is the top. Messages are kept as constructors with the values they print.
\<close>

datatype graph_problem =
    DuplicateId task_id nat
  | UnknownDependency task_id task_id
  | DependencyCycle "task_id list"

datatype graph_warning = UnwiredArtifact task_id artifact_id task_id

type_synonym task_index = "(task_id, task) btree_map"

subsection \<open>Indexes\<close>

definition count_id :: "(task_id, nat) btree_map \<Rightarrow> task \<Rightarrow> (task_id, nat) btree_map" where
  "count_id m t =
     bt_insert (t_id t) (Suc (case bt_get m (t_id t) of None \<Rightarrow> 0 | Some n \<Rightarrow> n)) m"

definition occurrences :: "plan \<Rightarrow> (task_id, nat) btree_map" where
  "occurrences plan = foldl count_id [] (p_tasks plan)"

definition index_by_id :: "plan \<Rightarrow> task_index" where
  "index_by_id plan = foldl (\<lambda>m t. bt_insert (t_id t) t m) [] (p_tasks plan)"

subsection \<open>Cycles\<close>

definition unvisited :: "task_index \<Rightarrow> task_id btree_set \<Rightarrow> task_id btree_set \<Rightarrow> nat" where
  "unvisited index finished on_path =
     length (filter (\<lambda>k. \<not> bs_contains finished k \<and> \<not> bs_contains on_path k) (bt_keys index))"

lemma unvisited_push:
  assumes "bt_get index dep = Some t" "\<not> bs_contains finished dep" "\<not> bs_contains on_path dep"
  shows "unvisited index finished (bs_insert dep on_path) < unvisited index finished on_path"
proof -
  have dep: "dep \<in> set (bt_keys index)"
    using assms(1) by (force simp: bt_keys_def bt_get_def dest: map_of_SomeD)
  show ?thesis
    unfolding unvisited_def using dep assms(2,3) by (intro length_filter_strict [of _ _ _ dep]) auto
qed

lemma unvisited_pop:
  "unvisited index (bs_insert k finished) (bs_remove k on_path) \<le> unvisited index finished on_path"
  unfolding unvisited_def by (rule length_filter_mono) auto

type_synonym dfs_frame = "task_id \<times> task_id list"

text \<open>The inner loop: ends with the updated sets, or with the cycle it found.\<close>

function walk ::
  "task_index \<Rightarrow> task_id btree_set \<Rightarrow> task_id btree_set \<Rightarrow> dfs_frame list \<Rightarrow>
     (task_id list, task_id btree_set \<times> task_id btree_set) result" where
  "walk index finished on_path [] = Inr (finished, on_path)"
| "walk index finished on_path ((current, []) # path) =
     walk index (bs_insert current finished) (bs_remove current on_path) path"
| "walk index finished on_path ((current, dep # pending) # path) =
     (if bs_contains finished dep then walk index finished on_path ((current, pending) # path)
      else if bs_contains on_path dep
      then Inl (dropWhile (\<lambda>id'. id' \<noteq> dep) (rev (map fst ((current, pending) # path))) @ [dep])
      else (case bt_get index dep of
              None \<Rightarrow> walk index finished on_path ((current, pending) # path)
            | Some task \<Rightarrow>
                walk index finished (bs_insert dep on_path)
                  ((dep, t_depends_on task) # (current, pending) # path)))"
  by pat_completeness auto
termination
proof (relation "inv_image (less_than <*lex*> less_than)
    (\<lambda>(index, finished, on_path, path).
       (unvisited index finished on_path, length path + sum_list (map (\<lambda>f. length (snd f)) path)))")
  show "((index, bs_insert current finished, bs_remove current on_path, path),
      (index, finished, on_path, (current, []) # path))
      \<in> inv_image (less_than <*lex*> less_than)
        (\<lambda>(index, finished, on_path, path).
          (unvisited index finished on_path, length path + sum_list (map (\<lambda>f. length (snd f)) path)))"
    for index :: task_index and finished on_path current and path :: "dfs_frame list"
    using unvisited_pop [of index current finished on_path] by (auto simp: le_less)
qed (auto simp: unvisited_push)

fun walk_roots ::
  "task_index \<Rightarrow> task_id btree_set \<Rightarrow> task_id btree_set \<Rightarrow> task list \<Rightarrow> task_id list option" where
  "walk_roots index finished on_path [] = None"
| "walk_roots index finished on_path (root # roots) =
     (if bs_contains finished (t_id root) then walk_roots index finished on_path roots
      else (case walk index finished (bs_insert (t_id root) on_path) [(t_id root, t_depends_on root)] of
              Inl cycle \<Rightarrow> Some cycle
            | Inr (finished', on_path') \<Rightarrow> walk_roots index finished' on_path' roots))"

definition find_cycle :: "plan \<Rightarrow> task_index \<Rightarrow> task_id list option" where
  "find_cycle plan index = walk_roots index [] [] (p_tasks plan)"

subsection \<open>Artifacts\<close>

function reaches ::
  "task_index \<Rightarrow> task_id \<Rightarrow> task_id btree_set \<Rightarrow> task_id list \<Rightarrow> bool" where
  "reaches index target expanded [] = False"
| "reaches index target expanded (dep # pending) =
     (if dep = target then True
      else if bs_contains expanded dep then reaches index target expanded pending
      else (case bt_get index dep of
              None \<Rightarrow> reaches index target (bs_insert dep expanded) pending
            | Some next' \<Rightarrow>
                reaches index target (bs_insert dep expanded) (rev (t_depends_on next') @ pending)))"
  by pat_completeness auto
termination
proof (relation "inv_image (less_than <*lex*> less_than)
    (\<lambda>(index, target, expanded, pending). (unvisited index expanded [], length pending))")
  show "((index, target, bs_insert dep expanded, pending), (index, target, expanded, dep # pending))
      \<in> inv_image (less_than <*lex*> less_than)
        (\<lambda>(index, target, expanded, pending). (unvisited index expanded [], length pending))"
    for index :: task_index and target dep :: task_id and expanded pending
    using unvisited_pop [of index dep expanded "[]"] by (auto simp: le_less bs_remove_def)
  show "((index, target, bs_insert dep expanded, rev (t_depends_on next') @ pending),
      (index, target, expanded, dep # pending))
      \<in> inv_image (less_than <*lex*> less_than)
        (\<lambda>(index, target, expanded, pending). (unvisited index expanded [], length pending))"
    if "\<not> bs_contains expanded dep" "bt_get index dep = Some next'"
    for index :: task_index and target dep :: task_id and expanded pending and next' :: task
    using unvisited_push [OF that(2), of "[]" expanded] that(1) by (simp add: unvisited_def)
qed (auto simp: wf_inv_image)

definition depends_transitively :: "task_index \<Rightarrow> task \<Rightarrow> task_id \<Rightarrow> bool" where
  "depends_transitively index task target = reaches index target [] (rev (t_depends_on task))"

definition artifact_producer :: "plan \<Rightarrow> artifact_id \<Rightarrow> task_id option" where
  "artifact_producer plan needed =
     Option.bind (find (\<lambda>a. ar_id a = needed) (p_artifacts plan)) ar_produced_by"

definition wiring_warnings :: "plan \<Rightarrow> task_index \<Rightarrow> task \<Rightarrow> graph_warning list" where
  "wiring_warnings plan index task =
     List.map_filter (\<lambda>needed.
       case artifact_producer plan needed of
         None \<Rightarrow> None
       | Some producer \<Rightarrow>
           if producer \<noteq> t_id task \<and> \<not> depends_transitively index task producer
           then Some (UnwiredArtifact (t_id task) needed producer) else None)
       (t_artifacts_in task)"

definition check_artifact_wiring :: "plan \<Rightarrow> task_index \<Rightarrow> graph_warning list" where
  "check_artifact_wiring plan index = concat (map (wiring_warnings plan index) (p_tasks plan))"

subsection \<open>The check\<close>

definition duplicate_problems :: "plan \<Rightarrow> graph_problem list" where
  "duplicate_problems plan =
     map (\<lambda>(id', count). DuplicateId id' count) (filter (\<lambda>(_, count). 1 < count) (occurrences plan))"

definition unknown_problems :: "plan \<Rightarrow> graph_problem list" where
  "unknown_problems plan =
     concat (map (\<lambda>t. map (UnknownDependency (t_id t))
        (filter (\<lambda>dep. bt_get (occurrences plan) dep = None) (t_depends_on t))) (p_tasks plan))"

text \<open>The warnings pushed on success; the problems of a refusal.\<close>

definition check_graph :: "plan \<Rightarrow> (graph_problem list, graph_warning list) result" where
  "check_graph plan =
     (let problems = duplicate_problems plan @ unknown_problems plan; index = index_by_id plan in
      if problems \<noteq> [] then Inl problems
      else (case find_cycle plan index of
              Some cycle \<Rightarrow> Inl [DependencyCycle cycle]
            | None \<Rightarrow> Inr (check_artifact_wiring plan index)))"

end
