(* ===== verification/Plan_Graph_Facts.thy ===== *)
theory Plan_Graph_Facts
  imports Plan_Graph
begin

section \<open>The graph checks are exact\<close>

text \<open>
  The search for a cycle answers none exactly on acyclic plans, and a cycle it reports is
  one; the search for a producer decides transitive dependency. The reference is the relation
  \<open>plan_deps\<close> of a plan and its transitive closure.
\<close>

definition dep_rel :: "task_index \<Rightarrow> (task_id \<times> task_id) set" where
  "dep_rel index = {(a, b). \<exists>t. bt_get index a = Some t \<and> b \<in> set (t_depends_on t)}"

definition plan_deps :: "plan \<Rightarrow> (task_id \<times> task_id) set" where
  "plan_deps plan = {(t_id t, d) | t d. t \<in> set (p_tasks plan) \<and> d \<in> set (t_depends_on t)}"

subsection \<open>Transitive dependency\<close>

lemma reaches_sound:
  "reaches index target expanded pending \<Longrightarrow> \<exists>d \<in> set pending. (d, target) \<in> (dep_rel index)\<^sup>*"
proof (induction index target expanded pending rule: reaches.induct)
  case (2 index target expanded dep pending)
  show ?case
  proof (cases "dep = target")
    case False
    show ?thesis
    proof (cases "bs_contains expanded dep")
      case True
      with False 2 show ?thesis by auto
    next
      case new: False
      show ?thesis
      proof (cases "bt_get index dep")
        case None
        with False new 2 show ?thesis by auto
      next
        case (Some t)
        with False new 2 obtain d where d: "d \<in> set (t_depends_on t) \<union> set pending" "(d, target) \<in> (dep_rel index)\<^sup>*"
          by auto
        have "(dep, d) \<in> dep_rel index" if "d \<in> set (t_depends_on t)"
          using that Some by (auto simp: dep_rel_def)
        with d show ?thesis by (auto intro: converse_rtrancl_into_rtrancl)
      qed
    qed
  qed auto
qed simp

text \<open>Some closed set of ids contains these and not the target.\<close>

definition avoids :: "task_index \<Rightarrow> task_id \<Rightarrow> task_id set \<Rightarrow> bool" where
  "avoids index target ids \<longleftrightarrow> (\<exists>S. ids \<subseteq> S \<and> target \<notin> S \<and> dep_rel index `` S \<subseteq> S)"

lemma avoids_mono:
  assumes "avoids index target ids" "ids' \<subseteq> ids"
  shows "avoids index target ids'"
proof -
  obtain S where "ids \<subseteq> S" "target \<notin> S" "dep_rel index `` S \<subseteq> S"
    using assms(1) unfolding avoids_def by (elim exE conjE)
  with assms(2) show ?thesis unfolding avoids_def by (intro exI [of _ S] conjI) (rule order_trans)
qed

lemma reaches_complete:
  assumes "\<not> reaches index target expanded pending" "target \<notin> set expanded"
    and "dep_rel index `` set expanded \<subseteq> set expanded \<union> set pending"
  shows "avoids index target (set expanded \<union> set pending)"
  using assms
proof (induction index target expanded pending rule: reaches.induct)
  case (1 index target expanded)
  then show ?case unfolding avoids_def by (intro exI [of _ "set expanded"]) simp
next
  case (2 index target expanded dep pending)
  from "2.prems"(1) have ne: "dep \<noteq> target" by auto
  show ?case
  proof (cases "bs_contains expanded dep")
    case True
    then have dep: "dep \<in> set expanded" by (simp add: bs_contains_def)
    have "avoids index target (set expanded \<union> set pending)"
    proof (rule "2.IH"(1) [OF ne True])
      show "\<not> reaches index target expanded pending" using "2.prems"(1) True ne by simp
      show "dep_rel index `` set expanded \<subseteq> set expanded \<union> set pending" using "2.prems"(3) dep by auto
    qed (fact "2.prems"(2))
    then show ?thesis by (rule avoids_mono) (use dep in auto)
  next
    case new: False
    show ?thesis
    proof (cases "bt_get index dep")
      case None
      then have no: "dep_rel index `` {dep} = {}" by (auto simp: dep_rel_def)
      have "avoids index target (set (bs_insert dep expanded) \<union> set pending)"
      proof (rule "2.IH"(2) [OF ne new None])
        show "\<not> reaches index target (bs_insert dep expanded) pending" using "2.prems"(1) ne new None by simp
        show "dep_rel index `` set (bs_insert dep expanded) \<subseteq> set (bs_insert dep expanded) \<union> set pending"
          using "2.prems"(3) no by auto
      qed (use "2.prems"(2) ne in auto)
      then show ?thesis by (rule avoids_mono) auto
    next
      case (Some t)
      then have out: "dep_rel index `` {dep} = set (t_depends_on t)" by (auto simp: dep_rel_def)
      have "avoids index target (set (bs_insert dep expanded) \<union> set (rev (t_depends_on t) @ pending))"
      proof (rule "2.IH"(3) [OF ne new Some])
        show "\<not> reaches index target (bs_insert dep expanded) (rev (t_depends_on t) @ pending)"
          using "2.prems"(1) ne new Some by simp
        show "dep_rel index `` set (bs_insert dep expanded) \<subseteq>
            set (bs_insert dep expanded) \<union> set (rev (t_depends_on t) @ pending)"
          using "2.prems"(3) out by auto
      qed (use "2.prems"(2) ne in auto)
      then show ?thesis by (rule avoids_mono) auto
    qed
  qed
qed

lemma closed_rtrancl: "R `` S \<subseteq> S \<Longrightarrow> x \<in> S \<Longrightarrow> (x, y) \<in> R\<^sup>* \<Longrightarrow> y \<in> S"
  by (erule rtrancl_induct) auto

lemma depends_transitively_iff:
  "depends_transitively index task target \<longleftrightarrow> (\<exists>d \<in> set (t_depends_on task). (d, target) \<in> (dep_rel index)\<^sup>*)"
proof
  assume "depends_transitively index task target"
  then show "\<exists>d \<in> set (t_depends_on task). (d, target) \<in> (dep_rel index)\<^sup>*"
    using reaches_sound [of index target "[]" "rev (t_depends_on task)"]
    by (simp add: depends_transitively_def)
next
  assume ex: "\<exists>d \<in> set (t_depends_on task). (d, target) \<in> (dep_rel index)\<^sup>*"
  show "depends_transitively index task target"
  proof (rule ccontr)
    assume "\<not> depends_transitively index task target"
    then obtain S where "set (t_depends_on task) \<subseteq> S" "target \<notin> S" "dep_rel index `` S \<subseteq> S"
      using reaches_complete [of index target "[]" "rev (t_depends_on task)"]
      by (auto simp: depends_transitively_def avoids_def)
    with ex closed_rtrancl [of "dep_rel index" S] show False by blast
  qed
qed

subsection \<open>The index\<close>

lemma foldl_index_get:
  "bt_wf m \<Longrightarrow> bt_wf (foldl (\<lambda>m t. bt_insert (t_id t) t m) m ts) \<and>
     (distinct (map t_id ts) \<longrightarrow>
       (\<forall>k t. bt_get (foldl (\<lambda>m t. bt_insert (t_id t) t m) m ts) k = Some t \<longleftrightarrow>
          t \<in> set ts \<and> t_id t = k \<or> k \<notin> t_id ` set ts \<and> bt_get m k = Some t))"
proof (induction ts arbitrary: m)
  case (Cons u ts)
  have "bt_wf (bt_insert (t_id u) u m)" using Cons.prems by (rule bt_wf_insert)
  from Cons.IH [OF this] show ?case
    using Cons.prems by (auto simp: bt_get_insert image_iff)
qed simp

lemma index_by_id_get:
  "distinct (map t_id (p_tasks plan)) \<Longrightarrow>
   bt_get (index_by_id plan) k = Some t \<longleftrightarrow> t \<in> set (p_tasks plan) \<and> t_id t = k"
  using foldl_index_get [of "[]" "p_tasks plan"] by (simp add: index_by_id_def bt_get_def)

lemma dep_rel_index: "distinct (map t_id (p_tasks plan)) \<Longrightarrow> dep_rel (index_by_id plan) = plan_deps plan"
  by (auto simp: dep_rel_def plan_deps_def index_by_id_get)

lemma foldl_count:
  "bt_wf m \<Longrightarrow> bt_wf (foldl count_id m ts) \<and>
     (\<forall>k. bt_get (foldl count_id m ts) k =
        (let n = (case bt_get m k of None \<Rightarrow> 0 | Some n \<Rightarrow> n) + count_list (map t_id ts) k
         in if bt_get m k = None \<and> k \<notin> t_id ` set ts then None else Some n))"
proof (induction ts arbitrary: m)
  case Nil
  then show ?case by (auto split: option.splits)
next
  case (Cons u ts)
  have "bt_wf (count_id m u)" using Cons.prems by (simp add: count_id_def bt_wf_insert)
  from Cons.IH [OF this] show ?case
    using Cons.prems by (auto simp: count_id_def bt_get_insert Let_def split: option.splits)
qed

lemma occurrences_get:
  "bt_wf (occurrences plan)"
  "bt_get (occurrences plan) k =
     (if k \<in> t_id ` set (p_tasks plan) then Some (count_list (map t_id (p_tasks plan)) k) else None)"
  using foldl_count [of "[]" "p_tasks plan"] by (simp_all add: occurrences_def bt_get_def Let_def)

subsection \<open>A reported cycle is a cycle\<close>

definition stack_ok :: "task_index \<Rightarrow> task_id btree_set \<Rightarrow> dfs_frame list \<Rightarrow> bool" where
  "stack_ok index on_path path \<longleftrightarrow>
     set on_path = fst ` set path \<and> distinct (map fst path) \<and>
     (\<forall>(current, pending) \<in> set path. \<forall>d \<in> set pending. (current, d) \<in> dep_rel index) \<and>
     successively (\<lambda>above below. (below, above) \<in> dep_rel index) (map fst path)"

definition is_cycle :: "(task_id \<times> task_id) set \<Rightarrow> task_id list \<Rightarrow> bool" where
  "is_cycle r c \<longleftrightarrow> (\<exists>k ks. c = k # ks @ [k]) \<and> successively (\<lambda>a b. (a, b) \<in> r) c"

lemma is_cycle_trancl: "is_cycle r c \<Longrightarrow> \<exists>k. (k, k) \<in> r\<^sup>+"
proof -
  have "successively (\<lambda>a b. (a, b) \<in> r) (k # ks @ [m]) \<Longrightarrow> (k, m) \<in> r\<^sup>+" for k m ks
    by (induction ks arbitrary: k) (auto intro: trancl_into_trancl2)
  then show "is_cycle r c \<Longrightarrow> \<exists>k. (k, k) \<in> r\<^sup>+" by (auto simp: is_cycle_def)
qed

lemma stack_cycle:
  assumes "stack_ok index on_path ((current, dep # pending) # path)" "bs_contains on_path dep"
  shows "is_cycle (dep_rel index)
    (dropWhile (\<lambda>id'. id' \<noteq> dep) (rev (map fst ((current, pending) # path))) @ [dep])"
proof -
  define ids where "ids = rev (map fst ((current, pending) # path))"
  have "dep \<in> set ids" using assms by (auto simp: stack_ok_def ids_def bs_contains_def)
  then obtain xs ys where split: "ids = xs @ dep # ys" "dep \<notin> set xs" by (meson split_list_first)
  then have drop: "dropWhile (\<lambda>id'. id' \<noteq> dep) ids = dep # ys"
    by (induction xs arbitrary: ids) auto
  have "successively (\<lambda>a b. (a, b) \<in> dep_rel index) ids"
    using assms(1) unfolding ids_def successively_rev stack_ok_def by simp
  then have chain: "successively (\<lambda>a b. (a, b) \<in> dep_rel index) (dep # ys)"
    unfolding split(1) by (auto simp: successively_append_iff)
  have "last (dep # ys) = current" using split(1) by (metis ids_def fst_conv last_appendR last_rev list.distinct(1) list.sel(1) list.simps(9))
  moreover have "(current, dep) \<in> dep_rel index" using assms(1) by (auto simp: stack_ok_def)
  ultimately have "successively (\<lambda>a b. (a, b) \<in> dep_rel index) ((dep # ys) @ [dep])"
    using chain by (subst successively_append_iff) auto
  then show ?thesis unfolding ids_def [symmetric] drop by (auto simp: is_cycle_def)
qed

lemma stack_ok_pop: "stack_ok index on_path ((current, pending) # path) \<Longrightarrow> stack_ok index (bs_remove current on_path) path"
  by (auto simp: stack_ok_def successively_Cons)

lemma stack_ok_skip:
  "stack_ok index on_path ((current, dep # pending) # path) \<Longrightarrow> stack_ok index on_path ((current, pending) # path)"
  by (auto simp: stack_ok_def)

lemma stack_ok_push:
  assumes "stack_ok index on_path ((current, dep # pending) # path)" "\<not> bs_contains on_path dep"
    and "bt_get index dep = Some t"
  shows "stack_ok index (bs_insert dep on_path) ((dep, t_depends_on t) # (current, pending) # path)"
  using assms by (auto simp: stack_ok_def bs_contains_def dep_rel_def)

lemma walk_cycle: "walk index finished on_path path = Inl c \<Longrightarrow> stack_ok index on_path path \<Longrightarrow> is_cycle (dep_rel index) c"
proof (induction index finished on_path path rule: walk.induct)
  case (2 index finished on_path current path)
  then show ?case by (auto dest: stack_ok_pop)
next
  case (3 index finished on_path current dep pending path)
  note skip = stack_ok_skip [OF "3.prems"(2)]
  show ?case
  proof (cases "bs_contains finished dep")
    case True
    with 3 skip show ?thesis by simp
  next
    case new: False
    show ?thesis
    proof (cases "bs_contains on_path dep")
      case True
      with new "3.prems"(1) stack_cycle [OF "3.prems"(2)] show ?thesis by simp
    next
      case off: False
      show ?thesis
      proof (cases "bt_get index dep")
        case None
        with new off "3.prems"(1) "3.IH"(2) skip show ?thesis by simp
      next
        case (Some t)
        with new off "3.prems"(1) "3.IH"(3) stack_ok_push [OF "3.prems"(2)] show ?thesis by simp
      qed
    qed
  qed
qed simp

subsection \<open>No cycle is missed\<close>

text \<open>A finished id is grounded: every chain of dependencies from it ends.\<close>

abbreviation grounded :: "task_index \<Rightarrow> task_id set" where
  "grounded index \<equiv> Wellfounded.acc ((dep_rel index)\<inverse>)"

fun covered_below :: "task_index \<Rightarrow> task_id set \<Rightarrow> dfs_frame list \<Rightarrow> bool" where
  "covered_below index over [] = True"
| "covered_below index over ((current, pending) # path) =
     (dep_rel index `` {current} \<subseteq> set pending \<union> grounded index \<union> over \<and>
      covered_below index {current} path)"

lemma grounded_leaf: "bt_get index k = None \<Longrightarrow> k \<in> grounded index"
  by (rule accI) (simp add: dep_rel_def)

lemma grounded_step: "dep_rel index `` {k} \<subseteq> grounded index \<Longrightarrow> k \<in> grounded index"
  by (rule accI) auto

lemma covered_pop:
  assumes "covered_below index {k} path" "k \<in> grounded index"
  shows "covered_below index {} path"
  using assms by (cases path rule: list.exhaust) (auto simp: subset_iff)

lemma covered_skip:
  assumes "covered_below index {} ((current, dep # pending) # path)" "dep \<in> grounded index"
  shows "covered_below index {} ((current, pending) # path)"
  using assms by (auto simp: subset_iff)

lemma covered_push:
  assumes "covered_below index {} ((current, dep # pending) # path)" "bt_get index dep = Some t"
  shows "covered_below index {} ((dep, t_depends_on t) # (current, pending) # path)"
  using assms by (auto simp: subset_iff dep_rel_def)

lemma walk_grounds:
  "walk index finished on_path path = Inr (finished', on_path') \<Longrightarrow> stack_ok index on_path path \<Longrightarrow>
   covered_below index {} path \<Longrightarrow> set finished \<subseteq> grounded index \<Longrightarrow>
   set finished' \<subseteq> grounded index \<and> set finished \<union> fst ` set path \<subseteq> set finished' \<and> set on_path' = {}"
proof (induction index finished on_path path rule: walk.induct)
  case (1 index finished on_path)
  then show ?case by (simp add: stack_ok_def)
next
  case (2 index finished on_path current path)
  have current: "current \<in> grounded index" using "2.prems"(3) by (intro grounded_step) simp
  have "set finished' \<subseteq> grounded index \<and>
      set (bs_insert current finished) \<union> fst ` set path \<subseteq> set finished' \<and> set on_path' = {}"
  proof (rule "2.IH")
    show "walk index (bs_insert current finished) (bs_remove current on_path) path = Inr (finished', on_path')"
      using "2.prems"(1) by simp
    show "covered_below index {} path" using "2.prems"(3) current by (intro covered_pop [of _ current]) simp
    show "set (bs_insert current finished) \<subseteq> grounded index" using "2.prems"(4) current by simp
  qed (rule stack_ok_pop [OF "2.prems"(2)])
  then show ?case by auto
next
  case (3 index finished on_path current dep pending path)
  note skip = stack_ok_skip [OF "3.prems"(2)]
  show ?case
  proof (cases "bs_contains finished dep")
    case True
    then have "dep \<in> grounded index" using "3.prems"(4) by (auto simp: bs_contains_def)
    with True "3.prems" "3.IH"(1) skip covered_skip [OF "3.prems"(3)] show ?thesis by simp
  next
    case new: False
    with "3.prems"(1) have off: "\<not> bs_contains on_path dep" by auto
    show ?thesis
    proof (cases "bt_get index dep")
      case None
      with new off "3.prems" "3.IH"(2) skip covered_skip [OF "3.prems"(3)] grounded_leaf show ?thesis by simp
    next
      case (Some t)
      with new off "3.prems" "3.IH"(3) stack_ok_push [OF "3.prems"(2)] covered_push [OF "3.prems"(3)]
      show ?thesis by simp
    qed
  qed
qed

lemma root_frame:
  assumes "bt_get index (t_id root') = Some root'" "set on_path = {}"
  shows "stack_ok index (bs_insert (t_id root') on_path) [(t_id root', t_depends_on root')]"
    and "covered_below index {} [(t_id root', t_depends_on root')]"
  using assms by (auto simp: stack_ok_def dep_rel_def)

lemma walk_roots_cases:
  assumes "\<forall>t \<in> set roots. bt_get index (t_id t) = Some t" "set on_path = {}" "set finished \<subseteq> grounded index"
  shows "case walk_roots index finished on_path roots of
      Some c \<Rightarrow> is_cycle (dep_rel index) c
    | None \<Rightarrow> t_id ` set roots \<subseteq> grounded index"
  using assms
proof (induction roots arbitrary: finished on_path)
  case (Cons root' roots)
  have in_index: "bt_get index (t_id root') = Some root'" using Cons.prems(1) by simp
  show ?case
  proof (cases "bs_contains finished (t_id root')")
    case True
    then have "t_id root' \<in> grounded index" using Cons.prems(3) by (auto simp: bs_contains_def)
    with True Cons.IH [of on_path finished] Cons.prems show ?thesis by (auto split: option.splits)
  next
    case new: False
    note frame = root_frame [OF in_index Cons.prems(2)]
    show ?thesis
    proof (cases "walk index finished (bs_insert (t_id root') on_path) [(t_id root', t_depends_on root')]")
      case (Inl c)
      with new walk_cycle [OF Inl frame(1)] show ?thesis by simp
    next
      case (Inr r)
      obtain finished' on_path' where r: "r = (finished', on_path')" by (cases r)
      have done': "set finished' \<subseteq> grounded index" "t_id root' \<in> set finished'" "set on_path' = {}"
        using walk_grounds [OF Inr [unfolded r] frame Cons.prems(3)] by auto
      with new Inr r Cons.IH [of on_path' finished'] Cons.prems(1) show ?thesis by (auto split: option.splits)
    qed
  qed
qed simp

lemma find_cycle_exact:
  assumes "distinct (map t_id (p_tasks plan))"
  shows "case find_cycle plan (index_by_id plan) of
      Some c \<Rightarrow> is_cycle (plan_deps plan) c
    | None \<Rightarrow> acyclic (plan_deps plan)"
proof -
  let ?index = "index_by_id plan"
  have roots: "\<forall>t \<in> set (p_tasks plan). bt_get ?index (t_id t) = Some t"
    using assms by (simp add: index_by_id_get)
  have "acyclic (dep_rel ?index)" if "t_id ` set (p_tasks plan) \<subseteq> grounded ?index"
  proof -
    have "k \<in> grounded ?index" for k
      using that assms by (cases "bt_get ?index k") (auto simp: index_by_id_get grounded_leaf)
    then have "wf ((dep_rel ?index)\<inverse>)" unfolding wf_iff_acc by blast
    then show ?thesis using wf_acyclic acyclic_converse by blast
  qed
  with walk_roots_cases [OF roots, of "[]" "[]"] show ?thesis
    unfolding find_cycle_def dep_rel_index [OF assms] by (auto split: option.splits)
qed

subsection \<open>The whole check\<close>

definition sound_graph :: "plan \<Rightarrow> bool" where
  "sound_graph plan \<longleftrightarrow>
     distinct (map t_id (p_tasks plan)) \<and> snd ` plan_deps plan \<subseteq> t_id ` set (p_tasks plan) \<and>
     acyclic (plan_deps plan)"

fun truthful :: "plan \<Rightarrow> graph_problem \<Rightarrow> bool" where
  "truthful plan (DuplicateId k n) = (n = count_list (map t_id (p_tasks plan)) k \<and> 1 < n)"
| "truthful plan (UnknownDependency k d) = ((k, d) \<in> plan_deps plan \<and> d \<notin> t_id ` set (p_tasks plan))"
| "truthful plan (DependencyCycle c) = is_cycle (plan_deps plan) c"

lemma set_duplicate_problems:
  "set (duplicate_problems plan) =
     {DuplicateId k n | k n. n = count_list (map t_id (p_tasks plan)) k \<and> 1 < n}"
proof -
  have "(k, n) \<in> set (occurrences plan) \<longleftrightarrow> bt_get (occurrences plan) k = Some n" for k n
    using occurrences_get(1) by (auto simp: bt_get_def bt_wf_def strict_sorted_iff distinct_map)
  then have "(k, n) \<in> set (occurrences plan) \<longleftrightarrow>
      n = count_list (map t_id (p_tasks plan)) k \<and> k \<in> t_id ` set (p_tasks plan)" for k n
    by (auto simp: occurrences_get(2))
  moreover have "1 < count_list (map t_id (p_tasks plan)) k \<Longrightarrow> k \<in> t_id ` set (p_tasks plan)" for k
    by (metis count_notin image_set not_less_zero)
  ultimately show ?thesis by (auto simp: duplicate_problems_def)
qed

lemma distinct_iff_count_list: "distinct xs \<longleftrightarrow> (\<forall>k. count_list xs k \<le> 1)"
proof (induction xs)
  case (Cons x xs)
  have "x \<notin> set xs \<longleftrightarrow> count_list xs x = 0" by (simp add: count_list_0_iff)
  moreover have "(\<forall>k. count_list (x # xs) k \<le> 1) \<longleftrightarrow> count_list xs x = 0 \<and> (\<forall>k. count_list xs k \<le> 1)"
    by (metis count_list.simps(2) add_diff_cancel_right' diff_is_0_eq le_add1 le_numeral_extra(4) le_zero_eq nle_le not_one_le_zero zero_le)
  ultimately show ?case using Cons.IH by simp
qed simp

lemma duplicate_problems_Nil: "duplicate_problems plan = [] \<longleftrightarrow> distinct (map t_id (p_tasks plan))"
proof -
  have "duplicate_problems plan = [] \<longleftrightarrow> (\<forall>k. count_list (map t_id (p_tasks plan)) k \<le> 1)"
    unfolding set_empty [symmetric] set_duplicate_problems by (auto simp: not_less)
  also have "\<dots> \<longleftrightarrow> distinct (map t_id (p_tasks plan))"
    by (rule distinct_iff_count_list [symmetric])
  finally show ?thesis .
qed

lemma set_unknown_problems:
  "set (unknown_problems plan) =
     {UnknownDependency k d | k d. (k, d) \<in> plan_deps plan \<and> d \<notin> t_id ` set (p_tasks plan)}"
  by (auto simp: unknown_problems_def plan_deps_def occurrences_get(2) split: if_splits)

lemma unknown_problems_Nil:
  "unknown_problems plan = [] \<longleftrightarrow> snd ` plan_deps plan \<subseteq> t_id ` set (p_tasks plan)"
  unfolding set_empty [symmetric] set_unknown_problems by force

text \<open>
  C35. The graph check of a plan is exact: it passes a plan precisely when the task ids are
  distinct, every dependency names a task and the dependency relation has no cycle; and every
  problem it reports instead is true of the plan: a repeated id with its number of
  occurrences, a dependency that names no task, or a list of ids that closes a cycle.
\<close>

theorem check_graph_exact:
  "case check_graph plan of
     Inr _ \<Rightarrow> sound_graph plan
   | Inl problems \<Rightarrow> \<not> sound_graph plan \<and> problems \<noteq> [] \<and> list_all (truthful plan) problems"
proof (cases "duplicate_problems plan @ unknown_problems plan = []")
  case True
  then have distinct: "distinct (map t_id (p_tasks plan))" and known: "snd ` plan_deps plan \<subseteq> t_id ` set (p_tasks plan)"
    by (simp_all add: duplicate_problems_Nil unknown_problems_Nil)
  show ?thesis
  proof (cases "find_cycle plan (index_by_id plan)")
    case None
    with True find_cycle_exact [OF distinct] distinct known show ?thesis
      by (simp add: check_graph_def sound_graph_def)
  next
    case (Some c)
    with find_cycle_exact [OF distinct] have "is_cycle (plan_deps plan) c" by simp
    moreover from this have "\<not> acyclic (plan_deps plan)" using is_cycle_trancl by (auto simp: acyclic_def)
    ultimately show ?thesis using True Some by (simp add: check_graph_def sound_graph_def)
  qed
next
  case False
  then have "\<not> sound_graph plan" by (auto simp: sound_graph_def duplicate_problems_Nil unknown_problems_Nil)
  moreover have "\<forall>p \<in> set (duplicate_problems plan @ unknown_problems plan). truthful plan p"
    unfolding set_append set_duplicate_problems set_unknown_problems by auto
  ultimately show ?thesis using False by (simp add: check_graph_def Let_def list_all_iff)
qed

lemma check_graph_Inr:
  assumes "check_graph plan = Inr warnings"
  shows "distinct (map t_id (p_tasks plan))" "warnings = check_artifact_wiring plan (index_by_id plan)"
  using assms by (auto simp: check_graph_def Let_def duplicate_problems_Nil split: if_splits option.splits)

lemma depends_transitively_trancl:
  assumes "distinct (map t_id (p_tasks plan))" "t \<in> set (p_tasks plan)"
  shows "depends_transitively (index_by_id plan) t k \<longleftrightarrow> (t_id t, k) \<in> (plan_deps plan)\<^sup>+"
proof -
  have "(t_id t, d) \<in> plan_deps plan \<longleftrightarrow> d \<in> set (t_depends_on t)" for d
    using assms by (auto simp: plan_deps_def dest: map_inj_on distinct_map [THEN iffD1] inj_onD)
  then show ?thesis
    unfolding depends_transitively_iff dep_rel_index [OF assms(1)] by (auto simp: trancl_unfold_left)
qed

lemma set_wiring_warnings:
  "UnwiredArtifact k needed producer \<in> set (wiring_warnings plan index t) \<longleftrightarrow>
     t_id t = k \<and> needed \<in> set (t_artifacts_in t) \<and> artifact_producer plan needed = Some producer \<and>
     producer \<noteq> k \<and> \<not> depends_transitively index t producer"
proof -
  let ?f = "\<lambda>needed. case artifact_producer plan needed of
         None \<Rightarrow> None
       | Some producer \<Rightarrow>
           if producer \<noteq> t_id t \<and> \<not> depends_transitively index t producer
           then Some (UnwiredArtifact (t_id t) needed producer) else None"
  have "w \<in> set (List.map_filter ?f ns) \<longleftrightarrow> (\<exists>n \<in> set ns. ?f n = Some w)" for w ns
    by (induction ns) (auto simp: List.map_filter_def)
  then have "UnwiredArtifact k needed producer \<in> set (wiring_warnings plan index t) \<longleftrightarrow>
      (\<exists>n \<in> set (t_artifacts_in t). ?f n = Some (UnwiredArtifact k needed producer))"
    unfolding wiring_warnings_def .
  moreover have "?f n = Some (UnwiredArtifact k needed producer) \<longleftrightarrow>
      t_id t = k \<and> n = needed \<and> artifact_producer plan n = Some producer \<and> producer \<noteq> k \<and>
      \<not> depends_transitively index t producer" for n
    by (cases "artifact_producer plan n") auto
  ultimately show ?thesis by auto
qed

text \<open>
  C36. On a plan it passes, the check warns of an artifact precisely when some task consumes it
  and neither is nor, along any chain of dependencies, depends on the task that produces it.
\<close>

theorem wiring_warnings_exact:
  assumes "check_graph plan = Inr warnings"
  shows "UnwiredArtifact k needed producer \<in> set warnings \<longleftrightarrow>
    (\<exists>t \<in> set (p_tasks plan). t_id t = k \<and> needed \<in> set (t_artifacts_in t) \<and>
       artifact_producer plan needed = Some producer \<and> producer \<noteq> k \<and> (k, producer) \<notin> (plan_deps plan)\<^sup>+)"
proof -
  note deps = depends_transitively_trancl [OF check_graph_Inr(1) [OF assms]]
  have "UnwiredArtifact k needed producer \<in> set warnings \<longleftrightarrow>
      (\<exists>t \<in> set (p_tasks plan). UnwiredArtifact k needed producer \<in> set (wiring_warnings plan (index_by_id plan) t))"
    unfolding check_graph_Inr(2) [OF assms] check_artifact_wiring_def by simp
  also have "\<dots> \<longleftrightarrow> (\<exists>t \<in> set (p_tasks plan). t_id t = k \<and> needed \<in> set (t_artifacts_in t) \<and>
      artifact_producer plan needed = Some producer \<and> producer \<noteq> k \<and> \<not> depends_transitively (index_by_id plan) t producer)"
    unfolding set_wiring_warnings by (intro bex_cong) auto
  also have "\<dots> \<longleftrightarrow> (\<exists>t \<in> set (p_tasks plan). t_id t = k \<and> needed \<in> set (t_artifacts_in t) \<and>
      artifact_producer plan needed = Some producer \<and> producer \<noteq> k \<and> (k, producer) \<notin> (plan_deps plan)\<^sup>+)"
    by (intro bex_cong refl) (simp add: deps cong: conj_cong)
  finally show ?thesis .
qed

definition wiring_task :: "task_id \<Rightarrow> task_id list \<Rightarrow> artifact_id list \<Rightarrow> task" where
  "wiring_task k deps consumes =
     \<lparr>t_id = k, t_kind = Implement, t_title = k, t_body = [], t_depends_on = deps, t_acceptance = [],
      t_path_hints = [], t_suggested_tier = None, t_min_tier = None,
      t_artifacts_in = consumes, t_artifacts_out = []\<rparr>"

definition wiring_plan :: plan where
  "wiring_plan =
     \<lparr>p_source = \<lparr>ps_adapter = ''markdown'', ps_hash = ''0''\<rparr>,
      p_tasks = [wiring_task ''a'' [] [], wiring_task ''b'' [''a''] [''api''], wiring_task ''c'' [] [''api'']],
      p_artifacts = [\<lparr>ar_id = ''api'', ar_produced_by = Some ''a''\<rparr>]\<rparr>"

lemma wiring_plan_checks: "check_graph wiring_plan = Inr [UnwiredArtifact ''c'' ''api'' ''a'']"
  by code_simp

theorem wiring_warnings_exact_witness:
  "check_graph wiring_plan = Inr [UnwiredArtifact ''c'' ''api'' ''a''] \<and>
   (''c'', ''a'') \<notin> (plan_deps wiring_plan)\<^sup>+"
  using wiring_plan_checks wiring_warnings_exact [OF wiring_plan_checks, of "''c''" "''api''" "''a''"] by auto

end
