(* ===== verification/Float64.thy ===== *)
theory Float64
  imports Records
begin

section \<open>Addition of \<^verbatim>\<open>f64\<close>\<close>

text \<open>
  Costs are \<^verbatim>\<open>f64\<close> values, kept as their IEEE 754 bits. Addition is computed
  exactly on integers and rounded once, to nearest with ties to even, as the standard requires;
  every result that is not a number is the quiet one with an empty payload, since neither the
  standard nor the language fixes the payload. \<^verbatim>\<open>Iterator::sum\<close> starts from
  negative zero.
\<close>

definition f64_nan :: f64 where
  "f64_nan = 0x7FF8000000000000"

definition f64_zero :: f64 where
  "f64_zero = 0"

definition f64_neg_zero :: f64 where
  "f64_neg_zero = 0x8000000000000000"

definition f64_negative :: "f64 \<Rightarrow> bool" where
  "f64_negative b \<longleftrightarrow> bit b 63"

definition f64_is_infinite :: "f64 \<Rightarrow> bool" where
  "f64_is_infinite b \<longleftrightarrow> f64_magnitude b = 0x7FF0000000000000"

text \<open>A finite value is \<open>\<plusminus> significand * 2 ^ (shift - 1074)\<close>.\<close>

definition f64_shift :: "f64 \<Rightarrow> nat" where
  "f64_shift b = unat (f64_magnitude b) div 2 ^ 52 - 1"

definition f64_significand :: "f64 \<Rightarrow> nat" where
  "f64_significand b =
     (let m = unat (f64_magnitude b) in if m < 2 ^ 52 then m else m mod 2 ^ 52 + 2 ^ 52)"

text \<open>The value in units of the least positive one.\<close>

definition f64_units :: "f64 \<Rightarrow> int" where
  "f64_units b =
     (let u = int (f64_significand b * 2 ^ f64_shift b) in if f64_negative b then - u else u)"

fun bit_length :: "nat \<Rightarrow> nat" where
  "bit_length n = (if n = 0 then 0 else Suc (bit_length (n div 2)))"

declare bit_length.simps [simp del]

definition round_half_even :: "nat \<Rightarrow> nat \<Rightarrow> nat" where
  "round_half_even n k =
     (let q = n div 2 ^ k; r = n mod 2 ^ k in
      if 2 ^ k < 2 * r \<or> 2 ^ k = 2 * r \<and> odd q then Suc q else q)"

text \<open>
  The bits of the value nearest to \<open>n\<close> units: the exponent field counts how far the
  significand is shifted, and a carry out of the significand moves into it by itself.
\<close>

definition f64_round :: "nat \<Rightarrow> nat" where
  "f64_round n =
     (let k = bit_length n - 53; bits = k * 2 ^ 52 + round_half_even n k in
      min bits 0x7FF0000000000000)"

definition f64_add :: "f64 \<Rightarrow> f64 \<Rightarrow> f64" where
  "f64_add a b =
     (if f64_is_nan a \<or> f64_is_nan b then f64_nan
      else if f64_is_infinite a then
        (if f64_is_infinite b \<and> f64_negative a \<noteq> f64_negative b then f64_nan else a)
      else if f64_is_infinite b then b
      else
        (let s = f64_units a + f64_units b in
         if s = 0 then (if f64_negative a \<and> f64_negative b then f64_neg_zero else f64_zero)
         else
           (let r = (of_nat (f64_round (nat \<bar>s\<bar>)) :: f64) in
            if s < 0 then r OR f64_neg_zero else r)))"

definition f64_sum :: "f64 list \<Rightarrow> f64" where
  "f64_sum = foldl f64_add f64_neg_zero"

definition f64_ge :: "f64 \<Rightarrow> f64 \<Rightarrow> bool" where
  "f64_ge a b \<longleftrightarrow> \<not> f64_is_nan a \<and> \<not> f64_is_nan b \<and> f64_order b \<le> f64_order a"

subsection \<open>Rounding\<close>

lemma bit_length_0 [simp]: "bit_length 0 = 0"
  by (simp add: bit_length.simps [of 0])

lemma bit_length_pos: "0 < n \<Longrightarrow> bit_length n = Suc (bit_length (n div 2))"
  by (simp add: bit_length.simps [of n])

lemma bit_length_bounds: "0 < n \<Longrightarrow> 2 ^ (bit_length n - 1) \<le> n \<and> n < 2 ^ bit_length n"
proof (induction n rule: bit_length.induct)
  case (1 n)
  show ?case
  proof (cases "n = 1")
    case True
    then show ?thesis by (simp add: bit_length_pos)
  next
    case False
    with "1.prems" have half: "0 < n div 2" by auto
    then have pos: "0 < bit_length (n div 2)" by (simp add: bit_length_pos)
    have unfold: "bit_length n = Suc (bit_length (n div 2))" using "1.prems" by (rule bit_length_pos)
    from "1.IH" half have ih: "2 ^ (bit_length (n div 2) - 1) \<le> n div 2" "n div 2 < 2 ^ bit_length (n div 2)"
      by auto
    from pos have "(2::nat) ^ bit_length (n div 2) = 2 * 2 ^ (bit_length (n div 2) - 1)"
      by (cases "bit_length (n div 2)") auto
    moreover have "2 * (n div 2) \<le> n" "n < 2 * (n div 2) + 2" by linarith+
    ultimately show ?thesis unfolding unfold power_Suc diff_Suc_1 using ih by linarith
  qed
qed

lemma bit_length_le: "n < 2 ^ k \<Longrightarrow> bit_length n \<le> k"
proof (rule ccontr)
  assume n: "n < 2 ^ k" and "\<not> bit_length n \<le> k"
  then have k: "k \<le> bit_length n - 1" and "0 < bit_length n" by auto
  then have "0 < n" by (cases n) auto
  with bit_length_bounds have "2 ^ (bit_length n - 1) \<le> n" by blast
  moreover have "(2::nat) ^ k \<le> 2 ^ (bit_length n - 1)" using k by (rule power_increasing) simp
  ultimately show False using n by linarith
qed

lemma bit_length_mono: "m \<le> n \<Longrightarrow> bit_length m \<le> bit_length n"
proof (cases "n = 0")
  case False
  assume "m \<le> n"
  also have "n < 2 ^ bit_length n" using False bit_length_bounds by simp
  finally show ?thesis by (rule bit_length_le)
qed simp

lemma bit_length_eq:
  assumes "2 ^ k \<le> n" "n < 2 ^ Suc k"
  shows "bit_length n = Suc k"
proof -
  have "bit_length n \<le> Suc k" using assms(2) by (rule bit_length_le)
  moreover have "\<not> bit_length n \<le> k"
  proof
    assume "bit_length n \<le> k"
    then have "(2::nat) ^ bit_length n \<le> 2 ^ k" by (rule power_increasing) simp
    moreover have "0 < n" using assms(1) by (metis gr0I le_zero_eq power_not_zero zero_neq_numeral)
    then have "n < 2 ^ bit_length n" using bit_length_bounds by blast
    ultimately show False using assms(1) by linarith
  qed
  ultimately show ?thesis by simp
qed

lemma round_half_even_mono:
  assumes "m \<le> n"
  shows "round_half_even m k \<le> round_half_even n k"
proof (cases "m div 2 ^ k = n div 2 ^ k")
  case True
  moreover have "m mod 2 ^ k \<le> n mod 2 ^ k"
    using assms True by (metis add_le_cancel_left mult_div_mod_eq)
  ultimately show ?thesis by (auto simp: round_half_even_def Let_def)
next
  case False
  with assms have "m div 2 ^ k < n div 2 ^ k" by (simp add: div_le_mono le_neq_implies_less)
  then show ?thesis by (auto simp: round_half_even_def Let_def)
qed

lemma round_half_even_bounds: "n div 2 ^ k \<le> round_half_even n k" "round_half_even n k \<le> Suc (n div 2 ^ k)"
  by (auto simp: round_half_even_def Let_def)

lemma f64_round_mono:
  assumes "m \<le> n"
  shows "f64_round m \<le> f64_round n"
proof -
  let ?k = "bit_length m - 53" and ?l = "bit_length n - 53"
  have kl: "?k \<le> ?l" using bit_length_mono [OF assms] by linarith
  have "?k * 2 ^ 52 + round_half_even m ?k \<le> ?l * 2 ^ 52 + round_half_even n ?l"
  proof (cases "?k = ?l")
    case True
    with round_half_even_mono [OF assms] show ?thesis by simp
  next
    case False
    then have l: "0 < ?l" "Suc ?k \<le> ?l" using kl by auto
    have "m < 2 ^ 53 * 2 ^ ?k"
    proof (cases "m = 0")
      case False
      then have "m < 2 ^ bit_length m" using bit_length_bounds by simp
      also have "\<dots> \<le> 2 ^ (53 + ?k)" by (rule power_increasing) auto
      finally show ?thesis by (simp add: power_add)
    qed simp
    then have "m div 2 ^ ?k < 2 ^ 53" by (rule less_mult_imp_div_less)
    then have m: "round_half_even m ?k \<le> 2 ^ 53" using round_half_even_bounds(2) [of m ?k] by linarith
    have "0 < n" using l(1) by (cases n) auto
    then have "2 ^ (bit_length n - 1) \<le> n" using bit_length_bounds by blast
    moreover have "bit_length n - 1 = 52 + ?l" using l(1) by linarith
    ultimately have "2 ^ (52 + ?l) \<le> n" by argo
    then have "2 ^ 52 * 2 ^ ?l \<le> n" unfolding power_add .
    then have "2 ^ 52 \<le> n div 2 ^ ?l" by (subst less_eq_div_iff_mult_less_eq) (rule zero_less_power, simp_all)
    then have n: "2 ^ 52 \<le> round_half_even n ?l" using round_half_even_bounds(1) [of n ?l] by linarith
    have "Suc ?k * 2 ^ 52 \<le> ?l * 2 ^ 52" using l(2) by (rule mult_le_mono1)
    moreover have "Suc ?k * 2 ^ 52 = ?k * 2 ^ 52 + 2 ^ 52" by simp
    moreover have "(2::nat) ^ 53 = 2 ^ 52 + 2 ^ 52" by simp
    ultimately show ?thesis using m n by linarith
  qed
  then show ?thesis unfolding f64_round_def Let_def by (rule min.mono) simp
qed

text \<open>A representable value rounds to itself.\<close>

lemma f64_round_units:
  assumes "unat (f64_magnitude b) < 0x7FF0000000000000"
  shows "f64_round (f64_significand b * 2 ^ f64_shift b) = unat (f64_magnitude b)"
proof -
  define m where "m = unat (f64_magnitude b)"
  define e f where "e = m div 2 ^ 52" and "f = m mod 2 ^ 52"
  have m: "m = e * 2 ^ 52 + f" and f: "f < 2 ^ 52" by (simp_all add: e_def f_def)
  have bound: "m < 0x7FF0000000000000" using assms by (simp add: m_def)
  show ?thesis
  proof (cases "m < 2 ^ 52")
    case True
    then have "bit_length m \<le> 52" by (rule bit_length_le)
    then have "bit_length m - 53 = 0" by simp
    with True bound show ?thesis
      by (simp add: f64_round_def f64_significand_def f64_shift_def round_half_even_def Let_def m_def [symmetric])
  next
    case False
    then have e: "0 < e" by (simp add: e_def div_greater_zero_iff)
    let ?s = "f + 2 ^ 52" and ?k = "e - 1"
    have "2 ^ (52 + ?k) \<le> ?s * 2 ^ ?k" by (simp add: power_add)
    moreover have "?s * 2 ^ ?k < 2 ^ 53 * 2 ^ ?k" using f by (intro mult_less_mono1) auto
    then have "?s * 2 ^ ?k < 2 ^ Suc (52 + ?k)" by (simp add: power_add)
    ultimately have len: "bit_length (?s * 2 ^ ?k) = Suc (52 + ?k)" by (rule bit_length_eq)
    have "round_half_even (?s * 2 ^ ?k) ?k = ?s" by (simp add: round_half_even_def Let_def)
    moreover have "?k * 2 ^ 52 + ?s = m" using e m by (cases e) auto
    ultimately have "f64_round (?s * 2 ^ ?k) = m" using bound len by (simp add: f64_round_def Let_def)
    moreover have "f64_significand b = ?s" "f64_shift b = ?k"
      using False by (simp_all add: f64_significand_def f64_shift_def Let_def m_def [symmetric] e_def f_def)
    ultimately show ?thesis by (simp add: m_def)
  qed
qed

subsection \<open>Adding a non-negative value never lowers the sum\<close>

definition f64_nonneg :: "f64 \<Rightarrow> bool" where
  "f64_nonneg v \<longleftrightarrow> \<not> f64_negative v \<and> \<not> f64_is_nan v"

lemma f64_magnitude_nonneg: "\<not> f64_negative v \<Longrightarrow> f64_magnitude v = v"
proof -
  have mask: "(0x7FFFFFFFFFFFFFFF :: f64) = mask 63" by (simp add: mask_eq_exp_minus_1)
  assume "\<not> f64_negative v"
  then have "bit v n \<Longrightarrow> n < 63" for n
    using bit_imp_le_length [of v n] by (cases "n = 63") (auto simp: f64_negative_def)
  then show ?thesis
    unfolding f64_magnitude_def mask by (intro bit_word_eqI) (auto simp: bit_and_iff bit_mask_iff)
qed

lemma f64_negative_small:
  assumes "n < 2 ^ 63"
  shows "\<not> f64_negative (of_nat n)"
proof -
  have "unat (of_nat n :: f64) = n" using assms by (simp add: unat_of_nat)
  then have "unat (take_bit 63 (of_nat n :: f64)) = unat (of_nat n :: f64)"
    using assms by (simp add: unsigned_take_bit_eq take_bit_nat_eq_self)
  then have "take_bit 63 (of_nat n :: f64) = of_nat n" by (rule unsigned_word_eqI)
  then have "\<not> bit (of_nat n :: f64) 63" by (metis bit_take_bit_iff less_irrefl)
  then show ?thesis by (simp add: f64_negative_def)
qed

lemma f64_round_le: "f64_round n \<le> 0x7FF0000000000000"
  by (simp add: f64_round_def Let_def)

lemma f64_round_nonneg: "f64_nonneg (of_nat (f64_round n))" "unat (of_nat (f64_round n) :: f64) = f64_round n"
proof -
  have neg: "\<not> f64_negative (of_nat (f64_round n))" using f64_round_le [of n] by (intro f64_negative_small) simp
  show u: "unat (of_nat (f64_round n) :: f64) = f64_round n"
    using f64_round_le [of n] by (simp add: unat_of_nat)
  show "f64_nonneg (of_nat (f64_round n))"
    using neg f64_round_le [of n]
    by (simp add: f64_nonneg_def f64_is_nan_def f64_magnitude_nonneg word_less_nat_alt u)
qed

lemma f64_order_nonneg: "\<not> f64_negative v \<Longrightarrow> f64_order v = int (unat v)"
  by (simp add: f64_order_def f64_negative_def f64_magnitude_nonneg [unfolded f64_negative_def])

lemma f64_units_nonneg: "\<not> f64_negative v \<Longrightarrow> f64_units v = int (f64_significand v * 2 ^ f64_shift v)"
  by (simp add: f64_units_def)

text \<open>The sum of two finite non-negative values, and the cases with an infinity.\<close>

lemma f64_add_finite:
  assumes "f64_nonneg a" "f64_nonneg b" "\<not> f64_is_infinite a" "\<not> f64_is_infinite b"
  shows "f64_add a b = of_nat (f64_round (nat (f64_units a + f64_units b)))"
proof -
  have u: "0 \<le> f64_units a" "0 \<le> f64_units b" using assms by (simp_all add: f64_nonneg_def f64_units_nonneg)
  show ?thesis
  proof (cases "f64_units a + f64_units b = 0")
    case True
    then show ?thesis using assms
      by (simp add: f64_add_def f64_nonneg_def f64_zero_def f64_round_def round_half_even_def)
  next
    case False
    with u have "\<bar>f64_units a + f64_units b\<bar> = f64_units a + f64_units b" "\<not> f64_units a + f64_units b < 0" by auto
    then show ?thesis using assms(1,2,3,4) False by (simp add: f64_add_def f64_nonneg_def Let_def)
  qed
qed

lemma f64_add_nonneg: "f64_nonneg a \<Longrightarrow> f64_nonneg b \<Longrightarrow> f64_nonneg (f64_add a b)"
  by (cases "f64_is_infinite a"; cases "f64_is_infinite b")
    (auto simp: f64_add_finite f64_round_nonneg, auto simp: f64_add_def f64_nonneg_def)

lemma unat_finite:
  assumes "f64_nonneg a" "\<not> f64_is_infinite a"
  shows "unat a < 0x7FF0000000000000" "unat (f64_magnitude a) = unat a"
proof -
  have mag: "f64_magnitude a = a" using assms(1) by (simp add: f64_nonneg_def f64_magnitude_nonneg)
  then show "unat (f64_magnitude a) = unat a" by simp
  have "a \<noteq> 0x7FF0000000000000" "a \<le> 0x7FF0000000000000"
    using assms by (auto simp: f64_nonneg_def f64_is_infinite_def f64_is_nan_def mag)
  then have "a < 0x7FF0000000000000" by simp
  then show "unat a < 0x7FF0000000000000" by (simp add: word_less_nat_alt)
qed

lemma f64_add_ge:
  assumes "f64_nonneg a" "f64_nonneg b"
  shows "f64_ge (f64_add a b) a"
proof -
  have "unat a \<le> unat (f64_add a b)"
  proof (cases "f64_is_infinite a \<or> f64_is_infinite b")
    case True
    have le: "a \<le> 0x7FF0000000000000"
      using assms(1) by (auto simp: f64_nonneg_def f64_is_nan_def f64_magnitude_nonneg)
    have "f64_is_infinite b \<Longrightarrow> b = 0x7FF0000000000000"
      using assms(2) by (simp add: f64_nonneg_def f64_is_infinite_def f64_magnitude_nonneg)
    with True le assms show ?thesis by (auto simp: f64_add_def f64_nonneg_def word_le_nat_alt)
  next
    case False
    then have fin: "\<not> f64_is_infinite a" "\<not> f64_is_infinite b" by auto
    have "unat a = f64_round (f64_significand a * 2 ^ f64_shift a)"
      using f64_round_units [of a] unat_finite [OF assms(1) fin(1)] by simp
    also have "\<dots> \<le> f64_round (nat (f64_units a + f64_units b))"
      using assms by (intro f64_round_mono)
        (simp only: f64_nonneg_def f64_units_nonneg of_nat_add [symmetric] nat_int le_add1 simp_thms)
    also have "\<dots> = unat (f64_add a b)" by (simp add: f64_add_finite [OF assms fin] f64_round_nonneg)
    finally show ?thesis .
  qed
  then show ?thesis
    using assms f64_add_nonneg [OF assms] by (simp add: f64_ge_def f64_nonneg_def f64_order_nonneg word_le_nat_alt [symmetric] word_le_def)
qed

lemma f64_ge_trans: "f64_ge a b \<Longrightarrow> f64_ge b c \<Longrightarrow> f64_ge a c"
  by (auto simp: f64_ge_def)

lemma f64_zero_nonneg [simp]: "f64_nonneg f64_zero"
  by (simp add: f64_nonneg_def f64_negative_def f64_is_nan_def f64_zero_def f64_magnitude_def)

lemma f64_ge_refl: "f64_nonneg a \<Longrightarrow> f64_ge a a"
  by (simp add: f64_ge_def f64_nonneg_def)

lemma f64_add_zero:
  assumes "f64_nonneg v" "\<not> f64_is_infinite v"
  shows "f64_add f64_zero v = v" "f64_add v f64_zero = v"
proof -
  have zero: "f64_units f64_zero = 0" "\<not> f64_is_infinite f64_zero"
    by (simp_all add: f64_units_def f64_significand_def f64_zero_def f64_magnitude_def f64_is_infinite_def)
  have "\<not> f64_negative v" using assms(1) by (simp add: f64_nonneg_def)
  then have "nat (f64_units v) = f64_significand v * 2 ^ f64_shift v"
    by (metis f64_units_nonneg nat_int)
  then have "f64_round (nat (f64_units v)) = unat v"
    using f64_round_units [of v] unat_finite [OF assms] by simp
  then show "f64_add f64_zero v = v" "f64_add v f64_zero = v"
    using assms zero by (simp_all add: f64_add_finite)
qed

end
