(* ===== verification/Spend.thy ===== *)
theory Spend
  imports Float64 Events
begin

section \<open>Money spent and ceilings (src/engine/topology/select.rs)\<close>

text \<open>
  What the log says a run has cost, in total and per task, the reviews of integration
  verifications by the task they are charged to, and the two ceilings the engine compares the
  spend with before it starts paid work. Replaying a log keeps the sequence under verification
  beside the totals, as the loops of the source do.
\<close>

subsection \<open>Spend\<close>

record spend =
  sp_run :: f64
  sp_per_task :: "(task_key, f64) btree_map"

definition spend_new :: spend where
  "spend_new = \<lparr>sp_run = f64_zero, sp_per_task = []\<rparr>"

definition or_zero :: "f64 option \<Rightarrow> f64" where
  "or_zero c = (case c of None \<Rightarrow> f64_zero | Some v \<Rightarrow> v)"

definition review_cost_usd :: "attempt_record \<Rightarrow> f64 option" where
  "review_cost_usd r =
     (let reported = List.map_filter rr_cost_usd (at_reviews r) in
      if reported = [] then None else Some (f64_sum reported))"

definition task_usd :: "spend \<Rightarrow> task_key \<Rightarrow> f64" where
  "task_usd s key = or_zero (bt_get (sp_per_task s) key)"

definition charge_task :: "task_key \<Rightarrow> f64 \<Rightarrow> spend \<Rightarrow> spend" where
  "charge_task key amount s =
     s\<lparr>sp_run := f64_add (sp_run s) amount,
       sp_per_task := bt_insert key (f64_add (task_usd s key) amount) (sp_per_task s)\<rparr>"

definition spend_record :: "task_key \<Rightarrow> attempt_record \<Rightarrow> spend \<Rightarrow> spend" where
  "spend_record key r s = charge_task key (f64_add (or_zero (at_cost_usd r)) (or_zero (review_cost_usd r))) s"

definition record_review_cost :: "task_key \<Rightarrow> f64 option \<Rightarrow> spend \<Rightarrow> spend" where
  "record_review_cost key cost s = charge_task key (or_zero cost) s"

definition record_reviews :: "task_key \<Rightarrow> review_record list \<Rightarrow> spend \<Rightarrow> spend" where
  "record_reviews key reviews s = foldl (\<lambda>s review. record_review_cost key (rr_cost_usd review) s) s reviews"

definition record_unattributed_reviews :: "review_record list \<Rightarrow> spend \<Rightarrow> spend" where
  "record_unattributed_reviews reviews s =
     foldl (\<lambda>s review. s\<lparr>sp_run := f64_add (sp_run s) (or_zero (rr_cost_usd review))\<rparr>) s reviews"

definition verifying_key :: "(sequence_id \<times> task_key) option \<Rightarrow> sequence_id \<Rightarrow> task_key option" where
  "verifying_key verifying sequence =
     (case verifying of None \<Rightarrow> None | Some (s, key) \<Rightarrow> if s = sequence then Some key else None)"

definition record_verification ::
  "(sequence_id \<times> task_key) option \<Rightarrow> sequence_id \<Rightarrow> review_record list \<Rightarrow> spend \<Rightarrow> spend" where
  "record_verification verifying sequence reviews s =
     (case verifying_key verifying sequence of
        Some key \<Rightarrow> record_reviews key reviews s
      | None \<Rightarrow> record_unattributed_reviews reviews s)"

fun spend_step ::
  "spend \<times> (sequence_id \<times> task_key) option \<Rightarrow> topology_event_body \<Rightarrow>
     spend \<times> (sequence_id \<times> task_key) option" where
  "spend_step (s, verifying) (EvAttemptFinished d) = (spend_record (af4_key d) (af4_record d) s, verifying)"
| "spend_step (s, verifying) (EvCandidatePrepared d) = (spend_record (cp_key d) (cp_attempt d) s, verifying)"
| "spend_step (s, verifying) (EvMergeVerificationStarted d) = (s, Some (vs_sequence d, cr_key (vs_candidate d)))"
| "spend_step (s, verifying) (EvMergeVerificationUnavailable d) =
     (record_verification verifying (vu_sequence d) (vu_reviews d) s, None)"
| "spend_step (s, verifying) (EvMergeVerificationCharged d) =
     (record_verification verifying (vc_sequence d) (vc_reviews d) s, verifying)"
| "spend_step (s, verifying) (EvMergePrepared d) =
     ((case mp_verification d of
         None \<Rightarrow> s | Some verification \<Rightarrow> record_reviews (mp_key d) (vr_reviews verification) s), verifying)"
| "spend_step (s, verifying) (EvMergeRejected d) =
     ((case mr_disposition d of
         RdCodeRejected verification \<Rightarrow> record_reviews (cr_key (mr_candidate d)) (vr_reviews verification) s
       | RdConflict _ \<Rightarrow> s), verifying)"
| "spend_step (s, verifying) _ = (s, verifying)"

definition spend_replay :: "topology_event list \<Rightarrow> spend" where
  "spend_replay events = fst (foldl spend_step (spend_new, None) (map ev_body events))"

subsection \<open>Integration reviews\<close>

record integration_reviews =
  ir_by_task :: "(task_key, review_record list) btree_map"
  ir_unattributed :: "review_record list"
  ir_interrupted :: "task_key btree_set"
  ir_interrupted_unattributed :: bool

definition integration_reviews_new :: integration_reviews where
  "integration_reviews_new =
     \<lparr>ir_by_task = [], ir_unattributed = [], ir_interrupted = [], ir_interrupted_unattributed = False\<rparr>"

definition reviews_of_task :: "integration_reviews \<Rightarrow> task_key \<Rightarrow> review_record list" where
  "reviews_of_task r key = (case bt_get (ir_by_task r) key of None \<Rightarrow> [] | Some passes \<Rightarrow> passes)"

definition reviews_add :: "task_key option \<Rightarrow> review_record list \<Rightarrow> integration_reviews \<Rightarrow> integration_reviews" where
  "reviews_add key passes r =
     (case key of
        Some key \<Rightarrow> r\<lparr>ir_by_task := bt_insert key (reviews_of_task r key @ passes) (ir_by_task r)\<rparr>
      | None \<Rightarrow> r\<lparr>ir_unattributed := ir_unattributed r @ passes\<rparr>)"

fun reviews_step ::
  "integration_reviews \<times> (sequence_id \<times> task_key) option \<Rightarrow> topology_event_body \<Rightarrow>
     integration_reviews \<times> (sequence_id \<times> task_key) option" where
  "reviews_step (r, verifying) (EvMergeVerificationStarted d) = (r, Some (vs_sequence d, cr_key (vs_candidate d)))"
| "reviews_step (r, verifying) (EvMergeVerificationUnavailable d) =
     (reviews_add (verifying_key verifying (vu_sequence d)) (vu_reviews d) r, None)"
| "reviews_step (r, verifying) (EvMergeVerificationCharged d) =
     (reviews_add (verifying_key verifying (vc_sequence d)) (vc_reviews d) r, verifying)"
| "reviews_step (r, verifying) (EvMergePrepared d) =
     ((case mp_verification d of
         None \<Rightarrow> r | Some verification \<Rightarrow> reviews_add (Some (mp_key d)) (vr_reviews verification) r), verifying)"
| "reviews_step (r, verifying) (EvMergeRejected d) =
     ((case mr_disposition d of
         RdCodeRejected verification \<Rightarrow> reviews_add (Some (cr_key (mr_candidate d))) (vr_reviews verification) r
       | RdConflict _ \<Rightarrow> r), verifying)"
| "reviews_step (r, verifying) (EvMergeVerificationInterrupted d) =
     ((case verifying_key verifying (vi_sequence d) of
         Some key \<Rightarrow> r\<lparr>ir_interrupted := bs_insert key (ir_interrupted r)\<rparr>
       | None \<Rightarrow> r\<lparr>ir_interrupted_unattributed := True\<rparr>), None)"
| "reviews_step (r, verifying) _ = (r, verifying)"

definition reviews_replay :: "topology_event list \<Rightarrow> integration_reviews" where
  "reviews_replay events = fst (foldl reviews_step (integration_reviews_new, None) (map ev_body events))"

definition reviews_all :: "integration_reviews \<Rightarrow> review_record list" where
  "reviews_all r = concat (bt_values (ir_by_task r)) @ ir_unattributed r"

definition spend_unknown :: "integration_reviews \<Rightarrow> task_key \<Rightarrow> bool" where
  "spend_unknown r key \<longleftrightarrow>
     bs_contains (ir_interrupted r) key \<or> list_ex (\<lambda>review. rr_cost_usd review = None) (reviews_of_task r key)"

definition unattributed_spend_unknown :: "integration_reviews \<Rightarrow> bool" where
  "unattributed_spend_unknown r \<longleftrightarrow>
     ir_interrupted_unattributed r \<or> list_ex (\<lambda>review. rr_cost_usd review = None) (ir_unattributed r)"

subsection \<open>Ceilings\<close>

record ceiling =
  cl_run_usd :: "f64 option"
  cl_task_usd :: "f64 option"

definition unlimited :: ceiling where
  "unlimited = \<lparr>cl_run_usd = None, cl_task_usd = None\<rparr>"

record breach =
  br_budget :: budget_kind
  br_limit_usd :: f64
  br_spent_usd :: f64

definition run_breach :: "ceiling \<Rightarrow> spend \<Rightarrow> breach option" where
  "run_breach c s =
     (case cl_run_usd c of
        None \<Rightarrow> None
      | Some limit \<Rightarrow>
          if f64_ge (sp_run s) limit
          then Some \<lparr>br_budget = BudgetRun, br_limit_usd = limit, br_spent_usd = sp_run s\<rparr> else None)"

definition task_breach :: "ceiling \<Rightarrow> spend \<Rightarrow> task_key \<Rightarrow> breach option" where
  "task_breach c s key =
     (case cl_task_usd c of
        None \<Rightarrow> None
      | Some limit \<Rightarrow>
          if f64_ge (task_usd s key) limit
          then Some \<lparr>br_budget = BudgetTask, br_limit_usd = limit, br_spent_usd = task_usd s key\<rparr> else None)"

definition breach_of :: "ceiling \<Rightarrow> spend \<Rightarrow> task_key \<Rightarrow> breach option" where
  "breach_of c s key = (case run_breach c s of Some b \<Rightarrow> Some b | None \<Rightarrow> task_breach c s key)"

end
