(* ===== verification/Invocation.thy ===== *)
theory Invocation
  imports Events "HOL-Library.Code_Target_Numeral"
begin

section \<open>The identity of a runner process (src/runner/invocation.rs)\<close>

text \<open>
  Every process the engine starts carries an identity with a fixed spelling: an attempt, a
  step of an integration sequence, or a pre-flight probe. The spelling names a container and a
  file, so it has a bounded length and a restricted alphabet. The model has the three forms,
  the printer, the parser with each of its refusals, and the checked constructor of a probe;
  a refusal keeps its case and the value it prints, not its prose. The theorems show that the
  parser inverts the printer on every identity that can be built, the length limit included,
  and that it accepts spellings the printer never produces.
\<close>

datatype attempt_role = RoleWorker | RoleGate u32 | RoleReviewPass u32 | RoleReviewReask u32

datatype sequence_role = SeqGate u32 | SeqReviewPass u32 | SeqReviewReask u32

datatype probe_target = ProbeAgent string | ProbeShell

datatype invocation_id =
    InvAttempt task_key generation_id attempt_number attempt_role u32
  | InvSequence sequence_id sequence_role u32
  | InvProbe probe_target u32

datatype invocation_refusal =
    EmptyInvocation
  | InvocationTooLong string nat
  | InvocationCharacter string
  | NotAnInvocation string
  | EmptyAgentId
  | AgentIdCharacter string

definition MAX_LEN :: nat where
  "MAX_LEN = 70"

definition LEGACY_GENERATION :: generation_id where
  "LEGACY_GENERATION = 0"

subsection \<open>Numbers\<close>

definition show_u32 :: "u32 \<Rightarrow> string" where
  "show_u32 n = show_nat (unat n)"

text \<open>\<^verbatim>\<open>str::parse::<u32>\<close>: an optional plus sign, then at least one digit, in range.\<close>

definition parse_u32 :: "string \<Rightarrow> u32 option" where
  "parse_u32 s =
     (let digits = (case s of [] \<Rightarrow> [] | c # rest \<Rightarrow> if c = CHR ''+'' then rest else s) in
      if digits = [] \<or> \<not> list_all is_digit digits \<or> 2 ^ 32 \<le> digits_val digits then None
      else Some (of_nat (digits_val digits)))"

definition strip_prefix :: "string \<Rightarrow> string \<Rightarrow> string option" where
  "strip_prefix tag s = (if take (length tag) s = tag then Some (drop (length tag) s) else None)"

subsection \<open>Printing\<close>

fun attempt_role_render :: "attempt_role \<Rightarrow> string" where
  "attempt_role_render RoleWorker = ''worker''"
| "attempt_role_render (RoleGate n) = ''gate'' @ show_u32 n"
| "attempt_role_render (RoleReviewPass n) = ''review_pass'' @ show_u32 n"
| "attempt_role_render (RoleReviewReask n) = ''review_reask'' @ show_u32 n"

fun sequence_role_render :: "sequence_role \<Rightarrow> string" where
  "sequence_role_render (SeqGate n) = ''gate'' @ show_u32 n"
| "sequence_role_render (SeqReviewPass n) = ''review_pass'' @ show_u32 n"
| "sequence_role_render (SeqReviewReask n) = ''review_reask'' @ show_u32 n"

fun probe_target_render :: "probe_target \<Rightarrow> string" where
  "probe_target_render ProbeShell = ''shell''"
| "probe_target_render (ProbeAgent agent) = ''agent-'' @ agent"

fun invocation_render :: "invocation_id \<Rightarrow> string" where
  "invocation_render (InvAttempt key generation attempt role ordinal) =
     ''k'' @ show_u32 key @ ''.g'' @ show_u32 generation @ ''.a'' @ show_u32 attempt @ ''.'' @
     attempt_role_render role @ ''.o'' @ show_u32 ordinal"
| "invocation_render (InvSequence sequence role ordinal) =
     ''s'' @ show_u32 sequence @ ''.'' @ sequence_role_render role @ ''.o'' @ show_u32 ordinal"
| "invocation_render (InvProbe target ordinal) =
     ''p.'' @ probe_target_render target @ ''.o'' @ show_u32 ordinal"

subsection \<open>Parsing\<close>

definition parse_sequence_role :: "string \<Rightarrow> sequence_role option" where
  "parse_sequence_role text =
     (case strip_prefix ''review_pass'' text of
        Some rest \<Rightarrow> map_option SeqReviewPass (parse_u32 rest)
      | None \<Rightarrow>
          (case strip_prefix ''review_reask'' text of
             Some rest \<Rightarrow> map_option SeqReviewReask (parse_u32 rest)
           | None \<Rightarrow>
               (case strip_prefix ''gate'' text of
                  Some rest \<Rightarrow> map_option SeqGate (parse_u32 rest)
                | None \<Rightarrow> None)))"

fun indexed_role :: "sequence_role \<Rightarrow> attempt_role" where
  "indexed_role (SeqGate n) = RoleGate n"
| "indexed_role (SeqReviewPass n) = RoleReviewPass n"
| "indexed_role (SeqReviewReask n) = RoleReviewReask n"

definition parse_attempt_role :: "string \<Rightarrow> attempt_role option" where
  "parse_attempt_role text =
     (if text = ''worker'' then Some RoleWorker
      else map_option indexed_role (parse_sequence_role text))"

definition parse_field :: "string \<Rightarrow> string \<Rightarrow> u32 option" where
  "parse_field component tag =
     (case strip_prefix tag component of
        None \<Rightarrow> None
      | Some digits \<Rightarrow>
          if digits = [] \<or> \<not> list_all is_digit digits then None
          else if 1 < length digits \<and> take 1 digits = ''0'' then None
          else parse_u32 digits)"

definition is_ascii_alphanumeric :: "char \<Rightarrow> bool" where
  "is_ascii_alphanumeric c \<longleftrightarrow>
     (let b = (of_char c :: nat) in 48 \<le> b \<and> b \<le> 57 \<or> 65 \<le> b \<and> b \<le> 90 \<or> 97 \<le> b \<and> b \<le> 122)"

definition agent_id_char :: "char \<Rightarrow> bool" where
  "agent_id_char c \<longleftrightarrow> is_ascii_alphanumeric c \<or> c = CHR ''_'' \<or> c = CHR ''-''"

definition invocation_char :: "char \<Rightarrow> bool" where
  "invocation_char c \<longleftrightarrow> is_ascii_alphanumeric c \<or> c = CHR ''.'' \<or> c = CHR ''_'' \<or> c = CHR ''-''"

definition invocation_validate :: "string \<Rightarrow> (invocation_refusal, unit) result" where
  "invocation_validate value =
     (if value = [] then Inl EmptyInvocation
      else if MAX_LEN < length value then Inl (InvocationTooLong value (length value))
      else if \<not> list_all invocation_char value then Inl (InvocationCharacter value)
      else Inr ())"

definition parse_probe_target :: "string \<Rightarrow> probe_target option" where
  "parse_probe_target target =
     (if target = ''shell'' then Some ProbeShell
      else (case strip_prefix ''agent-'' target of
              None \<Rightarrow> None
            | Some name \<Rightarrow>
                if name = [] \<or> \<not> list_all agent_id_char name then None else Some (ProbeAgent name)))"

fun parse_parts :: "string list \<Rightarrow> invocation_id option" where
  "parse_parts [first, second, third] =
     (if first = ''p''
      then Option.bind (parse_probe_target second) (\<lambda>target.
           Option.bind (parse_field third ''o'') (\<lambda>ordinal. Some (InvProbe target ordinal)))
      else Option.bind (parse_field first ''s'') (\<lambda>sequence.
           Option.bind (parse_sequence_role second) (\<lambda>role.
           Option.bind (parse_field third ''o'') (\<lambda>ordinal. Some (InvSequence sequence role ordinal)))))"
| "parse_parts [first, second, third, fourth, fifth] =
     Option.bind (parse_field first ''k'') (\<lambda>key.
     Option.bind (parse_field second ''g'') (\<lambda>generation.
     Option.bind (parse_field third ''a'') (\<lambda>attempt.
     Option.bind (parse_attempt_role fourth) (\<lambda>role.
     Option.bind (parse_field fifth ''o'') (\<lambda>ordinal.
       Some (InvAttempt key generation attempt role ordinal))))))"
| "parse_parts _ = None"

definition parse_forms :: "string \<Rightarrow> invocation_id option" where
  "parse_forms value = parse_parts (split_on (CHR ''.'') value)"

definition invocation_parse :: "string \<Rightarrow> (invocation_refusal, invocation_id) result" where
  "invocation_parse value =
     res_bind (invocation_validate value) (\<lambda>_. ok_or (parse_forms value) (NotAnInvocation value))"

subsection \<open>Building\<close>

definition legacy_attempt :: "task_key \<Rightarrow> attempt_number \<Rightarrow> attempt_role \<Rightarrow> u32 \<Rightarrow> invocation_id" where
  "legacy_attempt key attempt role ordinal = InvAttempt key LEGACY_GENERATION attempt role ordinal"

definition invocation_probe :: "probe_target \<Rightarrow> u32 \<Rightarrow> (invocation_refusal, invocation_id) result" where
  "invocation_probe target ordinal =
     res_bind (case target of
         ProbeShell \<Rightarrow> Inr ()
       | ProbeAgent name \<Rightarrow>
           if name = [] then Inl EmptyAgentId
           else if \<not> list_all agent_id_char name then Inl (AgentIdCharacter name) else Inr ()) (\<lambda>_.
     res_bind (invocation_validate (invocation_render (InvProbe target ordinal))) (\<lambda>_.
     Inr (InvProbe target ordinal)))"

fun probe_target_of :: "invocation_id \<Rightarrow> probe_target option" where
  "probe_target_of (InvProbe target _) = Some target"
| "probe_target_of (InvAttempt _ _ _ _ _) = None"
| "probe_target_of (InvSequence _ _ _) = None"

text \<open>The identities the constructors give: any attempt, any sequence step, a checked probe.\<close>

fun buildable :: "invocation_id \<Rightarrow> bool" where
  "buildable (InvProbe target ordinal) = (invocation_probe target ordinal = Inr (InvProbe target ordinal))"
| "buildable _ = True"

subsection \<open>Numbers read back\<close>

lemma length_show_nat: "0 < k \<Longrightarrow> n < 10 ^ k \<Longrightarrow> length (show_nat n) \<le> k"
proof (induction k arbitrary: n)
  case (Suc k)
  show ?case
  proof (cases "n < 10")
    case True
    then show ?thesis by (simp add: show_nat_def show_base.simps)
  next
    case False
    with Suc.prems have "0 < k" by (cases k) auto
    moreover have "n div 10 < 10 ^ k" using Suc.prems by (simp add: less_mult_imp_div_less)
    ultimately have "length (show_nat (n div 10)) \<le> k" by (rule Suc.IH)
    with False show ?thesis by (simp add: show_nat_def show_base.simps [of 10 n])
  qed
qed simp

lemma unat_u32_less: "unat (n :: u32) < 4294967296"
  using unsigned_less [of n] by simp

lemma length_show_u32: "length (show_u32 n) \<le> 10"
  unfolding show_u32_def using unat_u32_less [of n] by (intro length_show_nat) auto

lemma show_u32_digits: "list_all is_digit (show_u32 n)"
  by (auto simp: list_all_iff show_u32_def dest: show_nat_digits)

lemma show_u32_nonempty [simp]: "show_u32 n \<noteq> []"
  by (simp add: show_u32_def)

lemma digit_char_0: "digit_char 0 = CHR ''0''"
  by code_simp

lemma show_nat_no_leading_zero: "1 < length (show_nat n) \<Longrightarrow> hd (show_nat n) \<noteq> CHR ''0''"
  unfolding show_nat_def
proof (induction "10::nat" n rule: show_base.induct)
  case (1 n)
  show ?case
  proof (cases "n < 10")
    case True
    with "1.prems" show ?thesis by (simp add: show_base.simps)
  next
    case big: False
    then have unfold: "show_base 10 n = show_base 10 (n div 10) @ [digit_char (n mod 10)]"
      by (subst show_base.simps) simp
    have ne: "show_base 10 (n div 10) \<noteq> []" using show_nat_nonempty by (simp add: show_nat_def)
    show ?thesis
    proof (cases "1 < length (show_base 10 (n div 10))")
      case True
      with 1 big show ?thesis by (simp add: unfold ne)
    next
      case False
      have small: "n div 10 < 10"
      proof (rule ccontr)
        assume "\<not> n div 10 < 10"
        then have "1 < length (show_base 10 (n div 10))"
          using show_nat_nonempty [of "n div 10 div 10"]
          by (subst show_base.simps) (simp add: show_nat_def)
        with False show False ..
      qed
      then have "show_base 10 (n div 10) = [digit_char (n div 10)]" by (simp add: show_base.simps)
      moreover have "digit_char (n div 10) \<noteq> CHR ''0''"
        using digit_char_inj [of "n div 10" 0] small big digit_char_0 by auto
      ultimately show ?thesis by (simp add: unfold)
    qed
  qed
qed

lemma is_digit_plus: "is_digit c \<Longrightarrow> c \<noteq> CHR ''+''"
  by (auto simp: is_digit_def)

lemma parse_show_u32 [simp]: "parse_u32 (show_u32 n) = Some n"
proof -
  obtain c rest where s: "show_u32 n = c # rest" by (meson neq_Nil_conv show_u32_nonempty)
  have "c \<noteq> CHR ''+''" using show_u32_digits [of n] by (auto simp: s dest: is_digit_plus)
  then have "parse_u32 (show_u32 n) =
      (if 2 ^ 32 \<le> digits_val (show_u32 n) then None else Some (of_nat (digits_val (show_u32 n))))"
    using show_u32_digits [of n] by (simp add: parse_u32_def s)
  also have "digits_val (show_u32 n) = unat n" by (simp add: show_u32_def digits_val_show_nat)
  finally show ?thesis using unat_u32_less [of n] by simp
qed

lemma strip_prefix_append [simp]: "strip_prefix tag (tag @ s) = Some s"
  by (simp add: strip_prefix_def)

lemma parse_field_render [simp]: "parse_field (tag @ show_u32 n) tag = Some n"
proof -
  have "\<not> (1 < length (show_u32 n) \<and> take 1 (show_u32 n) = ''0'')"
    using show_nat_no_leading_zero [of "unat n"] by (cases "show_u32 n") (auto simp: show_u32_def)
  then show ?thesis using show_u32_digits [of n] by (auto simp: parse_field_def)
qed

subsection \<open>Identities read back\<close>

lemma parse_sequence_role_render [simp]: "parse_sequence_role (sequence_role_render role) = Some role"
proof (cases role)
  case (SeqGate n)
  then have "strip_prefix ''review_pass'' (sequence_role_render role) = None"
      "strip_prefix ''review_reask'' (sequence_role_render role) = None"
    by (simp_all add: strip_prefix_def)
  with SeqGate show ?thesis using strip_prefix_append [of "''gate''" "show_u32 n"]
    by (simp add: parse_sequence_role_def)
next
  case (SeqReviewPass n)
  then show ?thesis using strip_prefix_append [of "''review_pass''" "show_u32 n"]
    by (simp add: parse_sequence_role_def)
next
  case (SeqReviewReask n)
  then have "strip_prefix ''review_pass'' (sequence_role_render role) = None"
    by (simp add: strip_prefix_def)
  with SeqReviewReask show ?thesis using strip_prefix_append [of "''review_reask''" "show_u32 n"]
    by (simp add: parse_sequence_role_def)
qed

lemma indexed_render: "attempt_role_render (indexed_role role) = sequence_role_render role"
  by (cases role) auto

lemma parse_attempt_role_render [simp]: "parse_attempt_role (attempt_role_render role) = Some role"
proof (cases "role = RoleWorker")
  case False
  then obtain r where r: "role = indexed_role r"
    by (metis attempt_role.exhaust indexed_role.simps)
  have "sequence_role_render r \<noteq> ''worker''" by (cases r) auto
  then show ?thesis by (simp add: r indexed_render parse_attempt_role_def)
qed (simp add: parse_attempt_role_def)

text \<open>The characters and lengths of the parts.\<close>

lemma is_digit_char: "is_digit c \<Longrightarrow> agent_id_char c"
  by (auto simp: is_digit_def agent_id_char_def is_ascii_alphanumeric_def)

lemma show_u32_chars: "list_all agent_id_char (show_u32 n)"
  using show_u32_digits [of n] by (auto simp: list_all_iff intro: is_digit_char)

lemma tag_chars:
  "list_all agent_id_char ''k''" "list_all agent_id_char ''g''" "list_all agent_id_char ''a''"
  "list_all agent_id_char ''s''" "list_all agent_id_char ''o''" "list_all agent_id_char ''p''"
  "list_all agent_id_char ''worker''" "list_all agent_id_char ''gate''"
  "list_all agent_id_char ''review_pass''" "list_all agent_id_char ''review_reask''"
  "list_all agent_id_char ''shell''" "list_all agent_id_char ''agent-''"
  by (simp_all add: agent_id_char_def is_ascii_alphanumeric_def)

lemma role_chars:
  "list_all agent_id_char (sequence_role_render r)" "list_all agent_id_char (attempt_role_render a)"
  by (cases r; simp only: sequence_role_render.simps list_all_append tag_chars show_u32_chars simp_thms)
    (cases a; simp only: attempt_role_render.simps list_all_append tag_chars show_u32_chars simp_thms)

lemma sequence_role_length: "length (sequence_role_render r) \<le> 22"
  using length_show_u32 [of "case r of SeqGate n \<Rightarrow> n | SeqReviewPass n \<Rightarrow> n | SeqReviewReask n \<Rightarrow> n"]
  by (cases r) auto

lemma attempt_role_length: "length (attempt_role_render a) \<le> 22"
  using length_show_u32 [of "case a of RoleGate n \<Rightarrow> n | RoleReviewPass n \<Rightarrow> n | RoleReviewReask n \<Rightarrow> n | RoleWorker \<Rightarrow> 0"]
  by (cases a) auto

lemma no_dot: "list_all agent_id_char s \<Longrightarrow> CHR ''.'' \<notin> set s"
  by (auto simp: list_all_iff agent_id_char_def is_ascii_alphanumeric_def)

fun invocation_parts :: "invocation_id \<Rightarrow> string list" where
  "invocation_parts (InvAttempt key generation attempt role ordinal) =
     [''k'' @ show_u32 key, ''g'' @ show_u32 generation, ''a'' @ show_u32 attempt,
      attempt_role_render role, ''o'' @ show_u32 ordinal]"
| "invocation_parts (InvSequence sequence role ordinal) =
     [''s'' @ show_u32 sequence, sequence_role_render role, ''o'' @ show_u32 ordinal]"
| "invocation_parts (InvProbe target ordinal) =
     [''p'', probe_target_render target, ''o'' @ show_u32 ordinal]"

lemma render_parts: "invocation_render i = join_with (CHR ''.'') (invocation_parts i)"
  by (cases i) auto

lemma buildable_probe:
  "buildable (InvProbe target ordinal) \<Longrightarrow>
     list_all agent_id_char (probe_target_render target) \<and> parse_probe_target (probe_target_render target) = Some target \<and>
     invocation_validate (invocation_render (InvProbe target ordinal)) = Inr ()"
proof (cases target)
  case (ProbeAgent name)
  assume "buildable (InvProbe target ordinal)"
  then have ok: "name \<noteq> []" "list_all agent_id_char name"
      "invocation_validate (invocation_render (InvProbe target ordinal)) = Inr ()"
    by (auto simp: ProbeAgent invocation_probe_def result_simps split: if_splits)
  moreover have "''agent-'' @ name \<noteq> ''shell''" by simp
  ultimately show ?thesis using strip_prefix_append [of "''agent-''" name] tag_chars
    by (simp only: ProbeAgent parse_probe_target_def probe_target_render.simps list_all_append) simp
next
  case ProbeShell
  assume "buildable (InvProbe target ordinal)"
  then show ?thesis using tag_chars
    by (auto simp: ProbeShell invocation_probe_def result_simps parse_probe_target_def)
qed

lemma parts_chars: "buildable i \<Longrightarrow> p \<in> set (invocation_parts i) \<Longrightarrow> list_all agent_id_char p"
proof (cases i)
  case (InvProbe target ordinal)
  assume "buildable i" "p \<in> set (invocation_parts i)"
  with buildable_probe [of target ordinal] show ?thesis
    unfolding InvProbe by (auto simp only: invocation_parts.simps set_simps list_all_append tag_chars show_u32_chars)
qed (auto simp only: invocation_parts.simps set_simps list_all_append tag_chars show_u32_chars role_chars)

lemma parts_parse: "buildable i \<Longrightarrow> parse_parts (invocation_parts i) = Some i"
proof (cases i)
  case (InvSequence s r n)
  have "''s'' @ show_u32 s \<noteq> ''p''" by simp
  then show ?thesis by (simp only: InvSequence invocation_parts.simps parse_parts.simps parse_field_render
        parse_sequence_role_render bind.simps if_False)
next
  case (InvProbe target n)
  assume "buildable i"
  with buildable_probe [of target n] show ?thesis
    by (simp only: InvProbe invocation_parts.simps parse_parts.simps parse_field_render bind.simps refl if_True)
qed (simp only: invocation_parts.simps parse_parts.simps parse_field_render parse_attempt_role_render bind.simps)

lemma parse_forms_render: "buildable i \<Longrightarrow> parse_forms (invocation_render i) = Some i"
proof -
  assume i: "buildable i"
  have "split_on (CHR ''.'') (join_with (CHR ''.'') (invocation_parts i)) = invocation_parts i"
  proof (rule split_on_join)
    show "invocation_parts i \<noteq> []" by (cases i) auto
    show "CHR ''.'' \<notin> set p" if "p \<in> set (invocation_parts i)" for p
      using parts_chars [OF i that] by (rule no_dot)
  qed
  then show ?thesis by (simp add: parse_forms_def render_parts parts_parse i)
qed

lemma render_chars: "buildable i \<Longrightarrow> list_all invocation_char (invocation_render i)"
proof -
  have "(\<And>p. p \<in> set ps \<Longrightarrow> list_all agent_id_char p) \<Longrightarrow> list_all invocation_char (join_with (CHR ''.'') ps)" for ps
    by (induction "CHR ''.''" ps rule: join_with.induct)
      (auto simp: list_all_iff agent_id_char_def invocation_char_def)
  then show "buildable i \<Longrightarrow> ?thesis" unfolding render_parts using parts_chars by blast
qed

lemma validate_render: "buildable i \<Longrightarrow> invocation_validate (invocation_render i) = Inr ()"
proof (cases i)
  case (InvAttempt k g a r n)
  assume "buildable i"
  moreover have "length (invocation_render i) \<le> MAX_LEN"
    using length_show_u32 [of k] length_show_u32 [of g] length_show_u32 [of a] length_show_u32 [of n] attempt_role_length [of r]
    by (simp add: InvAttempt MAX_LEN_def)
  moreover have "invocation_render i \<noteq> []" by (simp add: InvAttempt)
  ultimately show ?thesis by (simp add: invocation_validate_def render_chars)
next
  case (InvSequence s r n)
  assume "buildable i"
  moreover have "length (invocation_render i) \<le> MAX_LEN"
    using length_show_u32 [of s] length_show_u32 [of n] sequence_role_length [of r]
    by (simp add: InvSequence MAX_LEN_def)
  moreover have "invocation_render i \<noteq> []" by (simp add: InvSequence)
  ultimately show ?thesis by (simp add: invocation_validate_def render_chars)
next
  case (InvProbe target n)
  then show "buildable i \<Longrightarrow> ?thesis" using buildable_probe by simp
qed

text \<open>
  C37. Reading back the spelling of an identity gives the identity: every attempt, every step
  of an integration sequence and every probe its constructor accepts is printed within the
  alphabet and the limit of 70 bytes that the parser enforces, and parses to itself. So two
  identities never share a spelling, and no attempt or sequence step is ever too long.
\<close>

theorem invocation_roundtrip:
  assumes "buildable i"
  shows "invocation_parse (invocation_render i) = Inr i"
  using assms by (simp add: invocation_parse_def validate_render parse_forms_render)

definition sample_invocation :: invocation_id where
  "sample_invocation = InvProbe (ProbeAgent ''claude-code'') 5"

theorem invocation_roundtrip_witness:
  "buildable sample_invocation \<and> invocation_render sample_invocation = ''p.agent-claude-code.o5'' \<and>
   invocation_parse (invocation_render sample_invocation) = Inr sample_invocation"
proof -
  have ok: "buildable sample_invocation" "invocation_render sample_invocation = ''p.agent-claude-code.o5''"
    by code_simp+
  from invocation_roundtrip [OF ok(1)] ok show ?thesis by simp
qed

text \<open>The limit is attained, and the parser reads a spelling the printer never gives.\<close>

lemma longest_invocation:
  "length (invocation_render (InvAttempt (- 1) (- 1) (- 1) (RoleReviewReask (- 1)) (- 1))) = MAX_LEN"
  by code_simp

lemma parse_accepts_padded_role:
  "invocation_parse ''k0.g0.a1.gate00.o0'' = Inr (InvAttempt 0 0 1 (RoleGate 0) 0)"
  "invocation_render (InvAttempt 0 0 1 (RoleGate 0) 0) = ''k0.g0.a1.gate0.o0''"
  by code_simp+

end
