(* ===== verification/Select.thy ===== *)
theory Select
  imports Spend Invocation Fold_Replay
begin

section \<open>What the engine does next (src/engine/topology/select.rs)\<close>

text \<open>
  The scheduler is a function of the fold, the ceilings and the spend: one step per call, in a
  fixed order of preference (integrate, retry, dispatch, wait for a back-off, wait for a human,
  end). \<open>checkpoint\<close> turns a step into one the engine may act on, or refuses. The
  standing of a process is read from the same fold: a process may take its slots only while
  the fold shows its attempt in flight or its verification open.
\<close>

subsection \<open>Reading the fold (src/topology/fold/predicates.rs)\<close>

definition fold_started :: "topology_fold \<Rightarrow> run_started4 option" where
  "fold_started fold' = map_option st_started (fo_run fold')"

definition fold_registry :: "topology_fold \<Rightarrow> task_registry option" where
  "fold_registry fold' = map_option st_registry (fo_run fold')"

definition fold_task :: "topology_fold \<Rightarrow> task_key \<Rightarrow> task_fold option" where
  "fold_task fold' key = Option.bind (fo_run fold') (\<lambda>run. task_get run key)"

definition fold_transaction :: "topology_fold \<Rightarrow> transaction option" where
  "fold_transaction fold' = Option.bind (fo_run fold') st_transaction"

definition fold_epoch :: "topology_fold \<Rightarrow> epoch option" where
  "fold_epoch fold' = map_option st_epoch (fo_run fold')"

definition fold_finished :: "topology_fold \<Rightarrow> run_outcome option" where
  "fold_finished fold' = Option.bind (fo_run fold') st_finished"

definition run_holds :: "topology_fold \<Rightarrow> (run_state \<Rightarrow> bool) \<Rightarrow> bool" where
  "run_holds fold' p = (case fo_run fold' of None \<Rightarrow> False | Some run \<Rightarrow> p run)"

definition fold_ready_retry :: "topology_fold \<Rightarrow> task_key \<Rightarrow> bool" where
  "fold_ready_retry fold' key \<longleftrightarrow> \<not> fo_poisoned fold' \<and> run_holds fold' (\<lambda>run. ready_retry run key)"

definition fold_eligible_continuation :: "topology_fold \<Rightarrow> task_key \<Rightarrow> generation_id option" where
  "fold_eligible_continuation fold' key =
     (if fo_poisoned fold' then None
      else Option.bind (fo_run fold') (\<lambda>run. eligible_continuation run key))"

definition fold_eligible_integration_candidate :: "externals \<Rightarrow> topology_fold \<Rightarrow> candidate_ref option" where
  "fold_eligible_integration_candidate x fold' =
     (if fo_poisoned fold' then None else Option.bind (fo_run fold') (eligible_integration_candidate x))"

definition fold_run_is_ending :: "topology_fold \<Rightarrow> bool" where
  "fold_run_is_ending fold' = run_holds fold' run_is_ending"

definition fold_backoff_pending :: "topology_fold \<Rightarrow> bool" where
  "fold_backoff_pending fold' = run_holds fold' backoff_pending"

definition fold_questions_open :: "topology_fold \<Rightarrow> bool" where
  "fold_questions_open fold' = run_holds fold' questions_open"

definition fold_pipeline_held :: "topology_fold \<Rightarrow> nat" where
  "fold_pipeline_held fold' = (case fo_run fold' of None \<Rightarrow> 0 | Some run \<Rightarrow> pipeline_held run)"

subsection \<open>Steps\<close>

datatype step =
    StepPoisoned
  | StepBudgetExceeded budget_exceeded4
  | StepIntegrate candidate_ref
  | StepRetry task_key generation_id attempt_number
  | StepDispatch task_key generation_id bool
  | StepRepairDispatch task_key generation_id bool
  | StepBackoff
  | StepHardBlock "question_id list"
  | StepClosure derived_outcome
  | StepNotStarted
  | StepFinished run_outcome

datatype admitted =
    AdmitBudgetExceeded budget_exceeded4
  | AdmitIntegrate candidate_ref
  | AdmitRetry task_key generation_id attempt_number
  | AdmitDispatch task_key generation_id bool
  | AdmitRepairDispatch task_key generation_id bool
  | AdmitBackoff
  | AdmitHardBlock "question_id list"
  | AdmitClosure derived_outcome
  | AdmitApproveSpend task_key

datatype checkpoint_refusal = RefusedNotStarted | RefusedFinished run_outcome | RefusedPoisoned

text \<open>The keys in registry order, up to the range of \<^verbatim>\<open>u32\<close>.\<close>

definition fold_keys :: "topology_fold \<Rightarrow> task_key list" where
  "fold_keys fold' =
     (case fold_registry fold' of
        None \<Rightarrow> [] | Some registry \<Rightarrow> map of_nat [0..<min (registry_len registry) (2 ^ 32 - 1)])"

fun find_map :: "('a \<Rightarrow> 'b option) \<Rightarrow> 'a list \<Rightarrow> 'b option" where
  "find_map f [] = None"
| "find_map f (x # xs) = (case f x of Some y \<Rightarrow> Some y | None \<Rightarrow> find_map f xs)"

definition fold_open_generation :: "topology_fold \<Rightarrow> task_key \<Rightarrow> generation_id option" where
  "fold_open_generation fold' key =
     Option.bind (fold_task fold' key) (\<lambda>task. map_option gf_id (find is_open (tf_generations task)))"

definition retry_at :: "topology_fold \<Rightarrow> task_key \<Rightarrow> (task_key \<times> generation_id \<times> attempt_number) option" where
  "retry_at fold' key =
     (if \<not> fold_ready_retry fold' key then None
      else Option.bind (fold_open_generation fold' key) (\<lambda>generation.
           Option.bind (fold_task fold' key) (\<lambda>task.
           Option.bind (find (\<lambda>held. gf_id held = generation) (tf_generations task)) (\<lambda>open'.
             case gf_class open' of
               RetainedIdle _ _ \<Rightarrow> Some (key, generation, sat_add (gf_attempts open') 1)
             | _ \<Rightarrow> None))))"

definition first_ready_retry :: "topology_fold \<Rightarrow> (task_key \<times> generation_id \<times> attempt_number) option" where
  "first_ready_retry fold' = find_map (retry_at fold') (fold_keys fold')"

definition ready_at :: "externals \<Rightarrow> topology_fold \<Rightarrow> task_key \<Rightarrow> (task_key \<times> generation_id \<times> bool) option" where
  "ready_at x fold' key =
     (case fold_eligible_continuation fold' key of
        Some generation \<Rightarrow> Some (key, generation, True)
      | None \<Rightarrow>
          if \<not> fold_ready x fold' key then None
          else Option.bind (fold_task fold' key) (\<lambda>task.
                 if length (tf_generations task) < 2 ^ 32
                 then Some (key, of_nat (length (tf_generations task)), False) else None))"

definition first_ready :: "externals \<Rightarrow> topology_fold \<Rightarrow> (task_key \<times> generation_id \<times> bool) option" where
  "first_ready x fold' = find_map (ready_at x fold') (fold_keys fold')"

definition is_repair :: "topology_fold \<Rightarrow> task_key \<Rightarrow> bool" where
  "is_repair fold' key =
     (case Option.bind (fold_registry fold') (\<lambda>registry. registry_get registry key) of
        None \<Rightarrow> False | Some entry \<Rightarrow> te_origin entry = MergeRepair)"

definition select_backoff_pending :: "topology_fold \<Rightarrow> bool" where
  "select_backoff_pending fold' \<longleftrightarrow> \<not> fold_run_is_ending fold' \<and> fold_backoff_pending fold'"

definition open_questions :: "topology_fold \<Rightarrow> question_id list" where
  "open_questions fold' = (case fo_run fold' of None \<Rightarrow> [] | Some run \<Rightarrow> bt_keys (st_questions run))"

definition budget_exceeded :: "epoch \<Rightarrow> breach \<Rightarrow> task_key option \<Rightarrow> step" where
  "budget_exceeded epoch b key =
     StepBudgetExceeded
       \<lparr>b4_epoch = epoch, b4_budget = br_budget b, b4_limit_usd = br_limit_usd b,
        b4_spent_usd = br_spent_usd b, b4_key = key\<rparr>"

definition ceiling_or :: "ceiling \<Rightarrow> spend \<Rightarrow> epoch \<Rightarrow> task_key \<Rightarrow> step \<Rightarrow> step" where
  "ceiling_or c s epoch key admitted' =
     (case breach_of c s key of
        Some b \<Rightarrow> budget_exceeded epoch b (Some key)
      | None \<Rightarrow> admitted')"

definition select :: "externals \<Rightarrow> topology_fold \<Rightarrow> ceiling \<Rightarrow> spend \<Rightarrow> step" where
  "select x fold' c s =
     (if fo_poisoned fold' then StepPoisoned
      else case fold_finished fold' of
        Some outcome \<Rightarrow> StepFinished outcome
      | None \<Rightarrow>
      (case fold_epoch fold' of
         None \<Rightarrow> StepNotStarted
       | Some epoch \<Rightarrow>
           if fold_run_is_ending fold' then StepClosure (fold_derived_outcome x fold')
           else (case fold_eligible_integration_candidate x fold' of
             Some candidate \<Rightarrow>
               (case run_breach c s of
                  Some b \<Rightarrow> budget_exceeded epoch b None
                | None \<Rightarrow> StepIntegrate candidate)
           | None \<Rightarrow>
           (case first_ready_retry fold' of
              Some (key, generation, attempt) \<Rightarrow> ceiling_or c s epoch key (StepRetry key generation attempt)
            | None \<Rightarrow>
            (case first_ready x fold' of
               Some (key, generation, continuing) \<Rightarrow>
                 if is_repair fold' key
                 then ceiling_or c s epoch key (StepRepairDispatch key generation continuing)
                 else ceiling_or c s epoch key (StepDispatch key generation continuing)
             | None \<Rightarrow>
                 if select_backoff_pending fold' then StepBackoff
                 else if fold_questions_open fold' then StepHardBlock (open_questions fold')
                 else StepClosure (fold_derived_outcome x fold'))))))"

fun checkpoint :: "step \<Rightarrow> (checkpoint_refusal, admitted) result" where
  "checkpoint (StepBudgetExceeded exceeded) = Inr (AdmitBudgetExceeded exceeded)"
| "checkpoint (StepRetry key generation attempt) = Inr (AdmitRetry key generation attempt)"
| "checkpoint (StepDispatch key generation continuing) = Inr (AdmitDispatch key generation continuing)"
| "checkpoint (StepIntegrate candidate) = Inr (AdmitIntegrate candidate)"
| "checkpoint StepBackoff = Inr AdmitBackoff"
| "checkpoint (StepHardBlock questions) = Inr (AdmitHardBlock questions)"
| "checkpoint (StepRepairDispatch key generation continuing) = Inr (AdmitRepairDispatch key generation continuing)"
| "checkpoint (StepClosure outcome) = Inr (AdmitClosure outcome)"
| "checkpoint StepNotStarted = Inl RefusedNotStarted"
| "checkpoint (StepFinished outcome) = Inl (RefusedFinished outcome)"
| "checkpoint StepPoisoned = Inl RefusedPoisoned"

subsection \<open>Entitlements\<close>

definition MERGE_ENTITLEMENTS :: nat where
  "MERGE_ENTITLEMENTS = 1"

record entitlements =
  en_pipeline_held :: nat
  en_merge_held :: nat
  en_max_parallel :: u32
  en_poisoned :: bool

definition entitlements_of :: "topology_fold \<Rightarrow> entitlements" where
  "entitlements_of fold' =
     \<lparr>en_pipeline_held = fold_pipeline_held fold',
      en_merge_held = (if fold_transaction fold' \<noteq> None then 1 else 0),
      en_max_parallel = (case fold_started fold' of None \<Rightarrow> 0 | Some started \<Rightarrow> tl_max_parallel (s4_limits started)),
      en_poisoned = fo_poisoned fold'\<rparr>"

datatype entitlement_holds = HoldsPreflight | HoldsPipeline | HoldsPipelineAndMerge | HoldsNothing

datatype pipeline =
    PipelineAttempt task_key generation_id attempt_number
  | PipelineSequence sequence_id
  | PipelinePreflight

fun pipeline_of :: "invocation_id \<Rightarrow> pipeline" where
  "pipeline_of (InvAttempt key generation attempt _ _) = PipelineAttempt key generation attempt"
| "pipeline_of (InvSequence sequence _ _) = PipelineSequence sequence"
| "pipeline_of (InvProbe _ _) = PipelinePreflight"

record standing =
  sg_pipeline :: pipeline
  sg_holds :: entitlement_holds

fun is_verification_started :: "transaction_class \<Rightarrow> bool" where
  "is_verification_started (VerificationStarted _ _ _) = True"
| "is_verification_started (Prepared _ _ _ _ _) = False"

fun pipeline_holds :: "topology_fold \<Rightarrow> pipeline \<Rightarrow> entitlement_holds" where
  "pipeline_holds fold' PipelinePreflight = HoldsPreflight"
| "pipeline_holds fold' (PipelineAttempt key generation attempt) =
     (case Option.bind (fold_task fold' key)
             (\<lambda>task. find (\<lambda>held. gf_id held = generation) (tf_generations task)) of
        None \<Rightarrow> HoldsNothing
      | Some held \<Rightarrow> if gf_class held = InFlight attempt then HoldsPipeline else HoldsNothing)"
| "pipeline_holds fold' (PipelineSequence sequence) =
     (case fold_transaction fold' of
        None \<Rightarrow> HoldsNothing
      | Some open' \<Rightarrow>
          if tx_sequence open' = sequence \<and> is_verification_started (tx_class open')
          then HoldsPipelineAndMerge else HoldsNothing)"

definition standing_of :: "topology_fold \<Rightarrow> invocation_id \<Rightarrow> standing" where
  "standing_of fold' invocation =
     (let pipeline = pipeline_of invocation in
      \<lparr>sg_pipeline = pipeline,
       sg_holds = (if fo_poisoned fold' then HoldsNothing else pipeline_holds fold' pipeline)\<rparr>)"

definition standing_preflight :: standing where
  "standing_preflight = \<lparr>sg_pipeline = PipelinePreflight, sg_holds = HoldsPreflight\<rparr>"

datatype standing_refusal = OtherPipeline invocation_id | NoEntitlement invocation_id

definition standing_admits :: "standing \<Rightarrow> invocation_id \<Rightarrow> (standing_refusal, unit) result" where
  "standing_admits st invocation =
     (if pipeline_of invocation \<noteq> sg_pipeline st then Inl (OtherPipeline invocation)
      else if sg_holds st = HoldsNothing then Inl (NoEntitlement invocation) else Inr ())"

end
