(* ===== verification/Spend_Facts.thy ===== *)
theory Spend_Facts
  imports Spend Fold_Sample
begin

section \<open>A ceiling, once reached, stays reached\<close>

text \<open>
  When no recorded cost is negative or not a number, every event of a log leaves the run's
  total and each task's total where they are or raises them, rounding included. So the engine
  cannot come back under a ceiling by reading more of the log.
\<close>

definition priced :: "f64 option \<Rightarrow> bool" where
  "priced c = (case c of None \<Rightarrow> True | Some v \<Rightarrow> f64_nonneg v)"

definition reviews_priced :: "review_record list \<Rightarrow> bool" where
  "reviews_priced reviews = list_all (\<lambda>r. priced (rr_cost_usd r)) reviews"

definition attempt_priced :: "attempt_record \<Rightarrow> bool" where
  "attempt_priced r \<longleftrightarrow> priced (at_cost_usd r) \<and> reviews_priced (at_reviews r)"

fun body_priced :: "topology_event_body \<Rightarrow> bool" where
  "body_priced (EvAttemptFinished d) = attempt_priced (af4_record d)"
| "body_priced (EvCandidatePrepared d) = attempt_priced (cp_attempt d)"
| "body_priced (EvMergeVerificationUnavailable d) = reviews_priced (vu_reviews d)"
| "body_priced (EvMergeVerificationCharged d) = reviews_priced (vc_reviews d)"
| "body_priced (EvMergePrepared d) =
     (case mp_verification d of None \<Rightarrow> True | Some v \<Rightarrow> reviews_priced (vr_reviews v))"
| "body_priced (EvMergeRejected d) =
     (case mr_disposition d of RdCodeRejected v \<Rightarrow> reviews_priced (vr_reviews v) | RdConflict _ \<Rightarrow> True)"
| "body_priced _ = True"

definition spend_ok :: "spend \<Rightarrow> bool" where
  "spend_ok s \<longleftrightarrow> bt_wf (sp_per_task s) \<and> f64_nonneg (sp_run s) \<and> (\<forall>k. f64_nonneg (task_usd s k))"

text \<open>Both are well priced, and no total is lower in the second.\<close>

definition spend_le :: "spend \<Rightarrow> spend \<Rightarrow> bool" where
  "spend_le s s' \<longleftrightarrow> spend_ok s \<and> spend_ok s' \<and> f64_ge (sp_run s') (sp_run s) \<and>
     (\<forall>k. f64_ge (task_usd s' k) (task_usd s k))"

lemma spend_le_refl: "spend_ok s \<Longrightarrow> spend_le s s"
  by (simp add: spend_le_def spend_ok_def f64_ge_refl)

lemma spend_le_trans: "spend_le s s' \<Longrightarrow> spend_le s' s'' \<Longrightarrow> spend_le s s''"
  unfolding spend_le_def using f64_ge_trans by blast

lemma spend_le_ok: "spend_le s s' \<Longrightarrow> spend_ok s'"
  by (simp add: spend_le_def)

lemma spend_new_ok: "spend_ok spend_new"
  by (simp add: spend_ok_def spend_new_def task_usd_def or_zero_def bt_get_def bt_wf_def)

lemma or_zero_priced: "priced c \<Longrightarrow> f64_nonneg (or_zero c)"
  by (auto simp: priced_def or_zero_def split: option.splits)

lemma f64_sum_nonneg:
  assumes "list_all f64_nonneg vs" "vs \<noteq> []"
  shows "f64_nonneg (f64_sum vs)"
proof -
  obtain v ws where vs: "vs = v # ws" using assms(2) by (meson neq_Nil_conv)
  have foldl: "f64_nonneg a \<Longrightarrow> list_all f64_nonneg us \<Longrightarrow> f64_nonneg (foldl f64_add a us)" for a us
    by (induction us arbitrary: a) (auto simp: f64_add_nonneg)
  have v: "f64_nonneg v" using assms(1) vs by simp
  have zero: "f64_units f64_neg_zero = 0" "\<not> f64_is_nan f64_neg_zero" "\<not> f64_is_infinite f64_neg_zero"
    by code_simp+
  have "f64_nonneg (f64_add f64_neg_zero v)"
  proof (cases "f64_is_infinite v")
    case True
    with v zero show ?thesis by (simp add: f64_add_def f64_nonneg_def)
  next
    case False
    have "0 \<le> f64_units v" using v by (simp add: f64_nonneg_def f64_units_nonneg)
    with False v zero show ?thesis
      using f64_zero_nonneg f64_round_nonneg(1) by (auto simp: f64_add_def f64_nonneg_def Let_def)
  qed
  with foldl assms(1) vs show ?thesis by (simp add: f64_sum_def)
qed

lemma review_cost_priced: "reviews_priced (at_reviews r) \<Longrightarrow> priced (review_cost_usd r)"
proof -
  assume "reviews_priced (at_reviews r)"
  then have "list_all f64_nonneg (List.map_filter rr_cost_usd (at_reviews r))"
    by (auto simp: reviews_priced_def priced_def list_all_iff List.map_filter_def split: option.splits)
  then show ?thesis using f64_sum_nonneg by (auto simp: review_cost_usd_def priced_def Let_def)
qed

lemma task_usd_charge:
  "bt_wf (sp_per_task s) \<Longrightarrow>
   task_usd (charge_task key v s) k = (if k = key then f64_add (task_usd s key) v else task_usd s k)"
  by (simp add: charge_task_def task_usd_def bt_get_insert or_zero_def)

lemma charge_task_le: "spend_ok s \<Longrightarrow> f64_nonneg v \<Longrightarrow> spend_le s (charge_task key v s)"
  unfolding spend_le_def spend_ok_def
  by (simp add: task_usd_charge f64_add_nonneg f64_add_ge f64_ge_refl)
    (simp add: charge_task_def bt_wf_insert f64_add_nonneg f64_add_ge)

lemma spend_record_le: "spend_ok s \<Longrightarrow> attempt_priced r \<Longrightarrow> spend_le s (spend_record key r s)"
  by (simp add: spend_record_def attempt_priced_def charge_task_le f64_add_nonneg or_zero_priced review_cost_priced)

lemma foldl_spend_le:
  assumes "\<And>s y. spend_ok s \<Longrightarrow> p y \<Longrightarrow> spend_le s (f s y)" "spend_ok s" "list_all p ys"
  shows "spend_le s (foldl f s ys)"
  using assms(2,3)
proof (induction ys arbitrary: s)
  case (Cons y ys)
  then have "spend_le s (f s y)" using assms(1) by simp
  moreover from this have "spend_le (f s y) (foldl f (f s y) ys)"
    using Cons.IH [OF spend_le_ok] Cons.prems(2) by simp
  ultimately show ?case using spend_le_trans by simp
qed (simp add: spend_le_refl)

lemma record_reviews_le: "spend_ok s \<Longrightarrow> reviews_priced reviews \<Longrightarrow> spend_le s (record_reviews key reviews s)"
  unfolding record_reviews_def reviews_priced_def
  by (rule foldl_spend_le [where p = "\<lambda>r. priced (rr_cost_usd r)"]) (auto simp: record_review_cost_def intro: charge_task_le or_zero_priced)

lemma record_unattributed_le:
  "spend_ok s \<Longrightarrow> reviews_priced reviews \<Longrightarrow> spend_le s (record_unattributed_reviews reviews s)"
  unfolding record_unattributed_reviews_def reviews_priced_def
  by (rule foldl_spend_le [where p = "\<lambda>r. priced (rr_cost_usd r)"])
    (auto simp: spend_le_def spend_ok_def task_usd_def f64_add_nonneg f64_add_ge f64_ge_refl or_zero_priced)

lemma record_verification_le:
  "spend_ok s \<Longrightarrow> reviews_priced reviews \<Longrightarrow> spend_le s (record_verification verifying sequence reviews s)"
  by (auto simp: record_verification_def record_reviews_le record_unattributed_le split: option.splits)

lemma spend_step_le: "spend_ok s \<Longrightarrow> body_priced body \<Longrightarrow> spend_le s (fst (spend_step (s, verifying) body))"
  by (cases body)
    (auto simp: spend_record_le record_verification_le record_reviews_le spend_le_refl
      split: option.splits rejection_disposition.splits)

lemma spend_steps_le:
  "spend_ok s \<Longrightarrow> list_all body_priced bodies \<Longrightarrow> spend_le s (fst (foldl spend_step (s, verifying) bodies))"
proof (induction bodies arbitrary: s verifying)
  case (Cons body bodies)
  obtain s' verifying' where step: "spend_step (s, verifying) body = (s', verifying')" by fastforce
  have le: "spend_le s s'" using spend_step_le [of s body verifying] Cons.prems by (simp add: step)
  have "spend_le s' (fst (foldl spend_step (s', verifying') bodies))"
    using Cons.IH [OF spend_le_ok [OF le]] Cons.prems(2) by simp
  with le show ?case by (simp add: step spend_le_trans)
qed (simp add: spend_le_refl)

lemma spend_replay_le:
  assumes "list_all (\<lambda>e. body_priced (ev_body e)) (es @ es')"
  shows "spend_le (spend_replay es) (spend_replay (es @ es'))"
proof -
  obtain s verifying where s: "foldl spend_step (spend_new, None) (map ev_body es) = (s, verifying)" by fastforce
  have priced: "list_all body_priced (map ev_body es)" "list_all body_priced (map ev_body es')"
    using assms by (auto simp: list_all_iff)
  have "spend_ok s" using spend_steps_le [OF spend_new_ok priced(1), of None] by (simp add: s spend_le_ok)
  with spend_steps_le [OF _ priced(2)] show ?thesis by (simp add: spend_replay_def s)
qed

lemma run_breach_stays: "spend_le s s' \<Longrightarrow> run_breach c s \<noteq> None \<Longrightarrow> run_breach c s' \<noteq> None"
  using f64_ge_trans [of "sp_run s'" "sp_run s"]
  by (cases "cl_run_usd c") (auto simp: run_breach_def spend_le_def split: if_splits)

lemma task_breach_stays: "spend_le s s' \<Longrightarrow> task_breach c s key \<noteq> None \<Longrightarrow> task_breach c s' key \<noteq> None"
  using f64_ge_trans [of "task_usd s' key" "task_usd s key"]
  by (cases "cl_task_usd c") (auto simp: task_breach_def spend_le_def split: if_splits)

lemma breach_stays: "spend_le s s' \<Longrightarrow> breach_of c s key \<noteq> None \<Longrightarrow> breach_of c s' key \<noteq> None"
  using run_breach_stays [of s s' c] task_breach_stays [of s s' c key]
  by (auto simp: breach_of_def split: option.splits)

text \<open>
  C34. Reading more of a log never lowers the recorded spend of the run or of a task, and never
  takes a task back under a ceiling it had reached, provided no recorded cost is negative or
  not a number: floating-point rounding does not lose a charge that was already counted.
\<close>

theorem reached_ceiling_stays_reached:
  assumes "list_all (\<lambda>e. body_priced (ev_body e)) (es @ es')"
  shows "f64_ge (sp_run (spend_replay (es @ es'))) (sp_run (spend_replay es)) \<and>
    f64_ge (task_usd (spend_replay (es @ es')) key) (task_usd (spend_replay es) key) \<and>
    (breach_of c (spend_replay es) key = None \<or> breach_of c (spend_replay (es @ es')) key \<noteq> None)"
proof -
  note le = spend_replay_le [OF assms]
  with breach_stays [OF le, of c key] show ?thesis unfolding spend_le_def by blast
qed

text \<open>Two attempts at 1.5 and 0.1 dollars under a ceiling of one dollar and a half per task.\<close>

definition sample_charge :: "f64 \<Rightarrow> topology_event" where
  "sample_charge v =
     \<lparr>ev_ts = [], ev_body = EvCandidatePrepared (sample_prepared\<lparr>cp_attempt := sample_attempt\<lparr>at_cost_usd := Some v\<rparr>\<rparr>)\<rparr>"

definition sample_ceiling :: ceiling where
  "sample_ceiling = \<lparr>cl_run_usd = None, cl_task_usd = Some 0x3FF8000000000000\<rparr>"

lemma sample_charge_spend:
  "list_all (\<lambda>e. body_priced (ev_body e)) [sample_charge 0x3FF8000000000000, sample_charge 0x3FB999999999999A]"
  "task_usd (spend_replay [sample_charge 0x3FF8000000000000]) 0 = 0x3FF8000000000000"
proof -
  show "list_all (\<lambda>e. body_priced (ev_body e)) [sample_charge 0x3FF8000000000000, sample_charge 0x3FB999999999999A]"
    by code_simp
  have "f64_nonneg 0x3FF8000000000000" "\<not> f64_is_infinite 0x3FF8000000000000" by code_simp+
  then have "f64_add f64_zero 0x3FF8000000000000 = 0x3FF8000000000000"
    "f64_add 0x3FF8000000000000 f64_zero = 0x3FF8000000000000"
    by (simp_all add: f64_add_zero)
  then show "task_usd (spend_replay [sample_charge 0x3FF8000000000000]) 0 = 0x3FF8000000000000"
    by (simp add: spend_replay_def sample_charge_def sample_prepared_def sample_attempt_def spend_record_def
        review_cost_usd_def task_usd_charge spend_new_def or_zero_def task_usd_def [of "\<lparr>sp_run = f64_zero, sp_per_task = []\<rparr>"] bt_wf_def bt_get_def
        List.map_filter_def)
qed

theorem reached_ceiling_stays_reached_witness:
  "breach_of sample_ceiling (spend_replay [sample_charge 0x3FF8000000000000]) 0 \<noteq> None \<and>
   breach_of sample_ceiling
     (spend_replay ([sample_charge 0x3FF8000000000000] @ [sample_charge 0x3FB999999999999A])) 0 \<noteq> None"
proof -
  have "f64_ge 0x3FF8000000000000 0x3FF8000000000000" by code_simp
  then have "breach_of sample_ceiling (spend_replay [sample_charge 0x3FF8000000000000]) 0 \<noteq> None"
    by (simp add: breach_of_def run_breach_def task_breach_def sample_ceiling_def sample_charge_spend(2))
  moreover have priced: "list_all (\<lambda>e. body_priced (ev_body e))
      ([sample_charge 0x3FF8000000000000] @ [sample_charge 0x3FB999999999999A])"
    using sample_charge_spend(1) by simp
  ultimately show ?thesis using reached_ceiling_stays_reached [OF priced, of 0 sample_ceiling] by (elim conjE disjE) simp_all
qed

end
