(* ===== verification/Select_Facts.thy ===== *)
theory Select_Facts
  imports Select Spend_Facts Fold_Leases Fold_History
begin

section \<open>The fold accepts what the scheduler offers\<close>

text \<open>
  The scheduler reads the predicates of the fold and the engine then writes an event, which the
  fold checks again. Here the two are shown to agree: for a state a log leads to, the event of
  each offered step passes the fold's checks, and the scheduler never ends its turn while the
  state still admits work.
\<close>

subsection \<open>Acceptance\<close>

text \<open>An attempt of the open generation with the number, rung, binding and session the fold derives.\<close>

definition derived_attempt ::
  "run_state \<Rightarrow> task_key \<Rightarrow> task_entry \<Rightarrow> task_fold \<Rightarrow> generation_fold \<Rightarrow> attempt_started4 \<Rightarrow> bool" where
  "derived_attempt run key entry task g d \<longleftrightarrow>
     as_key d = key \<and> as_generation d = gf_id g \<and> checked_add (gf_attempts g) 1 = Some (as_attempt d) \<and>
     as_rung d = tf_rung task \<and> run_rung_binding run key (tf_rung task) = Some (as_binding d) \<and>
     as_resume_session d = (case gf_class g of RetainedIdle session _ \<Rightarrow> Some session | _ \<Rightarrow> None) \<and>
     (te_lineage entry \<noteq> None) = (as_materialization_observed d \<noteq> None)"

definition accepts_attempt :: "externals \<Rightarrow> run_state \<Rightarrow> task_key \<Rightarrow> generation_id \<Rightarrow> attempt_number option \<Rightarrow> bool" where
  "accepts_attempt x run key generation attempt \<longleftrightarrow>
     (\<exists>entry task g. registry_get (st_registry run) key = Some entry \<and> task_get run key = Some task \<and>
        tf_open task = Some g \<and> gf_id g = generation \<and>
        (\<forall>a. attempt = Some a \<longrightarrow> a = sat_add (gf_attempts g) 1) \<and>
        (\<forall>d. derived_attempt run key entry task g d \<longrightarrow>
           check_started_run x run (EvAttemptStarted d) = Inr DerivedNone))"

definition accepts_dispatch :: "externals \<Rightarrow> run_state \<Rightarrow> bool \<Rightarrow> task_key \<Rightarrow> generation_id \<Rightarrow> bool" where
  "accepts_dispatch x run repair key generation \<longleftrightarrow>
     (\<exists>entry task. registry_get (st_registry run) key = Some entry \<and> task_get run key = Some task \<and>
        (te_origin entry = MergeRepair) = repair \<and> list_all (dep_is_merged run) (te_deps entry) \<and>
        (\<forall>base path source. let d = dispatch_of entry task key base path source in
           td_generation d = generation \<and> check_started_run x run (EvTaskDispatched d) = Inr DerivedNone))"

fun step_accepted :: "externals \<Rightarrow> run_state \<Rightarrow> step \<Rightarrow> bool" where
  "step_accepted x run (StepIntegrate candidate) =
     (\<forall>kind. \<exists>q. check_transaction_start x run kind (st_next_sequence run) candidate = Inr q)"
| "step_accepted x run (StepRetry key generation attempt) = accepts_attempt x run key generation (Some attempt)"
| "step_accepted x run (StepDispatch key generation continuing) =
     (if continuing then accepts_attempt x run key generation None
      else accepts_dispatch x run False key generation)"
| "step_accepted x run (StepRepairDispatch key generation continuing) =
     (if continuing then accepts_attempt x run key generation None
      else accepts_dispatch x run True key generation)"
| "step_accepted x run (StepBudgetExceeded e) =
     (f64_is_finite (b4_limit_usd e) \<and> f64_is_finite (b4_spent_usd e) \<longrightarrow>
        check_started_run x run (EvBudgetExceeded e) = Inr DerivedNone)"
| "step_accepted x run StepBackoff = (\<forall>d. check_started_run x run (EvDeferWaitElapsed d) = Inr DerivedNone)"
| "step_accepted x run (StepHardBlock questions) =
     (questions \<noteq> [] \<and> list_all (\<lambda>q. bt_get (st_questions run) q \<noteq> None) questions)"
| "step_accepted x run (StepClosure (Ending outcome)) =
     (\<forall>merged parked. check_started_run x run (EvRunFinished
        \<lparr>f4_outcome = outcome, f4_halted_at = st_halted_at run, f4_merged = merged, f4_parked = parked\<rparr>) =
        Inr DerivedNone)"
| "step_accepted x run (StepClosure _) = True"
| "step_accepted x run (StepFinished outcome) = (st_finished run = Some outcome)"
| "step_accepted x run StepNotStarted = False"
| "step_accepted x run StepPoisoned = False"

subsection \<open>The fold of a run\<close>

lemma select_replayed:
  assumes "replay x inputs es = Inr f" "fo_run f = Some run"
  shows "\<not> fo_poisoned f" "reachable x inputs run" "registry_inv run"
    "task_get run key = Some t \<Longrightarrow> gens_ok (unat key) (tf_generations t)"
proof -
  show r: "reachable x inputs run" using replay_reachable_run [OF assms] .
  show "registry_inv run" using reachable_registry [OF r] .
  show "\<not> fo_poisoned f" using replay_reachable [OF assms(1)] by (simp add: fold_inv_def)
  show "task_get run key = Some t \<Longrightarrow> gens_ok (unat key) (tf_generations t)"
    using tasks_all_get [OF reachable_gens [OF r]] by (simp add: task_gens_ok_def)
qed

lemma find_map_Some: "find_map f xs = Some y \<Longrightarrow> \<exists>x \<in> set xs. f x = Some y"
  by (induction xs) (auto split: option.splits)

lemma find_map_None: "find_map f xs = None \<longleftrightarrow> (\<forall>x \<in> set xs. f x = None)"
  by (induction xs) (auto split: option.splits)

lemma fold_keys_entry:
  assumes "fo_run f = Some run" "key \<in> set (fold_keys f)"
  obtains entry where "registry_get (st_registry run) key = Some entry"
proof -
  have "unat key < length (rg_entries (st_registry run))"
    using assms by (auto simp: fold_keys_def fold_registry_def registry_len_def unat_of_nat)
  with that show thesis by (auto simp: registry_get_def vec_get_def)
qed

lemma retained_case [simp]:
  "(case c of RetainedIdle _ _ \<Rightarrow> Some z | _ \<Rightarrow> None) = Some r \<longleftrightarrow> (\<exists>a b. c = RetainedIdle a b) \<and> z = r"
  by (cases c) auto

lemma retry_at_Some:
  "retry_at f key = Some r \<Longrightarrow> \<exists>generation task g a b. fold_ready_retry f key \<and>
     fold_open_generation f key = Some generation \<and> fold_task f key = Some task \<and>
     find (\<lambda>held. gf_id held = generation) (tf_generations task) = Some g \<and> gf_class g = RetainedIdle a b \<and>
     r = (key, generation, sat_add (gf_attempts g) 1)"
  by (auto simp: retry_at_def bind_eq_Some_conv split: if_splits)

lemma ready_at_key: "ready_at x f key = Some r \<Longrightarrow> fst r = key"
  by (auto simp: ready_at_def bind_eq_Some_conv split: if_splits option.splits)

lemma first_retry_at:
  assumes "first_ready_retry f = Some (key, generation, attempt)"
  shows "key \<in> set (fold_keys f)" "retry_at f key = Some (key, generation, attempt)"
proof -
  from assms obtain k where k: "k \<in> set (fold_keys f)" "retry_at f k = Some (key, generation, attempt)"
    unfolding first_ready_retry_def by (blast dest: find_map_Some)
  with retry_at_Some [OF k(2)] have "k = key" by auto
  with k show "key \<in> set (fold_keys f)" "retry_at f key = Some (key, generation, attempt)" by auto
qed

lemma first_ready_at:
  assumes "first_ready x f = Some (key, generation, continuing)"
  shows "key \<in> set (fold_keys f)" "ready_at x f key = Some (key, generation, continuing)"
proof -
  from assms obtain k where k: "k \<in> set (fold_keys f)" "ready_at x f k = Some (key, generation, continuing)"
    unfolding first_ready_def by (blast dest: find_map_Some)
  with ready_at_key [OF k(2)] show "key \<in> set (fold_keys f)" "ready_at x f key = Some (key, generation, continuing)"
    by auto
qed

text \<open>Looking a generation up by the id of the open one finds the open one.\<close>

lemma gens_ok_find_id:
  assumes "gens_ok i gs" "find is_open gs = Some g"
  shows "find (\<lambda>held. gf_id held = gf_id g) gs = Some g"
proof -
  from assms have last: "gs \<noteq> []" "g = last gs" by (auto simp: gens_ok_find split: if_splits)
  have "gf_id (gs ! j) \<noteq> gf_id g" if "Suc j < length gs" for j
  proof -
    have j: "unat (gf_id (gs ! j)) = j" using assms(1) that by (simp add: gens_ok_def)
    have "g = gs ! (length gs - 1)" using last by (simp add: last_conv_nth)
    then have "unat (gf_id g) = length gs - 1" using assms(1) last(1) by (simp add: gens_ok_def)
    with j that show ?thesis by (metis Suc_eq_plus1 less_diff_conv nat_neq_iff)
  qed
  then have "find (\<lambda>held. gf_id held = gf_id g) gs =
      (if gs \<noteq> [] \<and> gf_id (last gs) = gf_id g then Some (last gs) else None)"
    by (rule find_last)
  with last show ?thesis by simp
qed

subsection \<open>Each offer\<close>

lemma derived_attempt_accepted:
  assumes "derived_attempt run key entry task g d" "registry_get (st_registry run) key = Some entry"
    and "task_get run key = Some task" "tf_open task = Some g" "\<not> lineage_has_question run key"
    and "gf_class g = OpenNoAttempt \<or> is_retained_now run g" "st_finished run = None"
  shows "check_started_run x run (EvAttemptStarted d) = Inr DerivedNone"
proof -
  have "check_attempt_binding run d entry = Inr ()"
    using assms(1,2) by (auto simp: derived_attempt_def check_attempt_binding_def run_rung_binding_def
        frozen_rung_binding_def matches_frozen_def result_simps Let_def split: option.splits)
  moreover have "check_resumes run d g = Inr ()"
    using assms(1,6) by (auto simp: derived_attempt_def check_resumes_Inr is_retained_now_def
        split: generation_class.splits)
  ultimately have "check_attempt_started run d = Inr ()"
    using assms(1-5) by (auto simp: derived_attempt_def check_attempt_started_def result_simps st_entry_def st_task_def
        open_generation_def Let_def)
  then show ?thesis using assms(7) by (simp add: check_started_run_def check_body_def no_derived_def)
qed

lemma retry_accepted:
  assumes f: "replay x inputs es = Inr f" "fo_run f = Some run" and open': "st_finished run = None"
    and "first_ready_retry f = Some (key, generation, attempt)"
  shows "accepts_attempt x run key generation (Some attempt)"
proof -
  note k = first_retry_at(1) [OF assms(4)]
  obtain entry where entry: "registry_get (st_registry run) key = Some entry"
    using fold_keys_entry [OF f(2) k] .
  from retry_at_Some [OF first_retry_at(2) [OF assms(4)]] obtain task held where
    ready: "ready_retry run key" and gen: "fold_open_generation f key = Some generation" and
    t: "task_get run key = Some task" and
    held: "find (\<lambda>held. gf_id held = generation) (tf_generations task) = Some held"
      "attempt = sat_add (gf_attempts held) 1"
    by (auto simp: fold_ready_retry_def run_holds_def fold_task_def f(2))
  from gen t obtain g where g: "tf_open task = Some g" "gf_id g = generation"
    by (auto simp: fold_open_generation_def fold_task_def f(2) tf_open_def)
  from select_replayed(4) [OF f t] have gens: "gens_ok (unat key) (tf_generations task)" .
  have "held = g" using gens_ok_find_id [OF gens, of g] g held(1) by (simp add: tf_open_def)
  then have "attempt = sat_add (gf_attempts g) 1" using held(2) by simp
  moreover have "\<not> lineage_has_question run key" "is_retained_now run g"
    using ready t g by (simp_all add: ready_retry_def)
  ultimately show ?thesis
    using entry t g derived_attempt_accepted [OF _ entry t g(1) _ _ open', where x = x]
    unfolding accepts_attempt_def by blast
qed

lemma ready_accepted:
  assumes f: "replay x inputs es = Inr f" "fo_run f = Some run" and open': "st_finished run = None"
    and "first_ready x f = Some (key, generation, continuing)"
  shows "if continuing then accepts_attempt x run key generation None
         else accepts_dispatch x run (is_repair f key) key generation"
proof -
  note k = first_ready_at(1) [OF assms(4)] and at = first_ready_at(2) [OF assms(4)]
  obtain entry where entry: "registry_get (st_registry run) key = Some entry"
    using fold_keys_entry [OF f(2) k] .
  note ok = select_replayed(1) [OF f]
  show ?thesis
  proof (cases continuing)
    case True
    with at have "eligible_continuation run key = Some generation"
      by (auto simp: ready_at_def fold_eligible_continuation_def ok f(2) bind_eq_Some_conv split: if_splits option.splits)
    then obtain task g where t: "task_get run key = Some task" and g: "tf_open task = Some g" "gf_id g = generation"
        and "gf_class g = OpenNoAttempt" "\<not> lineage_has_question run key"
      by (auto simp: eligible_continuation_def open_no_attempt_in_def bind_eq_Some_conv split: if_splits option.splits)
    with entry True derived_attempt_accepted [OF _ entry t g(1) _ _ open', where x = x] show ?thesis
      unfolding accepts_attempt_def by auto
  next
    case False
    with at obtain task where ready: "ready x run key" and t: "task_get run key = Some task"
        and len: "length (tf_generations task) < 2 ^ 32" and gen: "generation = of_nat (length (tf_generations task))"
      by (auto simp: ready_at_def fold_ready_def fold_task_def run_holds_def f(2) bind_eq_Some_conv
          split: if_splits option.splits)
    have "check_started_run x run (EvTaskDispatched (dispatch_of entry task key base path source)) = Inr DerivedNone"
      for base path source
      using ready_dispatch_accepted [OF ready t entry len] open'
      by (simp add: check_started_run_def check_body_def no_derived_def)
    moreover have "(te_origin entry = MergeRepair) = is_repair f key"
      by (simp add: is_repair_def fold_registry_def f(2) entry)
    moreover have "list_all (dep_is_merged run) (te_deps entry)" using readyD(9) [OF ready t entry] .
    ultimately show ?thesis using entry t gen False
      unfolding accepts_dispatch_def by (auto simp: Let_def dispatch_of_def)
  qed
qed

lemma breach_accepted:
  assumes "fo_run f = Some run" "st_finished run = None" "run_breach c s = Some b \<or> breach_of c s key = Some b"
    and "case k of None \<Rightarrow> True | Some key \<Rightarrow> key \<in> set (fold_keys f)"
  shows "step_accepted x run (budget_exceeded (st_epoch run) b k)"
proof -
  have "f64_ge (br_spent_usd b) (br_limit_usd b)"
    using assms(3) by (auto simp: breach_of_def run_breach_def task_breach_def split: option.splits if_splits)
  then have "\<not> f64_less (br_spent_usd b) (br_limit_usd b)" by (simp add: f64_ge_def f64_less_def)
  moreover have "(case k of None \<Rightarrow> Inr () | Some key \<Rightarrow>
      res_bind (st_entry run ''budget_exceeded'' key) (\<lambda>_. Inr ())) = (Inr () :: (fold_error, unit) result)"
  proof (cases k)
    case (Some key')
    with assms(4) obtain entry where "registry_get (st_registry run) key' = Some entry"
      using fold_keys_entry [OF assms(1)] by auto
    with Some show ?thesis by (simp add: st_entry_def)
  qed simp
  ultimately show ?thesis
    using assms(2)
    by (simp add: budget_exceeded_def check_started_run_def check_body_def check_budget_exceeded_def no_derived_def)
qed

lemma ceiling_accepted:
  assumes "fo_run f = Some run" "st_finished run = None" "key \<in> set (fold_keys f)" "step_accepted x run offer"
  shows "step_accepted x run (ceiling_or c s (st_epoch run) key offer)"
  using breach_accepted [OF assms(1,2), of c s _ key "Some key"] assms(3,4)
  by (auto simp: ceiling_or_def split: option.splits)

lemma closure_accepted:
  assumes "st_finished run = None"
  shows "step_accepted x run (StepClosure (run_derived_outcome x run))"
  using assms by (cases "run_derived_outcome x run")
    (simp_all add: check_started_run_def check_body_def check_run_finished_def no_derived_def)

subsection \<open>The scheduler\<close>

lemma select_run:
  assumes "fo_run f = Some run" "\<not> fo_poisoned f" "st_finished run = None" "\<not> run_is_ending run"
  shows "select x f c s =
    (case eligible_integration_candidate x run of
       Some candidate \<Rightarrow>
         (case run_breach c s of
            Some b \<Rightarrow> budget_exceeded (st_epoch run) b None | None \<Rightarrow> StepIntegrate candidate)
     | None \<Rightarrow>
       (case first_ready_retry f of
          Some (key, generation, attempt) \<Rightarrow> ceiling_or c s (st_epoch run) key (StepRetry key generation attempt)
        | None \<Rightarrow>
          (case first_ready x f of
             Some (key, generation, continuing) \<Rightarrow>
               if is_repair f key
               then ceiling_or c s (st_epoch run) key (StepRepairDispatch key generation continuing)
               else ceiling_or c s (st_epoch run) key (StepDispatch key generation continuing)
           | None \<Rightarrow>
               if backoff_pending run then StepBackoff
               else if questions_open run then StepHardBlock (bt_keys (st_questions run))
               else StepClosure (run_derived_outcome x run))))"
proof -
  have derived: "fold_derived_outcome x f = run_derived_outcome x run"
    and waits: "select_backoff_pending f = backoff_pending run" "fold_questions_open f = questions_open run"
    and questions: "open_questions f = bt_keys (st_questions run)"
    and integration: "fold_eligible_integration_candidate x f = eligible_integration_candidate x run"
    using assms
    by (simp_all add: fold_derived_outcome_def select_backoff_pending_def fold_run_is_ending_def
        fold_backoff_pending_def fold_questions_open_def run_holds_def open_questions_def
        fold_eligible_integration_candidate_def)
  show ?thesis
    unfolding select_def derived waits questions integration using assms
    by (simp add: fold_finished_def fold_epoch_def fold_run_is_ending_def run_holds_def)
qed

lemma select_ending:
  assumes "fo_run f = Some run" "\<not> fo_poisoned f" "st_finished run = None" "run_is_ending run"
  shows "select x f c s = StepClosure (run_derived_outcome x run)"
  using assms
  by (simp add: select_def fold_finished_def fold_epoch_def fold_run_is_ending_def run_holds_def fold_derived_outcome_def)

lemma select_finished:
  "fo_run f = Some run \<Longrightarrow> \<not> fo_poisoned f \<Longrightarrow> st_finished run = Some outcome \<Longrightarrow>
   select x f c s = StepFinished outcome"
  by (simp add: select_def fold_finished_def)

lemma integration_accepted:
  "eligible_integration_candidate x run = Some candidate \<Longrightarrow> step_accepted x run (StepIntegrate candidate)"
  by (auto simp: eligible_integration_candidate_def check_transaction_start_def split: if_splits)

lemma waiting_accepted:
  assumes "st_finished run = None" "\<not> run_is_ending run"
  shows "step_accepted x run StepBackoff"
    "questions_open run \<Longrightarrow> step_accepted x run (StepHardBlock (bt_keys (st_questions run)))"
  using assms
  by (auto simp: check_started_run_def check_body_def check_defer_wait_elapsed_def no_derived_def run_is_ending_def
      questions_open_def bt_keys_def bt_get_def list_all_iff map_of_eq_None_iff)

text \<open>
  C32. Whatever step the scheduler offers in a state a log leads to, the fold accepts the event
  the engine writes for it: a dispatch is of the next generation of a task whose dependencies
  are merged, an attempt continues or retries the open generation under the derived binding,
  an integration starts the next sequence with the first eligible candidate, a budget stop
  with finite amounts, an elapsed wait and the closing of the run all pass their checks, and a
  wait for a human names open questions only.
\<close>

theorem select_offers_are_accepted:
  assumes "replay x inputs es = Inr f" "fo_run f = Some run"
  shows "step_accepted x run (select x f c s)"
proof (cases "st_finished run")
  case (Some outcome)
  then show ?thesis using select_finished select_replayed(1) [OF assms] assms(2) by simp
next
  case open': None
  note f = assms(2) select_replayed(1) [OF assms] open'
  show ?thesis
  proof (cases "run_is_ending run")
    case True
    then show ?thesis using select_ending [OF f] closure_accepted [OF open'] by simp
  next
    case False
    have retry: "step_accepted x run (ceiling_or c s (st_epoch run) key (StepRetry key generation attempt))"
      if "first_ready_retry f = Some (key, generation, attempt)" for key generation attempt
      using retry_accepted [OF assms open' that] first_retry_at(1) [OF that]
      by (intro ceiling_accepted [OF assms(2) open']) simp_all
    have dispatch: "step_accepted x run (if is_repair f key
        then ceiling_or c s (st_epoch run) key (StepRepairDispatch key generation continuing)
        else ceiling_or c s (st_epoch run) key (StepDispatch key generation continuing))"
      if "first_ready x f = Some (key, generation, continuing)" for key generation continuing
      using ready_accepted [OF assms open' that] first_ready_at(1) [OF that]
      by (auto intro!: ceiling_accepted [OF assms(2) open'] split: if_splits)
    show ?thesis
      unfolding select_run [OF f False]
      using integration_accepted [of x run] breach_accepted [OF assms(2) open', of c s _ _ None x]
        retry dispatch waiting_accepted [OF open' False, of x] closure_accepted [OF open', of x]
      by (simp split: option.split prod.split del: step_accepted.simps)
  qed
qed

lemma ready_offered:
  assumes "fo_run f = Some run" "\<not> fo_poisoned f" "ready x run key"
    and "list_all (\<lambda>t. length (tf_generations t) < 2 ^ 32) (st_tasks run)"
  shows "ready_at x f key \<noteq> None"
proof -
  from assms(3) obtain task where t: "task_get run key = Some task" by (auto simp: ready_def split: option.splits)
  then have "task \<in> set (st_tasks run)" by (auto simp: task_get_def vec_get_def split: if_splits)
  with assms(4) have "length (tf_generations task) < 2 ^ 32" by (simp add: list_all_iff)
  with assms(1-3) t show ?thesis
    by (auto simp: ready_at_def fold_ready_def fold_task_def split: option.splits)
qed

lemma retry_offered:
  assumes "replay x inputs es = Inr f" "fo_run f = Some run" "ready_retry run key"
  shows "retry_at f key \<noteq> None"
proof -
  from assms(3) obtain task g where t: "task_get run key = Some task" "tf_open task = Some g" "is_retained_now run g"
    by (auto simp: ready_retry_def split: option.splits)
  have "find (\<lambda>held. gf_id held = gf_id g) (tf_generations task) = Some g"
    using gens_ok_find_id [OF select_replayed(4) [OF assms(1,2) t(1)]] t(2) by (simp add: tf_open_def)
  with assms(2,3) select_replayed(1) [OF assms(1,2)] t show ?thesis
    by (auto simp: retry_at_def fold_ready_retry_def run_holds_def fold_task_def fold_open_generation_def
        tf_open_def is_retained_now_def split: generation_class.splits)
qed

text \<open>
  C33. The scheduler never gives up a turn it could use: when it answers that the run is
  neither ending nor has anything to do, some generation is still open or an integration
  transaction is, so an event is still to come. In particular no ready task, retry,
  integration, elapsed back-off or question is overlooked.
\<close>

theorem select_idles_only_on_open_work:
  assumes "replay x inputs es = Inr f" "fo_run f = Some run"
    and "list_all (\<lambda>t. length (tf_generations t) < 2 ^ 32) (st_tasks run)"
    and "select x f c s = StepClosure NotEnding"
  shows "\<not> run_common run"
proof
  assume common: "run_common run"
  note ok = select_replayed(1) [OF assms(1,2)]
  have open': "st_finished run = None"
    using assms(4) select_finished [OF assms(2) ok] by (cases "st_finished run") auto
  show False
  proof (cases "run_is_ending run")
    case True
    with select_ending [OF assms(2) ok open' True] assms(4) common show False
      by (simp add: run_derived_outcome_def run_is_ending_def split: if_splits)
  next
    case False
    from assms(4) [unfolded select_run [OF assms(2) ok open' False]]
    have none: "eligible_integration_candidate x run = None" "first_ready_retry f = None" "first_ready x f = None"
        "\<not> backoff_pending run" and "run_derived_outcome x run = NotEnding"
      by (auto simp: ceiling_or_def budget_exceeded_def split: option.splits if_splits prod.splits)
    then have "structurally_admissible x run"
      using common False by (auto simp: run_derived_outcome_def run_is_ending_def split: if_splits)
    then obtain i where i: "i < min (length (st_tasks run)) (2 ^ 32 - 1)"
        "ready x run (of_nat i) \<or> ready_retry run (of_nat i)"
      using none(1) by (auto simp: structurally_admissible_def integration_admissible_def list_ex_iff)
    have "length (st_tasks run) = registry_len (st_registry run)"
      using select_replayed(3) [OF assms(1,2)] by (simp add: registry_inv_def registry_len_def)
    with i(1) have key: "of_nat i \<in> set (fold_keys f)"
      by (auto simp: fold_keys_def fold_registry_def assms(2))
    from i(2) show False
    proof
      assume ready: "ready x run (of_nat i)"
      from ready_offered [OF assms(2) ok ready assms(3)] none(3) key show False
        by (simp add: first_ready_def find_map_None)
    next
      assume retry: "ready_retry run (of_nat i)"
      from retry_offered [OF assms(1,2) retry] none(2) key show False
        by (simp add: first_ready_retry_def find_map_None)
    qed
  qed
qed

subsection \<open>The sample run\<close>

theorem select_offers_are_accepted_witness:
  "select sample_x (sample_fold sample_fresh) unlimited spend_new = StepDispatch 0 0 False \<and>
   step_accepted sample_x sample_fresh (select sample_x (sample_fold sample_fresh) unlimited spend_new)"
proof -
  have log: "replay sample_x sample_inputs [\<lparr>ev_ts = [], ev_body = EvRunStarted sample_started4\<rparr>] = Inr (sample_fold sample_fresh)"
    by (simp only: sample_fold_start replay_from.simps(1))
  have "select sample_x (sample_fold sample_fresh) unlimited spend_new = StepDispatch 0 0 False" by code_simp
  with select_offers_are_accepted [OF log, of sample_fresh unlimited spend_new] show ?thesis by simp
qed

theorem select_idles_only_on_open_work_witness:
  "select sample_x (sample_fold sample_flying) unlimited spend_new = StepClosure NotEnding \<and>
   \<not> run_common sample_flying"
proof -
  have log: "replay sample_x sample_inputs (map (\<lambda>b. \<lparr>ev_ts = [], ev_body = b\<rparr>)
      [EvRunStarted sample_started4, EvTaskDispatched sample_dispatched, EvAttemptStarted sample_attempt_started]) =
      Inr (sample_fold sample_flying)"
    unfolding list.map
    by (simp only: sample_fold_start sample_fold_step [OF sample_step_open] sample_fold_step [OF sample_step_flying]
        topology_event_body.distinct replay_from.simps(1) simp_thms)
  have idle: "select sample_x (sample_fold sample_flying) unlimited spend_new = StepClosure NotEnding" by code_simp
  have "list_all (\<lambda>t. length (tf_generations t) < 2 ^ 32) (st_tasks sample_flying)" by code_simp
  from select_idles_only_on_open_work [OF log _ this idle] idle show ?thesis by simp
qed

end
