(* ===== verification/Permits.thy ===== *)
theory Permits
  imports Select "HOL-Library.Product_Lexorder"
begin

section \<open>Permits (src/engine/topology/identity.rs, src/engine/topology/permits.rs)\<close>

text \<open>
  The engine runs several pipelines at once and never waits for a resource it holds part of.
  Three ledgers keep the account: the slot table grants atomic pairs of an agent slot and a
  pool slot in order of request, with back-fill behind a blocked head; the invocation ledger
  registers each process once and settles it once; the reservations hold the entitlements of
  work that is selected but not yet in the log. Refusals keep their case and the values they
  print.
\<close>

subsection \<open>The order of identities\<close>

text \<open>\<^verbatim>\<open>derive(Ord)\<close>: the variant first, then the fields from left to right.\<close>

fun attempt_role_rank :: "attempt_role \<Rightarrow> nat list" where
  "attempt_role_rank RoleWorker = [0, 0]"
| "attempt_role_rank (RoleGate n) = [1, unat n]"
| "attempt_role_rank (RoleReviewPass n) = [2, unat n]"
| "attempt_role_rank (RoleReviewReask n) = [3, unat n]"

fun sequence_role_rank :: "sequence_role \<Rightarrow> nat list" where
  "sequence_role_rank (SeqGate n) = [0, unat n]"
| "sequence_role_rank (SeqReviewPass n) = [1, unat n]"
| "sequence_role_rank (SeqReviewReask n) = [2, unat n]"

fun invocation_rank :: "invocation_id \<Rightarrow> nat list \<times> string \<times> nat" where
  "invocation_rank (InvAttempt key generation attempt role ordinal) =
     ([0, unat key, unat generation, unat attempt] @ attempt_role_rank role @ [unat ordinal], [], 0)"
| "invocation_rank (InvSequence sequence role ordinal) =
     ([1, unat sequence] @ sequence_role_rank role @ [unat ordinal], [], 0)"
| "invocation_rank (InvProbe (ProbeAgent agent) ordinal) = ([2, 0], agent, unat ordinal)"
| "invocation_rank (InvProbe ProbeShell ordinal) = ([2, 1], [], unat ordinal)"

lemma attempt_role_rank_inj [simp]: "attempt_role_rank a = attempt_role_rank b \<longleftrightarrow> a = b"
  by (cases a; cases b) (auto simp: word_unat_eq_iff)

lemma sequence_role_rank_inj [simp]: "sequence_role_rank a = sequence_role_rank b \<longleftrightarrow> a = b"
  by (cases a; cases b) (auto simp: word_unat_eq_iff)

lemma role_rank_length [simp]: "length (attempt_role_rank a) = 2" "length (sequence_role_rank s) = 2"
  by (cases a; simp) (cases s; simp)

lemma invocation_rank_inj [simp]: "invocation_rank a = invocation_rank b \<longleftrightarrow> a = b"
  by (cases a rule: invocation_rank.cases; cases b rule: invocation_rank.cases) (auto simp: word_unat_eq_iff)

instantiation invocation_id :: linorder
begin

definition less_eq_invocation_id :: "invocation_id \<Rightarrow> invocation_id \<Rightarrow> bool" where
  "less_eq_invocation_id a b \<longleftrightarrow> invocation_rank a \<le> invocation_rank b"

definition less_invocation_id :: "invocation_id \<Rightarrow> invocation_id \<Rightarrow> bool" where
  "less_invocation_id a b \<longleftrightarrow> invocation_rank a < invocation_rank b"

instance
proof
  fix x y z :: invocation_id
  show "x < y \<longleftrightarrow> x \<le> y \<and> \<not> y \<le> x"
    unfolding less_eq_invocation_id_def less_invocation_id_def by (rule less_le_not_le)
  show "x \<le> x" by (simp add: less_eq_invocation_id_def)
  show "x \<le> y \<Longrightarrow> y \<le> z \<Longrightarrow> x \<le> z"
    unfolding less_eq_invocation_id_def by (rule order_trans)
  show "x \<le> y \<Longrightarrow> y \<le> x \<Longrightarrow> x = y"
    unfolding less_eq_invocation_id_def by (metis antisym invocation_rank_inj)
  show "x \<le> y \<or> y \<le> x" unfolding less_eq_invocation_id_def by (rule linear)
qed

end

subsection \<open>Identities of one pipeline\<close>

record attempt_identities =
  ids_key :: task_key
  ids_generation :: generation_id
  ids_attempt :: attempt_number

definition attempt_identity :: "attempt_identities \<Rightarrow> attempt_role \<Rightarrow> u32 \<Rightarrow> invocation_id" where
  "attempt_identity ids role ordinal =
     InvAttempt (ids_key ids) (ids_generation ids) (ids_attempt ids) role ordinal"

definition worker_identity :: "attempt_identities \<Rightarrow> invocation_id" where
  "worker_identity ids = attempt_identity ids RoleWorker 0"

definition gate_identity :: "attempt_identities \<Rightarrow> u32 \<Rightarrow> u32 \<Rightarrow> invocation_id" where
  "gate_identity ids gate ordinal = attempt_identity ids (RoleGate gate) ordinal"

definition review_pass_identity :: "attempt_identities \<Rightarrow> u32 \<Rightarrow> u32 \<Rightarrow> invocation_id" where
  "review_pass_identity ids pass ordinal = attempt_identity ids (RoleReviewPass pass) ordinal"

definition review_reask_identity :: "attempt_identities \<Rightarrow> u32 \<Rightarrow> u32 \<Rightarrow> invocation_id" where
  "review_reask_identity ids reask ordinal = attempt_identity ids (RoleReviewReask reask) ordinal"

definition preflight_shell :: "u32 \<Rightarrow> (invocation_refusal, invocation_id) result" where
  "preflight_shell ordinal = invocation_probe ProbeShell ordinal"

definition preflight_agent :: "string \<Rightarrow> u32 \<Rightarrow> (invocation_refusal, invocation_id) result" where
  "preflight_agent agent ordinal = invocation_probe (ProbeAgent agent) ordinal"

fun is_slotted :: "invocation_id \<Rightarrow> bool" where
  "is_slotted (InvAttempt _ _ _ role _) = (case role of RoleGate _ \<Rightarrow> False | _ \<Rightarrow> True)"
| "is_slotted (InvSequence _ role _) = (case role of SeqGate _ \<Rightarrow> False | _ \<Rightarrow> True)"
| "is_slotted (InvProbe target _) = (case target of ProbeAgent _ \<Rightarrow> True | ProbeShell \<Rightarrow> False)"

subsection \<open>Refusals\<close>

record slot_pair =
  pr_agent :: string
  pr_pool :: "string option"

datatype reservation_kind = ReserveDispatch | ReserveRetry | ReserveIntegration

datatype permit_refusal =
    ZeroSlotLimit string
  | ReservationHeld task_key reservation_kind task_key reservation_kind
  | TaskReserved task_key reservation_kind reservation_kind
  | ReservationPoisoned task_key reservation_kind
  | PipelineFull task_key reservation_kind nat nat u32
  | MergeHeld task_key nat nat
  | OtherReservation task_key reservation_kind reservation_kind string
  | NeverReserved task_key reservation_kind string
  | RegistersWithPair invocation_id
  | AcquiresNoSlot invocation_id
  | StandingRefused standing_refusal
  | AlreadyRegistered string
  | NeverRegistered string
  | StillWaiting string
  | WouldWait invocation_id slot_pair "invocation_id list" "invocation_id option" "permit_refusal option"

subsection \<open>The slot table\<close>

record slot_limits =
  lm_per_agent :: u32
  lm_per_pool :: u32

definition WIDTH_ONE :: slot_limits where
  "WIDTH_ONE = \<lparr>lm_per_agent = 1, lm_per_pool = 1\<rparr>"

definition slot_limits_new :: "u32 \<Rightarrow> u32 \<Rightarrow> (permit_refusal, slot_limits) result" where
  "slot_limits_new per_agent per_pool =
     (if per_agent = 0 then Inl (ZeroSlotLimit ''max_per_agent'')
      else if per_pool = 0 then Inl (ZeroSlotLimit ''max_per_pool'')
      else Inr \<lparr>lm_per_agent = per_agent, lm_per_pool = per_pool\<rparr>)"

definition slot_limits_defaulted :: "u32 \<Rightarrow> slot_limits" where
  "slot_limits_defaulted max_parallel =
     (let limit = if max_parallel = 0 then 1 else max_parallel in \<lparr>lm_per_agent = limit, lm_per_pool = limit\<rparr>)"

record slot_table =
  sl_limits :: slot_limits
  sl_holders :: "(invocation_id, slot_pair) btree_map"
  sl_pending :: "(invocation_id \<times> slot_pair) list"
  sl_granted :: u32
  sl_released :: u32

definition slot_table_with_limits :: "slot_limits \<Rightarrow> slot_table" where
  "slot_table_with_limits limits =
     \<lparr>sl_limits = limits, sl_holders = [], sl_pending = [], sl_granted = 0, sl_released = 0\<rparr>"

definition slot_table_new :: slot_table where
  "slot_table_new = slot_table_with_limits WIDTH_ONE"

definition count_u32 :: "nat \<Rightarrow> u32" where
  "count_u32 n = (if n < 2 ^ 32 then of_nat n else - 1)"

definition held_by_agent :: "slot_table \<Rightarrow> string \<Rightarrow> u32" where
  "held_by_agent t agent = count_u32 (length (filter (\<lambda>held. pr_agent held = agent) (bt_values (sl_holders t))))"

definition held_by_pool :: "slot_table \<Rightarrow> string \<Rightarrow> u32" where
  "held_by_pool t pool = count_u32 (length (filter (\<lambda>held. pr_pool held = Some pool) (bt_values (sl_holders t))))"

definition slot_room :: "u32 \<Rightarrow> bool \<Rightarrow> u32 \<Rightarrow> bool" where
  "slot_room held reserved limit \<longleftrightarrow> sat_add held (if reserved then 1 else 0) < limit"

definition slot_fits :: "slot_table \<Rightarrow> slot_pair \<Rightarrow> slot_pair option \<Rightarrow> bool" where
  "slot_fits t pair reserved \<longleftrightarrow>
     (let agent_reserved = (case reserved of None \<Rightarrow> False | Some head \<Rightarrow> pr_agent head = pr_agent pair) in
      slot_room (held_by_agent t (pr_agent pair)) agent_reserved (lm_per_agent (sl_limits t))) \<and>
     (case pr_pool pair of
        None \<Rightarrow> True
      | Some pool \<Rightarrow>
          slot_room (held_by_pool t pool) (Option.bind reserved pr_pool = Some pool) (lm_per_pool (sl_limits t)))"

definition slot_grant :: "invocation_id \<Rightarrow> slot_pair \<Rightarrow> slot_table \<Rightarrow> slot_table" where
  "slot_grant invocation pair t =
     t\<lparr>sl_holders := bt_insert invocation pair (sl_holders t), sl_granted := sat_add (sl_granted t) 1\<rparr>"

text \<open>The two loops of \<^verbatim>\<open>pump\<close>: the front of the queue while it fits, then the rest behind it.\<close>

function pump_front :: "slot_table \<Rightarrow> invocation_id list \<Rightarrow> slot_table \<times> invocation_id list" where
  "pump_front t granted =
     (case sl_pending t of
        [] \<Rightarrow> (t, granted)
      | (invocation, pair) # rest \<Rightarrow>
          if \<not> slot_fits t pair None then (t, granted)
          else pump_front (slot_grant invocation pair (t\<lparr>sl_pending := rest\<rparr>)) (granted @ [invocation]))"
  by pat_completeness auto
termination
  by (relation "measure (\<lambda>(t, _). length (sl_pending t))") (auto simp: slot_grant_def)

declare pump_front.simps [simp del]

function pump_back :: "slot_table \<Rightarrow> slot_pair \<Rightarrow> nat \<Rightarrow> invocation_id list \<Rightarrow> slot_table \<times> invocation_id list" where
  "pump_back t reserved index granted =
     (case vec_get (sl_pending t) index of
        None \<Rightarrow> (t, granted)
      | Some (invocation, pair) \<Rightarrow>
          if slot_fits t pair (Some reserved)
          then pump_back
                 (slot_grant invocation pair
                    (t\<lparr>sl_pending := take index (sl_pending t) @ drop (Suc index) (sl_pending t)\<rparr>))
                 reserved index (granted @ [invocation])
          else pump_back t reserved (Suc index) granted)"
  by pat_completeness auto
termination
  by (relation "measure (\<lambda>(t, _, index, _). length (sl_pending t) - index)")
    (auto simp: slot_grant_def vec_get_def split: if_splits)

declare pump_back.simps [simp del]

definition slot_pump :: "slot_table \<Rightarrow> slot_table \<times> invocation_id list" where
  "slot_pump t =
     (case pump_front t [] of (t', granted) \<Rightarrow>
        (case sl_pending t' of
           [] \<Rightarrow> (t', granted)
         | (_, reserved) # _ \<Rightarrow> pump_back t' reserved 1 granted))"

definition slot_enqueue :: "invocation_id \<Rightarrow> slot_pair \<Rightarrow> slot_table \<Rightarrow> slot_table \<times> invocation_id list" where
  "slot_enqueue invocation pair t = slot_pump (t\<lparr>sl_pending := sl_pending t @ [(invocation, pair)]\<rparr>)"

definition slot_holds :: "slot_table \<Rightarrow> invocation_id \<Rightarrow> bool" where
  "slot_holds t invocation \<longleftrightarrow> bt_get (sl_holders t) invocation \<noteq> None"

definition slot_release :: "invocation_id \<Rightarrow> slot_table \<Rightarrow> (slot_table \<times> invocation_id list) option" where
  "slot_release invocation t =
     (if \<not> slot_holds t invocation then None
      else Some (slot_pump
             (t\<lparr>sl_holders := bt_remove invocation (sl_holders t), sl_released := sat_add (sl_released t) 1\<rparr>)))"

fun remove_first :: "('a \<Rightarrow> bool) \<Rightarrow> 'a list \<Rightarrow> 'a list option" where
  "remove_first p [] = None"
| "remove_first p (x # xs) = (if p x then Some xs else map_option (\<lambda>ys. x # ys) (remove_first p xs))"

definition slot_withdraw :: "invocation_id \<Rightarrow> slot_table \<Rightarrow> (slot_table \<times> invocation_id list) option" where
  "slot_withdraw invocation t =
     map_option (\<lambda>rest. slot_pump (t\<lparr>sl_pending := rest\<rparr>))
       (remove_first (\<lambda>(waiting, _). waiting = invocation) (sl_pending t))"

definition slot_withdraw_all :: "slot_table \<Rightarrow> slot_table \<times> invocation_id list" where
  "slot_withdraw_all t = (t\<lparr>sl_pending := []\<rparr>, map fst (sl_pending t))"

definition slot_is_pending :: "slot_table \<Rightarrow> invocation_id \<Rightarrow> bool" where
  "slot_is_pending t invocation = list_ex (\<lambda>(waiting, _). waiting = invocation) (sl_pending t)"

definition slot_head :: "slot_table \<Rightarrow> invocation_id option" where
  "slot_head t = (case sl_pending t of [] \<Rightarrow> None | (invocation, _) # _ \<Rightarrow> Some invocation)"

definition slot_blocking :: "slot_table \<Rightarrow> slot_pair \<Rightarrow> invocation_id list" where
  "slot_blocking t pair =
     map fst (filter (\<lambda>(_, held). pr_agent held = pr_agent pair \<or>
        (pr_pool held \<noteq> None \<and> pr_pool held = pr_pool pair)) (sl_holders t))"

definition slot_is_empty :: "slot_table \<Rightarrow> bool" where
  "slot_is_empty t \<longleftrightarrow> sl_holders t = [] \<and> sl_pending t = []"

definition slot_balances :: "slot_table \<Rightarrow> bool" where
  "slot_balances t \<longleftrightarrow> sl_granted t = sl_released t \<and> slot_is_empty t"

subsection \<open>Reservations\<close>

fun reservation_entitlements :: "reservation_kind \<Rightarrow> u32" where
  "reservation_entitlements ReserveDispatch = 1"
| "reservation_entitlements ReserveRetry = 1"
| "reservation_entitlements ReserveIntegration = 2"

definition holds_merge :: "reservation_kind \<Rightarrow> bool" where
  "holds_merge kind \<longleftrightarrow> kind = ReserveIntegration"

record reservations =
  rv_held :: "(task_key, reservation_kind) btree_map"
  rv_taken_ever :: "(task_key \<times> reservation_kind) list"
  rv_peak :: nat
  rv_taken :: u32
  rv_converted :: u32
  rv_cancelled :: u32
  rv_duplicates :: u32

definition reservations_new :: reservations where
  "reservations_new =
     \<lparr>rv_held = [], rv_taken_ever = [], rv_peak = 0, rv_taken = 0, rv_converted = 0, rv_cancelled = 0,
      rv_duplicates = 0\<rparr>"

definition pipeline_outstanding :: "reservations \<Rightarrow> nat" where
  "pipeline_outstanding r = length (rv_held r)"

definition merge_outstanding :: "reservations \<Rightarrow> nat" where
  "merge_outstanding r = length (filter holds_merge (bt_values (rv_held r)))"

definition entitlements_held :: "reservations \<Rightarrow> u32" where
  "entitlements_held r = foldl sat_add 0 (map reservation_entitlements (bt_values (rv_held r)))"

definition reservation_hold :: "task_key \<Rightarrow> reservation_kind \<Rightarrow> reservations \<Rightarrow> reservations" where
  "reservation_hold key kind r =
     (let held = bt_insert key kind (rv_held r) in
      r\<lparr>rv_held := held, rv_taken_ever := List.insert (key, kind) (rv_taken_ever r),
        rv_taken := sat_add (rv_taken r) 1, rv_peak := max (rv_peak r) (length held)\<rparr>)"

definition reservation_take ::
  "task_key \<Rightarrow> reservation_kind \<Rightarrow> reservations \<Rightarrow> (permit_refusal, reservations) result" where
  "reservation_take key kind r =
     (case rv_held r of
        (held, held_kind) # _ \<Rightarrow> Inl (ReservationHeld held held_kind key kind)
      | [] \<Rightarrow> Inr (reservation_hold key kind r))"

definition reservation_reserve ::
  "task_key \<Rightarrow> reservation_kind \<Rightarrow> entitlements \<Rightarrow> reservations \<Rightarrow> (permit_refusal, reservations) result" where
  "reservation_reserve key kind derived r =
     (case bt_get (rv_held r) key of
        Some held_kind \<Rightarrow> Inl (TaskReserved key held_kind kind)
      | None \<Rightarrow>
          if en_poisoned derived then Inl (ReservationPoisoned key kind)
          else if unat (en_max_parallel derived) \<le> en_pipeline_held derived + pipeline_outstanding r
          then Inl (PipelineFull key kind (en_pipeline_held derived) (pipeline_outstanding r) (en_max_parallel derived))
          else if holds_merge kind \<and> MERGE_ENTITLEMENTS \<le> en_merge_held derived + merge_outstanding r
          then Inl (MergeHeld key (en_merge_held derived) (merge_outstanding r))
          else Inr (reservation_hold key kind r))"

definition reservation_settle ::
  "task_key \<Rightarrow> reservation_kind \<Rightarrow> string \<Rightarrow> reservations \<Rightarrow> (permit_refusal, reservations \<times> bool) result" where
  "reservation_settle key kind verb r =
     (case bt_get (rv_held r) key of
        Some held_kind \<Rightarrow>
          if held_kind = kind then Inr (r\<lparr>rv_held := bt_remove key (rv_held r)\<rparr>, True)
          else Inl (OtherReservation key kind held_kind verb)
      | None \<Rightarrow>
          if (key, kind) \<in> set (rv_taken_ever r)
          then Inr (r\<lparr>rv_duplicates := sat_add (rv_duplicates r) 1\<rparr>, False)
          else Inl (NeverReserved key kind verb))"

definition reservation_convert ::
  "task_key \<Rightarrow> reservation_kind \<Rightarrow> reservations \<Rightarrow> (permit_refusal, reservations) result" where
  "reservation_convert key kind r =
     res_bind (reservation_settle key kind ''converted'' r) (\<lambda>(r', settled).
     Inr (if settled then r'\<lparr>rv_converted := sat_add (rv_converted r') 1\<rparr> else r'))"

definition reservation_cancel ::
  "task_key \<Rightarrow> reservation_kind \<Rightarrow> reservations \<Rightarrow> (permit_refusal, reservations) result" where
  "reservation_cancel key kind r =
     res_bind (reservation_settle key kind ''cancelled'' r) (\<lambda>(r', settled).
     Inr (if settled then r'\<lparr>rv_cancelled := sat_add (rv_cancelled r') 1\<rparr> else r'))"

definition reservation_cancel_all :: "reservations \<Rightarrow> reservations \<times> nat" where
  "reservation_cancel_all r =
     (let outstanding = length (rv_held r) in
      (r\<lparr>rv_held := [], rv_cancelled := sat_add (rv_cancelled r) (count_u32 outstanding)\<rparr>, outstanding))"

definition reservation_balances :: "reservations \<Rightarrow> bool" where
  "reservation_balances r \<longleftrightarrow> rv_taken r = sat_add (rv_converted r) (rv_cancelled r) \<and> rv_held r = []"

subsection \<open>The invocation ledger\<close>

datatype slot_admission = AdmissionRunnable | AdmissionGranted | AdmissionPending

datatype process_fate = NeverStarted | ProcessGone | ProcessUnresolved

datatype invocation_end = EndCompleted | EndFailed process_fate string

fun end_unresolved :: "invocation_end \<Rightarrow> bool" where
  "end_unresolved (EndFailed ProcessUnresolved _) = True"
| "end_unresolved _ = False"

datatype registration = RegPending | RegRunning | RegCompleted | RegCancelled

datatype ledger_settlement = SettledCompleted | SettledCancelled

record ledger_entry =
  le_invocation :: invocation_id
  le_state :: registration

datatype ledger_ends = EndsInline | EndsReported

record invocation_ledger =
  ld_entries :: "(string, ledger_entry) btree_map"
  ld_duplicates :: u32
  ld_slots :: slot_table
  ld_ends :: ledger_ends

definition ledger_with_limits :: "slot_limits \<Rightarrow> invocation_ledger" where
  "ledger_with_limits limits =
     \<lparr>ld_entries = [], ld_duplicates = 0, ld_slots = slot_table_with_limits limits, ld_ends = EndsInline\<rparr>"

definition ledger_for_pipelines :: "slot_limits \<Rightarrow> invocation_ledger" where
  "ledger_for_pipelines limits = (ledger_with_limits limits)\<lparr>ld_ends := EndsReported\<rparr>"

definition set_registration :: "registration \<Rightarrow> invocation_ledger \<Rightarrow> invocation_id \<Rightarrow> invocation_ledger" where
  "set_registration state l invocation =
     (case bt_get (ld_entries l) (invocation_render invocation) of
        None \<Rightarrow> l
      | Some entry \<Rightarrow>
          l\<lparr>ld_entries := bt_insert (invocation_render invocation) (entry\<lparr>le_state := state\<rparr>) (ld_entries l)\<rparr>)"

definition ledger_open ::
  "invocation_id \<Rightarrow> registration \<Rightarrow> invocation_ledger \<Rightarrow> (permit_refusal, invocation_ledger) result" where
  "ledger_open invocation state l =
     (let key = invocation_render invocation in
      if bt_get (ld_entries l) key \<noteq> None then Inl (AlreadyRegistered key)
      else Inr (l\<lparr>ld_entries :=
             bt_insert key \<lparr>le_invocation = invocation, le_state = state\<rparr> (ld_entries l)\<rparr>))"

definition run_granted :: "invocation_id list \<Rightarrow> invocation_ledger \<Rightarrow> invocation_ledger" where
  "run_granted granted l = foldl (set_registration RegRunning) l granted"

definition ledger_register :: "invocation_id \<Rightarrow> invocation_ledger \<Rightarrow> (permit_refusal, invocation_ledger) result" where
  "ledger_register invocation l =
     (if is_slotted invocation then Inl (RegistersWithPair invocation) else ledger_open invocation RegRunning l)"

definition ledger_register_slotted ::
  "invocation_id \<Rightarrow> slot_pair \<Rightarrow> standing \<Rightarrow> invocation_ledger \<Rightarrow>
     (permit_refusal, invocation_ledger \<times> slot_admission) result" where
  "ledger_register_slotted invocation pair standing' l =
     (if \<not> is_slotted invocation then Inl (AcquiresNoSlot invocation)
      else (case standing_admits standing' invocation of
              Inl refused \<Rightarrow> Inl (StandingRefused refused)
            | Inr _ \<Rightarrow>
                res_bind (ledger_open invocation RegPending l) (\<lambda>l'.
                case slot_enqueue invocation pair (ld_slots l') of (slots, granted) \<Rightarrow>
                  Inr (run_granted granted (l'\<lparr>ld_slots := slots\<rparr>),
                       if slot_holds slots invocation then AdmissionGranted else AdmissionPending))))"

definition ledger_settle ::
  "invocation_id \<Rightarrow> ledger_settlement \<Rightarrow> invocation_ledger \<Rightarrow>
     (permit_refusal, invocation_ledger \<times> invocation_id list) result" where
  "ledger_settle invocation to l =
     (let key = invocation_render invocation;
          finish = (\<lambda>state slots.
            (let l' = set_registration state l invocation in
             case slots of
               None \<Rightarrow> (l', [])
             | Some (slots', granted) \<Rightarrow> (run_granted granted (l'\<lparr>ld_slots := slots'\<rparr>), granted))) in
      case bt_get (ld_entries l) key of
        None \<Rightarrow> Inl (NeverRegistered key)
      | Some entry \<Rightarrow>
          (case (le_state entry, to) of
             (RegPending, SettledCompleted) \<Rightarrow> Inl (StillWaiting key)
           | (RegPending, SettledCancelled) \<Rightarrow> Inr (finish RegCancelled (slot_withdraw invocation (ld_slots l)))
           | (RegRunning, _) \<Rightarrow>
               Inr (finish (case to of SettledCompleted \<Rightarrow> RegCompleted | SettledCancelled \<Rightarrow> RegCancelled)
                      (slot_release invocation (ld_slots l)))
           | _ \<Rightarrow> Inr (l\<lparr>ld_duplicates := sat_add (ld_duplicates l) 1\<rparr>, [])))"

definition ledger_complete ::
  "invocation_id \<Rightarrow> invocation_ledger \<Rightarrow> (permit_refusal, invocation_ledger \<times> invocation_id list) result" where
  "ledger_complete invocation l = ledger_settle invocation SettledCompleted l"

definition ledger_cancel ::
  "invocation_id \<Rightarrow> invocation_ledger \<Rightarrow> (permit_refusal, invocation_ledger \<times> invocation_id list) result" where
  "ledger_cancel invocation l = ledger_settle invocation SettledCancelled l"

definition ledger_keep ::
  "invocation_id \<Rightarrow> invocation_ledger \<Rightarrow> (permit_refusal, invocation_ledger \<times> invocation_id list) result" where
  "ledger_keep invocation l =
     (let key = invocation_render invocation in
      case bt_get (ld_entries l) key of
        None \<Rightarrow> Inl (NeverRegistered key)
      | Some entry \<Rightarrow>
          (case le_state entry of
             RegRunning \<Rightarrow> Inr (l, [])
           | RegPending \<Rightarrow> Inl (StillWaiting key)
           | _ \<Rightarrow> Inr (l\<lparr>ld_duplicates := sat_add (ld_duplicates l) 1\<rparr>, [])))"

definition ledger_end ::
  "invocation_id \<Rightarrow> invocation_end \<Rightarrow> invocation_ledger \<Rightarrow>
     (permit_refusal, invocation_ledger \<times> invocation_id list) result" where
  "ledger_end invocation end' l =
     (case end' of
        EndCompleted \<Rightarrow> ledger_complete invocation l
      | EndFailed _ _ \<Rightarrow>
          if end_unresolved end' then ledger_keep invocation l else ledger_cancel invocation l)"

text \<open>The refusal of \<^verbatim>\<open>register_at_once\<close> comes after the request was withdrawn, so it also returns a ledger.\<close>

definition register_at_once ::
  "invocation_id \<Rightarrow> (slot_pair \<times> standing) option \<Rightarrow> invocation_ledger \<Rightarrow>
     invocation_ledger \<times> (permit_refusal, unit) result" where
  "register_at_once invocation slots l =
     (case slots of
        None \<Rightarrow> (case ledger_register invocation l of Inl e \<Rightarrow> (l, Inl e) | Inr l' \<Rightarrow> (l', Inr ()))
      | Some (pair, standing') \<Rightarrow>
          (case ledger_register_slotted invocation pair standing' l of
             Inl e \<Rightarrow> (l, Inl e)
           | Inr (l', admission) \<Rightarrow>
               if admission \<noteq> AdmissionPending then (l', Inr ())
               else
                 (let refusal = WouldWait invocation pair (slot_blocking (ld_slots l') pair)
                        (case slot_head (ld_slots l') of
                           None \<Rightarrow> None | Some head \<Rightarrow> if head \<noteq> invocation then Some head else None) in
                  case ledger_cancel invocation l' of
                    Inl e \<Rightarrow> (l', Inl (refusal (Some e)))
                  | Inr (l'', _) \<Rightarrow> (l'', Inl (refusal None)))))"

definition withdraw_pending :: "invocation_ledger \<Rightarrow> invocation_ledger \<times> nat" where
  "withdraw_pending l =
     (case slot_withdraw_all (ld_slots l) of (slots, withdrawn) \<Rightarrow>
        (foldl (set_registration RegCancelled) (l\<lparr>ld_slots := slots\<rparr>) withdrawn, length withdrawn))"

definition cancel_running :: "invocation_ledger \<Rightarrow> invocation_id \<Rightarrow> invocation_ledger" where
  "cancel_running l invocation =
     (let l' = set_registration RegCancelled l invocation in
      case slot_release invocation (ld_slots l') of
        None \<Rightarrow> l' | Some (slots, _) \<Rightarrow> l'\<lparr>ld_slots := slots\<rparr>)"

definition cancel_all_running :: "invocation_ledger \<Rightarrow> invocation_ledger \<times> nat" where
  "cancel_all_running l =
     (case withdraw_pending l of (l', withdrawn) \<Rightarrow>
        let running = map le_invocation (filter (\<lambda>e. le_state e = RegRunning) (bt_values (ld_entries l'))) in
        (foldl cancel_running l' running, withdrawn + length running))"

definition cancel_after_append_error :: "invocation_ledger \<Rightarrow> invocation_ledger \<times> nat" where
  "cancel_after_append_error l =
     (case ld_ends l of EndsInline \<Rightarrow> cancel_all_running l | EndsReported \<Rightarrow> withdraw_pending l)"

definition ledger_in_state :: "invocation_ledger \<Rightarrow> registration \<Rightarrow> string list" where
  "ledger_in_state l state = map fst (filter (\<lambda>(_, entry). le_state entry = state) (ld_entries l))"

definition ledger_settled :: "invocation_ledger \<Rightarrow> invocation_id \<Rightarrow> bool" where
  "ledger_settled l invocation =
     (case bt_get (ld_entries l) (invocation_render invocation) of
        None \<Rightarrow> False | Some entry \<Rightarrow> le_state entry = RegCompleted \<or> le_state entry = RegCancelled)"

definition ledger_balances :: "invocation_ledger \<Rightarrow> bool" where
  "ledger_balances l \<longleftrightarrow>
     list_all (\<lambda>entry. le_state entry \<noteq> RegPending \<and> le_state entry \<noteq> RegRunning) (bt_values (ld_entries l)) \<and>
     slot_balances (ld_slots l)"

subsection \<open>The broker\<close>

record permit_broker =
  pb_reservations :: reservations
  pb_invocations :: invocation_ledger

definition broker_new :: "slot_limits \<Rightarrow> permit_broker" where
  "broker_new slots = \<lparr>pb_reservations = reservations_new, pb_invocations = ledger_with_limits slots\<rparr>"

definition broker_for_run :: "entitlements \<Rightarrow> permit_broker" where
  "broker_for_run derived = broker_new (slot_limits_defaulted (en_max_parallel derived))"

definition broker_for_pipelines :: "slot_limits \<Rightarrow> permit_broker" where
  "broker_for_pipelines slots = \<lparr>pb_reservations = reservations_new, pb_invocations = ledger_for_pipelines slots\<rparr>"

definition broker_register ::
  "standing \<Rightarrow> invocation_id \<Rightarrow> slot_pair option \<Rightarrow> permit_broker \<Rightarrow>
     (permit_refusal, permit_broker \<times> slot_admission) result" where
  "broker_register standing' invocation slots b =
     (case slots of
        None \<Rightarrow>
          res_bind (ledger_register invocation (pb_invocations b)) (\<lambda>l.
          Inr (b\<lparr>pb_invocations := l\<rparr>, AdmissionRunnable))
      | Some pair \<Rightarrow>
          res_bind (ledger_register_slotted invocation pair standing' (pb_invocations b)) (\<lambda>(l, admission).
          Inr (b\<lparr>pb_invocations := l\<rparr>, admission)))"

definition broker_end ::
  "invocation_id \<Rightarrow> invocation_end \<Rightarrow> permit_broker \<Rightarrow>
     (permit_refusal, permit_broker \<times> invocation_id list) result" where
  "broker_end invocation end' b =
     res_bind (ledger_end invocation end' (pb_invocations b)) (\<lambda>(l, granted).
     Inr (b\<lparr>pb_invocations := l\<rparr>, granted))"

definition broker_shut_down :: "permit_broker \<Rightarrow> permit_broker \<times> nat \<times> nat" where
  "broker_shut_down b =
     (case reservation_cancel_all (pb_reservations b) of (r, reservations') \<Rightarrow>
      case withdraw_pending (pb_invocations b) of (l, pending) \<Rightarrow>
        (\<lparr>pb_reservations = r, pb_invocations = l\<rparr>, reservations', pending))"

definition broker_duplicates :: "permit_broker \<Rightarrow> u32" where
  "broker_duplicates b = sat_add (rv_duplicates (pb_reservations b)) (ld_duplicates (pb_invocations b))"

definition broker_is_empty :: "permit_broker \<Rightarrow> bool" where
  "broker_is_empty b \<longleftrightarrow>
     rv_held (pb_reservations b) = [] \<and> ld_entries (pb_invocations b) = [] \<and> slot_is_empty (ld_slots (pb_invocations b))"

definition broker_balances :: "permit_broker \<Rightarrow> bool" where
  "broker_balances b \<longleftrightarrow> reservation_balances (pb_reservations b) \<and> ledger_balances (pb_invocations b)"

end
