(* ===== verification/Permits_Facts.thy ===== *)
theory Permits_Facts
  imports Permits
begin

section \<open>The slot table and the invocation ledger are safe and live\<close>

text \<open>
  Counted in natural numbers: no agent and no pool ever holds more than its limit, a request is
  waiting exactly while its registration is pending and holds its pair exactly while it runs,
  and the request at the head of the queue is blocked by a process that runs. Back-fill behind
  the head never takes the room the head still has.
\<close>

subsection \<open>Counting\<close>

definition agent_count :: "slot_table \<Rightarrow> string \<Rightarrow> nat" where
  "agent_count t agent = length (filter (\<lambda>held. pr_agent held = agent) (bt_values (sl_holders t)))"

definition pool_count :: "slot_table \<Rightarrow> string \<Rightarrow> nat" where
  "pool_count t pool = length (filter (\<lambda>held. pr_pool held = Some pool) (bt_values (sl_holders t)))"

lemma slot_room_iff: "slot_room (count_u32 n) reserved limit \<longleftrightarrow> n + of_bool reserved < unat limit"
proof (cases "n < 2 ^ 32")
  case True
  then have "unat (of_nat n :: u32) = n" by (simp add: unat_of_nat)
  with True unat_u32_less [of limit] show ?thesis
    by (auto simp: slot_room_def count_u32_def word_less_nat_alt unat_sat_add)
next
  case False
  have "unat (- 1 :: u32) = 4294967295" by code_simp
  with False unat_u32_less [of limit] show ?thesis
    by (auto simp: slot_room_def count_u32_def word_less_nat_alt unat_sat_add)
qed

lemma slot_fits_iff:
  "slot_fits t pair reserved \<longleftrightarrow>
     agent_count t (pr_agent pair) +
       of_bool (case reserved of None \<Rightarrow> False | Some head \<Rightarrow> pr_agent head = pr_agent pair)
       < unat (lm_per_agent (sl_limits t)) \<and>
     (\<forall>pool. pr_pool pair = Some pool \<longrightarrow>
        pool_count t pool + of_bool (Option.bind reserved pr_pool = Some pool) < unat (lm_per_pool (sl_limits t)))"
  unfolding slot_fits_def held_by_agent_def held_by_pool_def slot_room_iff
  by (auto simp: agent_count_def pool_count_def Let_def split: option.splits)

lemma filter_bt_insert:
  "k \<notin> fst ` set m \<Longrightarrow>
   length (filter p (bt_values (bt_insert k v m))) = length (filter p (bt_values m)) + of_bool (p v)"
  by (induction k v m rule: bt_insert.induct) (auto simp: bt_values_def)

abbreviation pending_ids :: "slot_table \<Rightarrow> invocation_id set" where
  "pending_ids t \<equiv> fst ` set (sl_pending t)"

abbreviation holder_ids :: "slot_table \<Rightarrow> invocation_id set" where
  "holder_ids t \<equiv> fst ` set (sl_holders t)"

lemma slot_holds_iff: "slot_holds t i \<longleftrightarrow> i \<in> holder_ids t"
  by (simp add: slot_holds_def bt_get_def map_of_eq_None_iff)

lemma slot_is_pending_iff: "slot_is_pending t i \<longleftrightarrow> i \<in> pending_ids t"
  by (force simp: slot_is_pending_def list_ex_iff)

lemma grant_simps [simp]:
  "sl_limits (slot_grant i pair t) = sl_limits t" "sl_pending (slot_grant i pair t) = sl_pending t"
  "holder_ids (slot_grant i pair t) = insert i (holder_ids t)"
  by (simp_all add: slot_grant_def fst_set_bt_insert)

lemma grant_counts:
  assumes "i \<notin> holder_ids t"
  shows "agent_count (slot_grant i pair t) a = agent_count t a + of_bool (pr_agent pair = a)"
    and "pool_count (slot_grant i pair t) p = pool_count t p + of_bool (pr_pool pair = Some p)"
  using assms by (simp_all add: agent_count_def pool_count_def slot_grant_def filter_bt_insert)

lemma counts_cong [simp]:
  "agent_count (t\<lparr>sl_pending := q\<rparr>) a = agent_count t a" "pool_count (t\<lparr>sl_pending := q\<rparr>) p = pool_count t p"
  "slot_fits (t\<lparr>sl_pending := q\<rparr>) pair reserved = slot_fits t pair reserved"
  by (simp_all add: slot_fits_iff agent_count_def pool_count_def)

text \<open>A grant only makes less room.\<close>

lemma fits_after_grant: "i \<notin> holder_ids t \<Longrightarrow> slot_fits (slot_grant i pair t) p r \<Longrightarrow> slot_fits t p r"
  by (fastforce simp: slot_fits_iff grant_counts)

subsection \<open>Well-formed tables\<close>

definition limits_ok :: "slot_limits \<Rightarrow> bool" where
  "limits_ok limits \<longleftrightarrow> 0 < lm_per_agent limits \<and> 0 < lm_per_pool limits"

definition slots_ok :: "slot_table \<Rightarrow> bool" where
  "slots_ok t \<longleftrightarrow> limits_ok (sl_limits t) \<and> bt_wf (sl_holders t) \<and> distinct (map fst (sl_pending t)) \<and>
     pending_ids t \<inter> holder_ids t = {} \<and>
     (\<forall>a. agent_count t a \<le> unat (lm_per_agent (sl_limits t))) \<and>
     (\<forall>p. pool_count t p \<le> unat (lm_per_pool (sl_limits t)))"

text \<open>Nothing that waits could be granted: the head does not fit, nor does anything behind its reservation.\<close>

fun queue_settled :: "slot_table \<Rightarrow> (invocation_id \<times> slot_pair) list \<Rightarrow> bool" where
  "queue_settled t [] = True"
| "queue_settled t ((_, head) # rest) =
     (\<not> slot_fits t head None \<and> (\<forall>(_, pair) \<in> set rest. \<not> slot_fits t pair (Some head)))"

text \<open>What a pump does to the ids: those it grants move from the queue to the holders.\<close>

definition moved :: "slot_table \<Rightarrow> slot_table \<Rightarrow> invocation_id list \<Rightarrow> bool" where
  "moved t t' new \<longleftrightarrow> sl_limits t' = sl_limits t \<and> distinct new \<and> set new \<subseteq> pending_ids t \<and>
     pending_ids t' = pending_ids t - set new \<and> holder_ids t' = holder_ids t \<union> set new"

lemma moved_refl [simp]: "moved t t []"
  by (simp add: moved_def)

lemma moved_Cons:
  "i \<in> pending_ids t \<Longrightarrow> moved t s [i] \<Longrightarrow> moved s t' new \<Longrightarrow> moved t t' (i # new)"
  by (auto simp: moved_def)

lemma slots_ok_grant:
  assumes "slots_ok t" "sl_pending t = xs @ (i, pair) # ys" "slot_fits t pair r"
  shows "slots_ok (slot_grant i pair (t\<lparr>sl_pending := xs @ ys\<rparr>))"
    and "moved t (slot_grant i pair (t\<lparr>sl_pending := xs @ ys\<rparr>)) [i]"
    and "i \<notin> holder_ids (t\<lparr>sl_pending := xs @ ys\<rparr>)"
proof -
  let ?t = "t\<lparr>sl_pending := xs @ ys\<rparr>"
  have new: "i \<notin> holder_ids t" using assms(1,2) by (auto simp: slots_ok_def)
  then show new': "i \<notin> holder_ids ?t" by simp
  have notin: "i \<notin> fst ` set xs" "i \<notin> fst ` set ys" using assms(1,2) by (auto simp: slots_ok_def)
  have "agent_count t (pr_agent pair) < unat (lm_per_agent (sl_limits t))"
      "pr_pool pair = Some p \<Longrightarrow> pool_count t p < unat (lm_per_pool (sl_limits t))" for p
    using assms(3) by (auto simp: slot_fits_iff)
  then have "agent_count (slot_grant i pair ?t) a \<le> unat (lm_per_agent (sl_limits t))"
      "pool_count (slot_grant i pair ?t) p \<le> unat (lm_per_pool (sl_limits t))" for a p
    using assms(1) by (auto simp: grant_counts [OF new'] slots_ok_def Suc_le_eq)
  moreover have "bt_wf (sl_holders (slot_grant i pair ?t))"
    using assms(1) by (simp add: slot_grant_def slots_ok_def bt_wf_insert)
  ultimately show "slots_ok (slot_grant i pair ?t)"
    using assms(1,2) notin by (auto simp: slots_ok_def)
  show "moved t (slot_grant i pair ?t) [i]"
    using assms(2) notin by (auto simp: moved_def)
qed

subsection \<open>The pump\<close>

lemma pump_front_props:
  "pump_front t granted = (t', granted') \<Longrightarrow> slots_ok t \<Longrightarrow>
   \<exists>new. granted' = granted @ new \<and> slots_ok t' \<and> moved t t' new \<and>
     (case sl_pending t' of [] \<Rightarrow> True | (_, head) # _ \<Rightarrow> \<not> slot_fits t' head None)"
proof (induction t granted rule: pump_front.induct)
  case (1 t granted)
  show ?case
  proof (cases "sl_pending t")
    case Nil
    with "1.prems" show ?thesis by (intro exI [of _ "[]"]) (simp add: pump_front.simps)
  next
    case (Cons e rest)
    obtain i pair where e: "e = (i, pair)" by (cases e)
    show ?thesis
    proof (cases "slot_fits t pair None")
      case False
      with "1.prems" Cons e show ?thesis by (intro exI [of _ "[]"]) (simp add: pump_front.simps [of t])
    next
      case True
      let ?s = "slot_grant i pair (t\<lparr>sl_pending := rest\<rparr>)"
      have step: "slots_ok ?s" "moved t ?s [i]"
        using slots_ok_grant [OF "1.prems"(2), of "[]" i pair rest None] True by (simp_all add: Cons e)
      have "pump_front ?s (granted @ [i]) = (t', granted')"
        using "1.prems"(1) True by (simp add: pump_front.simps [of t] Cons e)
      from "1.IH" [OF Cons e [symmetric] _ this step(1)] True obtain new where
        "granted' = granted @ [i] @ new" "slots_ok t'" "moved ?s t' new"
        "case sl_pending t' of [] \<Rightarrow> True | (_, head) # _ \<Rightarrow> \<not> slot_fits t' head None" by auto
      moreover have "moved t t' (i # new)"
        using moved_Cons [OF _ step(2) \<open>moved ?s t' new\<close>] by (simp add: Cons e)
      ultimately show ?thesis by (intro exI [of _ "i # new"]) simp
    qed
  qed
qed

text \<open>Back-fill keeps the head and every resource of the head that still has room.\<close>

definition keeps_room :: "slot_pair \<Rightarrow> slot_table \<Rightarrow> slot_table \<Rightarrow> bool" where
  "keeps_room head t t' \<longleftrightarrow>
     (agent_count t (pr_agent head) < unat (lm_per_agent (sl_limits t)) \<longrightarrow>
        agent_count t' (pr_agent head) < unat (lm_per_agent (sl_limits t'))) \<and>
     (\<forall>pool. pr_pool head = Some pool \<and> pool_count t pool < unat (lm_per_pool (sl_limits t)) \<longrightarrow>
        pool_count t' pool < unat (lm_per_pool (sl_limits t')))"

lemma keeps_room_refl [simp]: "keeps_room head t t"
  by (simp add: keeps_room_def)

lemma keeps_room_trans: "keeps_room head t s \<Longrightarrow> keeps_room head s t' \<Longrightarrow> keeps_room head t t'"
  by (auto simp: keeps_room_def)

lemma keeps_room_grant:
  "i \<notin> holder_ids t \<Longrightarrow> slot_fits t pair (Some head) \<Longrightarrow> keeps_room head t (slot_grant i pair t)"
  by (auto simp: keeps_room_def slot_fits_iff grant_counts)

definition unfit_upto :: "slot_table \<Rightarrow> slot_pair \<Rightarrow> nat \<Rightarrow> bool" where
  "unfit_upto t head index \<longleftrightarrow>
     (\<forall>j. 0 < j \<and> j < index \<and> j < length (sl_pending t) \<longrightarrow>
        \<not> slot_fits t (snd (sl_pending t ! j)) (Some head))"

lemma pump_back_props:
  "pump_back t head index granted = (t', granted') \<Longrightarrow> slots_ok t \<Longrightarrow> 0 < index \<Longrightarrow>
   index \<le> length (sl_pending t) \<Longrightarrow> unfit_upto t head index \<Longrightarrow> \<not> slot_fits t head None \<Longrightarrow>
   \<exists>new. granted' = granted @ new \<and> slots_ok t' \<and> moved t t' new \<and> keeps_room head t t' \<and>
     take 1 (sl_pending t') = take 1 (sl_pending t) \<and> unfit_upto t' head (length (sl_pending t')) \<and>
     \<not> slot_fits t' head None"
proof (induction t head index granted rule: pump_back.induct)
  case (1 t head index granted)
  show ?case
  proof (cases "vec_get (sl_pending t) index")
    case None
    then have "length (sl_pending t) \<le> index" by (simp add: vec_get_None)
    with "1.prems" None show ?thesis
      by (intro exI [of _ "[]"]) (auto simp: pump_back.simps [of t] unfit_upto_def)
  next
    case (Some e)
    obtain i pair where e: "e = (i, pair)" by (cases e)
    from Some have idx: "index < length (sl_pending t)" "sl_pending t ! index = (i, pair)"
      by (auto simp: vec_get_def e split: if_splits)
    show ?thesis
    proof (cases "slot_fits t pair (Some head)")
      case False
      have "unfit_upto t head (Suc index)"
        using "1.prems"(5) False idx(2) by (auto simp: unfit_upto_def less_Suc_eq)
      with "1.IH"(2) [OF Some e [symmetric] False _ "1.prems"(2)] "1.prems" idx(1) False Some e show ?thesis
        by (simp add: pump_back.simps [of t head index])
    next
      case True
      let ?xs = "take index (sl_pending t)" and ?ys = "drop (Suc index) (sl_pending t)"
      let ?u = "t\<lparr>sl_pending := ?xs @ ?ys\<rparr>"
      let ?s = "slot_grant i pair ?u"
      have split: "sl_pending t = ?xs @ (i, pair) # ?ys" using id_take_nth_drop [OF idx(1)] idx(2) by simp
      note step = slots_ok_grant [OF "1.prems"(2) split True]
      have unfit: "unfit_upto ?s head index"
        using "1.prems"(5) idx(1) fits_after_grant [OF step(3)]
        by (auto simp: unfit_upto_def nth_append)
      have blocked: "\<not> slot_fits ?s head None"
        using "1.prems"(6) fits_after_grant [OF step(3), of pair head None] by auto
      have len: "index \<le> length (sl_pending ?s)" using idx(1) by simp
      have "pump_back ?s head index (granted @ [i]) = (t', granted')"
        using "1.prems"(1) True Some e by (simp add: pump_back.simps [of t head index])
      from "1.IH"(1) [OF Some e [symmetric] True this step(1) "1.prems"(3) len unfit blocked] obtain new where
        n: "granted' = (granted @ [i]) @ new" "slots_ok t'" "moved ?s t' new" "keeps_room head ?s t'"
          "take 1 (sl_pending t') = take 1 (sl_pending ?s)" "unfit_upto t' head (length (sl_pending t'))"
          "\<not> slot_fits t' head None" by (elim exE conjE)
      have "i \<in> pending_ids t" using idx by (metis fst_conv image_eqI nth_mem)
      then have "moved t t' (i # new)" using step(2) n(3) by (rule moved_Cons)
      moreover have "keeps_room head t t'"
      proof -
        have "keeps_room head ?u ?s" using step(3) True by (intro keeps_room_grant) simp_all
        then have "keeps_room head t ?s" by (simp add: keeps_room_def)
        then show ?thesis using n(4) by (rule keeps_room_trans)
      qed
      moreover have "take 1 (sl_pending ?s) = take 1 (sl_pending t)"
        using "1.prems"(3) idx(1) by (cases "sl_pending t"; cases index) auto
      ultimately show ?thesis using n by (intro exI [of _ "i # new"]) simp
    qed
  qed
qed

lemma moved_append: "moved t s xs \<Longrightarrow> moved s t' ys \<Longrightarrow> moved t t' (xs @ ys)"
  by (auto simp: moved_def)

lemma unfit_rest:
  assumes "unfit_upto t head (length (sl_pending t))" "sl_pending t = (i, head) # rest" "\<not> slot_fits t head None"
  shows "queue_settled t (sl_pending t)"
proof -
  have "\<not> slot_fits t (snd (rest ! j)) (Some head)" if "j < length rest" for j
    using assms(1) that by (auto simp: unfit_upto_def assms(2) dest: spec [of _ "Suc j"])
  then have "\<forall>e \<in> set rest. \<not> slot_fits t (snd e) (Some head)" by (metis in_set_conv_nth)
  with assms(2,3) show ?thesis by auto
qed

lemma slot_pump_props:
  assumes "slot_pump t = (t', new)" "slots_ok t"
  shows "slots_ok t' \<and> moved t t' new \<and> queue_settled t' (sl_pending t')"
proof -
  obtain t1 g1 where front: "pump_front t [] = (t1, g1)" by fastforce
  from pump_front_props [OF front assms(2)] have
    f: "slots_ok t1" "moved t t1 g1" "case sl_pending t1 of [] \<Rightarrow> True | (_, head) # _ \<Rightarrow> \<not> slot_fits t1 head None"
    by auto
  show ?thesis
  proof (cases "sl_pending t1")
    case Nil
    with assms(1) front f show ?thesis by (auto simp: slot_pump_def)
  next
    case (Cons e rest)
    obtain j head where e: "e = (j, head)" by (cases e)
    have filled: "pump_back t1 head 1 g1 = (t', new)" using assms(1) by (simp add: slot_pump_def front Cons e)
    have len: "1 \<le> length (sl_pending t1)" by (simp add: Cons)
    have unfit: "unfit_upto t1 head 1" by (simp add: unfit_upto_def)
    have blocked: "\<not> slot_fits t1 head None" using f(3) by (simp add: Cons e)
    from pump_back_props [OF filled f(1) _ len unfit blocked] obtain new' where
      n: "new = g1 @ new'" "slots_ok t'" "moved t1 t' new'" "take 1 (sl_pending t') = take 1 (sl_pending t1)"
        "unfit_upto t' head (length (sl_pending t'))" "\<not> slot_fits t' head None" by auto
    obtain rest' where "sl_pending t' = (j, head) # rest'" using n(4) by (cases "sl_pending t'") (auto simp: Cons e)
    with n moved_append [OF f(2) n(3)] unfit_rest [OF n(5)] show ?thesis by simp
  qed
qed

text \<open>A head that is not granted stays the head and loses no room.\<close>

lemma slot_pump_head:
  assumes "slot_pump t = (t', new)" "slots_ok t" "sl_pending t = (i, head) # rest" "i \<notin> set new"
  shows "keeps_room head t t' \<and> (\<exists>rest'. sl_pending t' = (i, head) # rest')"
proof -
  have blocked: "\<not> slot_fits t head None"
  proof
    assume fits: "slot_fits t head None"
    obtain t1 g1 where front: "pump_front t [] = (t1, g1)" by fastforce
    let ?s = "slot_grant i head (t\<lparr>sl_pending := rest\<rparr>)"
    have "pump_front ?s [i] = (t1, g1)" using front fits by (simp add: pump_front.simps [of t] assms(3))
    moreover have "slots_ok ?s"
      using slots_ok_grant(1) [OF assms(2), of "[]" i head rest None] fits by (simp add: assms(3))
    ultimately have "i \<in> set g1" using pump_front_props by fastforce
    moreover have "set g1 \<subseteq> set new"
    proof (cases "sl_pending t1")
      case Nil
      with assms(1) front show ?thesis by (simp add: slot_pump_def)
    next
      case (Cons e rest1)
      obtain j h where e: "e = (j, h)" by (cases e)
      have filled: "pump_back t1 h 1 g1 = (t', new)" using assms(1) by (simp add: slot_pump_def front Cons e)
      from pump_front_props [OF front assms(2)] have "slots_ok t1" "\<not> slot_fits t1 h None" by (auto simp: Cons e)
      with pump_back_props [OF filled] show ?thesis by (auto simp: Cons unfit_upto_def)
    qed
    ultimately show False using assms(4) by blast
  qed
  then have front: "pump_front t [] = (t, [])" by (simp add: pump_front.simps [of t] assms(3))
  have filled: "pump_back t head 1 [] = (t', new)" using assms(1) by (simp add: slot_pump_def front assms(3))
  have len: "1 \<le> length (sl_pending t)" by (simp add: assms(3))
  have unfit: "unfit_upto t head 1" by (simp add: unfit_upto_def)
  from pump_back_props [OF filled assms(2) _ len unfit blocked]
  have "keeps_room head t t'" "take 1 (sl_pending t') = [(i, head)]" by (auto simp: assms(3))
  then show ?thesis by (cases "sl_pending t'") auto
qed

end
