(* ===== verification/Ledger_Facts.thy ===== *)
theory Ledger_Facts
  imports Permits_Facts
begin

section \<open>The invocation ledger agrees with the slot table\<close>

text \<open>
  The ledger is driven by the operations of the broker in any order, with identities that can
  be built. In every state it reaches, a request waits in the slot table exactly while its
  registration is pending, and holds its pair exactly while it runs and is slotted.
\<close>

subsection \<open>Registrations\<close>

definition registered :: "invocation_ledger \<Rightarrow> invocation_id \<Rightarrow> registration option" where
  "registered l i = map_option le_state (bt_get (ld_entries l) (invocation_render i))"

lemma render_inj: "buildable a \<Longrightarrow> buildable b \<Longrightarrow> invocation_render a = invocation_render b \<longleftrightarrow> a = b"
  using parse_forms_render by (metis option.inject)

text \<open>The agreement, relative to the sets of waiting and holding identities.\<close>

definition regs_agree :: "invocation_ledger \<Rightarrow> invocation_id set \<Rightarrow> invocation_id set \<Rightarrow> bool" where
  "regs_agree l waiting holding \<longleftrightarrow> bt_wf (ld_entries l) \<and>
     (\<forall>k e. bt_get (ld_entries l) k = Some e \<longrightarrow> buildable (le_invocation e) \<and> invocation_render (le_invocation e) = k) \<and>
     (\<forall>i. buildable i \<longrightarrow> (i \<in> waiting \<longleftrightarrow> registered l i = Some RegPending) \<and>
        (i \<in> holding \<longleftrightarrow> registered l i = Some RegRunning \<and> is_slotted i)) \<and>
     (\<forall>i \<in> waiting \<union> holding. buildable i \<and> is_slotted i)"

lemma regs_agreeD:
  assumes "regs_agree l waiting holding"
  shows "bt_wf (ld_entries l)"
    and "bt_get (ld_entries l) k = Some e \<Longrightarrow> buildable (le_invocation e)"
    and "bt_get (ld_entries l) k = Some e \<Longrightarrow> invocation_render (le_invocation e) = k"
    and "buildable i \<Longrightarrow> i \<in> waiting \<longleftrightarrow> registered l i = Some RegPending"
    and "buildable i \<Longrightarrow> i \<in> holding \<longleftrightarrow> registered l i = Some RegRunning \<and> is_slotted i"
    and "i \<in> waiting \<Longrightarrow> buildable i \<and> is_slotted i" "i \<in> holding \<Longrightarrow> buildable i \<and> is_slotted i"
  using assms unfolding regs_agree_def by blast+

lemma regs_agreeI:
  assumes "bt_wf (ld_entries l)"
    and "\<And>k e. bt_get (ld_entries l) k = Some e \<Longrightarrow> buildable (le_invocation e) \<and> invocation_render (le_invocation e) = k"
    and "\<And>i. buildable i \<Longrightarrow> i \<in> waiting \<longleftrightarrow> registered l i = Some RegPending"
    and "\<And>i. buildable i \<Longrightarrow> i \<in> holding \<longleftrightarrow> registered l i = Some RegRunning \<and> is_slotted i"
    and "\<And>i. i \<in> waiting \<or> i \<in> holding \<Longrightarrow> buildable i \<and> is_slotted i"
  shows "regs_agree l waiting holding"
  using assms unfolding regs_agree_def by blast

lemma regs_agree_slots [simp]: "regs_agree (l\<lparr>ld_slots := t\<rparr>) waiting holding = regs_agree l waiting holding"
  by (simp add: regs_agree_def registered_def)

lemma registered_set:
  assumes "bt_wf (ld_entries l)"
  shows "registered (set_registration s l i) j =
    (if invocation_render j = invocation_render i \<and> registered l i \<noteq> None then Some s else registered l j)"
  using assms by (auto simp: registered_def set_registration_def bt_get_insert split: option.splits)

lemma set_registration_slots [simp]: "ld_slots (set_registration s l i) = ld_slots l"
  by (simp add: set_registration_def split: option.splits)

lemma set_registration_entries:
  assumes "regs_agree l waiting holding"
  shows "bt_wf (ld_entries (set_registration s l i))"
    and "bt_get (ld_entries (set_registration s l i)) k = Some e \<Longrightarrow>
      buildable (le_invocation e) \<and> invocation_render (le_invocation e) = k"
  using regs_agreeD(1-3) [OF assms]
  by (auto simp: set_registration_def bt_wf_insert bt_get_insert split: option.splits if_splits)

text \<open>Changing one registration moves one identity between the sets.\<close>

lemma regs_agree_set:
  assumes "regs_agree l waiting holding" "buildable i" "registered l i \<noteq> None"
    and "is_slotted i \<or> s \<noteq> RegPending"
  shows "regs_agree (set_registration s l i)
    (if s = RegPending then insert i waiting else waiting - {i})
    (if s = RegRunning \<and> is_slotted i then insert i holding else holding - {i})"
proof (rule regs_agreeI)
  note agree = regs_agreeD [OF assms(1)]
  have reg: "registered (set_registration s l i) j = (if j = i then Some s else registered l j)"
    if "buildable j" for j
    using assms(2,3) that by (auto simp: registered_set [OF agree(1)] render_inj)
  show "bt_wf (ld_entries (set_registration s l i))" using set_registration_entries(1) [OF assms(1)] .
  show "buildable (le_invocation e) \<and> invocation_render (le_invocation e) = k"
    if "bt_get (ld_entries (set_registration s l i)) k = Some e" for k e
    using set_registration_entries(2) [OF assms(1) that] .
  show "j \<in> (if s = RegPending then insert i waiting else waiting - {i}) \<longleftrightarrow>
      registered (set_registration s l i) j = Some RegPending" if "buildable j" for j
    using agree(4) [OF that] by (simp add: reg [OF that])
  show "j \<in> (if s = RegRunning \<and> is_slotted i then insert i holding else holding - {i}) \<longleftrightarrow>
      registered (set_registration s l i) j = Some RegRunning \<and> is_slotted j" if "buildable j" for j
    using agree(5) [OF that] by (simp add: reg [OF that])
  show "buildable j \<and> is_slotted j"
    if "j \<in> (if s = RegPending then insert i waiting else waiting - {i}) \<or>
      j \<in> (if s = RegRunning \<and> is_slotted i then insert i holding else holding - {i})" for j
    using that agree(6,7) [of j] assms(2,4) by (auto split: if_splits)
qed

lemma regs_agree_run_granted:
  "regs_agree l waiting holding \<Longrightarrow> set new \<subseteq> waiting \<Longrightarrow> distinct new \<Longrightarrow>
   regs_agree (run_granted new l) (waiting - set new) (holding \<union> set new)"
  unfolding run_granted_def
proof (induction new arbitrary: l waiting holding)
  case (Cons i new)
  have "i \<in> waiting" using Cons.prems(2) by simp
  then have i: "buildable i" "is_slotted i" "registered l i \<noteq> None"
    using regs_agreeD(4,6) [OF Cons.prems(1), of i] by auto
  have step: "regs_agree (set_registration RegRunning l i) (waiting - {i}) (insert i holding)"
    using regs_agree_set [OF Cons.prems(1) i(1,3), of RegRunning] i(2) by simp
  have sets: "waiting - {i} - set new = waiting - set (i # new)" "insert i holding \<union> set new = holding \<union> set (i # new)"
    by auto
  have "set new \<subseteq> waiting - {i}" using Cons.prems(2,3) by auto
  from Cons.IH [OF step this] Cons.prems(3) show ?case unfolding sets by simp
qed simp

lemma regs_agree_cancel_all:
  "regs_agree l waiting holding \<Longrightarrow> set ids \<subseteq> waiting \<Longrightarrow> distinct ids \<Longrightarrow>
   regs_agree (foldl (set_registration RegCancelled) l ids) (waiting - set ids) holding"
proof (induction ids arbitrary: l waiting)
  case (Cons i ids)
  have "i \<in> waiting" using Cons.prems(2) by simp
  then have i: "buildable i" "is_slotted i" "registered l i \<noteq> None" "i \<notin> holding"
    using regs_agreeD(4,5,6) [OF Cons.prems(1), of i] by auto
  have step: "regs_agree (set_registration RegCancelled l i) (waiting - {i}) holding"
    using regs_agree_set [OF Cons.prems(1) i(1,3), of RegCancelled] i(2,4) by simp
  have sets: "waiting - {i} - set ids = waiting - set (i # ids)" by auto
  have "set ids \<subseteq> waiting - {i}" using Cons.prems(2,3) by auto
  from Cons.IH [OF step this] Cons.prems(3) show ?case unfolding sets by simp
qed simp

subsection \<open>The invariant of the ledger\<close>

definition ledger_ok :: "slot_limits \<Rightarrow> invocation_ledger \<Rightarrow> bool" where
  "ledger_ok limits l \<longleftrightarrow> sl_limits (ld_slots l) = limits \<and> slots_ok (ld_slots l) \<and>
     queue_settled (ld_slots l) (sl_pending (ld_slots l)) \<and>
     regs_agree l (pending_ids (ld_slots l)) (holder_ids (ld_slots l))"

lemma ledger_ok_new:
  "limits_ok limits \<Longrightarrow> ledger_ok limits (ledger_with_limits limits)"
  "limits_ok limits \<Longrightarrow> ledger_ok limits (ledger_for_pipelines limits)"
  by (simp_all add: ledger_ok_def ledger_for_pipelines_def ledger_with_limits_def slot_table_with_limits_def slots_ok_def
      regs_agree_def registered_def bt_get_def agent_count_def pool_count_def bt_values_def)

text \<open>Registrations that agree with a table before its pump agree with it after.\<close>

lemma ledger_ok_pump:
  assumes "regs_agree l (pending_ids t) (holder_ids t)" "slots_ok t" "slot_pump t = (t', new)" "sl_limits t = limits"
  shows "ledger_ok limits (run_granted new (l\<lparr>ld_slots := t'\<rparr>))"
proof -
  from slot_pump_props [OF assms(3,2)] have
    p: "slots_ok t'" "moved t t' new" "queue_settled t' (sl_pending t')" by auto
  have slots: "ld_slots (run_granted new (l\<lparr>ld_slots := t'\<rparr>)) = t'"
  proof -
    have "ld_slots (foldl (set_registration RegRunning) k ids) = ld_slots k" for k ids
      by (induction ids arbitrary: k) simp_all
    then show ?thesis by (simp add: run_granted_def)
  qed
  have "regs_agree (run_granted new (l\<lparr>ld_slots := t'\<rparr>)) (pending_ids t') (holder_ids t')"
    using regs_agree_run_granted [of "l\<lparr>ld_slots := t'\<rparr>" "pending_ids t" "holder_ids t" new] assms(1) p(2)
    by (simp add: moved_def)
  with p assms(4) show ?thesis by (simp add: ledger_ok_def slots moved_def)
qed

lemma regs_agree_open:
  assumes "regs_agree l waiting holding" "buildable i" "ledger_open i s l = Inr l'" "s = RegPending \<and> is_slotted i \<or> s = RegRunning \<and> \<not> is_slotted i"
  shows "regs_agree l' (if s = RegPending then insert i waiting else waiting) holding" "ld_slots l' = ld_slots l"
    "i \<notin> waiting \<and> i \<notin> holding"
proof -
  note agree = regs_agreeD [OF assms(1)]
  have fresh: "registered l i = None"
    and l': "l' = l\<lparr>ld_entries := bt_insert (invocation_render i) \<lparr>le_invocation = i, le_state = s\<rparr> (ld_entries l)\<rparr>"
    using assms(3) by (auto simp: ledger_open_def registered_def Let_def split: if_splits)
  show out: "i \<notin> waiting \<and> i \<notin> holding" using agree(4,5) [OF assms(2)] fresh by simp
  show "ld_slots l' = ld_slots l" by (simp add: l')
  have reg: "registered l' j = (if j = i then Some s else registered l j)" if "buildable j" for j
    using assms(2) that agree(1) by (simp add: l' registered_def bt_get_insert render_inj)
  show "regs_agree l' (if s = RegPending then insert i waiting else waiting) holding"
  proof (rule regs_agreeI)
    show "bt_wf (ld_entries l')" using agree(1) by (simp add: l' bt_wf_insert)
    show "buildable (le_invocation e) \<and> invocation_render (le_invocation e) = k"
      if "bt_get (ld_entries l') k = Some e" for k e
      using that assms(2) agree(1) agree(2,3) [of k e] by (auto simp: l' bt_get_insert split: if_splits)
    show "j \<in> (if s = RegPending then insert i waiting else waiting) \<longleftrightarrow> registered l' j = Some RegPending"
      if "buildable j" for j
      using agree(4) [OF that] assms(4) out by (auto simp: reg [OF that])
    show "j \<in> holding \<longleftrightarrow> registered l' j = Some RegRunning \<and> is_slotted j" if "buildable j" for j
      using agree(5) [OF that] assms(4) out by (auto simp: reg [OF that])
    show "buildable j \<and> is_slotted j"
      if "j \<in> (if s = RegPending then insert i waiting else waiting) \<or> j \<in> holding" for j
      using that agree(6,7) [of j] assms(2,4) by (auto split: if_splits)
  qed
qed

subsection \<open>Every operation keeps it\<close>

lemma ledger_ok_register:
  assumes "ledger_ok limits l" "buildable i" "ledger_register i l = Inr l'"
  shows "ledger_ok limits l'"
proof -
  have o: "ledger_open i RegRunning l = Inr l'" "\<not> is_slotted i"
    using assms(3) by (auto simp: ledger_register_def split: if_splits)
  have agree: "regs_agree l (pending_ids (ld_slots l)) (holder_ids (ld_slots l))"
    using assms(1) by (simp add: ledger_ok_def)
  from regs_agree_open [OF agree assms(2) o(1)] o(2) assms(1) show ?thesis by (simp add: ledger_ok_def)
qed

lemma register_slotted_Inr:
  assumes "ledger_register_slotted i pair st l = Inr (l', a)"
  shows "\<exists>l1. ledger_open i RegPending l = Inr l1 \<and> is_slotted i \<and>
    (let u = (ld_slots l)\<lparr>sl_pending := sl_pending (ld_slots l) @ [(i, pair)]\<rparr> in
     l' = run_granted (snd (slot_pump u)) (l1\<lparr>ld_slots := fst (slot_pump u)\<rparr>))"
proof -
  from assms obtain l1 where l1: "ledger_open i RegPending l = Inr l1" "is_slotted i"
    and "(case slot_enqueue i pair (ld_slots l1) of (slots, granted) \<Rightarrow>
        (run_granted granted (l1\<lparr>ld_slots := slots\<rparr>),
         if slot_holds slots i then AdmissionGranted else AdmissionPending)) = (l', a)"
    by (cases "standing_admits st i"; cases "ledger_open i RegPending l"; cases "is_slotted i")
      (auto simp: ledger_register_slotted_def split: prod.splits)
  moreover have "ld_slots l1 = ld_slots l" using l1(1) by (auto simp: ledger_open_def Let_def split: if_splits)
  ultimately show ?thesis by (auto simp: slot_enqueue_def Let_def split: prod.splits)
qed

lemma ledger_ok_register_slotted:
  assumes "ledger_ok limits l" "buildable i" "ledger_register_slotted i pair st l = Inr (l', a)"
  shows "ledger_ok limits l'"
proof -
  let ?t = "(ld_slots l)\<lparr>sl_pending := sl_pending (ld_slots l) @ [(i, pair)]\<rparr>"
  obtain l1 where o: "ledger_open i RegPending l = Inr l1" "is_slotted i"
    and l': "l' = run_granted (snd (slot_pump ?t)) (l1\<lparr>ld_slots := fst (slot_pump ?t)\<rparr>)"
    using register_slotted_Inr [OF assms(3)] by (auto simp: Let_def)
  have agree: "regs_agree l (pending_ids (ld_slots l)) (holder_ids (ld_slots l))"
    and ok: "slots_ok (ld_slots l)" "sl_limits (ld_slots l) = limits"
    using assms(1) by (simp_all add: ledger_ok_def)
  note open' = regs_agree_open [OF agree assms(2) o(1)]
  have "regs_agree l1 (pending_ids ?t) (holder_ids ?t)" using open'(1) o(2) by simp
  moreover have "slots_ok ?t"
    using ok(1) open'(3) o(2) by (auto simp: slots_ok_def)
  moreover have "slot_pump ?t = (fst (slot_pump ?t), snd (slot_pump ?t))" by simp
  ultimately show ?thesis unfolding l' using ok(2) by (intro ledger_ok_pump [of l1 ?t]) simp_all
qed

text \<open>The table without one identity, whether it waited or held a pair.\<close>

definition vacated :: "invocation_id \<Rightarrow> slot_table \<Rightarrow> slot_table \<Rightarrow> bool" where
  "vacated i t u \<longleftrightarrow> slots_ok u \<and> sl_limits u = sl_limits t \<and> pending_ids u = pending_ids t - {i} \<and>
     holder_ids u = holder_ids t - {i} \<and>
     (\<forall>a. agent_count u a \<le> agent_count t a) \<and> (\<forall>p. pool_count u p \<le> pool_count t p) \<and>
     (\<forall>j head rest. sl_pending t = (j, head) # rest \<and> j \<noteq> i \<longrightarrow> (\<exists>rest'. sl_pending u = (j, head) # rest'))"

lemma filter_bt_remove: "length (filter p (bt_values (bt_remove k m))) \<le> length (filter p (bt_values m))"
  by (induction m) (auto simp: bt_remove_def bt_values_def)

lemma vacated_release:
  assumes "slots_ok t" "slot_holds t i"
  shows "vacated i t (t\<lparr>sl_holders := bt_remove i (sl_holders t), sl_released := n\<rparr>)" (is "vacated i t ?u")
proof -
  have counts: "agent_count ?u a \<le> agent_count t a" "pool_count ?u p \<le> pool_count t p" for a p
    by (simp_all add: agent_count_def pool_count_def filter_bt_remove)
  have ids: "holder_ids ?u = holder_ids t - {i}" by (force simp: bt_remove_def)
  have out: "i \<notin> pending_ids t" using assms by (auto simp: slots_ok_def slot_holds_iff)
  have "agent_count ?u a \<le> unat (lm_per_agent (sl_limits t))" "pool_count ?u p \<le> unat (lm_per_pool (sl_limits t))" for a p
    using assms(1) counts order_trans unfolding slots_ok_def by blast+
  then have "slots_ok ?u" using assms(1) ids by (auto simp: slots_ok_def bt_wf_remove)
  with counts ids out show ?thesis by (simp add: vacated_def)
qed

lemma remove_first_Some:
  "remove_first p xs = Some ys \<Longrightarrow> \<exists>a x b. xs = a @ x # b \<and> p x \<and> ys = a @ b"
proof (induction xs arbitrary: ys)
  case (Cons x xs)
  show ?case
  proof (cases "p x")
    case True
    with Cons.prems show ?thesis by (intro exI [of _ "[]"]) auto
  next
    case False
    with Cons.prems obtain zs where "remove_first p xs = Some zs" "ys = x # zs" by auto
    with Cons.IH [of zs] obtain a y b where "xs = a @ y # b" "p y" "ys = (x # a) @ b" by auto
    then show ?thesis by (intro exI [of _ "x # a"]) auto
  qed
qed simp

lemma remove_first_None: "remove_first p xs = None \<Longrightarrow> x \<in> set xs \<Longrightarrow> \<not> p x"
  by (induction xs) (auto split: if_splits)

lemma vacated_withdraw:
  assumes "slots_ok t" "remove_first (\<lambda>(waiting, _). waiting = i) (sl_pending t) = Some rest"
  shows "vacated i t (t\<lparr>sl_pending := rest\<rparr>)"
proof -
  from remove_first_Some [OF assms(2)] obtain a pair b where
    q: "sl_pending t = a @ (i, pair) # b" "rest = a @ b" by auto
  have "i \<notin> holder_ids t" using assms(1) by (auto simp: slots_ok_def q(1))
  moreover have "slots_ok (t\<lparr>sl_pending := rest\<rparr>)" using assms(1) by (auto simp: slots_ok_def q)
  moreover have "pending_ids (t\<lparr>sl_pending := rest\<rparr>) = pending_ids t - {i}"
    using assms(1) by (auto simp: slots_ok_def q)
  moreover have "\<exists>rest'. rest = (j, head) # rest'" if "sl_pending t = (j, head) # r" "j \<noteq> i" for j head r
    using that by (cases a) (auto simp: q)
  ultimately show ?thesis by (simp add: vacated_def)
qed

lemma regs_agree_vacated:
  assumes "regs_agree l (pending_ids t) (holder_ids t)" "vacated i t u" "buildable i" "registered l i \<noteq> None"
    and "s = RegCompleted \<or> s = RegCancelled"
  shows "regs_agree (set_registration s l i) (pending_ids u) (holder_ids u)"
  using regs_agree_set [OF assms(1,3,4), of s] assms(2,5) by (auto simp: vacated_def)

text \<open>A settlement is counted as a duplicate, closes a registration without a slot, or vacates the table.\<close>

lemma ledger_settle_cases:
  assumes "ledger_ok limits l" "buildable i" "ledger_settle i to l = Inr (l', granted)"
  obtains (dup) "l' = l\<lparr>ld_duplicates := sat_add (ld_duplicates l) 1\<rparr>"
    | (plain) s where "s = RegCompleted \<or> s = RegCancelled" "l' = set_registration s l i" "registered l i \<noteq> None"
        "i \<notin> pending_ids (ld_slots l)" "i \<notin> holder_ids (ld_slots l)"
    | (vacates) s u t' where "s = RegCompleted \<or> s = RegCancelled" "registered l i \<noteq> None" "vacated i (ld_slots l) u"
        "slot_pump u = (t', granted)" "l' = run_granted granted ((set_registration s l i)\<lparr>ld_slots := t'\<rparr>)"
proof -
  have ok: "slots_ok (ld_slots l)" and agree: "regs_agree l (pending_ids (ld_slots l)) (holder_ids (ld_slots l))"
    using assms(1) by (simp_all add: ledger_ok_def)
  obtain entry where entry: "bt_get (ld_entries l) (invocation_render i) = Some entry"
    using assms(3) by (cases "bt_get (ld_entries l) (invocation_render i)") (auto simp: ledger_settle_def Let_def)
  then have reg: "registered l i = Some (le_state entry)" by (simp add: registered_def)
  show thesis
  proof (cases "le_state entry")
    case RegPending
    then have pend: "i \<in> pending_ids (ld_slots l)" using regs_agreeD(4) [OF agree assms(2)] reg by simp
    then obtain rest where rest: "remove_first (\<lambda>(waiting, _). waiting = i) (sl_pending (ld_slots l)) = Some rest"
      by (cases "remove_first (\<lambda>(waiting, _). waiting = i) (sl_pending (ld_slots l))") (auto dest: remove_first_None)
    obtain t' new where pump: "slot_pump ((ld_slots l)\<lparr>sl_pending := rest\<rparr>) = (t', new)" by fastforce
    from assms(3) entry RegPending rest pump
    have "granted = new" "l' = run_granted new ((set_registration RegCancelled l i)\<lparr>ld_slots := t'\<rparr>)"
      by (cases to; auto simp: ledger_settle_def slot_withdraw_def Let_def)+
    with pump vacated_withdraw [OF ok rest] reg vacates [of RegCancelled] show thesis by auto
  next
    case RegRunning
    define s where "s = (case to of SettledCompleted \<Rightarrow> RegCompleted | SettledCancelled \<Rightarrow> RegCancelled)"
    have s: "s = RegCompleted \<or> s = RegCancelled" by (cases to) (auto simp: s_def)
    show thesis
    proof (cases "slot_holds (ld_slots l) i")
      case True
      let ?u = "(ld_slots l)\<lparr>sl_holders := bt_remove i (sl_holders (ld_slots l)), sl_released := sat_add (sl_released (ld_slots l)) 1\<rparr>"
      obtain t' new where pump: "slot_pump ?u = (t', new)" by fastforce
      from assms(3) entry RegRunning True pump
      have "granted = new" "l' = run_granted new ((set_registration s l i)\<lparr>ld_slots := t'\<rparr>)"
        by (cases to; auto simp: ledger_settle_def slot_release_def Let_def s_def)+
      with pump vacated_release [OF ok True] reg s vacates [of s ?u] show thesis by auto
    next
      case False
      from assms(3) entry RegRunning False have "l' = set_registration s l i"
        by (cases to) (auto simp: ledger_settle_def slot_release_def Let_def s_def)
      moreover have "i \<notin> pending_ids (ld_slots l)" using regs_agreeD(4) [OF agree assms(2)] reg RegRunning by simp
      ultimately show thesis using plain [of s] s reg False by (simp add: slot_holds_iff)
    qed
  qed (use assms(3) entry dup in \<open>auto simp: ledger_settle_def Let_def\<close>)
qed

lemma ledger_ok_dup [simp]: "ledger_ok limits (l\<lparr>ld_duplicates := n\<rparr>) = ledger_ok limits l"
  by (simp add: ledger_ok_def regs_agree_def registered_def)

lemma ledger_ok_settle:
  assumes "ledger_ok limits l" "buildable i" "ledger_settle i to l = Inr (l', granted)"
  shows "ledger_ok limits l'"
  using assms
proof (cases rule: ledger_settle_cases)
  case (plain s)
  have agree: "regs_agree l (pending_ids (ld_slots l)) (holder_ids (ld_slots l))" using assms(1) by (simp add: ledger_ok_def)
  have "s \<noteq> RegPending" "s \<noteq> RegRunning" using plain(1) by auto
  with regs_agree_set [OF agree assms(2) plain(3), of s] plain(4,5)
  have "regs_agree (set_registration s l i) (pending_ids (ld_slots l)) (holder_ids (ld_slots l))" by auto
  with assms(1) plain(2) show ?thesis by (simp add: ledger_ok_def)
next
  case (vacates s u t')
  have "regs_agree (set_registration s l i) (pending_ids u) (holder_ids u)"
    using assms(1,2) vacates(1-3) by (intro regs_agree_vacated [of l "ld_slots l"]) (simp_all add: ledger_ok_def)
  then show ?thesis unfolding vacates(5)
    using assms(1) vacates(3,4) by (intro ledger_ok_pump [of _ u]) (simp_all add: vacated_def ledger_ok_def)
qed (use assms(1) in simp)

lemma ledger_ok_end:
  assumes "ledger_ok limits l" "buildable i" "ledger_end i e l = Inr (l', granted)"
  shows "ledger_ok limits l'"
proof (cases "ledger_end i e l = ledger_keep i l")
  case True
  then show ?thesis using assms(1,3)
    by (auto simp: ledger_keep_def Let_def split: option.splits registration.splits)
next
  case False
  then have "ledger_end i e l = ledger_settle i SettledCompleted l \<or> ledger_end i e l = ledger_settle i SettledCancelled l"
    by (auto simp: ledger_end_def ledger_complete_def ledger_cancel_def split: invocation_end.splits)
  with ledger_ok_settle [OF assms(1,2)] assms(3) show ?thesis by metis
qed

lemma foldl_set_slots [simp]: "ld_slots (foldl (set_registration s) l ids) = ld_slots l"
  by (induction ids arbitrary: l) simp_all

lemma ledger_ok_withdraw:
  assumes "ledger_ok limits l"
  shows "ledger_ok limits (fst (withdraw_pending l))" "sl_pending (ld_slots (fst (withdraw_pending l))) = []"
proof -
  let ?t = "ld_slots l"
  have "regs_agree (foldl (set_registration RegCancelled) l (map fst (sl_pending ?t)))
      (pending_ids ?t - set (map fst (sl_pending ?t))) (holder_ids ?t)"
    using assms by (intro regs_agree_cancel_all) (simp_all add: ledger_ok_def slots_ok_def)
  moreover have "foldl (set_registration RegCancelled) (l\<lparr>ld_slots := t\<rparr>) ids =
      (foldl (set_registration RegCancelled) l ids)\<lparr>ld_slots := t\<rparr>" for t ids
  proof (induction ids arbitrary: l)
    case (Cons i ids)
    have "set_registration RegCancelled (l\<lparr>ld_slots := t\<rparr>) i = (set_registration RegCancelled l i)\<lparr>ld_slots := t\<rparr>"
      by (simp add: set_registration_def split: option.splits)
    with Cons.IH show ?case by simp
  qed simp
  ultimately show "ledger_ok limits (fst (withdraw_pending l))" "sl_pending (ld_slots (fst (withdraw_pending l))) = []"
    using assms by (auto simp: withdraw_pending_def slot_withdraw_all_def ledger_ok_def slots_ok_def)
qed

lemma slot_pump_empty: "sl_pending t = [] \<Longrightarrow> slot_pump t = (t, [])"
  by (simp add: slot_pump_def pump_front.simps)

lemma cancel_running_ok:
  assumes "ledger_ok limits l" "sl_pending (ld_slots l) = []" "buildable i" "registered l i \<noteq> None"
  shows "ledger_ok limits (cancel_running l i) \<and> sl_pending (ld_slots (cancel_running l i)) = [] \<and>
    (\<forall>j. registered l j \<noteq> None \<longrightarrow> registered (cancel_running l i) j \<noteq> None)"
proof -
  have ok: "slots_ok (ld_slots l)" and agree: "regs_agree l (pending_ids (ld_slots l)) (holder_ids (ld_slots l))"
    using assms(1) by (simp_all add: ledger_ok_def)
  have kept: "registered l j \<noteq> None \<longrightarrow> registered (set_registration RegCancelled l i) j \<noteq> None" for j
    by (simp add: registered_set [OF regs_agreeD(1) [OF agree]])
  have slots: "registered (k\<lparr>ld_slots := t\<rparr>) j = registered k j" for k t j by (simp add: registered_def)
  show ?thesis
  proof (cases "slot_holds (ld_slots l) i")
    case True
    let ?u = "(ld_slots l)\<lparr>sl_holders := bt_remove i (sl_holders (ld_slots l)), sl_released := sat_add (sl_released (ld_slots l)) 1\<rparr>"
    have pump: "slot_pump ?u = (?u, [])" using assms(2) by (simp add: slot_pump_empty)
    have vac: "vacated i (ld_slots l) ?u" using vacated_release [OF ok True] .
    have "regs_agree (set_registration RegCancelled l i) (pending_ids ?u) (holder_ids ?u)"
      using regs_agree_vacated [OF agree vac assms(3,4)] by simp
    then have "ledger_ok limits (run_granted [] ((set_registration RegCancelled l i)\<lparr>ld_slots := ?u\<rparr>))"
      using vac pump assms(1) by (intro ledger_ok_pump [of _ ?u]) (simp_all add: vacated_def ledger_ok_def)
    moreover have "cancel_running l i = (set_registration RegCancelled l i)\<lparr>ld_slots := ?u\<rparr>"
      using True pump by (simp add: cancel_running_def slot_release_def Let_def)
    ultimately show ?thesis using assms(2) kept by (simp add: run_granted_def slots)
  next
    case False
    then have c: "cancel_running l i = set_registration RegCancelled l i"
      by (simp add: cancel_running_def slot_release_def Let_def)
    have "regs_agree (set_registration RegCancelled l i) (pending_ids (ld_slots l)) (holder_ids (ld_slots l))"
      using regs_agree_set [OF agree assms(3,4), of RegCancelled] False assms(2) by (simp add: slot_holds_iff)
    with assms(1,2) kept show ?thesis by (simp add: c ledger_ok_def)
  qed
qed

lemma ledger_ok_cancel_all:
  assumes "ledger_ok limits l"
  shows "ledger_ok limits (fst (cancel_all_running l))"
proof -
  have fold: "ledger_ok limits k \<and> sl_pending (ld_slots k) = [] \<and> (\<forall>i \<in> set ids. buildable i \<and> registered k i \<noteq> None) \<Longrightarrow>
      ledger_ok limits (foldl cancel_running k ids)" for k ids
  proof (induction ids arbitrary: k)
    case (Cons i ids)
    then have "ledger_ok limits (cancel_running k i) \<and> sl_pending (ld_slots (cancel_running k i)) = [] \<and>
        (\<forall>j. registered k j \<noteq> None \<longrightarrow> registered (cancel_running k i) j \<noteq> None)"
      by (intro cancel_running_ok) simp_all
    with Cons.prems have "ledger_ok limits (foldl cancel_running (cancel_running k i) ids)"
      by (intro Cons.IH) simp
    then show ?case by simp
  qed simp
  obtain k n where w: "withdraw_pending l = (k, n)" by fastforce
  have k: "ledger_ok limits k" "sl_pending (ld_slots k) = []" using ledger_ok_withdraw [OF assms] by (simp_all add: w)
  have agree: "regs_agree k (pending_ids (ld_slots k)) (holder_ids (ld_slots k))" using k(1) by (simp add: ledger_ok_def)
  have "buildable (le_invocation e) \<and> registered k (le_invocation e) \<noteq> None" if "e \<in> set (bt_values (ld_entries k))" for e
  proof -
    from that obtain key where key: "bt_get (ld_entries k) key = Some e"
      using bt_values_set [OF regs_agreeD(1) [OF agree]] by blast
    with regs_agreeD(2,3) [OF agree key] show ?thesis by (simp add: registered_def)
  qed
  with fold [of k "map le_invocation (filter (\<lambda>e. le_state e = RegRunning) (bt_values (ld_entries k)))"] k
  show ?thesis by (auto simp: cancel_all_running_def w Let_def)
qed

subsection \<open>Any sequence of operations\<close>

datatype permit_op =
    PopRegister standing invocation_id "slot_pair option"
  | PopComplete invocation_id
  | PopCancel invocation_id
  | PopEnd invocation_id invocation_end
  | PopWithdrawPending
  | PopAppendError

fun op_buildable :: "permit_op \<Rightarrow> bool" where
  "op_buildable (PopRegister _ i _) = buildable i"
| "op_buildable (PopComplete i) = buildable i"
| "op_buildable (PopCancel i) = buildable i"
| "op_buildable (PopEnd i _) = buildable i"
| "op_buildable PopWithdrawPending = True"
| "op_buildable PopAppendError = True"

text \<open>A refused operation leaves the ledger as it is.\<close>

fun permit_step :: "invocation_ledger \<Rightarrow> permit_op \<Rightarrow> invocation_ledger" where
  "permit_step l (PopRegister standing' i None) =
     (case ledger_register i l of Inl _ \<Rightarrow> l | Inr l' \<Rightarrow> l')"
| "permit_step l (PopRegister standing' i (Some pair)) =
     (case ledger_register_slotted i pair standing' l of Inl _ \<Rightarrow> l | Inr (l', _) \<Rightarrow> l')"
| "permit_step l (PopComplete i) = (case ledger_complete i l of Inl _ \<Rightarrow> l | Inr (l', _) \<Rightarrow> l')"
| "permit_step l (PopCancel i) = (case ledger_cancel i l of Inl _ \<Rightarrow> l | Inr (l', _) \<Rightarrow> l')"
| "permit_step l (PopEnd i e) = (case ledger_end i e l of Inl _ \<Rightarrow> l | Inr (l', _) \<Rightarrow> l')"
| "permit_step l PopWithdrawPending = fst (withdraw_pending l)"
| "permit_step l PopAppendError = fst (cancel_after_append_error l)"

lemma ledger_ok_step:
  assumes "ledger_ok limits l" "op_buildable op"
  shows "ledger_ok limits (permit_step l op)"
proof -
  have settle: "ledger_ok limits (case ledger_settle i to l of Inl _ \<Rightarrow> l | Inr (l', _) \<Rightarrow> l')" if "buildable i" for i to
    using ledger_ok_settle [OF assms(1) that] assms(1) by (cases "ledger_settle i to l") auto
  have end': "ledger_ok limits (case ledger_end i e l of Inl _ \<Rightarrow> l | Inr (l', _) \<Rightarrow> l')" if "buildable i" for i e
    using ledger_ok_end [OF assms(1) that] assms(1) by (cases "ledger_end i e l") auto
  have plain: "ledger_ok limits (case ledger_register i l of Inl _ \<Rightarrow> l | Inr l' \<Rightarrow> l')" if "buildable i" for i
    using ledger_ok_register [OF assms(1) that] assms(1) by (cases "ledger_register i l") auto
  have slotted: "ledger_ok limits (case ledger_register_slotted i pair st l of Inl _ \<Rightarrow> l | Inr (l', _) \<Rightarrow> l')"
    if "buildable i" for i pair st
    using ledger_ok_register_slotted [OF assms(1) that] assms(1) by (cases "ledger_register_slotted i pair st l") auto
  have error: "ledger_ok limits (fst (cancel_after_append_error l))"
    using ledger_ok_cancel_all [OF assms(1)] ledger_ok_withdraw(1) [OF assms(1)]
    by (cases "ld_ends l") (simp_all add: cancel_after_append_error_def)
  show ?thesis
  proof (cases op)
    case (PopRegister st i pair)
    with assms(2) plain slotted show ?thesis by (cases pair) simp_all
  qed (use assms settle end' error ledger_ok_withdraw(1) [OF assms(1)] in
        \<open>simp_all add: ledger_complete_def ledger_cancel_def\<close>)
qed

definition ledger_start :: "slot_limits \<Rightarrow> bool \<Rightarrow> invocation_ledger" where
  "ledger_start limits reported = (if reported then ledger_for_pipelines limits else ledger_with_limits limits)"

lemma ledger_ok_ops:
  assumes "limits_ok limits" "list_all op_buildable ops"
  shows "ledger_ok limits (foldl permit_step (ledger_start limits reported) ops)"
proof -
  have "ledger_ok limits l \<Longrightarrow> list_all op_buildable ops \<Longrightarrow> ledger_ok limits (foldl permit_step l ops)" for l
    by (induction ops arbitrary: l) (auto simp: ledger_ok_step)
  with assms ledger_ok_new show ?thesis by (simp add: ledger_start_def)
qed

subsection \<open>The head of the queue\<close>

lemma blocked_head:
  assumes "slots_ok t" "\<not> slot_fits t head None"
  shows "slot_blocking t head \<noteq> []"
proof -
  have "0 < agent_count t (pr_agent head) \<or> (\<exists>p. pr_pool head = Some p \<and> 0 < pool_count t p)"
    using assms by (auto simp: slot_fits_iff slots_ok_def limits_ok_def word_less_nat_alt not_less)
  then obtain held where "held \<in> set (bt_values (sl_holders t))"
      "pr_agent held = pr_agent head \<or> (pr_pool held \<noteq> None \<and> pr_pool held = pr_pool head)"
    by (auto simp: agent_count_def pool_count_def filter_empty_conv)
  then show ?thesis by (force simp: slot_blocking_def bt_values_def filter_empty_conv)
qed

lemma blocking_holds: "j \<in> set (slot_blocking t pair) \<Longrightarrow> j \<in> holder_ids t"
  by (auto simp: slot_blocking_def)

text \<open>Does the operation leave this identity alone?\<close>

fun op_spares :: "invocation_id \<Rightarrow> permit_op \<Rightarrow> bool" where
  "op_spares i (PopRegister _ _ _) = True"
| "op_spares i (PopComplete j) = (j \<noteq> i)"
| "op_spares i (PopCancel j) = (j \<noteq> i)"
| "op_spares i (PopEnd j _) = (j \<noteq> i)"
| "op_spares i PopWithdrawPending = False"
| "op_spares i PopAppendError = False"

definition head_served :: "invocation_id \<Rightarrow> slot_pair \<Rightarrow> invocation_ledger \<Rightarrow> invocation_ledger \<Rightarrow> bool" where
  "head_served i head l l' \<longleftrightarrow> registered l' i = Some RegRunning \<or>
     (\<exists>rest. sl_pending (ld_slots l') = (i, head) # rest) \<and> keeps_room head (ld_slots l) (ld_slots l')"

lemma head_pump:
  assumes "regs_agree k (pending_ids u) (holder_ids u)" "slots_ok u" "slot_pump u = (t', new)"
    and "sl_pending u = (i, head) # rest" "keeps_room head (ld_slots l) u"
  shows "head_served i head l (run_granted new (k\<lparr>ld_slots := t'\<rparr>))"
proof (cases "i \<in> set new")
  case True
  have ok: "ledger_ok (sl_limits u) (run_granted new (k\<lparr>ld_slots := t'\<rparr>))"
    using ledger_ok_pump [OF assms(1,2,3)] by simp
  have "buildable i" using regs_agreeD(6) [OF assms(1), of i] by (simp add: assms(4))
  moreover have "ld_slots (run_granted new (k\<lparr>ld_slots := t'\<rparr>)) = t'" by (simp add: run_granted_def)
  moreover have "i \<in> holder_ids t'" using True slot_pump_props [OF assms(3,2)] by (auto simp: moved_def)
  ultimately have "registered (run_granted new (k\<lparr>ld_slots := t'\<rparr>)) i = Some RegRunning"
    using ok by (auto simp: ledger_ok_def dest: regs_agreeD(5))
  then show ?thesis by (simp add: head_served_def)
next
  case False
  from slot_pump_head [OF assms(3,2,4) False] keeps_room_trans [OF assms(5)] show ?thesis
    by (auto simp: head_served_def run_granted_def)
qed

lemma keeps_room_vacated: "vacated j t u \<Longrightarrow> keeps_room head t u"
  unfolding vacated_def keeps_room_def by (metis order.strict_trans1)

lemma head_settle:
  assumes "ledger_ok limits l" "buildable j" "j \<noteq> i" "sl_pending (ld_slots l) = (i, head) # rest"
    and "ledger_settle j to l = Inr (l', granted)"
  shows "head_served i head l l'"
  using assms(1,2,5)
proof (cases rule: ledger_settle_cases)
  case (vacates s u t')
  have "regs_agree (set_registration s l j) (pending_ids u) (holder_ids u)"
    using assms(1,2) vacates(1-3) by (intro regs_agree_vacated [of l "ld_slots l"]) (simp_all add: ledger_ok_def)
  moreover obtain rest' where "sl_pending u = (i, head) # rest'"
    using vacates(3) assms(3,4) by (auto simp: vacated_def)
  moreover have "slots_ok u" using vacates(3) by (simp add: vacated_def)
  ultimately show ?thesis unfolding vacates(5)
    using vacates(4) keeps_room_vacated [OF vacates(3)] by (intro head_pump [of _ u])
qed (simp_all add: head_served_def assms(4))

lemma head_register:
  assumes "ledger_ok limits l" "buildable j" "sl_pending (ld_slots l) = (i, head) # rest"
    and "ledger_register_slotted j pair st l = Inr (l', a)"
  shows "head_served i head l l'"
proof -
  let ?u = "(ld_slots l)\<lparr>sl_pending := sl_pending (ld_slots l) @ [(j, pair)]\<rparr>"
  obtain t' new where pump: "slot_pump ?u = (t', new)" by fastforce
  have agree: "regs_agree l (pending_ids (ld_slots l)) (holder_ids (ld_slots l))"
    and ok: "slots_ok (ld_slots l)" using assms(1) by (simp_all add: ledger_ok_def)
  obtain l1 where o: "ledger_open j RegPending l = Inr l1" "is_slotted j"
    and l': "l' = run_granted new (l1\<lparr>ld_slots := t'\<rparr>)"
    using register_slotted_Inr [OF assms(4)] pump by (auto simp: Let_def)
  note open' = regs_agree_open [OF agree assms(2) o(1)]
  have "regs_agree l1 (pending_ids ?u) (holder_ids ?u)" using open'(1) o(2) by simp
  moreover have "slots_ok ?u" using ok open'(3) o(2) by (auto simp: slots_ok_def)
  ultimately show ?thesis unfolding l' using pump assms(3)
    by (intro head_pump [of l1 ?u]) (simp_all add: keeps_room_def)
qed

lemma head_same: "sl_pending (ld_slots l) = (i, head) # rest \<Longrightarrow> ld_slots l' = ld_slots l \<Longrightarrow> head_served i head l l'"
  by (simp add: head_served_def)

lemma head_step:
  assumes "ledger_ok limits l" "op_buildable op" "op_spares i op" "sl_pending (ld_slots l) = (i, head) # rest"
  shows "head_served i head l (permit_step l op)"
proof -
  note same = head_same [OF assms(4)]
  have settle: "head_served i head l (case ledger_settle j to l of Inl _ \<Rightarrow> l | Inr (l', _) \<Rightarrow> l')"
    if "buildable j" "j \<noteq> i" for j to
    using head_settle [OF assms(1) that assms(4)] same [of l] by (cases "ledger_settle j to l") auto
  have keep: "head_served i head l (case ledger_keep j l of Inl _ \<Rightarrow> l | Inr (l', _) \<Rightarrow> l')" for j
    by (rule same) (auto simp: ledger_keep_def Let_def split: option.splits registration.splits)
  show ?thesis
  proof (cases op)
    case (PopRegister st j pair)
    have "ld_slots (case ledger_register j l of Inl _ \<Rightarrow> l | Inr l' \<Rightarrow> l') = ld_slots l"
      by (auto simp: ledger_register_def ledger_open_def Let_def)
    then have plain: "head_served i head l (case ledger_register j l of Inl _ \<Rightarrow> l | Inr l' \<Rightarrow> l')" by (rule same)
    show ?thesis
    proof (cases pair)
      case (Some p)
      have "buildable j" using assms(2) PopRegister by simp
      from head_register [OF assms(1) this assms(4)] same [of l] show ?thesis
        by (cases "ledger_register_slotted j p st l") (auto simp: PopRegister Some)
    qed (use plain PopRegister in simp)
  next
    case (PopEnd j e)
    with assms(2,3) settle keep show ?thesis
      by (cases e) (simp_all add: ledger_end_def ledger_complete_def ledger_cancel_def)
  qed (use assms(2,3) settle in \<open>simp_all add: ledger_complete_def ledger_cancel_def\<close>)
qed

text \<open>
  C38. However the engine's pipelines register, complete, cancel and end processes, no agent
  and no pool ever has more processes holding its slots than its limit; a request waits in the
  slot table exactly while its registration is pending, and holds its pair exactly while its
  process runs and is one that takes slots.
\<close>

theorem slots_are_never_oversubscribed:
  assumes "limits_ok limits" "list_all op_buildable ops" "l = foldl permit_step (ledger_start limits reported) ops"
  shows "held_by_agent (ld_slots l) agent \<le> lm_per_agent limits \<and> held_by_pool (ld_slots l) pool \<le> lm_per_pool limits \<and>
    (\<not> buildable i \<or>
     (slot_is_pending (ld_slots l) i \<longleftrightarrow> registered l i = Some RegPending) \<and>
     (slot_holds (ld_slots l) i \<longleftrightarrow> registered l i = Some RegRunning \<and> is_slotted i))"
proof -
  have ok: "ledger_ok limits l" using ledger_ok_ops [OF assms(1,2)] assms(3) by simp
  have count: "count_u32 n \<le> m" if "n \<le> unat m" for n m
    using that unat_u32_less [of m] by (auto simp: count_u32_def word_le_nat_alt unat_of_nat)
  have "held_by_agent (ld_slots l) agent \<le> lm_per_agent limits" "held_by_pool (ld_slots l) pool \<le> lm_per_pool limits"
    using ok unfolding held_by_agent_def held_by_pool_def
    by (auto simp: ledger_ok_def slots_ok_def agent_count_def pool_count_def intro!: count)
  moreover have "regs_agree l (pending_ids (ld_slots l)) (holder_ids (ld_slots l))" using ok by (simp add: ledger_ok_def)
  from regs_agreeD(4,5) [OF this, of i] have "buildable i \<longrightarrow>
      (slot_is_pending (ld_slots l) i \<longleftrightarrow> registered l i = Some RegPending) \<and>
      (slot_holds (ld_slots l) i \<longleftrightarrow> registered l i = Some RegRunning \<and> is_slotted i)"
    by (simp add: slot_is_pending_iff slot_holds_iff)
  ultimately show ?thesis by blast
qed

text \<open>
  C39. A waiting request is never stuck and never starved: the request at the head of the
  queue is blocked by processes that run; nothing behind it would fit beside its reservation;
  and every operation that does not withdraw it either grants it or leaves it at the head,
  with room for its agent and for its pool wherever there was room before.
\<close>

theorem waiting_head_is_not_starved:
  assumes "limits_ok limits" "list_all op_buildable ops" "l = foldl permit_step (ledger_start limits reported) ops"
    and "sl_pending (ld_slots l) = (i, head) # rest" "op_buildable op" "op_spares i op"
  shows "slot_blocking (ld_slots l) head \<noteq> [] \<and>
    list_all (\<lambda>j. registered l j = Some RegRunning) (slot_blocking (ld_slots l) head) \<and>
    list_all (\<lambda>(_, pair). \<not> slot_fits (ld_slots l) pair (Some head)) rest \<and>
    head_served i head l (permit_step l op)"
proof -
  have ok: "ledger_ok limits l" using ledger_ok_ops [OF assms(1,2)] assms(3) by simp
  then have slots: "slots_ok (ld_slots l)" "queue_settled (ld_slots l) ((i, head) # rest)"
    and agree: "regs_agree l (pending_ids (ld_slots l)) (holder_ids (ld_slots l))"
    using assms(4) by (simp_all add: ledger_ok_def)
  have "registered l j = Some RegRunning" if "j \<in> set (slot_blocking (ld_slots l) head)" for j
    using regs_agreeD(5,7) [OF agree, of j] blocking_holds [OF that] by simp
  with slots blocked_head [OF slots(1)] head_step [OF ok assms(5,6,4)] show ?thesis
    by (auto simp: list_all_iff)
qed

subsection \<open>Two workers of one agent\<close>

definition sample_worker :: "task_key \<Rightarrow> invocation_id" where
  "sample_worker key = InvAttempt key 0 1 RoleWorker 0"

definition sample_pair :: slot_pair where
  "sample_pair = \<lparr>pr_agent = ''codex'', pr_pool = Some ''openai''\<rparr>"

definition sample_ops :: "permit_op list" where
  "sample_ops = map (\<lambda>key. PopRegister \<lparr>sg_pipeline = pipeline_of (sample_worker key), sg_holds = HoldsPipeline\<rparr>
     (sample_worker key) (Some sample_pair)) [0, 1]"

lemma sample_ops_ok: "limits_ok WIDTH_ONE" "list_all op_buildable sample_ops"
  by code_simp+

lemma sample_ops_pending:
  "sl_pending (ld_slots (foldl permit_step (ledger_start WIDTH_ONE True) sample_ops)) = [(sample_worker 1, sample_pair)]"
  by code_simp

theorem slots_are_never_oversubscribed_witness:
  "slot_is_pending (ld_slots (foldl permit_step (ledger_start WIDTH_ONE True) sample_ops)) (sample_worker 1) \<and>
   registered (foldl permit_step (ledger_start WIDTH_ONE True) sample_ops) (sample_worker 1) = Some RegPending \<and>
   held_by_agent (ld_slots (foldl permit_step (ledger_start WIDTH_ONE True) sample_ops)) ''codex'' \<le> 1"
proof -
  have "buildable (sample_worker 1)" "lm_per_agent WIDTH_ONE = 1" by (simp_all add: sample_worker_def WIDTH_ONE_def)
  moreover have "slot_is_pending (ld_slots (foldl permit_step (ledger_start WIDTH_ONE True) sample_ops)) (sample_worker 1)"
    by (simp add: slot_is_pending_def sample_ops_pending)
  ultimately show ?thesis
    using slots_are_never_oversubscribed [OF sample_ops_ok refl, of True "''codex''" "''openai''" "sample_worker 1"]
    by simp
qed

theorem waiting_head_is_not_starved_witness:
  "slot_blocking (ld_slots (foldl permit_step (ledger_start WIDTH_ONE True) sample_ops)) sample_pair \<noteq> [] \<and>
   head_served (sample_worker 1) sample_pair (foldl permit_step (ledger_start WIDTH_ONE True) sample_ops)
     (permit_step (foldl permit_step (ledger_start WIDTH_ONE True) sample_ops) (PopComplete (sample_worker 0)))"
  using waiting_head_is_not_starved [OF sample_ops_ok refl sample_ops_pending, of "PopComplete (sample_worker 0)"]
  by (simp add: sample_worker_def)

end
