(* ===== verification/Reservation_Facts.thy ===== *)
theory Reservation_Facts
  imports Permits_Facts Select_Facts
begin

section \<open>Reservations and the fold share one account\<close>

text \<open>
  Work that is selected but not yet in the log is reserved; once its event is appended the fold
  counts it, and the reservation is converted. The sum of the two never passes the limit of
  parallel pipelines, and one integration at a time is reserved or open.
\<close>

lemma length_bt_insert: "k \<notin> fst ` set m \<Longrightarrow> length (bt_insert k v m) = Suc (length m)"
  by (induction k v m rule: bt_insert.induct) auto

lemma bt_remove_insert: "k \<notin> fst ` set m \<Longrightarrow> bt_remove k (bt_insert k v m) = m"
proof (induction k v m rule: bt_insert.induct)
  case (2 k v k' v' m)
  have "filter (\<lambda>(k', _). k' \<noteq> k) m = m" using "2.prems" by (intro filter_True) force
  with 2 show ?case by (auto simp: bt_remove_def)
qed (simp add: bt_remove_def)

lemma bt_get_None: "bt_get m k = None \<longleftrightarrow> k \<notin> fst ` set m"
  by (simp add: bt_get_def map_of_eq_None_iff)

lemma reserve_Inr:
  assumes "reservation_reserve key kind derived r = Inr r'"
  shows "bt_get (rv_held r) key = None" "r' = reservation_hold key kind r"
    "en_pipeline_held derived + pipeline_outstanding r < unat (en_max_parallel derived)"
    "holds_merge kind \<Longrightarrow> en_merge_held derived + merge_outstanding r < MERGE_ENTITLEMENTS"
  using assms by (auto simp: reservation_reserve_def split: option.splits if_splits)

lemma reserved_counts:
  assumes "bt_get (rv_held r) key = None"
  shows "pipeline_outstanding (reservation_hold key kind r) = Suc (pipeline_outstanding r)"
    and "merge_outstanding (reservation_hold key kind r) = merge_outstanding r + of_bool (holds_merge kind)"
proof -
  have new: "key \<notin> fst ` set (rv_held r)" using assms by (simp add: bt_get_None)
  then show "merge_outstanding (reservation_hold key kind r) = merge_outstanding r + of_bool (holds_merge kind)"
    by (simp add: merge_outstanding_def reservation_hold_def Let_def filter_bt_insert)
  show "pipeline_outstanding (reservation_hold key kind r) = Suc (pipeline_outstanding r)"
    using new by (simp add: pipeline_outstanding_def reservation_hold_def Let_def length_bt_insert)
qed

lemma convert_reserved:
  assumes "bt_wf (rv_held r)" "bt_get (rv_held r) key = None"
  obtains r'' where "reservation_convert key kind (reservation_hold key kind r) = Inr r''" "rv_held r'' = rv_held r"
proof -
  have "bt_get (rv_held (reservation_hold key kind r)) key = Some kind"
    using assms(1) by (simp add: reservation_hold_def Let_def bt_get_insert)
  moreover have "bt_remove key (rv_held (reservation_hold key kind r)) = rv_held r"
    using assms(2) by (simp add: reservation_hold_def Let_def bt_remove_insert bt_get_None)
  ultimately show thesis using that by (simp add: reservation_convert_def reservation_settle_def)
qed

text \<open>
  C40. Reserving and then dispatching a ready task moves one entitlement from the reservations
  to the fold and never creates one: after the reservation the fold's pipelines and the
  reservations together stay within the limit of parallel pipelines; once the dispatch is in
  the log the reservation converts, and the sum is what it was with the reservation held.
\<close>

theorem reserved_dispatch_keeps_the_account:
  assumes "replay x inputs es = Inr f" "fo_run f = Some run" "bt_wf (rv_held r)"
    and "reservation_reserve key ReserveDispatch (entitlements_of f) r = Inr r'"
    and "ready x run key" "task_get run key = Some task" "registry_get (st_registry run) key = Some entry"
    and "length (tf_generations task) < 2 ^ 32"
  shows "let d = dispatch_of entry task key base path source; f' = f\<lparr>fo_run := Some (apply_dispatched d run)\<rparr> in
    check_dispatched run d = Inr () \<and>
    en_pipeline_held (entitlements_of f) + pipeline_outstanding r' \<le> unat (en_max_parallel (entitlements_of f)) \<and>
    (\<exists>r''. reservation_convert key ReserveDispatch r' = Inr r'' \<and>
       en_pipeline_held (entitlements_of f') + pipeline_outstanding r'' =
         en_pipeline_held (entitlements_of f) + pipeline_outstanding r' \<and>
       en_merge_held (entitlements_of f') + merge_outstanding r'' =
         en_merge_held (entitlements_of f) + merge_outstanding r')"
proof -
  note reserve = reserve_Inr [OF assms(4)]
  let ?d = "dispatch_of entry task key base path source"
  obtain r'' where r'': "reservation_convert key ReserveDispatch r' = Inr r''" "rv_held r'' = rv_held r"
    using convert_reserved [OF assms(3) reserve(1)] reserve(2) by metis
  have "tf_open task = None" using readyD(2) [OF assms(5-7)] .
  then have held: "pipeline_held (apply_dispatched ?d run) = Suc (pipeline_held run)"
    using assms(6) by (intro pipeline_held_dispatched [of _ _ task]) (simp_all add: dispatch_of_def)
  have tx: "st_transaction (apply_dispatched ?d run) = st_transaction run"
    by (simp add: apply_dispatched_def Let_def split: lease_grant.splits)
  have out: "pipeline_outstanding r'' = pipeline_outstanding r" "merge_outstanding r'' = merge_outstanding r"
    using r''(2) by (simp_all add: pipeline_outstanding_def merge_outstanding_def)
  have counts: "pipeline_outstanding r' = Suc (pipeline_outstanding r)" "merge_outstanding r' = merge_outstanding r"
    using reserved_counts [OF reserve(1), of ReserveDispatch] reserve(2) by (simp_all add: holds_merge_def)
  show ?thesis
    using ready_dispatch_accepted [OF assms(5-8)] reserve(3) r''(1) held tx out counts assms(2)
    by (simp add: Let_def entitlements_of_def fold_pipeline_held_def fold_transaction_def)
qed

theorem reserved_dispatch_keeps_the_account_witness:
  "\<exists>r'. reservation_reserve 0 ReserveDispatch (entitlements_of (sample_fold sample_fresh)) reservations_new = Inr r' \<and>
     en_pipeline_held (entitlements_of (sample_fold sample_fresh)) + pipeline_outstanding r' \<le>
       unat (en_max_parallel (entitlements_of (sample_fold sample_fresh)))"
proof -
  have log: "replay sample_x sample_inputs [\<lparr>ev_ts = [], ev_body = EvRunStarted sample_started4\<rparr>] = Inr (sample_fold sample_fresh)"
    by (simp only: sample_fold_start replay_from.simps(1))
  let ?r' = "reservation_hold 0 ReserveDispatch reservations_new"
  have r': "reservation_reserve 0 ReserveDispatch (entitlements_of (sample_fold sample_fresh)) reservations_new = Inr ?r'"
    by code_simp
  have wf: "bt_wf (rv_held reservations_new)" by (simp add: reservations_new_def)
  have len: "length (tf_generations task_fold_new) < 2 ^ 32" by (simp add: task_fold_new_def)
  from reserved_dispatch_keeps_the_account [OF log _ wf r' _ _ _ len] sample_ready r' show ?thesis
    by (auto simp: Let_def)
qed

end
