(* ===== verification/Settle.thy ===== *)
theory Settle
  imports Select Permits
begin

section \<open>Settling attempts: src/engine/topology/settle.rs and the loop of run.rs\<close>

text \<open>
  What the engine writes when an attempt failed: the ladder decides, the decision becomes a
  settlement of the open generation, and a parked task gets a question for a person. Generations
  that were kept for a retry are closed or retried in place; the reservation taken for a retry is
  given back when the worktree cannot be used. Checking the worktree is an effect: its result is
  an argument. Refusals keep their case and the values they print.
\<close>

datatype settle_refusal =
    RunNotStarted
  | NoOpenGeneration task_key
  | OtherGenerationOpen task_key generation_id generation_id
  | ParkWithoutQuestion
  | NotClosable task_key generation_id generation_class
  | NotRetainedIdle task_key generation_id generation_class
  | RetainedByOther task_key generation_id epoch epoch
  | NotRegistered task_key
  | NotFolded task_key
  | AttemptsOverflow task_key
  | ReservationRefused permit_refusal

record finished_attempt =
  fa_key :: task_key
  fa_generation :: generation_id
  fa_attempt :: attempt_number
  fa_record :: attempt_record
  fa_next :: next_move
  fa_session :: "session_id option"
  fa_question :: "frozen_question option"
  fa_halts_run :: bool
  fa_defers :: u32
  fa_reason :: string
  fa_rung :: u32

record settled =
  sd_event :: attempt_finished4
  sd_spent_attempt :: bool

definition settle_open_generation ::
  "topology_fold \<Rightarrow> task_key \<Rightarrow> (settle_refusal, generation_fold) result" where
  "settle_open_generation fold' key =
     ok_or (Option.bind (fold_task fold' key) (\<lambda>task. find (\<lambda>g. gf_class g \<noteq> Closed) (tf_generations task)))
       (NoOpenGeneration key)"

definition open_generation_named ::
  "topology_fold \<Rightarrow> task_key \<Rightarrow> generation_id \<Rightarrow> (settle_refusal, generation_fold) result" where
  "open_generation_named fold' key generation =
     res_bind (settle_open_generation fold' key) (\<lambda>g.
     if gf_id g \<noteq> generation then Inl (OtherGenerationOpen key generation (gf_id g)) else Inr g)"

definition spent :: "finished_attempt \<Rightarrow> bool" where
  "spent finished = spends_allowance (map_option failure_record_shape (at_failure (fa_record finished)))"

definition settled_with :: "finished_attempt \<Rightarrow> attempt_settlement \<Rightarrow> settled" where
  "settled_with finished settlement =
     \<lparr>sd_event = \<lparr>af4_key = fa_key finished, af4_generation = fa_generation finished,
                  af4_attempt = fa_attempt finished, af4_record = fa_record finished,
                  af4_settlement = settlement\<rparr>,
      sd_spent_attempt = spent finished\<rparr>"

definition settlement_transition_of ::
  "finished_attempt \<Rightarrow> (settle_refusal, settlement_transition) result" where
  "settlement_transition_of finished =
     (case fa_next finished of
        RetrySameRung _ \<Rightarrow> Inr TrRetry
      | Escalate \<Rightarrow> Inr (TrEscalated (fa_rung finished))
      | Defer \<Rightarrow> Inr (TrDeferred (sat_add (fa_defers finished) 1) (fa_reason finished))
      | AskHuman _ \<Rightarrow> res_bind (ok_or (fa_question finished) ParkWithoutQuestion) (\<lambda>q. Inr (TrParked q))
      | Fail \<Rightarrow> Inr (TrFailed (fa_halts_run finished) (fa_reason finished)))"

definition settle_failed :: "topology_fold \<Rightarrow> finished_attempt \<Rightarrow> (settle_refusal, settled) result" where
  "settle_failed fold' finished =
     res_bind (ok_or (fold_epoch fold') RunNotStarted) (\<lambda>epoch.
     res_bind (open_generation_named fold' (fa_key finished) (fa_generation finished)) (\<lambda>generation.
     case (fa_next finished, fa_session finished) of
       (RetrySameRung True, Some session) \<Rightarrow> Inr (settled_with finished (SettleRetained session epoch))
     | _ \<Rightarrow>
         res_bind (settlement_transition_of finished) (\<lambda>transition.
         Inr (settled_with finished
                (SettleClosed transition (expected_disposition (gf_lease generation) False))))))"

definition rematerialize_question :: "attempt_finished4 \<Rightarrow> frozen_question option" where
  "rematerialize_question finished =
     (case af4_settlement finished of SettleClosed (TrParked question) _ \<Rightarrow> Some question | _ \<Rightarrow> None)"

subsection \<open>Waiting out a deferral\<close>

text \<open>A \<^verbatim>\<open>Duration\<close> is a number of nanoseconds below its maximum.\<close>

definition duration_max :: nat where
  "duration_max = (2 ^ 64 - 1) * 10 ^ 9 + 999999999"

definition max_defer_backoff :: nat where
  "max_defer_backoff = 600 * 10 ^ 9"

definition default_defer_backoff :: nat where
  "default_defer_backoff = 60 * 10 ^ 9"

definition defer_backoff :: "nat \<Rightarrow> u32 \<Rightarrow> nat" where
  "defer_backoff base round =
     min (min (base * min (2 ^ min (unat round) 16) (2 ^ 32 - 1)) duration_max) max_defer_backoff"

record deferral =
  df_base :: nat
  df_round :: u32

definition deferral_new :: "nat \<Rightarrow> deferral" where
  "deferral_new base = \<lparr>df_base = base, df_round = 0\<rparr>"

definition deferral_wait :: "deferral \<Rightarrow> deferral \<times> defer_wait_elapsed4" where
  "deferral_wait d =
     (let waited = defer_backoff (df_base d) (df_round d); round = sat_add (df_round d) 1;
          ms = waited div 10 ^ 6 in
      (d\<lparr>df_round := round\<rparr>,
       \<lparr>dw_waited_ms = if ms < 2 ^ 64 then of_nat ms else - 1, dw_round = round\<rparr>))"

definition deferral_progressed :: "deferral \<Rightarrow> deferral" where
  "deferral_progressed d = d\<lparr>df_round := 0\<rparr>"

subsection \<open>Closing generations\<close>

definition settle_close ::
  "topology_fold \<Rightarrow> task_key \<Rightarrow> generation_close_reason \<Rightarrow> (settle_refusal, generation_closed) result" where
  "settle_close fold' key reason =
     res_bind (settle_open_generation fold' key) (\<lambda>generation.
     let closed = Inr \<lparr>gc_key = key, gc_generation = gf_id generation, gc_reason = reason,
                       gc_lease = expected_disposition (gf_lease generation) False\<rparr> in
     case gf_class generation of
       OpenNoAttempt \<Rightarrow> closed
     | RetainedIdle _ _ \<Rightarrow> closed
     | other \<Rightarrow> Inl (NotClosable key (gf_id generation) other))"

fun is_retained_idle :: "generation_class \<Rightarrow> bool" where
  "is_retained_idle (RetainedIdle _ _) = True"
| "is_retained_idle _ = False"

definition retained_keys :: "topology_fold \<Rightarrow> task_key list" where
  "retained_keys fold' =
     (let len = (case fold_registry fold' of None \<Rightarrow> 0 | Some r \<Rightarrow> min (registry_len r) (2 ^ 32 - 1)) in
      filter (\<lambda>key. case fold_task fold' key of
                None \<Rightarrow> False
              | Some task \<Rightarrow> list_ex (\<lambda>g. is_retained_idle (gf_class g)) (tf_generations task))
        (map of_nat [0..<len]))"

definition close_retained ::
  "topology_fold \<Rightarrow> generation_close_reason \<Rightarrow> (settle_refusal, generation_closed list) result" where
  "close_retained fold' reason = res_map (\<lambda>key. settle_close fold' key reason) (retained_keys fold')"

subsection \<open>Retrying in place\<close>

record retry_request =
  rq_key :: task_key
  rq_binding :: rung_binding
  rq_rung :: u32
  rq_pool :: "string option"
  rq_materialization :: "materialization option"

record retry_begun =
  rb_generation :: generation_id
  rb_session :: session_id
  rb_attempt :: attempt_number

datatype 'f retry_outcome = RetryStart attempt_started4 | RetryClose generation_closed 'f

datatype 'e retry_error = RetryRefused settle_refusal | VerifyError 'e

definition settle_retained ::
  "topology_fold \<Rightarrow> task_key \<Rightarrow> epoch \<Rightarrow> (settle_refusal, retry_begun) result" where
  "settle_retained fold' key epoch =
     res_bind (settle_open_generation fold' key) (\<lambda>generation.
     case gf_class generation of
       RetainedIdle session incarnation \<Rightarrow>
         if incarnation \<noteq> epoch then Inl (RetainedByOther key (gf_id generation) incarnation epoch)
         else Inr \<lparr>rb_generation = gf_id generation, rb_session = session,
                   rb_attempt = sat_add (gf_attempts generation) 1\<rparr>
     | other \<Rightarrow> Inl (NotRetainedIdle key (gf_id generation) other))"

definition retry_begin ::
  "topology_fold \<Rightarrow> retry_request \<Rightarrow> reservations \<Rightarrow> (settle_refusal, retry_begun \<times> reservations) result" where
  "retry_begin fold' request r =
     res_bind (ok_or (fold_epoch fold') RunNotStarted) (\<lambda>epoch.
     res_bind (settle_retained fold' (rq_key request) epoch) (\<lambda>begun.
     case reservation_reserve (rq_key request) ReserveRetry (entitlements_of fold') r of
       Inl e \<Rightarrow> Inl (ReservationRefused e)
     | Inr r' \<Rightarrow> Inr (begun, r')))"

definition retry_cancel :: "retry_request \<Rightarrow> reservations \<Rightarrow> ('e retry_error, reservations) result" where
  "retry_cancel request r =
     (case reservation_cancel (rq_key request) ReserveRetry r of
        Inl e \<Rightarrow> Inl (RetryRefused (ReservationRefused e)) | Inr r' \<Rightarrow> Inr r')"

definition retry_end ::
  "topology_fold \<Rightarrow> retry_request \<Rightarrow> retry_begun \<Rightarrow> ('e, ('f, unit) result) result \<Rightarrow> reservations \<Rightarrow>
     reservations \<times> ('e retry_error, 'f retry_outcome) result" where
  "retry_end fold' request begun verified r =
     (case verified of
        Inl e \<Rightarrow>
          (case retry_cancel request r of
             Inl refused \<Rightarrow> (r, Inl refused) | Inr r' \<Rightarrow> (r', Inl (VerifyError e)))
      | Inr (Inl failure) \<Rightarrow>
          (case retry_cancel request r of
             Inl refused \<Rightarrow> (r, Inl refused)
           | Inr r' \<Rightarrow>
               (case settle_close fold' (rq_key request) WorktreeMissing of
                  Inl e \<Rightarrow> (r', Inl (RetryRefused e))
                | Inr closed \<Rightarrow> (r', Inr (RetryClose closed failure))))
      | Inr (Inr _) \<Rightarrow>
          (r, Inr (RetryStart
                \<lparr>as_key = rq_key request, as_generation = rb_generation begun, as_attempt = rb_attempt begun,
                 as_rung = rq_rung request, as_binding = rq_binding request, as_pool = rq_pool request,
                 as_resume_session = Some (rb_session begun),
                 as_materialization_observed = rq_materialization request\<rparr>)))"

definition settle_retry ::
  "topology_fold \<Rightarrow> retry_request \<Rightarrow> ('e, ('f, unit) result) result \<Rightarrow> reservations \<Rightarrow>
     reservations \<times> ('e retry_error, 'f retry_outcome) result" where
  "settle_retry fold' request verified r =
     (case retry_begin fold' request r of
        Inl e \<Rightarrow> (r, Inl (RetryRefused e))
      | Inr (begun, r') \<Rightarrow> retry_end fold' request begun verified r')"

end
