(* ===== verification/Event_Log.thy ===== *)
theory Event_Log
  imports Fold_Log
begin

section \<open>The event log on disk: src/events/log.rs\<close>

text \<open>
  One writer appends committed lines to a file and syncs each before it is acknowledged. The
  model keeps what a read of the file returns, what the last successful sync made durable, and
  the longest content written since, so that a crash can be described. The operating system's
  part is an argument: a write may stop after any number of bytes, a flush, a sync, a truncation
  or an open may fail. The fault-injection hooks of the source are an argument too; a hook may
  let the operation proceed, make it return an error, or end the process at that point. An error
  keeps its case and its coordinates, not its prose; the path is left out, and its parent
  directory exists.
\<close>

subsection \<open>Sites, points and hooks\<close>

datatype event_site =
    SiteOpenLog | SiteProvePrefixStable | SiteAppendFirst | SiteAppend | SiteAppendInformational
  | SiteLegacyOpenLog | SiteLegacyAppend

datatype sub_effect_point =
    PtIdUnread | PtWritten | PtWrittenFull | PtSynced | PtCreate | PtTruncateTornTail | PtSyncPrefix
  | PtAmbientJobJoined | PtCreatedSuspended | PtPrivateJobAssigned | PtResumed | PtReaperStarted
  | PtPreExecPgidAndRegister | PtExec | PtRegistered

datatype injection_mode = ModeKill | ModeErrorReturn

datatype injection = InjectProceed | InjectKill | InjectError

datatype written_shape = ShapeTorn | ShapeComplete

text \<open>
  A hook of the source may keep state between its answers. One append asks it each question, a site, a point and a
  mode, at most once, and so does one opening, so a fixed answer to each question is as general; another call has
  its own hooks.
\<close>

record event_hooks =
  hk_point :: "event_site \<Rightarrow> sub_effect_point \<Rightarrow> injection_mode \<Rightarrow> injection"
  hk_kill_shape :: "event_site \<Rightarrow> written_shape"

definition no_event_hooks :: event_hooks where
  "no_event_hooks = \<lparr>hk_point = \<lambda>_ _ _. InjectProceed, hk_kill_shape = \<lambda>_. ShapeComplete\<rparr>"

datatype log_error =
    WrongSite event_site
  | OutOfScope event_site event_site
  | LineBelongsAt event_site event_site
  | LogPoisoned event_site sub_effect_point
  | InjectedFault event_site sub_effect_point
  | LogIo
  | NotSerialized string
  | NotReadBack string

text \<open>An operation that does not return a value returned an error, or the process ended in it.\<close>

datatype log_stop = LogFailed log_error | ProcessAborted

definition and_then ::
  "'s \<times> ('e, 'a) result \<Rightarrow> ('a \<Rightarrow> 's \<Rightarrow> 's \<times> ('e, 'b) result) \<Rightarrow> 's \<times> ('e, 'b) result" where
  "and_then p f = (case p of (s, Inl e) \<Rightarrow> (s, Inl e) | (s, Inr v) \<Rightarrow> f v s)"

lemma and_then_simps [simp]: "and_then (s, Inl e) f = (s, Inl e)" "and_then (s, Inr v) f = f v s"
  by (simp_all add: and_then_def)

definition apply_injection :: "injection \<Rightarrow> event_site \<Rightarrow> sub_effect_point \<Rightarrow> (log_stop, unit) result" where
  "apply_injection i site point =
     (case i of
        InjectProceed \<Rightarrow> Inr ()
      | InjectKill \<Rightarrow> Inl ProcessAborted
      | InjectError \<Rightarrow> Inl (LogFailed (InjectedFault site point)))"

definition inject_modes :: "event_hooks \<Rightarrow> event_site \<Rightarrow> sub_effect_point \<Rightarrow> (log_stop, unit) result" where
  "inject_modes hooks site point =
     res_each (\<lambda>mode. apply_injection (hk_point hooks site point mode) site point) [ModeKill, ModeErrorReturn]"

subsection \<open>The file\<close>

text \<open>
  \<open>dk_file\<close> is what a read returns, \<open>dk_synced\<close> what the last sync of the file made durable,
  \<open>dk_reach\<close> the longest content the file had since, and \<open>dk_linked\<close> whether the directory
  entry is durable.
\<close>

record disk =
  dk_file :: "string option"
  dk_synced :: string
  dk_reach :: string
  dk_linked :: bool

definition disk_bytes :: "disk \<Rightarrow> string" where
  "disk_bytes d = (case dk_file d of None \<Rightarrow> [] | Some bytes \<Rightarrow> bytes)"

text \<open>A write appends all its bytes, or stops with an error after some of them.\<close>

definition disk_write :: "nat option \<Rightarrow> string \<Rightarrow> disk \<Rightarrow> disk" where
  "disk_write fault bytes d =
     (let bytes' = disk_bytes d @ (case fault of None \<Rightarrow> bytes | Some n \<Rightarrow> take n bytes) in
      d\<lparr>dk_file := Some bytes', dk_reach := bytes'\<rparr>)"

definition disk_sync :: "bool \<Rightarrow> disk \<Rightarrow> disk" where
  "disk_sync ok d = (if ok then d\<lparr>dk_synced := disk_bytes d, dk_reach := disk_bytes d\<rparr> else d)"

text \<open>What a crash of the machine may leave of the file.\<close>

definition crash_leaves :: "disk \<Rightarrow> string option \<Rightarrow> bool" where
  "crash_leaves d left =
     (case left of
        None \<Rightarrow> dk_file d = None \<or> \<not> dk_linked d
      | Some bytes \<Rightarrow> dk_file d \<noteq> None \<and> prefix (dk_synced d) bytes \<and> prefix bytes (dk_reach d))"

subsection \<open>Appending\<close>

record event_log =
  lg_disk :: disk
  lg_opened_at :: event_site
  lg_poisoned :: "(event_site \<times> sub_effect_point) option"

record append_io =
  io_first :: "nat option"
  io_second :: "nat option"
  io_flush :: bool
  io_sync :: bool

definition log_poison :: "event_site \<Rightarrow> sub_effect_point \<Rightarrow> event_log \<Rightarrow> event_log" where
  "log_poison site point log = log\<lparr>lg_poisoned := Some (site, point)\<rparr>"

definition check_scope :: "event_site \<Rightarrow> event_log \<Rightarrow> (log_stop, unit) result" where
  "check_scope site log =
     (if (lg_opened_at log = SiteLegacyOpenLog) = (site = SiteLegacyAppend) then Inr ()
      else Inl (LogFailed (OutOfScope (lg_opened_at log) site)))"

definition check_poison :: "event_log \<Rightarrow> (log_stop, unit) result" where
  "check_poison log =
     (case lg_poisoned log of
        None \<Rightarrow> Inr ()
      | Some (site, point) \<Rightarrow> Inl (LogFailed (LogPoisoned site point)))"

definition torn_cut :: "string \<Rightarrow> nat" where
  "torn_cut bytes = min (max (length bytes div 2) 1) (length bytes - 1)"

definition write_or_poison ::
  "event_site \<Rightarrow> string \<Rightarrow> sub_effect_point \<Rightarrow> nat option \<Rightarrow> event_log \<Rightarrow> event_log \<times> (log_stop, unit) result" where
  "write_or_poison site bytes point fault log =
     (let log' = log\<lparr>lg_disk := disk_write fault bytes (lg_disk log)\<rparr> in
      if fault = None then (log', Inr ())
      else (log_poison site point log', Inl (LogFailed LogIo)))"

definition at_point ::
  "event_hooks \<Rightarrow> event_site \<Rightarrow> sub_effect_point \<Rightarrow> injection_mode \<Rightarrow> event_log \<Rightarrow>
     event_log \<times> (log_stop, unit) result" where
  "at_point hooks site point mode log =
     (let answer = hk_point hooks site point mode in
      if answer = InjectProceed then (log, Inr ())
      else (log_poison site point log, apply_injection answer site point))"

definition write_line ::
  "event_hooks \<Rightarrow> append_io \<Rightarrow> event_site \<Rightarrow> string \<Rightarrow> event_log \<Rightarrow> event_log \<times> (log_stop, unit) result" where
  "write_line hooks io site bytes log =
     (case hk_kill_shape hooks site of
        ShapeTorn \<Rightarrow>
          let cut = torn_cut bytes in
          and_then (write_or_poison site (take cut bytes) PtWritten (io_first io) log) (\<lambda>_ log.
          and_then (at_point hooks site PtWritten ModeKill log) (\<lambda>_ log.
          write_or_poison site (drop cut bytes) PtWritten (io_second io) log))
      | ShapeComplete \<Rightarrow>
          and_then (write_or_poison site bytes PtWritten (io_first io) log) (\<lambda>_ log.
          at_point hooks site PtWritten ModeKill log))"

definition sync_line ::
  "event_hooks \<Rightarrow> append_io \<Rightarrow> event_site \<Rightarrow> event_log \<Rightarrow> event_log \<times> (log_stop, unit) result" where
  "sync_line hooks io site log =
     and_then (at_point hooks site PtWrittenFull ModeErrorReturn log) (\<lambda>_ log.
     if \<not> io_flush io then (log_poison site PtWrittenFull log, Inl (LogFailed LogIo))
     else
       let synced = log\<lparr>lg_disk := disk_sync (io_sync io) (lg_disk log)\<rparr> in
       if \<not> io_sync io then (log_poison site PtSynced synced, Inl (LogFailed LogIo))
       else
         and_then (at_point hooks site PtSynced ModeKill synced) (\<lambda>_ log.
         at_point hooks site PtSynced ModeErrorReturn log))"

definition write_committed ::
  "event_hooks \<Rightarrow> append_io \<Rightarrow> event_site \<Rightarrow> string \<Rightarrow> event_log \<Rightarrow> event_log \<times> (log_stop, unit) result" where
  "write_committed hooks io site bytes log =
     (if hk_point hooks site PtWritten ModeErrorReturn = InjectError then
        (case write_or_poison site (take (torn_cut bytes) bytes) PtWritten (io_first io) log of
           (log', partial) \<Rightarrow>
             (log_poison site PtWritten log',
              Inl (case partial of Inl e \<Rightarrow> e | Inr _ \<Rightarrow> LogFailed (InjectedFault site PtWritten))))
      else and_then (write_line hooks io site bytes log) (\<lambda>_ log. sync_line hooks io site log))"

definition site_for :: "topology_event_body \<Rightarrow> event_site" where
  "site_for body =
     (case body of
        EvRunStarted _ \<Rightarrow> SiteAppendFirst
      | _ \<Rightarrow> if is_transaction body then SiteAppend else SiteAppendInformational)"

record topology_line =
  ty_committed :: string
  ty_kind :: string
  ty_site :: event_site

text \<open>The serializer and the parser of one line are serde's and are arguments.\<close>

definition round_trip ::
  "(topology_event \<Rightarrow> string option) \<Rightarrow> (string \<Rightarrow> topology_event option) \<Rightarrow> topology_event \<Rightarrow>
     (log_stop, topology_line \<times> topology_event) result" where
  "round_trip encode decode event =
     (let kind = event_kind (ev_body event) in
      res_bind (ok_or (encode event) (LogFailed (NotSerialized kind))) (\<lambda>line.
      res_bind (ok_or (decode line) (LogFailed (NotReadBack kind))) (\<lambda>written.
      Inr (\<lparr>ty_committed = line @ [newline], ty_kind = kind, ty_site = site_for (ev_body event)\<rparr>, written))))"

definition topology_append_sites :: "event_site list" where
  "topology_append_sites = [SiteAppendFirst, SiteAppend, SiteAppendInformational]"

definition append_topology ::
  "event_hooks \<Rightarrow> append_io \<Rightarrow> event_site \<Rightarrow> topology_line \<Rightarrow> event_log \<Rightarrow> event_log \<times> (log_stop, unit) result" where
  "append_topology hooks io site line log =
     (if site \<notin> set topology_append_sites then (log, Inl (LogFailed (WrongSite site)))
      else
        and_then (log, check_scope site log) (\<lambda>_ log.
        if ty_site line \<noteq> site then (log, Inl (LogFailed (LineBelongsAt (ty_site line) site)))
        else
          and_then (log, check_poison log) (\<lambda>_ log.
          write_committed hooks io site (ty_committed line) log)))"

definition append_legacy ::
  "('e \<Rightarrow> string option) \<Rightarrow> (string \<Rightarrow> 'e option) \<Rightarrow> ('e \<Rightarrow> string) \<Rightarrow> event_hooks \<Rightarrow> append_io \<Rightarrow> event_site \<Rightarrow> 'e \<Rightarrow>
     event_log \<Rightarrow> event_log \<times> (log_stop, 'e) result" where
  "append_legacy encode decode kind hooks io site event log =
     (if site \<noteq> SiteLegacyAppend then (log, Inl (LogFailed (WrongSite site)))
      else
        and_then (log, check_scope site log) (\<lambda>_ log.
        and_then (log, check_poison log) (\<lambda>_ log.
        and_then (log, ok_or (encode event) (LogFailed (NotSerialized (kind event)))) (\<lambda>line log.
        and_then (log, ok_or (decode line) (LogFailed (NotReadBack (kind event)))) (\<lambda>written log.
        and_then (write_committed hooks io site (line @ [newline]) log) (\<lambda>_ log.
        (log, Inr written)))))))"

subsection \<open>Opening\<close>

datatype barrier_step = BarrierOpenLog | BarrierSyncPrefix | BarrierProvePrefixStable | BarrierCheckedReplay

record open_io =
  oi_read :: bool
  oi_truncate :: bool
  oi_open :: bool
  oi_sync_created :: bool
  oi_sync_file :: bool
  oi_metadata :: bool
  oi_sync_truncated :: bool

text \<open>The bytes up to and with the last newline.\<close>

definition committed_prefix :: "string \<Rightarrow> string" where
  "committed_prefix bytes = rev (dropWhile (\<lambda>c. c \<noteq> newline) (rev bytes))"

definition torn :: "string \<Rightarrow> bool" where
  "torn bytes \<longleftrightarrow> bytes \<noteq> [] \<and> last bytes \<noteq> newline"

text \<open>A warning is the number of bytes a truncation discarded.\<close>

type_synonym open_state = "disk \<times> nat list"

definition fails_at :: "barrier_step \<Rightarrow> (log_stop, 'a) result \<Rightarrow> (barrier_step \<times> log_stop, 'a) result" where
  "fails_at step r = (case r of Inl e \<Rightarrow> Inl (step, e) | Inr v \<Rightarrow> Inr v)"

definition normalize_tail ::
  "event_hooks \<Rightarrow> open_io \<Rightarrow> event_site \<Rightarrow> open_state \<Rightarrow>
     open_state \<times> (barrier_step \<times> log_stop, string \<times> bool) result" where
  "normalize_tail hooks io site s =
     (case dk_file (fst s) of
        None \<Rightarrow> (s, Inr ([], False))
      | Some existing \<Rightarrow>
          if torn existing then
            if \<not> oi_truncate io then (s, Inl (BarrierOpenLog, LogFailed LogIo))
            else
              let keep = committed_prefix existing;
                  s' = ((fst s)\<lparr>dk_file := Some keep\<rparr>, snd s @ [length existing - length keep]) in
              and_then (s', fails_at BarrierOpenLog (inject_modes hooks site PtTruncateTornTail)) (\<lambda>_ s.
              (s, Inr (keep, True)))
          else (s, Inr (existing, False)))"

definition sync_directory :: "bool \<Rightarrow> open_state \<Rightarrow> open_state \<times> (log_stop, unit) result" where
  "sync_directory ok s =
     (if ok then (((fst s)\<lparr>dk_linked := True\<rparr>, snd s), Inr ()) else (s, Inl (LogFailed LogIo)))"

definition sync_log_file :: "bool \<Rightarrow> bool \<Rightarrow> open_state \<Rightarrow> open_state \<times> (log_stop, unit) result" where
  "sync_log_file synced metadata s =
     ((disk_sync synced (fst s), snd s), if synced \<and> metadata then Inr () else Inl (LogFailed LogIo))"

definition stepped ::
  "barrier_step \<Rightarrow> open_state \<times> (log_stop, 'a) result \<Rightarrow> open_state \<times> (barrier_step \<times> log_stop, 'a) result" where
  "stepped step p = (fst p, fails_at step (snd p))"

definition open_funnel ::
  "event_hooks \<Rightarrow> open_io \<Rightarrow> event_site \<Rightarrow> open_state \<Rightarrow>
     open_state \<times> (barrier_step \<times> log_stop, event_log \<times> string) result" where
  "open_funnel hooks io site s =
     (if \<not> oi_read io then (s, Inl (BarrierOpenLog, LogFailed LogIo))
      else
        let created = (dk_file (fst s) = None) in
        and_then (normalize_tail hooks io site s) (\<lambda>(kept, truncated) s.
        if \<not> oi_open io then (s, Inl (BarrierOpenLog, LogFailed LogIo))
        else
          let s = ((fst s)\<lparr>dk_file := Some (disk_bytes (fst s))\<rparr>, snd s) in
          and_then
            (if created then
               and_then (stepped BarrierOpenLog (sync_directory (oi_sync_created io) s)) (\<lambda>_ s.
               (s, fails_at BarrierOpenLog (inject_modes hooks site PtCreate)))
             else (s, Inr ())) (\<lambda>_ s.
          and_then (s, fails_at BarrierSyncPrefix (inject_modes hooks site PtSyncPrefix)) (\<lambda>_ s.
          and_then (stepped BarrierSyncPrefix (sync_log_file (oi_sync_file io) (oi_metadata io) s)) (\<lambda>_ s.
          and_then
            (if truncated then stepped BarrierSyncPrefix (sync_directory (oi_sync_truncated io) s)
             else (s, Inr ())) (\<lambda>_ s.
          (s, Inr (\<lparr>lg_disk = fst s, lg_opened_at = site, lg_poisoned = None\<rparr>, kept))))))))"

definition open_legacy ::
  "open_io \<Rightarrow> event_site \<Rightarrow> open_state \<Rightarrow> open_state \<times> (log_stop, event_log \<times> string) result" where
  "open_legacy io site s =
     (if \<not> oi_read io then (s, Inl (LogFailed LogIo))
      else
        and_then
          (case dk_file (fst s) of
             None \<Rightarrow> (s, Inr [])
           | Some existing \<Rightarrow>
               if torn existing then
                 if \<not> oi_truncate io then (s, Inl (LogFailed LogIo))
                 else
                   let keep = committed_prefix existing in
                   (((fst s)\<lparr>dk_file := Some keep\<rparr>, snd s @ [length existing - length keep]), Inr keep)
               else (s, Inr existing)) (\<lambda>kept s.
        if \<not> oi_open io then (s, Inl (LogFailed LogIo))
        else
          let s = ((fst s)\<lparr>dk_file := Some (disk_bytes (fst s))\<rparr>, snd s) in
          (s, Inr (\<lparr>lg_disk = fst s, lg_opened_at = site, lg_poisoned = None\<rparr>, kept))))"

definition open_with_prefix ::
  "event_hooks \<Rightarrow> open_io \<Rightarrow> event_site \<Rightarrow> open_state \<Rightarrow> open_state \<times> (log_stop, event_log \<times> string) result" where
  "open_with_prefix hooks io site s =
     (case site of
        SiteOpenLog \<Rightarrow>
          (case open_funnel hooks io site s of (s', r) \<Rightarrow>
             (s', case r of Inl (_, e) \<Rightarrow> Inl e | Inr v \<Rightarrow> Inr v))
      | SiteLegacyOpenLog \<Rightarrow> open_legacy io site s
      | other \<Rightarrow> (s, Inl (LogFailed (WrongSite other))))"

subsection \<open>The stable-prefix barrier\<close>

datatype barrier_detail =
    OpenStopped log_stop
  | RereadFailed
  | TornReread
  | RereadLength nat nat
  | RereadDiffers nat
  | FirstLineDigest string string
  | NoFirstLine string
  | ReplayRefused fold_error

record stable_prefix =
  sp_log :: event_log
  sp_bytes :: string
  sp_events :: "topology_event list"
  sp_fold :: topology_fold

definition first_line_digest :: "externals \<Rightarrow> string \<Rightarrow> string option" where
  "first_line_digest x bytes =
     (if newline \<in> set bytes
      then Some (''sha256:'' @ ex_sha256 x (takeWhile (\<lambda>c. c \<noteq> newline) bytes)) else None)"

definition first_difference :: "string \<Rightarrow> string \<Rightarrow> nat" where
  "first_difference a b =
     (let same = takeWhile (\<lambda>(c, d). c = d) (zip a b) in
      if length same < length (zip a b) then length same else 0)"

definition prove_stable ::
  "externals \<Rightarrow> string option \<Rightarrow> string \<Rightarrow> string option \<Rightarrow> (barrier_step \<times> barrier_detail, string) result" where
  "prove_stable x expected normalized reread =
     (let fail = (\<lambda>detail. Inl (BarrierProvePrefixStable, detail)) in
      case reread of
        None \<Rightarrow> fail RereadFailed
      | Some bytes \<Rightarrow>
          if torn bytes then fail TornReread
          else if length bytes \<noteq> length normalized then fail (RereadLength (length bytes) (length normalized))
          else if bytes \<noteq> normalized then fail (RereadDiffers (first_difference bytes normalized))
          else (case expected of
                  None \<Rightarrow> Inr bytes
                | Some digest \<Rightarrow>
                    (case first_line_digest x bytes of
                       Some actual \<Rightarrow>
                         if actual = digest then Inr bytes else fail (FirstLineDigest actual digest)
                     | None \<Rightarrow> fail (NoFirstLine digest))))"

text \<open>\<open>reread\<close> is what the second read of the file returned, if it did not fail.\<close>

definition establish_stable_prefix ::
  "externals \<Rightarrow> (string \<Rightarrow> topology_event option) \<Rightarrow> event_hooks \<Rightarrow> open_io \<Rightarrow> (disk \<Rightarrow> string option) \<Rightarrow>
     frozen_inputs \<Rightarrow> string option \<Rightarrow> open_state \<Rightarrow>
     open_state \<times> (barrier_step \<times> barrier_detail, stable_prefix) result" where
  "establish_stable_prefix x decode hooks io reread inputs expected s =
     (case open_funnel hooks io SiteOpenLog s of
        (s, Inl (step, e)) \<Rightarrow> (s, Inl (step, OpenStopped e))
      | (s, Inr (log, normalized)) \<Rightarrow>
          (s, res_bind (prove_stable x expected normalized (reread (fst s))) (\<lambda>bytes.
            case parse_log decode bytes of
              Inl e \<Rightarrow> Inl (BarrierCheckedReplay, ReplayRefused e)
            | Inr events \<Rightarrow>
                (case replay x inputs events of
                   Inl e \<Rightarrow> Inl (BarrierCheckedReplay, ReplayRefused e)
                 | Inr fold' \<Rightarrow>
                     Inr \<lparr>sp_log = log, sp_bytes = bytes, sp_events = events, sp_fold = fold'\<rparr>))))"

end
