(* ===== verification/Emit.thy ===== *)
theory Emit
  imports Event_Log Permits
begin

section \<open>Writing an event: src/engine/topology/emit.rs\<close>

text \<open>
  Every state change of a run goes through one function: the event is serialized and read back,
  the fold checks what was read back, the line is appended and synced, and only then is the
  change applied. When the append was entered and failed, its outcome is unknown: the fold is
  poisoned, what was reserved is given up, and the log is opened again to find out whether the
  line is there. Telling the notifiers of new questions is left out, except for which questions
  they are told of.
\<close>

record run_identity =
  ri_run_id :: string
  ri_inputs :: frozen_inputs
  ri_first_line :: "string option"

record emit_state =
  em_fold :: topology_fold
  em_log :: event_log
  em_events :: "topology_event list"
  em_reservations :: reservations
  em_warnings :: "nat list"

datatype append_outcome =
    OutcomePresent | OutcomeAbsent | OutcomeUndetermined barrier_step barrier_detail

datatype first_append_disposition =
    FirstCommitted | FirstRetainedPossiblyCommitted | FirstUndeterminedAndRetained

record uncancelled_append =
  ua_run_id :: string
  ua_kind :: string
  ua_site :: event_site
  ua_cause :: log_error
  ua_outcome :: append_outcome
  ua_cancelled_reservation :: bool

datatype emit_error =
    EmitUnserializable log_stop
  | EmitRefused fold_error
  | EmitNotEntered log_error
  | EmitAppendFailed uncancelled_append
  | EmitAborted

fun wrote_nothing :: "emit_error \<Rightarrow> bool" where
  "wrote_nothing (EmitAppendFailed _) = False"
| "wrote_nothing EmitAborted = False"
| "wrote_nothing _ = True"

definition creator_disposition :: "uncancelled_append \<Rightarrow> first_append_disposition option" where
  "creator_disposition u =
     (if ua_site u \<noteq> SiteAppendFirst then None
      else Some (case ua_outcome u of
        OutcomePresent \<Rightarrow> FirstCommitted
      | OutcomeAbsent \<Rightarrow> FirstRetainedPossiblyCommitted
      | OutcomeUndetermined _ _ \<Rightarrow> FirstUndeterminedAndRetained))"

definition cancel_any :: "reservations \<Rightarrow> reservations \<times> bool" where
  "cancel_any r = (case reservation_cancel_all r of (r', n) \<Rightarrow> (r', 0 < n))"

text \<open>
  The world around one call: the serializer and the parser of a line, the outcomes of the
  system calls of the append and of the reopening, what the second read returns, and the hooks.
\<close>

record emit_world =
  ew_encode :: "topology_event \<Rightarrow> string option"
  ew_decode :: "string \<Rightarrow> topology_event option"
  ew_append :: append_io
  ew_open :: open_io
  ew_reread :: "disk \<Rightarrow> string option"
  ew_hooks :: event_hooks

definition append_outcome_of ::
  "topology_line \<Rightarrow> (barrier_step \<times> barrier_detail, stable_prefix) result \<Rightarrow> append_outcome" where
  "append_outcome_of line r =
     (case r of
        Inr p \<Rightarrow> if suffix (ty_committed line) (sp_bytes p) then OutcomePresent else OutcomeAbsent
      | Inl (step, detail) \<Rightarrow> OutcomeUndetermined step detail)"

definition emit_protocol ::
  "externals \<Rightarrow> emit_world \<Rightarrow> run_identity \<Rightarrow> topology_line \<Rightarrow> event_site \<Rightarrow> log_error \<Rightarrow> emit_state \<Rightarrow>
     emit_state \<times> (emit_error, topology_event) result" where
  "emit_protocol x w identity line site cause st =
     (case cancel_any (em_reservations st) of (reservations, cancelled) \<Rightarrow>
      case establish_stable_prefix x (ew_decode w) (ew_hooks w) (ew_open w) (ew_reread w)
             (ri_inputs identity) (ri_first_line identity) (lg_disk (em_log st), em_warnings st) of
        ((d, warnings), r) \<Rightarrow>
          (st\<lparr>em_fold := poison (em_fold st), em_reservations := reservations,
              em_log := (em_log st)\<lparr>lg_disk := d\<rparr>, em_warnings := warnings\<rparr>,
           Inl (case r of
                  Inl (_, OpenStopped ProcessAborted) \<Rightarrow> EmitAborted
                | _ \<Rightarrow> EmitAppendFailed
                    \<lparr>ua_run_id = ri_run_id identity, ua_kind = ty_kind line, ua_site = site,
                     ua_cause = cause, ua_outcome = append_outcome_of line r,
                     ua_cancelled_reservation = cancelled\<rparr>)))"

definition emit ::
  "externals \<Rightarrow> emit_world \<Rightarrow> run_identity \<Rightarrow> string \<Rightarrow> topology_event_body \<Rightarrow> emit_state \<Rightarrow>
     emit_state \<times> (emit_error, topology_event) result" where
  "emit x w identity ts body st =
     (case round_trip (ew_encode w) (ew_decode w) \<lparr>ev_ts = ts, ev_body = body\<rparr> of
        Inl e \<Rightarrow> (st, Inl (EmitUnserializable e))
      | Inr (line, checked) \<Rightarrow>
          (case plan_transition x (em_fold st) checked of
             Inl e \<Rightarrow> (st, Inl (EmitRefused e))
           | Inr delta \<Rightarrow>
               let site = site_for (ev_body checked);
                   poisoned_before = (lg_poisoned (em_log st) \<noteq> None) in
               (case append_topology (ew_hooks w) (ew_append w) site line (em_log st) of
                  (log, Inr _) \<Rightarrow>
                    (st\<lparr>em_log := log, em_fold := apply_delta delta (em_fold st),
                        em_events := em_events st @ [checked]\<rparr>, Inr checked)
                | (log, Inl ProcessAborted) \<Rightarrow> (st\<lparr>em_log := log\<rparr>, Inl EmitAborted)
                | (log, Inl (LogFailed cause)) \<Rightarrow>
                    if poisoned_before \<or> lg_poisoned log = None
                    then (st\<lparr>em_log := log\<rparr>, Inl (EmitNotEntered cause))
                    else emit_protocol x w identity line site cause (st\<lparr>em_log := log\<rparr>))))"

definition discharging :: "emit_error \<Rightarrow> invocation_ledger \<Rightarrow> invocation_ledger \<times> nat option" where
  "discharging e ledger =
     (case e of
        EmitAppendFailed _ \<Rightarrow> (case cancel_after_append_error ledger of (l, n) \<Rightarrow> (l, Some n))
      | _ \<Rightarrow> (ledger, None))"

definition open_question_ids :: "bool \<Rightarrow> topology_fold \<Rightarrow> question_id list" where
  "open_question_ids notified fold' =
     (if \<not> notified then []
      else (case fo_run fold' of None \<Rightarrow> [] | Some run \<Rightarrow> map fst (st_questions run)))"

definition opened_questions :: "bool \<Rightarrow> question_id list \<Rightarrow> topology_fold \<Rightarrow> frozen_question list" where
  "opened_questions notified open_before fold' =
     (if \<not> notified then []
      else (case fo_run fold' of
              None \<Rightarrow> []
            | Some run \<Rightarrow>
                filter (\<lambda>q. fq_id q \<notin> set open_before) (map (oq_question \<circ> snd) (st_questions run))))"

text \<open>A stopped process writes nothing; otherwise the event is written and what it opens is announced.\<close>

definition run_emit ::
  "externals \<Rightarrow> emit_world \<Rightarrow> run_identity \<Rightarrow> string option \<Rightarrow> bool \<Rightarrow> string \<Rightarrow> topology_event_body \<Rightarrow> emit_state \<Rightarrow>
     emit_state \<times> (emit_error option, frozen_question list) result" where
  "run_emit x w identity stopped notified ts body st =
     (if stopped \<noteq> None then (st, Inl None)
      else
        let open_before = open_question_ids notified (em_fold st) in
        (case emit x w identity ts body st of
           (st', Inl e) \<Rightarrow> (st', Inl (Some e))
         | (st', Inr _) \<Rightarrow> (st', Inr (opened_questions notified open_before (em_fold st')))))"

end
