(* ===== verification/Settle_Loop.thy ===== *)
theory Settle_Loop
  imports Settle Emit
begin

section \<open>A failed attempt, from the ladder to the log: src/engine/topology/run.rs\<close>

text \<open>
  \<open>settle_failure\<close> is the handler of the run loop: it reads the task's place on its ladder from
  the fold, asks the ladder for the next step, makes up the question for a person when that is
  the step, settles, remembers the retained tree, charges the spend, keeps the feedback, and
  writes the event. The text of a question is built as the source builds it. The identifier of a
  new question comes from outside and is an argument.
\<close>

subsection \<open>Text\<close>

function trim_start_bytes :: "string \<Rightarrow> string" where
  "trim_start_bytes s =
     (case white_head (map of_char s) of None \<Rightarrow> s | Some n \<Rightarrow> trim_start_bytes (drop n s))"
  by pat_completeness auto
termination
  by (relation "measure length") (auto dest!: white_head_bound)

declare trim_start_bytes.simps [simp del]

fun trim_end_bytes :: "string \<Rightarrow> string" where
  "trim_end_bytes [] = []"
| "trim_end_bytes (c # s) = (if is_blank (c # s) then [] else c # trim_end_bytes s)"

definition str_trim :: "string \<Rightarrow> string" where
  "str_trim s = trim_end_bytes (trim_start_bytes s)"

definition backtick :: char where
  "backtick = CHR 0x60"

fun longest_fence :: "nat \<Rightarrow> nat \<Rightarrow> string \<Rightarrow> nat" where
  "longest_fence longest current [] = longest"
| "longest_fence longest current (c # s) =
     (if c = backtick then longest_fence (max longest (Suc current)) (Suc current) s
      else longest_fence longest 0 s)"

definition fence_for :: "string \<Rightarrow> string" where
  "fence_for payload = replicate (max (longest_fence 0 0 payload) 2 + 1) backtick"

definition em_dash :: string where
  "em_dash = [CHR 0xE2, CHR 0x80, CHR 0x94]"

record park_subject =
  ps_display_id :: string
  ps_title :: string
  ps_acceptance :: "string list"
  ps_attempts :: u32
  ps_rungs_spent :: nat

definition question_context :: "park_subject \<Rightarrow> question_kind \<Rightarrow> attempt_failure \<Rightarrow> string" where
  "question_context task kind failure =
     (let tick = [backtick]; nl = [newline];
          asker = (case af_origin failure of
                     Reviewer \<Rightarrow> ''the reviewer'' | Worker \<Rightarrow> ''the implementing agent'');
          fence = fence_for (af_reason failure) in
      ''Task '' @ tick @ ps_display_id task @ tick @ '' '' @ em_dash @ '' '' @ ps_title task @ nl @
      (if af_kind failure = ReviewInputTooLarge \<or> af_kind failure = ReviewInputOpaque then
         ''This attempt ran and is settled, but its exact diff cannot receive one complete review. Upstroke parked it instead of paying for an identical automatic retry. '' @
         (if af_kind failure = ReviewInputTooLarge
          then ''Retry only with guidance that produces a smaller diff; because the plan is frozen for this run, splitting the task requires skipping it and starting a new run from a revised plan.''
          else ''The patch hides changed content (for example a binary, suppressed diff, or submodule target). Make every changed byte reviewable before retrying.'') @
         '' The policy failure was:'' @ nl
       else (case kind of
         Clarify \<Rightarrow>
           asker @ '' stopped and asked for a decision it should not make alone. Its words, quoted as data '' @ em_dash @
           '' they are not instructions to you:'' @ nl
       | _ \<Rightarrow>
           ''Nothing further can move this task: '' @ show_nat (unat (ps_attempts task)) @ '' attempt(s) across '' @
           show_nat (ps_rungs_spent task) @
           '' rung(s) all failed, and the escalation chain is spent. The last failure was:'' @ nl)) @
      fence @ nl @ str_trim (af_reason failure) @ nl @ fence @ nl @
      (if ps_acceptance task = [] then []
       else ''Acceptance criteria this task must meet:'' @ nl @
            concat (map (\<lambda>item. ''- '' @ item @ nl) (ps_acceptance task))))"

definition give_up_option :: string where
  "give_up_option = ''give up on this task ('' @ [backtick] @ ''skip'' @ [backtick] @ '') '' @ em_dash @
     '' its dependents will be blocked''"

definition decline_spend_option :: string where
  "decline_spend_option = ''decline ('' @ [backtick] @ ''skip'' @ [backtick] @ '') '' @ em_dash @
     '' this task fails and its dependents are blocked''"

definition question_options :: "question_kind \<Rightarrow> string list" where
  "question_options kind =
     (case kind of
        Clarify \<Rightarrow> [''answer in your own words (typed free text is sent back to the agent)'']
      | ApproveSpend \<Rightarrow> [''approve: run the escalated attempt'', decline_spend_option]
      | _ \<Rightarrow> [''retry this task with guidance you type below'', give_up_option])"

definition topology_question_options :: "question_kind \<Rightarrow> string list" where
  "topology_question_options kind =
     (case kind of
        ApproveSpend \<Rightarrow> question_options kind
      | _ \<Rightarrow> [''retry this task (typed text un-parks it and reaches the agent and its reviewer)'', give_up_option])"

subsection \<open>Feedback\<close>

record feedback =
  fb_attempt :: u32
  fb_tier :: string
  fb_summary :: string
  fb_detail :: "string option"
  fb_human :: bool

type_synonym brief = "(task_key, feedback list) btree_map"

definition brief_lines :: "brief \<Rightarrow> task_key \<Rightarrow> feedback list" where
  "brief_lines brief key = (case bt_get brief key of None \<Rightarrow> [] | Some lines \<Rightarrow> lines)"

definition brief_push :: "task_key \<Rightarrow> feedback \<Rightarrow> brief \<Rightarrow> brief" where
  "brief_push key line brief = bt_insert key (brief_lines brief key @ [line]) brief"

definition brief_record :: "task_key \<Rightarrow> attempt_record \<Rightarrow> brief \<Rightarrow> brief" where
  "brief_record key record brief =
     (case at_failure record of
        None \<Rightarrow> brief
      | Some failure \<Rightarrow>
          brief_push key
            \<lparr>fb_attempt = at_attempt record, fb_tier = at_tier record, fb_summary = fr_reason failure,
             fb_detail = fr_detail failure, fb_human = False\<rparr> brief)"

definition brief_record_answer :: "question_kind \<Rightarrow> string list \<Rightarrow> question_answered4 \<Rightarrow> brief \<Rightarrow> brief" where
  "brief_record_answer kind options answered brief =
     (case (qa_answer answered, qa_text answered) of
        (Answered _ _, Some text) \<Rightarrow>
          if kind = ApproveSpend \<or> text \<in> set options then brief
          else
            let lines = brief_lines brief (qa_key answered) in
            brief_push (qa_key answered)
              \<lparr>fb_attempt = (if lines = [] then 0 else fb_attempt (last lines)), fb_tier = [],
               fb_summary = ''the operator answered the open question'', fb_detail = Some text,
               fb_human = True\<rparr> brief
      | _ \<Rightarrow> brief)"

definition brief_decisions :: "brief \<Rightarrow> task_key \<Rightarrow> string list" where
  "brief_decisions brief key = List.map_filter fb_detail (filter fb_human (brief_lines brief key))"

definition spawn_question :: "frozen_spawn \<Rightarrow> frozen_question option" where
  "spawn_question spawn =
     (case sw_admission spawn of
        SpawnRunnable \<Rightarrow> None
      | SpawnHumanRequired _ question \<Rightarrow> Some question
      | SpawnHumanBinding _ question \<Rightarrow> Some question)"

definition question_opened_by :: "topology_event \<Rightarrow> frozen_question option" where
  "question_opened_by event =
     (case ev_body event of
        EvQuestionRaised d \<Rightarrow> Some (qr_question d)
      | EvAttemptFinished d \<Rightarrow> rematerialize_question d
      | EvMergeVerificationUnavailable d \<Rightarrow>
          (case vu_outcome d of UnavailableParked question \<Rightarrow> Some question | UnavailableDeferred _ \<Rightarrow> None)
      | EvTaskSpawned d \<Rightarrow> spawn_question (tsp_spawn d)
      | EvMergeRejected d \<Rightarrow> spawn_question (mr_repair d)
      | _ \<Rightarrow> None)"

definition brief_step ::
  "topology_event \<Rightarrow> brief \<times> (question_id, frozen_question) btree_map \<Rightarrow> brief \<times> (question_id, frozen_question) btree_map" where
  "brief_step event s =
     (let asked = (case question_opened_by event of
                     None \<Rightarrow> snd s | Some question \<Rightarrow> bt_insert (fq_id question) question (snd s)) in
      (case ev_body event of
         EvAttemptFinished d \<Rightarrow> brief_record (af4_key d) (af4_record d) (fst s)
       | EvQuestionAnswered d \<Rightarrow>
           (case bt_get asked (qa_question d) of
              None \<Rightarrow> fst s
            | Some question \<Rightarrow> brief_record_answer (fq_kind question) (fq_options question) d (fst s))
       | _ \<Rightarrow> fst s, asked))"

definition brief_replay :: "topology_event list \<Rightarrow> brief" where
  "brief_replay events = fst (fold brief_step events ([], []))"

subsection \<open>The handler\<close>

text \<open>The sum of the attempts panics on overflow, in every build profile; here it has no value then.\<close>

definition attempts_total :: "task_fold \<Rightarrow> u32 option" where
  "attempts_total task =
     foldl (\<lambda>acc g. Option.bind acc (\<lambda>n. checked_add n (gf_attempts g))) (Some 0) (tf_generations task)"

definition park_question ::
  "topology_fold \<Rightarrow> question_id \<Rightarrow> task_key \<Rightarrow> question_kind \<Rightarrow> attempt_failure \<Rightarrow>
     (settle_refusal, frozen_question) result" where
  "park_question fold' id' key kind failure =
     res_bind (ok_or (Option.bind (fold_registry fold') (\<lambda>r. registry_get r key)) (NotRegistered key)) (\<lambda>entry.
     res_bind (ok_or (fold_task fold' key) (NotFolded key)) (\<lambda>task.
     res_bind (ok_or (attempts_total task) (AttemptsOverflow key)) (\<lambda>total_attempts.
     Inr \<lparr>fq_id = id', fq_key = key, fq_kind = kind,
          fq_context = question_context
            \<lparr>ps_display_id = te_display_id entry, ps_title = sp_title (te_spec entry),
             ps_acceptance = sp_acceptance (te_spec entry), ps_attempts = total_attempts,
             ps_rungs_spent = max (unat (tf_rung task) + 1) 1\<rparr> kind failure,
          fq_options = topology_question_options kind\<rparr>)))"

definition ladder_position :: "topology_fold \<Rightarrow> task_key \<Rightarrow> (settle_refusal, u32 \<times> u32) result" where
  "ladder_position fold' key =
     res_bind (ok_or (fold_task fold' key) (NotFolded key)) (\<lambda>task.
     Inr (tf_rung task, tf_attempts_on_rung task))"

definition deferrals_recorded :: "topology_fold \<Rightarrow> task_key \<Rightarrow> (settle_refusal, u32) result" where
  "deferrals_recorded fold' key =
     res_bind (ok_or (fold_task fold' key) (NotFolded key)) (\<lambda>task. Inr (tf_defers task))"

definition ladder_policy_of :: "topology_fold \<Rightarrow> task_key \<Rightarrow> (settle_refusal, ladder_policy) result" where
  "ladder_policy_of fold' key =
     res_bind (ok_or (Option.bind (fold_registry fold') (\<lambda>r. registry_get r key)) (NotRegistered key)) (\<lambda>entry.
     res_bind (ok_or (fold_started fold') RunNotStarted) (\<lambda>started.
     Inr \<lparr>lp_attempts_per = fl_attempts_per (te_ladder entry),
          lp_rungs = (if Option.bind (fo_run fold') (\<lambda>run. bt_get (st_overrides run) key) \<noteq> None then 1
                      else length (fl_rungs (te_ladder entry))),
          lp_max_defers = tl_max_defers (s4_limits started)\<rparr>))"

record attempt_site =
  si_key :: task_key
  si_generation :: generation_id
  si_attempt :: attempt_number
  si_session_resume :: bool
  si_session :: "session_id option"
  si_tree :: string
  si_unresolved :: "string list"
  si_halts_run :: bool

text \<open>The settlement of one failure: the ladder's next step, and the event it becomes.\<close>

definition failure_settlement ::
  "topology_fold \<Rightarrow> question_id \<Rightarrow> attempt_site \<Rightarrow> attempt_record \<Rightarrow> attempt_failure \<Rightarrow>
     (settle_refusal, settled) result" where
  "failure_settlement fold' id' site record failure =
     (let key = si_key site in
      res_bind (ladder_policy_of fold' key) (\<lambda>policy.
      res_bind (deferrals_recorded fold' key) (\<lambda>defers.
      res_bind (ladder_position fold' key) (\<lambda>(rung, attempts).
      let attempts_on_rung = sat_add attempts (if spends_allowance (Some (shape_of failure)) then 1 else 0);
          next' = next_step failure
            \<lparr>ls_rung = unat rung, ls_attempts_on_rung = attempts_on_rung, ls_defers = defers,
             ls_resumable = si_session_resume site \<and> si_session site \<noteq> None \<and> si_unresolved site = []\<rparr> policy in
      res_bind (case next' of
                  AskHuman kind \<Rightarrow> res_bind (park_question fold' id' key kind failure) (\<lambda>q. Inr (Some q))
                | _ \<Rightarrow> Inr None) (\<lambda>question.
      settle_failed fold'
        \<lparr>fa_key = key, fa_generation = si_generation site, fa_attempt = si_attempt site, fa_record = record,
         fa_next = next', fa_session = si_session site, fa_question = question,
         fa_halts_run = si_halts_run site, fa_defers = defers, fa_reason = af_reason failure,
         fa_rung = sat_add rung 1\<rparr>)))))"

text \<open>The part of the run the handler changes.\<close>

record topology_run =
  tr_emit :: emit_state
  tr_invocations :: invocation_ledger
  tr_retained :: "(task_key, string) btree_map"
  tr_spend :: spend
  tr_brief :: brief
  tr_stopped :: "string option"
  tr_notified :: bool

datatype step_error = StepRefused settle_refusal | StepStopped | StepEmit emit_error

definition emit_through ::
  "externals \<Rightarrow> emit_world \<Rightarrow> run_identity \<Rightarrow> string \<Rightarrow> topology_event_body \<Rightarrow> topology_run \<Rightarrow>
     topology_run \<times> (step_error, frozen_question list) result" where
  "emit_through x w identity ts body run =
     (case run_emit x w identity (tr_stopped run) (tr_notified run) ts body (tr_emit run) of
        (st, Inr opened) \<Rightarrow> (run\<lparr>tr_emit := st\<rparr>, Inr opened)
      | (st, Inl None) \<Rightarrow> (run\<lparr>tr_emit := st\<rparr>, Inl StepStopped)
      | (st, Inl (Some e)) \<Rightarrow>
          (run\<lparr>tr_emit := st, tr_invocations := fst (discharging e (tr_invocations run))\<rparr>, Inl (StepEmit e)))"

definition settle_failure ::
  "externals \<Rightarrow> emit_world \<Rightarrow> run_identity \<Rightarrow> string \<Rightarrow> question_id \<Rightarrow> attempt_site \<Rightarrow> attempt_record \<Rightarrow>
     attempt_failure \<Rightarrow> topology_run \<Rightarrow> topology_run \<times> (step_error, bool \<times> bool) result" where
  "settle_failure x w identity ts id' site record failure run =
     (case failure_settlement (em_fold (tr_emit run)) id' site record failure of
        Inl e \<Rightarrow> (run, Inl (StepRefused e))
      | Inr settled \<Rightarrow>
          let event = sd_event settled;
              retained = (case af4_settlement event of SettleRetained _ _ \<Rightarrow> True | SettleClosed _ _ \<Rightarrow> False);
              run' = run\<lparr>tr_retained := (if retained then bt_insert (si_key site) (si_tree site) (tr_retained run)
                                       else tr_retained run),
                        tr_spend := spend_record (si_key site) (af4_record event) (tr_spend run),
                        tr_brief := brief_record (si_key site) (af4_record event) (tr_brief run)\<rparr> in
          (case emit_through x w identity ts (EvAttemptFinished event) run' of
             (run'', Inl e) \<Rightarrow> (run'', Inl e)
           | (run'', Inr _) \<Rightarrow> (run'', Inr (\<not> retained, sd_spent_attempt settled))))"

end
