(* ===== verification/Settle_Facts.thy ===== *)
theory Settle_Facts
  imports Settle_Loop Fold_Laws
begin

section \<open>Settlements are accepted\<close>

text \<open>
  The engine decides with the ladder and writes; the fold checks with its own rules. For a state
  a log leads to, the settlement of any failure of the attempt in flight passes them: the rung it
  escalates to is the next one, the question it asks is complete and new, the lease is disposed
  of as the fold expects. So a failed attempt always leaves the task somewhere.
\<close>

subsection \<open>Small facts\<close>

lemma UNIV_tier: "(UNIV :: tier set) = {Small, Mid, Frontier}"
  using tier.exhaust by blast

lemma well_formed_ladder_short: "well_formed_ladder l \<Longrightarrow> length (fl_rungs l) \<le> 3"
proof -
  assume wf: "well_formed_ladder l"
  have d: "distinct (fl_tiers l)"
    using wf by (simp add: well_formed_ladder_def strict_sorted_imp_sorted strict_sorted_iff)
  have "finite (UNIV :: tier set)" "card (UNIV :: tier set) = 3" by (simp_all add: UNIV_tier)
  then have "length (fl_tiers l) \<le> 3"
    using distinct_card [OF d] card_mono [of "UNIV :: tier set" "set (fl_tiers l)"] by simp
  moreover have "length (fl_rungs l) \<le> length (fl_tiers l)"
    using wf by (auto simp: well_formed_ladder_def dest!: arg_cong [where f = length] split: admission.splits)
  ultimately show ?thesis by simp
qed

lemma settle_open_generation_open:
  "fo_run f = Some run \<Longrightarrow>
   settle_open_generation f key = ok_or (Option.bind (task_get run key) tf_open) (NoOpenGeneration key)"
  by (cases "task_get run key") (simp_all add: settle_open_generation_def fold_task_def tf_open_def is_open_def [abs_def])

lemma question_context_not_blank: "\<not> is_blank (question_context task kind failure)"
  by (simp add: question_context_def Let_def is_blank_head)

lemma topology_question_options_nonempty [simp]: "topology_question_options kind \<noteq> []"
  by (cases kind) (simp_all add: topology_question_options_def question_options_def)

text \<open>What holds of an attempt that is in flight and has failed.\<close>

definition failed_in_flight ::
  "run_state \<Rightarrow> attempt_site \<Rightarrow> attempt_record \<Rightarrow> task_fold \<Rightarrow> generation_fold \<Rightarrow> bool" where
  "failed_in_flight run site record task g \<longleftrightarrow>
     st_finished run = None \<and> task_get run (si_key site) = Some task \<and> tf_open task = Some g \<and>
     gf_id g = si_generation site \<and> gf_class g = InFlight (si_attempt site) \<and>
     \<not> is_successful record \<and> at_attempt record = si_attempt site \<and> at_session_id record = si_session site"

lemma settled_event_accepted:
  assumes f: "failed_in_flight run site record task g" and ev: "af4_key ev = si_key site"
    "af4_generation ev = si_generation site" "af4_attempt ev = si_attempt site" "af4_record ev = record"
    and s: "case af4_settlement ev of
        SettleRetained session incarnation \<Rightarrow> incarnation = st_epoch run \<and> si_session site = Some session
      | SettleClosed transition lease \<Rightarrow>
          transition \<noteq> TrSucceeded \<and> lease = expected_disposition (gf_lease g) False \<and>
          check_settled_transition run task ev transition = Inr ()"
  shows "check_started_run x run (EvAttemptFinished ev) = Inr DerivedNone"
proof -
  have "check_attempt_finished run ev = Inr ()"
    using assms
    by (auto simp: check_attempt_finished_def st_task_def in_flight_def open_generation_def ok_or_def
        failed_in_flight_def check_lease_disposition_def Let_def split: attempt_settlement.splits)
  with f show ?thesis
    by (auto simp: check_started_run_def check_body_def no_derived_def failed_in_flight_def)
qed

subsection \<open>Every failure settles\<close>

lemma escalation_accepted:
  assumes entry: "registry_get (st_registry run) (si_key site) = Some entry" and wf: "well_formed_ladder (te_ladder entry)"
    and policy: "ladder_policy_of f (si_key site) = Inr policy" "fo_run f = Some run"
    and up: "unat (tf_rung task) + 1 < lp_rungs policy" and key: "af4_key ev = si_key site"
  shows "check_settled_transition run task ev (TrEscalated (sat_add (tf_rung task) 1)) = Inr ()"
proof -
  from policy entry up have up': "unat (tf_rung task) + 1 < length (fl_rungs (te_ladder entry))"
    by (auto simp: ladder_policy_of_def fold_registry_def fold_started_def ok_or_def split: if_splits)
  with well_formed_ladder_short [OF wf] have "unat (tf_rung task) < 2" by simp
  then have "checked_add (tf_rung task) 1 = Some (sat_add (tf_rung task) 1)"
    "unat (sat_add (tf_rung task) 1) = unat (tf_rung task) + 1"
    by (simp_all add: checked_add_def sat_add_def unat_word_ariths)
  with up' entry key show ?thesis
    by (simp add: check_settled_transition_def next_rung_def st_entry_def ok_or_def Let_def)
qed

lemma park_question_accepted:
  assumes "fo_run f = Some run" "registry_get (st_registry run) key = Some entry" "task_get run key = Some task"
    and "attempts_total task \<noteq> None" "\<not> is_blank id'" "\<not> bs_contains (st_seen_questions run) id'"
  shows "\<exists>q. park_question f id' key kind failure = Inr q \<and>
    check_new_question run ''attempt_finished'' q key = Inr ()"
proof -
  obtain total where total: "attempts_total task = Some total" using assms(4) by blast
  define q where "q = \<lparr>fq_id = id', fq_key = key, fq_kind = kind,
    fq_context = question_context
      \<lparr>ps_display_id = te_display_id entry, ps_title = sp_title (te_spec entry),
       ps_acceptance = sp_acceptance (te_spec entry), ps_attempts = total,
       ps_rungs_spent = max (unat (tf_rung task) + 1) 1\<rparr> kind failure,
    fq_options = topology_question_options kind\<rparr>"
  have "park_question f id' key kind failure = Inr q"
    using assms(1-3) total by (simp add: park_question_def fold_registry_def fold_task_def ok_or_def q_def)
  moreover have "check_new_question run ''attempt_finished'' q key = Inr ()"
    using assms(5,6) by (simp add: check_new_question_def is_complete_def question_context_not_blank q_def)
  ultimately show ?thesis by blast
qed

lemma failure_settles:
  assumes run: "fo_run f = Some run" and entry: "registry_get (st_registry run) (si_key site) = Some entry"
    and wf: "well_formed_ladder (te_ladder entry)" and fl: "failed_in_flight run site record task g"
    and q: "attempts_total task \<noteq> None" "\<not> is_blank id'" "\<not> bs_contains (st_seen_questions run) id'"
  shows "\<exists>settled. failure_settlement f id' site record failure = Inr settled \<and>
    check_started_run x run (EvAttemptFinished (sd_event settled)) = Inr DerivedNone"
proof -
  let ?key = "si_key site"
  from fl have task: "task_get run ?key = Some task" and g: "tf_open task = Some g" "gf_id g = si_generation site"
    by (simp_all add: failed_in_flight_def)
  obtain policy where policy: "ladder_policy_of f ?key = Inr policy"
    using run entry by (simp add: ladder_policy_of_def fold_registry_def fold_started_def ok_or_def)
  define n where "n = next_step failure
      \<lparr>ls_rung = unat (tf_rung task),
       ls_attempts_on_rung = sat_add (tf_attempts_on_rung task) (if spends_allowance (Some (shape_of failure)) then 1 else 0),
       ls_defers = tf_defers task,
       ls_resumable = si_session_resume site \<and> si_session site \<noteq> None \<and> si_unresolved site = []\<rparr> policy"
  obtain qq where qq: "(case n of
          AskHuman kind \<Rightarrow> res_bind (park_question f id' ?key kind failure) (\<lambda>q. Inr (Some q))
        | _ \<Rightarrow> Inr None) = Inr qq"
    and asked: "\<And>kind. n = AskHuman kind \<Longrightarrow> \<exists>q'. qq = Some q' \<and> check_new_question run ''attempt_finished'' q' ?key = Inr ()"
  proof (cases n)
    case (AskHuman kind)
    with park_question_accepted [OF run entry task q, of kind failure] that show ?thesis by auto
  qed (use that in auto)
  let ?fin = "\<lparr>fa_key = ?key, fa_generation = si_generation site, fa_attempt = si_attempt site, fa_record = record,
         fa_next = n, fa_session = si_session site, fa_question = qq, fa_halts_run = si_halts_run site,
         fa_defers = tf_defers task, fa_reason = af_reason failure, fa_rung = sat_add (tf_rung task) 1\<rparr>"
  have fs: "failure_settlement f id' site record failure = settle_failed f ?fin"
    using policy task run qq
    by (simp add: failure_settlement_def deferrals_recorded_def ladder_position_def fold_task_def ok_or_def Let_def n_def)
  have og: "open_generation_named f ?key (si_generation site) = Inr g"
    using run task g by (simp add: open_generation_named_def settle_open_generation_open ok_or_def)
  have ep: "fold_epoch f = Some (st_epoch run)" using run by (simp add: fold_epoch_def)
  have up: "unat (tf_rung task) + 1 < lp_rungs policy" if "n = Escalate"
    using that by (simp add: n_def next_step_def split: if_splits)
  show ?thesis
  proof (cases "n = RetrySameRung True \<and> si_session site \<noteq> None")
    case True
    then obtain session where s: "si_session site = Some session" by blast
    have "failure_settlement f id' site record failure = Inr (settled_with ?fin (SettleRetained session (st_epoch run)))"
      using fs og ep True s by (simp add: settle_failed_def ok_or_def)
    moreover have "check_started_run x run (EvAttemptFinished (sd_event (settled_with ?fin (SettleRetained session (st_epoch run))))) = Inr DerivedNone"
      using s by (intro settled_event_accepted [OF fl]) (simp_all add: settled_with_def)
    ultimately show ?thesis by blast
  next
    case False
    obtain t where t: "settlement_transition_of ?fin = Inr t" "t \<noteq> TrSucceeded"
      "\<And>ev. af4_key ev = ?key \<Longrightarrow> check_settled_transition run task ev t = Inr ()"
    proof (cases n)
      case (AskHuman kind)
      with asked that show ?thesis
        by (auto simp: settlement_transition_of_def check_settled_transition_def ok_or_def Let_def)
    next
      case Escalate
      with that escalation_accepted [OF entry wf policy run up] show ?thesis
        by (auto simp: settlement_transition_of_def)
    qed (use that in \<open>auto simp: settlement_transition_of_def check_settled_transition_def Let_def\<close>)
    let ?s = "SettleClosed t (expected_disposition (gf_lease g) False)"
    have "failure_settlement f id' site record failure = Inr (settled_with ?fin ?s)"
      using fs og ep False t(1) by (cases n; cases "si_session site") (auto simp: settle_failed_def ok_or_def split: bool.splits)
    moreover have "check_started_run x run (EvAttemptFinished (sd_event (settled_with ?fin ?s))) = Inr DerivedNone"
      using t by (intro settled_event_accepted [OF fl]) (simp_all add: settled_with_def)
    ultimately show ?thesis by blast
  qed
qed

lemma registry_has_task:
  assumes "registry_inv run" "task_get run key = Some task"
  obtains entry where "registry_get (st_registry run) key = Some entry" "well_formed_ladder (te_ladder entry)"
proof -
  let ?es = "rg_entries (st_registry run)"
  from assms have "unat key < length ?es"
    by (auto simp: registry_inv_def task_get_def vec_get_def split: if_splits)
  then have "registry_get (st_registry run) key = Some (?es ! unat key)" "?es ! unat key \<in> set ?es"
    by (simp_all add: registry_get_def vec_get_def)
  with assms(1) that show ?thesis by (auto simp: registry_inv_def check_ladder_well_formed)
qed

text \<open>
  C15. Every failed attempt settles. In a state a log leads to, when the attempt in flight has
  failed and the next question's identifier is new, the engine's decision from the ladder always
  becomes a settlement, and the fold accepts the event: the retained session is the recorded one,
  an escalation names the next rung, a question is complete, and the lease is disposed of as due.
\<close>

theorem failed_attempts_always_settle:
  assumes "replay x inputs es = Inr f" "fo_run f = Some run" "failed_in_flight run site record task g"
    and "attempts_total task \<noteq> None" "\<not> is_blank id'" "\<not> bs_contains (st_seen_questions run) id'"
  shows "\<exists>settled. failure_settlement f id' site record failure = Inr settled \<and>
    check_started_run x run (EvAttemptFinished (sd_event settled)) = Inr DerivedNone"
proof -
  have "task_get run (si_key site) = Some task" using assms(3) by (simp add: failed_in_flight_def)
  with reachable_registry [OF replay_reachable_run [OF assms(1,2)]] obtain entry where
    "registry_get (st_registry run) (si_key site) = Some entry" "well_formed_ladder (te_ladder entry)"
    by (rule registry_has_task)
  from failure_settles [OF assms(2) this assms(3-6)] show ?thesis .
qed

definition gate_failed :: attempt_record where
  "gate_failed = sample_attempt\<lparr>at_failure := Some \<lparr>fr_kind = GateFailed, fr_origin = Worker, fr_reason = ''red'', fr_detail = None\<rparr>\<rparr>"

definition gate_failure :: attempt_failure where
  "gate_failure = \<lparr>af_kind = GateFailed, af_origin = Worker, af_reason = ''red'', af_feedback = None, af_never_started = False\<rparr>"

definition sample_site :: attempt_site where
  "sample_site = \<lparr>si_key = 0, si_generation = 0, si_attempt = 1, si_session_resume = True, si_session = Some ''s'',
     si_tree = ''t'', si_unresolved = [], si_halts_run = False\<rparr>"

theorem failed_attempts_always_settle_witness:
  "\<exists>f settled. fo_run f = Some sample_flying \<and>
     failure_settlement f ''q1'' sample_site gate_failed gate_failure = Inr settled \<and>
     check_started_run sample_x sample_flying (EvAttemptFinished (sd_event settled)) = Inr DerivedNone"
proof -
  let ?g = "\<lparr>gf_id = 0, gf_class = InFlight 1, gf_base_sha = ''s0'', gf_lease = OwnLease, gf_attempts = 1, gf_candidate = None\<rparr>"
  let ?t = "\<lparr>tf_state = Pending, tf_defers = 0, tf_rung = 0, tf_attempts_on_rung = 0, tf_generations = [?g]\<rparr>"
  obtain es f where r: "replay sample_x sample_inputs es = Inr f" "fo_run f = Some sample_flying"
    using sample_replay [OF sample_reachable(2)] .
  have fl: "failed_in_flight sample_flying sample_site gate_failed ?t ?g"
    by (simp add: failed_in_flight_def sample_site_def gate_failed_def sample_attempt_def is_successful_def
        task_get_def sample_run_def vec_get_def tf_open_def is_open_def run_start_def)
  have "attempts_total ?t \<noteq> None" by (simp add: attempts_total_def checked_add_def)
  moreover have "\<not> is_blank ''q1''" "\<not> bs_contains (st_seen_questions sample_flying) ''q1''"
    by (simp_all add: is_blank_head sample_run_def run_start_def bs_contains_def)
  ultimately show ?thesis
    using failed_attempts_always_settle [OF r fl, of "''q1''" gate_failure] r(2) by blast
qed

subsection \<open>Retained sessions\<close>

lemma gens_ok_open:
  assumes "gens_ok i gs" "g \<in> set gs" "is_open g"
  shows "find is_open gs = Some g"
proof -
  from assms(2) obtain j where j: "j < length gs" "gs ! j = g" by (auto simp: in_set_conv_nth)
  from assms j have last: "Suc j = length gs"
    by (metis Suc_lessI gens_ok_def)
  have "\<not> is_open (gs ! k)" if "k < j" for k
    using assms(1) that last by (auto simp: gens_ok_def)
  with j assms(3) show ?thesis by (auto simp: find_Some_iff)
qed

lemma settle_close_accepted:
  assumes "fo_run f = Some run" "st_finished run = None" "task_get run key = Some task"
    and "find is_open (tf_generations task) = Some g" "is_retained_idle (gf_class g)"
  shows "\<exists>closed. settle_close f key reason = Inr closed \<and> gc_key closed = key \<and>
    check_started_run x run (EvGenerationClosed closed) = Inr DerivedNone"
proof -
  obtain session incarnation where c: "gf_class g = RetainedIdle session incarnation"
    using assms(5) by (cases "gf_class g") auto
  let ?c = "\<lparr>gc_key = key, gc_generation = gf_id g, gc_reason = reason,
    gc_lease = expected_disposition (gf_lease g) False\<rparr>"
  have "settle_close f key reason = Inr ?c"
    using assms c by (simp add: settle_close_def settle_open_generation_open tf_open_def ok_or_def)
  moreover have "check_generation_closed run ?c = Inr ()"
    using assms c
    by (simp add: check_generation_closed_def st_task_def open_generation_def tf_open_def ok_or_def
        check_lease_disposition_def Let_def)
  ultimately show ?thesis using assms(2)
    by (auto simp: check_started_run_def check_body_def no_derived_def)
qed

lemma res_map_all:
  assumes "\<And>x. x \<in> set xs \<Longrightarrow> \<exists>y. f x = Inr y \<and> P x y"
  shows "\<exists>ys. res_map f xs = Inr ys \<and> list_all2 P xs ys"
  using assms
proof (induction xs)
  case (Cons x xs)
  then obtain y ys where "f x = Inr y" "P x y" "res_map f xs = Inr ys" "list_all2 P xs ys" by fastforce
  then show ?case by auto
qed simp

definition keeps_session :: "run_state \<Rightarrow> task_key \<Rightarrow> bool" where
  "keeps_session run key \<longleftrightarrow>
     (\<exists>task g. task_get run key = Some task \<and> tf_open task = Some g \<and> is_retained_idle (gf_class g))"

lemma keeps_session_any:
  assumes "reachable x inputs run" "task_get run key = Some task"
  shows "keeps_session run key \<longleftrightarrow> list_ex (\<lambda>g. is_retained_idle (gf_class g)) (tf_generations task)"
proof
  show "keeps_session run key \<Longrightarrow> list_ex (\<lambda>g. is_retained_idle (gf_class g)) (tf_generations task)"
    using assms(2) by (auto simp: keeps_session_def tf_open_def find_Some_iff list_ex_iff)
next
  assume "list_ex (\<lambda>g. is_retained_idle (gf_class g)) (tf_generations task)"
  then obtain g where g: "g \<in> set (tf_generations task)" "is_retained_idle (gf_class g)"
    by (auto simp: list_ex_iff)
  have "gens_ok (unat key) (tf_generations task)"
    using tasks_all_get [OF reachable_gens [OF assms(1)] assms(2)] by (simp add: task_gens_ok_def)
  moreover have "is_open g" using g(2) by (cases "gf_class g") (auto simp: is_open_def)
  ultimately have "tf_open task = Some g" using gens_ok_open g(1) by (simp add: tf_open_def)
  with assms(2) g(2) show "keeps_session run key" by (auto simp: keeps_session_def)
qed

lemma retained_keys_exact:
  assumes reach: "reachable x inputs run" and run: "fo_run f = Some run" and len: "registry_len (st_registry run) < 2 ^ 32"
  shows "distinct (retained_keys f) \<and> (\<forall>key. key \<in> set (retained_keys f) \<longleftrightarrow> keeps_session run key)"
proof -
  let ?n = "registry_len (st_registry run)"
  have "(case fold_task f key of None \<Rightarrow> False
      | Some task \<Rightarrow> list_ex (\<lambda>g. is_retained_idle (gf_class g)) (tf_generations task)) = keeps_session run key" for key
    using keeps_session_any [OF reach] run
    by (cases "task_get run key") (auto simp: fold_task_def keeps_session_def)
  then have keys: "retained_keys f = filter (keeps_session run) (map of_nat [0..<?n])"
    using run len by (simp add: retained_keys_def fold_registry_def Let_def min_def)
  have "inj_on (of_nat :: nat \<Rightarrow> u32) {0..<?n}"
    by (rule inj_on_inverseI [of _ unat]) (use len in \<open>simp add: unat_of_nat\<close>)
  moreover have "key \<in> of_nat ` {0..<?n}" if "keeps_session run key" for key
  proof -
    have "unat key < ?n"
      using that reachable_registry [OF reach]
      by (auto simp: keeps_session_def task_get_def vec_get_def registry_inv_def registry_len_def split: if_splits)
    then show ?thesis by (force intro!: image_eqI [of _ _ "unat key"])
  qed
  ultimately show ?thesis by (auto simp: keys distinct_map)
qed

text \<open>
  C16. A run can always give up the sessions it kept: in an unfinished state a log leads to, the
  closing events are produced for exactly the tasks with a retained generation, one each, and
  each is accepted by the fold.
\<close>

theorem retained_sessions_can_be_closed:
  assumes "replay x inputs es = Inr f" "fo_run f = Some run" "st_finished run = None"
    and "registry_len (st_registry run) < 2 ^ 32"
  shows "\<exists>closed. close_retained f reason = Inr closed \<and>
    list_all (\<lambda>c. check_started_run x run (EvGenerationClosed c) = Inr DerivedNone) closed \<and>
    distinct (map gc_key closed) \<and>
    (\<forall>key. key \<in> gc_key ` set closed \<longleftrightarrow>
       (\<exists>task g. task_get run key = Some task \<and> tf_open task = Some g \<and> is_retained_idle (gf_class g)))"
proof -
  note keys = retained_keys_exact [OF replay_reachable_run [OF assms(1,2)] assms(2,4)]
  let ?P = "\<lambda>key c. gc_key c = key \<and> check_started_run x run (EvGenerationClosed c) = Inr DerivedNone"
  have "\<exists>c. settle_close f key reason = Inr c \<and> ?P key c" if "key \<in> set (retained_keys f)" for key
    using that keys settle_close_accepted [OF assms(2,3)] by (auto simp: keeps_session_def tf_open_def)
  with res_map_all [of "retained_keys f" "\<lambda>key. settle_close f key reason" ?P]
  obtain closed where c: "close_retained f reason = Inr closed" "list_all2 ?P (retained_keys f) closed"
    by (auto simp: close_retained_def)
  then have "map gc_key closed = retained_keys f"
    by (auto simp: list_all2_conv_all_nth intro!: nth_equalityI)
  with c keys show ?thesis unfolding keeps_session_def [symmetric]
    by (auto simp: list_all2_conv_all_nth list_all_length simp flip: set_map intro!: exI [of _ closed])
qed

text \<open>The sample run after its first attempt failed and kept its session.\<close>

definition sample_kept :: attempt_finished4 where
  "sample_kept = \<lparr>af4_key = 0, af4_generation = 0, af4_attempt = 1, af4_record = gate_failed,
     af4_settlement = SettleRetained ''s'' 0\<rparr>"

abbreviation "sample_retained \<equiv>
  sample_run Pending [(RetainedIdle ''s'' 0, 1, None)] 1 [(OwnerGeneration 0 0, RepoWide)] False None 0"

lemma sample_step_retained:
  "check_started_run sample_x sample_flying (EvAttemptFinished sample_kept) = Inr DerivedNone \<and>
   apply_body (EvAttemptFinished sample_kept) DerivedNone sample_flying = sample_retained"
  by code_simp

theorem retained_sessions_can_be_closed_witness:
  "\<exists>f closed. fo_run f = Some sample_retained \<and> close_retained f WorktreeMissing = Inr closed \<and>
     0 \<in> gc_key ` set closed \<and>
     list_all (\<lambda>c. check_started_run sample_x sample_retained (EvGenerationClosed c) = Inr DerivedNone) closed"
proof -
  have "reachable sample_x sample_inputs sample_retained"
    using reachable.stepped [OF sample_reachable(2)] sample_step_retained by metis
  then obtain es f where r: "replay sample_x sample_inputs es = Inr f" "fo_run f = Some sample_retained"
    by (rule sample_replay)
  have "st_finished sample_retained = None" "registry_len (st_registry sample_retained) < 2 ^ 32"
    by (simp_all add: sample_run_def run_start_def registry_len_def sample_registry_def)
  from retained_sessions_can_be_closed [OF r this, of WorktreeMissing] obtain closed where
    c: "close_retained f WorktreeMissing = Inr closed"
    "list_all (\<lambda>c. check_started_run sample_x sample_retained (EvGenerationClosed c) = Inr DerivedNone) closed"
    "\<And>key. key \<in> gc_key ` set closed \<longleftrightarrow>
       (\<exists>task g. task_get sample_retained key = Some task \<and> tf_open task = Some g \<and> is_retained_idle (gf_class g))"
    by blast
  have "0 \<in> gc_key ` set closed"
    unfolding c(3) by (simp add: task_get_def sample_run_def vec_get_def tf_open_def is_open_def run_start_def)
  with c(1,2) r(2) show ?thesis by blast
qed

end
