(* ===== verification/Route.thy ===== *)
theory Route
  imports Ir Invocation
begin

section \<open>The model catalogue and routing: src/catalog.rs and src/route.rs\<close>

text \<open>
  A task is routed to a chain of tiers. The chain of its kind is cut at the bottom by the path
  overrides whose patterns match, by the tier the plan suggests and by the tier it requires; each
  tier left is bound to a pinned model or to the catalogue's example. Pattern matching is the work
  of a library and is part of an override as a predicate. Only the fields of the configuration
  that routing reads are modelled.
\<close>

subsection \<open>The catalogue\<close>

datatype family = Anthropic | OpenAI | Google

fun family_name :: "family \<Rightarrow> string" where
  "family_name Anthropic = ''anthropic''"
| "family_name OpenAI = ''openai''"
| "family_name Google = ''google''"

record catalog_entry =
  ce_agent :: string
  ce_model :: string
  ce_tier :: tier
  ce_family :: family

definition catalog_entry_of :: "string \<Rightarrow> string \<Rightarrow> tier \<Rightarrow> family \<Rightarrow> catalog_entry" where
  "catalog_entry_of agent model tier family =
     \<lparr>ce_agent = agent, ce_model = model, ce_tier = tier, ce_family = family\<rparr>"

fun example_binding :: "tier \<Rightarrow> catalog_entry" where
  "example_binding Small = catalog_entry_of ''claude-code'' ''claude-haiku-4-5'' Small Anthropic"
| "example_binding Mid = catalog_entry_of ''claude-code'' ''claude-sonnet-5'' Mid Anthropic"
| "example_binding Frontier = catalog_entry_of ''claude-code'' ''claude-opus-5'' Frontier Anthropic"

definition catalog :: "catalog_entry list" where
  "catalog =
     [example_binding Small,
      catalog_entry_of ''claude-code'' ''claude-sonnet-4-5'' Mid Anthropic,
      example_binding Mid,
      example_binding Frontier,
      catalog_entry_of ''claude-code'' ''claude-opus-5-5'' Frontier Anthropic,
      catalog_entry_of ''claude-code'' ''claude-opus-4-8'' Frontier Anthropic,
      catalog_entry_of ''copilot'' ''gpt-5-mini'' Small OpenAI,
      catalog_entry_of ''copilot'' ''gemini-3.1-pro'' Mid Google,
      catalog_entry_of ''copilot'' ''claude-sonnet-5'' Mid Anthropic,
      catalog_entry_of ''codex'' ''gpt-6-astra'' Frontier OpenAI,
      catalog_entry_of ''copilot'' ''gpt-5.3-codex'' Frontier OpenAI,
      catalog_entry_of ''copilot'' ''claude-opus-5'' Frontier Anthropic,
      catalog_entry_of ''codex'' ''gpt-5.6-sol'' Frontier OpenAI]"

definition catalog_lookup :: "string \<Rightarrow> string \<Rightarrow> catalog_entry option" where
  "catalog_lookup agent model = find (\<lambda>e. ce_agent e = agent \<and> ce_model e = model) catalog"

definition known_models :: "string \<Rightarrow> string list" where
  "known_models agent = map ce_model (filter (\<lambda>e. ce_agent e = agent) catalog)"

definition different_family_at :: "tier \<Rightarrow> family \<Rightarrow> (string \<Rightarrow> bool) \<Rightarrow> catalog_entry option" where
  "different_family_at tier not_family has_adapter =
     find (\<lambda>e. ce_tier e = tier \<and> ce_family e \<noteq> not_family \<and> has_adapter (ce_agent e)) catalog"

definition model_normalize :: "string \<Rightarrow> string" where
  "model_normalize model = map ascii_lower_char (filter is_ascii_alphanumeric model)"

definition missing_from :: "string \<Rightarrow> string list \<Rightarrow> string list" where
  "missing_from agent advertised =
     (if advertised = [] then []
      else
        let seen = map model_normalize advertised;
            missing = filter (\<lambda>model. model_normalize model \<notin> set seen) (known_models agent);
            overlap = list_ex (\<lambda>model. model_normalize model \<in> set seen) (known_models agent) in
        if overlap then missing else [])"

subsection \<open>The configuration routing reads\<close>

record kind_chain =
  kc_chain :: "tier list"
  kc_attempts_per :: u32
  kc_from_config :: bool

record compiled_override =
  ov_raw_paths :: "string list"
  ov_matches :: "string \<Rightarrow> bool"
  ov_start_at :: "tier option"

record pin =
  pn_tier :: tier
  pn_agent :: string
  pn_model :: string
  pn_effort :: "effort option"

record routing_config =
  cfg_chains :: "(task_kind \<times> kind_chain) list"
  cfg_overrides :: "compiled_override list"
  cfg_pins :: "pin list"

fun default_chain :: "task_kind \<Rightarrow> tier list" where
  "default_chain Design = [Frontier]"
| "default_chain Implement = [Mid, Frontier]"
| "default_chain Refactor = [Mid, Frontier]"
| "default_chain Fix = [Small, Mid, Frontier]"
| "default_chain Test = [Small, Mid, Frontier]"
| "default_chain Docs = [Small, Mid]"
| "default_chain Chore = [Small, Mid]"

definition default_attempts_per :: u32 where
  "default_attempts_per = 2"

definition chain_for :: "routing_config \<Rightarrow> task_kind \<Rightarrow> kind_chain" where
  "chain_for cfg kind =
     (case map_of (cfg_chains cfg) kind of
        Some chain \<Rightarrow> chain
      | None \<Rightarrow> \<lparr>kc_chain = default_chain kind, kc_attempts_per = default_attempts_per, kc_from_config = False\<rparr>)"

definition effort_for :: "routing_config \<Rightarrow> tier \<Rightarrow> effort" where
  "effort_for cfg tier =
     (case Option.bind (find (\<lambda>pin. pn_tier pin = tier) (cfg_pins cfg)) pn_effort of
        Some effort \<Rightarrow> effort | None \<Rightarrow> effort_for_tier tier)"

subsection \<open>Routing\<close>

datatype chain_source = SourceDefault | SourceAnnotation | SourceOverride

fun chain_source_name :: "chain_source \<Rightarrow> string" where
  "chain_source_name SourceDefault = ''default''"
| "chain_source_name SourceAnnotation = ''annotation''"
| "chain_source_name SourceOverride = ''override''"

record route_binding =
  bd_agent :: string
  bd_model :: string
  bd_pinned :: bool

record route_rung =
  ro_tier :: tier
  ro_source :: chain_source
  ro_binding :: route_binding

datatype route_note = RaisedByOverride "string list" tier | ClippedByMin tier | PathNote "string list"

record resolved_chain =
  rs_rungs :: "route_rung list"
  rs_notes :: "route_note list"
  rs_attempts_per :: u32

type_synonym tier_chain = "(tier \<times> chain_source) list"

definition relabel_first :: "chain_source \<Rightarrow> tier_chain \<Rightarrow> tier_chain" where
  "relabel_first source tiers = (case tiers of [] \<Rightarrow> [] | (t, _) # rest \<Rightarrow> (t, source) # rest)"

definition raise_start :: "tier \<Rightarrow> chain_source \<Rightarrow> tier_chain \<Rightarrow> tier_chain \<times> bool" where
  "raise_start floor' source tiers =
     (let kept = filter (\<lambda>(t, _). floor' \<le> t) tiers in
      if kept = [] then ([(floor', source)], True)
      else
        let changed = (length kept \<noteq> length tiers) in
        (if changed then relabel_first source kept else kept, changed))"

definition apply_override :: "task \<Rightarrow> compiled_override \<Rightarrow> tier_chain \<times> route_note list \<Rightarrow> tier_chain \<times> route_note list" where
  "apply_override task ov s =
     (case ov_start_at ov of
        None \<Rightarrow> s
      | Some start_at \<Rightarrow>
          if list_ex (ov_matches ov) (t_path_hints task) then
            (case raise_start start_at SourceOverride (fst s) of
               (tiers, raised) \<Rightarrow>
                 (tiers, if raised then snd s @ [RaisedByOverride (ov_raw_paths ov) start_at] else snd s))
          else s)"

definition apply_suggestion :: "task \<Rightarrow> tier_chain \<Rightarrow> tier_chain" where
  "apply_suggestion task tiers =
     (case t_suggested_tier task of
        None \<Rightarrow> tiers
      | Some tier \<Rightarrow>
          (case raise_start tier SourceAnnotation tiers of
             (tiers', raised) \<Rightarrow>
               if \<not> raised \<and> tiers' \<noteq> [] \<and> hd tiers' = (tier, SourceDefault)
               then relabel_first SourceAnnotation tiers' else tiers'))"

definition apply_min :: "task \<Rightarrow> tier_chain \<times> route_note list \<Rightarrow> tier_chain \<times> route_note list" where
  "apply_min task s =
     (case t_min_tier task of
        None \<Rightarrow> s
      | Some min' \<Rightarrow>
          (case raise_start min' SourceAnnotation (fst s) of
             (tiers, raised) \<Rightarrow> (tiers, if raised then snd s @ [ClippedByMin min'] else snd s)))"

definition route_bind :: "routing_config \<Rightarrow> tier \<Rightarrow> route_binding" where
  "route_bind cfg tier =
     (case find (\<lambda>p. pn_tier p = tier) (cfg_pins cfg) of
        Some pin \<Rightarrow> \<lparr>bd_agent = pn_agent pin, bd_model = pn_model pin, bd_pinned = True\<rparr>
      | None \<Rightarrow>
          \<lparr>bd_agent = ce_agent (example_binding tier), bd_model = ce_model (example_binding tier), bd_pinned = False\<rparr>)"

definition route_resolve :: "routing_config \<Rightarrow> task \<Rightarrow> resolved_chain" where
  "route_resolve cfg task =
     (let kind_chain = chain_for cfg (t_kind task);
          (tiers, notes) = fold (apply_override task) (cfg_overrides cfg)
            (map (\<lambda>t. (t, SourceDefault)) (kc_chain kind_chain), []);
          (tiers, notes) = apply_min task (apply_suggestion task tiers, notes);
          notes = (if t_path_hints task = [] then notes else notes @ [PathNote (t_path_hints task)]) in
      \<lparr>rs_rungs = map (\<lambda>(tier, source). \<lparr>ro_tier = tier, ro_source = source, ro_binding = route_bind cfg tier\<rparr>) tiers,
       rs_notes = notes, rs_attempts_per = kc_attempts_per kind_chain\<rparr>)"

subsection \<open>What a route is\<close>

text \<open>The tiers the task must not start below, in the order they are applied.\<close>

definition route_floors :: "routing_config \<Rightarrow> task \<Rightarrow> tier list" where
  "route_floors cfg task =
     List.map_filter ov_start_at
       (filter (\<lambda>ov. list_ex (ov_matches ov) (t_path_hints task)) (cfg_overrides cfg)) @
     (case t_suggested_tier task of None \<Rightarrow> [] | Some t \<Rightarrow> [t]) @
     (case t_min_tier task of None \<Rightarrow> [] | Some t \<Rightarrow> [t])"

definition cut_below :: "tier \<Rightarrow> tier list \<Rightarrow> tier list" where
  "cut_below floor' ts = (let kept = filter (\<lambda>t. floor' \<le> t) ts in if kept = [] then [floor'] else kept)"

lemma map_fst_relabel [simp]: "map fst (relabel_first source ts) = map fst ts"
  by (auto simp: relabel_first_def split: list.splits)

lemma raise_start_tiers: "map fst (fst (raise_start floor' source ts)) = cut_below floor' (map fst ts)"
proof -
  have "(\<lambda>(t, _). floor' \<le> t) = (\<lambda>x :: tier \<times> chain_source. floor' \<le> fst x)" by auto
  then show ?thesis by (simp add: raise_start_def cut_below_def Let_def filter_map comp_def)
qed

lemma raise_start_pair: "raise_start floor' source ts = (ts', raised) \<Longrightarrow> map fst ts' = cut_below floor' (map fst ts)"
  using raise_start_tiers [of floor' source ts] by simp

lemma cut_below_twice: "cut_below f (cut_below g ts) = cut_below (max f g) ts"
proof -
  have both: "filter (\<lambda>t. f \<le> t) (filter (\<lambda>t. g \<le> t) ts) = filter (\<lambda>t. max f g \<le> t) ts"
    by (auto intro: filter_cong)
  show ?thesis
  proof (cases "filter (\<lambda>t. g \<le> t) ts = []")
    case True
    with both show ?thesis by (auto simp: cut_below_def Let_def max_def)
  next
    case False
    then obtain t where t: "t \<in> set ts" "g \<le> t" by (auto simp: filter_empty_conv)
    show ?thesis
    proof (cases "filter (\<lambda>t. max f g \<le> t) ts = []")
      case True
      with t have "\<not> max f g \<le> t" by (metis (mono_tags, lifting) filter_empty_conv)
      with t(2) have "max f g = f" by (auto simp: max_def)
      with True False both show ?thesis by (simp add: cut_below_def Let_def)
    qed (use False both in \<open>simp add: cut_below_def Let_def\<close>)
  qed
qed

lemma fold_cut_below: "fold cut_below (f # fs) ts = cut_below (Max (set (f # fs))) ts"
proof (induction fs arbitrary: f ts)
  case (Cons g fs)
  have "fold cut_below (f # g # fs) ts = fold cut_below (max g f # fs) ts" by (simp add: cut_below_twice)
  also have "\<dots> = cut_below (Max (set (max g f # fs))) ts" by (rule Cons.IH)
  also have "Max (set (max g f # fs)) = Max (set (f # g # fs))"
    by (cases "fs = []") (simp_all add: ac_simps)
  finally show ?case .
qed simp

lemma overrides_tiers:
  "map fst (fst (fold (apply_override task) ovs s)) =
     fold cut_below (List.map_filter ov_start_at (filter (\<lambda>ov. list_ex (ov_matches ov) (t_path_hints task)) ovs))
       (map fst (fst s))"
proof (induction ovs arbitrary: s)
  case (Cons ov ovs)
  show ?case
  proof (cases "ov_start_at ov")
    case None
    with Cons show ?thesis by (simp add: apply_override_def map_filter_simps)
  next
    case (Some t)
    have "map fst (fst (apply_override task ov s)) =
        (if list_ex (ov_matches ov) (t_path_hints task) then cut_below t (map fst (fst s)) else map fst (fst s))"
      using Some by (auto simp: apply_override_def dest!: raise_start_pair split: prod.splits)
    with Some Cons.IH show ?thesis by (simp add: map_filter_simps)
  qed
qed (simp add: map_filter_simps)

lemma suggestion_tiers:
  "map fst (apply_suggestion task ts) =
     fold cut_below (case t_suggested_tier task of None \<Rightarrow> [] | Some t \<Rightarrow> [t]) (map fst ts)"
  by (auto simp: apply_suggestion_def dest!: raise_start_pair split: option.splits prod.splits)

lemma min_tiers:
  "map fst (fst (apply_min task s)) =
     fold cut_below (case t_min_tier task of None \<Rightarrow> [] | Some t \<Rightarrow> [t]) (map fst (fst s))"
  by (auto simp: apply_min_def dest!: raise_start_pair split: option.splits prod.splits)

text \<open>
  C18. Routing in one line: the tiers a task is routed to are those of its kind's chain that are
  not below the highest of its floors, or that floor alone when the chain has none, whatever the
  order the floors come in; without a floor the chain is taken as it is. Each rung is bound by
  the pin of its tier, or else by the catalogue's example.
\<close>

theorem resolved_chain_exact:
  "map ro_tier (rs_rungs (route_resolve cfg task)) =
     (let chain = kc_chain (chain_for cfg (t_kind task)); floors = route_floors cfg task in
      if floors = [] then chain
      else let highest = Max (set floors); kept = filter (\<lambda>t. highest \<le> t) chain in
        if kept = [] then [highest] else kept) \<and>
   list_all (\<lambda>rung. ro_binding rung = route_bind cfg (ro_tier rung)) (rs_rungs (route_resolve cfg task))"
proof -
  let ?chain = "kc_chain (chain_for cfg (t_kind task))"
  have "map ro_tier (rs_rungs (route_resolve cfg task)) = fold cut_below (route_floors cfg task) ?chain"
  proof -
    have "map ro_tier (map (\<lambda>(tier, source). \<lparr>ro_tier = tier, ro_source = source, ro_binding = route_bind cfg tier\<rparr>) ts) =
        map fst ts" for ts by auto
    moreover have "map fst (map (\<lambda>t. (t, SourceDefault)) ts) = ts" for ts :: "tier list" by (induction ts) simp_all
    ultimately show ?thesis
      by (simp add: route_resolve_def Let_def route_floors_def overrides_tiers suggestion_tiers min_tiers comp_def
          case_prod_beta del: map_map)
  qed
  moreover have "fold cut_below floors ts = (if floors = [] then ts else cut_below (Max (set floors)) ts)" for floors ts
    using fold_cut_below [of "hd floors" "tl floors" ts] by (cases floors) simp_all
  moreover have "list_all (\<lambda>rung. ro_binding rung = route_bind cfg (ro_tier rung)) (rs_rungs (route_resolve cfg task))"
    by (auto simp: route_resolve_def Let_def list_all_iff split: prod.splits)
  ultimately show ?thesis unfolding cut_below_def Let_def by presburger
qed

end
