(* ===== verification/Repair.thy ===== *)
theory Repair
  imports Settle_Loop Route
begin

section \<open>Merge repairs: src/engine/topology/repair.rs\<close>

text \<open>
  When a candidate is rejected at integration the engine registers a repair: a new task of the
  same lineage with the root's specification, widened hints, a ladder cut at the tier for repairs,
  and an admission that asks a person once the lineage has used up its automatic repairs or has no
  rung left. The text handed to the agent is built as the source builds it.
\<close>

datatype repair_refusal =
    RepairNotStarted
  | RepairNotRegistered task_key
  | RepairRootNotRegistered task_key
  | RegistryFull
  | NoLadderFloor task_key
  | NoCataloguedModel task_key string tier

definition repair_floor :: tier where
  "repair_floor = Mid"

definition preserve_merged :: string where
  "preserve_merged = ''preserve the behaviour already merged onto the integration head; the rejected candidate's change must integrate without regressing it''"

fun region_prefixes :: "path_set \<Rightarrow> git_path list option" where
  "region_prefixes RepoWide = None"
| "region_prefixes (Prefixes paths) = Some paths"

fun join_sep :: "string \<Rightarrow> string list \<Rightarrow> string" where
  "join_sep sep [] = []"
| "join_sep sep [s] = s"
| "join_sep sep (s # t # ss) = s @ sep @ join_sep sep (t # ss)"

definition quoted :: "string \<Rightarrow> string" where
  "quoted s = [backtick] @ s @ [backtick]"

definition render_paths :: "path_set \<Rightarrow> string" where
  "render_paths paths =
     (case region_prefixes paths of
        Some (p # ps) \<Rightarrow> join_sep '', '' (map quoted (p # ps))
      | _ \<Rightarrow> ''the whole repository'')"

fun verdict_words :: "verification_verdict \<Rightarrow> string" where
  "verdict_words VerdictPassed = ''passed''"
| "verdict_words VerdictGatesFailed = ''gates failed''"
| "verdict_words VerdictRejected = ''rejected''"

fun pass_outcome_debug :: "review_pass_outcome \<Rightarrow> string" where
  "pass_outcome_debug PassPassed = ''Passed''"
| "pass_outcome_debug PassFailed = ''Failed''"
| "pass_outcome_debug PassUnavailable = ''Unavailable''"

definition conflict_instructions :: string where
  "conflict_instructions =
     ''Each conflicted path is left unmerged in the index for you to resolve with your file tools. Then record it in the resolution manifest '' @
     quoted ''.upstroke-resolved'' @
     '' at the root of the worktree, one line per path: '' @ quoted ''resolved <path>'' @
     '' when the file's working-tree content is the resolution, '' @ quoted ''deleted <path>'' @
     '' to resolve it by deleting the file. The engine stages what you declare; run no git command. A result with an unmerged entry you did not declare is refused before any gate runs. The manifest is read at capture and removed by it, unless the capture refused it, in which case it stays for you to correct; in a later attempt of this repair, write it again only for a path whose resolution you are changing.''"

definition repair_body :: "string \<Rightarrow> candidate_ref \<Rightarrow> commit_sha \<Rightarrow> sequence_id \<Rightarrow> rejection_disposition \<Rightarrow> string" where
  "repair_body root_body candidate rejecting_head sequence disposition =
     (let nl = [newline] in
      root_body @ nl @ nl @ ''## Merge repair'' @ nl @ nl @
      ''Candidate '' @ cr_commit_sha candidate @ '' ('' @ cr_candidate_ref candidate @ '') of task '' @
      show_nat (unat (cr_key candidate)) @ '' generation '' @ show_nat (unat (cr_generation candidate)) @
      '' was rejected at integration sequence '' @ show_nat (unat sequence) @
      '' against the integration head '' @ rejecting_head @ ''.'' @ nl @
      (case disposition of
         RdConflict paths \<Rightarrow>
           nl @ ''The cherry-pick onto that head conflicted in: '' @ render_paths paths @ ''.'' @ nl @
           conflict_instructions @ nl
       | RdCodeRejected verification \<Rightarrow>
           nl @ ''The verification of the proposal on that head ended '' @ verdict_words (vr_verdict verification) @
           '' (gates '' @ (if vr_gates_passed verification then ''passed'' else ''failed'') @ ''): '' @
           vr_detail verification @ nl @
           concat (map (\<lambda>review. ''- review pass '' @ quoted (rr_pass review) @ '' by '' @ rr_agent review @ '' ('' @
             rr_model review @ ''): '' @ pass_outcome_debug (rr_outcome review) @ nl) (vr_reviews verification))))"

definition candidate_paths :: "topology_fold \<Rightarrow> candidate_ref \<Rightarrow> path_set" where
  "candidate_paths fold' candidate =
     (case Option.bind (fold_task fold' (cr_key candidate)) (\<lambda>task.
             Option.bind (find (\<lambda>g. gf_id g = cr_generation candidate) (tf_generations task)) gf_candidate) of
        None \<Rightarrow> RepoWide
      | Some prepared \<Rightarrow> pc_paths prepared)"

definition repair_ladder :: "frozen_ladder \<Rightarrow> string list \<Rightarrow> frozen_ladder" where
  "repair_ladder root' allowed_agents =
     (let floor' = (case fl_floor root' of None \<Rightarrow> repair_floor | Some f \<Rightarrow> max f repair_floor);
          rungs = filter (\<lambda>rung. floor' \<le> fg_tier rung) (fl_rungs root') in
      if rungs = [] then
        \<lparr>fl_tiers = [], fl_attempts_per = fl_attempts_per root', fl_rungs = [], fl_floor = Some floor',
         fl_ceiling = None, fl_effort = fl_effort root', fl_admission = HumanBinding allowed_agents\<rparr>
      else
        let tiers = map fg_tier rungs in
        \<lparr>fl_tiers = tiers, fl_attempts_per = fl_attempts_per root', fl_rungs = rungs, fl_floor = Some floor',
         fl_ceiling = tiers_max tiers, fl_effort = fl_effort root', fl_admission = Runnable\<rparr>)"

definition repair_question ::
  "question_id \<Rightarrow> task_key \<Rightarrow> question_kind \<Rightarrow> string \<Rightarrow> string list \<Rightarrow> frozen_question" where
  "repair_question id' key kind context options =
     \<lparr>fq_id = id', fq_key = key, fq_kind = kind, fq_context = context, fq_options = options\<rparr>"

definition admission_for :: "task_entry \<Rightarrow> u32 \<Rightarrow> u32 \<Rightarrow> question_id \<Rightarrow> task_key \<Rightarrow> spawn_admission" where
  "admission_for entry members limit id' key =
     (case fl_admission (te_ladder entry) of
        HumanBinding options \<Rightarrow>
          SpawnHumanBinding options
            (repair_question id' key Unblock
               ''the merge repair's tier floor of mid intersected empty with the task's frozen pin and ceiling; a person must name an agent to run it, or decline the lineage''
               options)
      | Runnable \<Rightarrow>
          if limit \<le> members then
            SpawnHumanRequired limit
              (repair_question id' key Continue
                 (''this lineage has consumed its '' @ show_nat (unat limit) @
                  '' automatic repair(s); a person must approve another attempt with the latest evidence, or decline the lineage'')
                 (topology_question_options Continue))
          else SpawnRunnable)"

definition add_hint :: "git_path \<Rightarrow> string list \<Rightarrow> string list" where
  "add_hint hint hints = (if hint \<in> set hints then hints else hints @ [hint])"

definition expand_hints :: "string list \<Rightarrow> path_set \<Rightarrow> path_set \<Rightarrow> string list" where
  "expand_hints base actual contended =
     fold (\<lambda>region hints. case region_prefixes region of None \<Rightarrow> hints | Some paths \<Rightarrow> fold add_hint paths hints)
       [actual, contended] base"

definition repair_entry ::
  "topology_fold \<Rightarrow> task_entry \<Rightarrow> candidate_ref \<Rightarrow> commit_sha \<Rightarrow> sequence_id \<Rightarrow> rejection_disposition \<Rightarrow> path_set \<Rightarrow>
     task_key \<Rightarrow> task_key \<Rightarrow> u32 \<Rightarrow> task_entry" where
  "repair_entry fold' root_entry candidate rejecting_head sequence disposition contended root' key members =
     \<lparr>te_key = key, te_display_id = repair_display_id members (te_display_id root_entry), te_origin = MergeRepair,
      te_spec = (te_spec root_entry)
        \<lparr>sp_kind := Fix,
         sp_path_hints := expand_hints (sp_path_hints (te_spec root_entry)) (candidate_paths fold' candidate) contended,
         sp_acceptance := sp_acceptance (te_spec root_entry) @ [preserve_merged],
         sp_body := repair_body (sp_body (te_spec root_entry)) candidate rejecting_head sequence disposition\<rparr>,
      te_deps = te_deps root_entry, te_display_deps = te_display_deps root_entry,
      te_ladder = repair_ladder (te_ladder root_entry) (te_allowed_agents root_entry),
      te_reviews = te_reviews root_entry, te_allowed_agents = te_allowed_agents root_entry,
      te_lineage = Some \<lparr>ln_root = root', ln_parent = cr_key candidate, ln_index = members\<rparr>\<rparr>"

definition repair_rejected ::
  "topology_fold \<Rightarrow> question_id \<Rightarrow> candidate_ref \<Rightarrow> commit_sha \<Rightarrow> sequence_id \<Rightarrow> rejection_disposition \<Rightarrow> path_set \<Rightarrow>
     (repair_refusal, merge_rejected) result" where
  "repair_rejected fold' id' candidate rejecting_head sequence disposition contended =
     res_bind (ok_or (fo_run fold') RepairNotStarted) (\<lambda>run.
     let registry = st_registry run in
     res_bind (ok_or (registry_get registry (cr_key candidate)) (RepairNotRegistered (cr_key candidate))) (\<lambda>rejected_entry.
     let root' = (case te_lineage rejected_entry of None \<Rightarrow> cr_key candidate | Some lineage \<Rightarrow> ln_root lineage) in
     res_bind (ok_or (registry_get registry root') (RepairRootNotRegistered root')) (\<lambda>root_entry.
     let members = lineage_members run root'; limit = tl_max_merge_repairs (s4_limits (st_started run)) in
     if 2 ^ 32 \<le> registry_len registry then Inl RegistryFull
     else
       let key = of_nat (registry_len registry);
           entry = repair_entry fold' root_entry candidate rejecting_head sequence disposition contended root' key members in
       Inr \<lparr>mr_sequence = sequence, mr_candidate = candidate, mr_rejecting_head = rejecting_head,
            mr_disposition = disposition,
            mr_repair = \<lparr>sw_key = key, sw_entry = entry, sw_admission = admission_for entry members limit id' key\<rparr>,
            mr_lease_effect = (if te_lineage rejected_entry \<noteq> None then RejectionWidensLineage root' contended
                               else CreatesLineage root' contended)\<rparr>)))"

subsection \<open>One-off bindings\<close>

fun min_tier_entry :: "catalog_entry list \<Rightarrow> catalog_entry option" where
  "min_tier_entry [] = None"
| "min_tier_entry (e # es) =
     (case min_tier_entry es of
        None \<Rightarrow> Some e
      | Some e' \<Rightarrow> Some (if ce_tier e \<le> ce_tier e' then e else e'))"

definition catalogued_model :: "string \<Rightarrow> tier \<Rightarrow> string option" where
  "catalogued_model agent floor' =
     map_option ce_model (min_tier_entry (filter (\<lambda>e. ce_agent e = agent \<and> floor' \<le> ce_tier e) catalog))"

definition one_off_binding ::
  "task_entry \<Rightarrow> task_key \<Rightarrow> question_id \<Rightarrow> u32 \<Rightarrow> string \<Rightarrow> (repair_refusal, binding_override) result" where
  "one_off_binding entry key question option_index agent =
     res_bind (ok_or (fl_floor (te_ladder entry)) (NoLadderFloor key)) (\<lambda>floor'.
     res_bind (ok_or (catalogued_model agent floor') (NoCataloguedModel key agent floor')) (\<lambda>model.
     Inr \<lparr>bo_key = key, bo_question = question, bo_option_index = option_index, bo_agent = agent,
          bo_model = model, bo_effort = implementation_for (fl_effort (te_ladder entry)) floor'\<rparr>))"

definition code_rejection_record :: "bool \<Rightarrow> review_record list \<Rightarrow> string \<Rightarrow> verification_record" where
  "code_rejection_record gates_passed reviews detail =
     \<lparr>vr_verdict = (if gates_passed then VerdictRejected else VerdictGatesFailed), vr_gates_passed = gates_passed,
      vr_reviews = reviews, vr_detail = detail\<rparr>"

end
