(* ===== verification/Repair_Facts.thy ===== *)
theory Repair_Facts
  imports Repair Settle_Facts
begin

section \<open>Repairs are registered\<close>

text \<open>
  The rejection event the engine builds passes every check of the fold: the new key is the next
  one, the ladder cut at the repair tier is a ladder, the dependencies are those of the root, the
  admission agrees with the count of repairs so far, and a question it asks is complete.
\<close>

subsection \<open>What every registered task carries\<close>

definition entry_grounded :: "run_state \<Rightarrow> task_entry \<Rightarrow> bool" where
  "entry_grounded run e \<longleftrightarrow>
     te_allowed_agents e = s4_probed_agents (st_started run) \<and>
     list_all2 (\<lambda>k d. \<exists>e'. registry_get (st_registry run) k = Some e' \<and> te_display_id e' = d)
       (te_deps e) (te_display_deps e)"

definition registry_grounded :: "run_state \<Rightarrow> bool" where
  "registry_grounded run \<longleftrightarrow> (\<forall>e \<in> set (rg_entries (st_registry run)). entry_grounded run e)"

lemma registry_grounded_start:
  assumes "check_run_started x f d = Inr r"
  shows "registry_grounded (run_start d r)"
  unfolding registry_grounded_def
proof
  fix e assume "e \<in> set (rg_entries (st_registry (run_start d r)))"
  then obtain i where "i < length (rg_entries r)" "rg_entries r ! i = e"
    by (auto simp: run_start_def in_set_conv_nth)
  with originals_nth [OF check_run_started_Inr(7) [OF assms], of i] show "entry_grounded (run_start d r) e"
    by (simp add: originals_ok_def entry_grounded_def run_start_def)
qed

lemma check_spawn_grounded:
  assumes "check_spawn run sp kind = Inr u"
  shows "entry_grounded run (sw_entry sp)"
proof -
  from assms have a: "te_allowed_agents (sw_entry sp) = s4_probed_agents (st_started run)"
    "length (te_deps (sw_entry sp)) = length (te_display_deps (sw_entry sp))"
    "res_each (check_spawn_dep run kind (sw_key sp)) (zip (te_deps (sw_entry sp)) (te_display_deps (sw_entry sp))) = Inr ()"
    by (auto simp: check_spawn_def result_simps Let_def split: if_splits)
  have "(\<exists>e'. registry_get (st_registry run) k = Some e' \<and> te_display_id e' = d)"
    if "(k, d) \<in> set (zip (te_deps (sw_entry sp)) (te_display_deps (sw_entry sp)))" for k d
    using a(3) that by (force simp: res_each_Inr check_spawn_dep_def result_simps st_entry_def split: if_splits)
  with a(1,2) show ?thesis by (auto simp: entry_grounded_def list_all2_iff)
qed

lemma registry_grounded_step:
  assumes "registry_grounded run" "check_body x run body = Inr dv"
  shows "registry_grounded (apply_body body dv run)"
proof -
  have old: "entry_grounded (apply_body body dv run) e" if "entry_grounded run e" for e
    using that unfolding entry_grounded_def
    by (auto simp: registry_apply_body registry_get_register_old elim!: list_all2_mono split: option.splits)
  show ?thesis
  proof (cases "event_spawn body")
    case None
    with assms(1) old show ?thesis by (simp add: registry_grounded_def registry_apply_body)
  next
    case (Some sp)
    with event_spawn_checked [OF assms(2)] check_spawn_grounded old assms(1) show ?thesis
      by (fastforce simp: registry_grounded_def registry_apply_body register_entry_def)
  qed
qed

lemma reachable_grounded: "reachable x inputs run \<Longrightarrow> registry_grounded run"
  by (induction rule: reachable.induct) (auto simp: result_simps intro: registry_grounded_start registry_grounded_step)

lemma reachable_entry_grounded:
  "reachable x inputs run \<Longrightarrow> registry_get (st_registry run) k = Some e \<Longrightarrow> entry_grounded run e"
  using reachable_grounded by (auto simp: registry_grounded_def registry_get_def vec_get_def split: if_splits)

subsection \<open>The ladder of a repair\<close>

lemma repair_ladder_well_formed:
  assumes "well_formed_ladder l" "agents \<noteq> []"
  shows "well_formed_ladder (repair_ladder l agents)"
proof -
  define floor' where "floor' = (case fl_floor l of None \<Rightarrow> repair_floor | Some f \<Rightarrow> max f repair_floor)"
  define rungs where "rungs = filter (\<lambda>rung. floor' \<le> fg_tier rung) (fl_rungs l)"
  have ap: "fl_attempts_per l \<noteq> 0" using assms(1) by (simp add: well_formed_ladder_def)
  show ?thesis
  proof (cases "rungs = []")
    case True
    then have "repair_ladder l agents = \<lparr>fl_tiers = [], fl_attempts_per = fl_attempts_per l, fl_rungs = [],
        fl_floor = Some floor', fl_ceiling = None, fl_effort = fl_effort l, fl_admission = HumanBinding agents\<rparr>"
      by (simp add: repair_ladder_def rungs_def floor'_def Let_def)
    with ap assms(2) show ?thesis by (simp add: well_formed_ladder_def)
  next
    case False
    then have r: "repair_ladder l agents = \<lparr>fl_tiers = map fg_tier rungs, fl_attempts_per = fl_attempts_per l,
        fl_rungs = rungs, fl_floor = Some floor', fl_ceiling = tiers_max (map fg_tier rungs), fl_effort = fl_effort l,
        fl_admission = Runnable\<rparr>"
      by (simp add: repair_ladder_def rungs_def floor'_def Let_def)
    from False have "fl_rungs l \<noteq> []" by (auto simp: rungs_def)
    with assms(1) have "map fg_tier (fl_rungs l) = fl_tiers l" "sorted_wrt (<) (fl_tiers l)"
      by (auto simp: well_formed_ladder_def split: admission.splits)
    then have s: "sorted_wrt (<) (map fg_tier rungs)"
      unfolding rungs_def by (metis sorted_wrt_filter sorted_wrt_map)
    have "floor' \<le> hd (map fg_tier rungs)"
      using False by (cases rungs) (auto simp: rungs_def filter_eq_Cons_iff)
    with r s ap False sorted_last_Max [OF s] show ?thesis
      by (simp add: well_formed_ladder_def tiers_max_def)
  qed
qed

subsection \<open>The rejection event\<close>

text \<open>What the engine holds when it rejects: the lineage has not failed, the root's dependencies are
  merged, the name of the repair is free and the identifier of a question is new.\<close>

definition rejectable :: "run_state \<Rightarrow> question_id \<Rightarrow> candidate_ref \<Rightarrow> bool" where
  "rejectable run id' candidate \<longleftrightarrow>
     (let root' = lineage_root run (cr_key candidate) in
      st_finished run = None \<and> registry_len (st_registry run) < 2 ^ 32 \<and> s4_probed_agents (st_started run) \<noteq> [] \<and>
      list_all (\<lambda>k. case task_get run k of None \<Rightarrow> False | Some t \<Rightarrow> tf_state t \<noteq> Failed) [root', cr_key candidate] \<and>
      (case registry_get (st_registry run) root' of
         None \<Rightarrow> False
       | Some root_entry \<Rightarrow>
           list_all (dep_is_merged run) (te_deps root_entry) \<and>
           key_of (st_registry run) (repair_display_id (lineage_members run root') (te_display_id root_entry)) = None) \<and>
      \<not> is_blank id' \<and> \<not> bs_contains (st_seen_questions run) id')"

lemma admission_for_accepted:
  assumes l: "fl_admission (te_ladder entry) = Runnable \<or> fl_admission (te_ladder entry) = HumanBinding agents"
    and "agents \<noteq> []" "\<not> is_blank id'" "\<not> bs_contains (st_seen_questions run) id'"
    and limit: "limit = tl_max_merge_repairs (s4_limits (st_started run))"
  shows "check_admission run kind \<lparr>sw_key = key, sw_entry = entry, sw_admission = admission_for entry members limit id' key\<rparr> = Inr ()"
    and "check_repair_admission run (admission_for entry members limit id' key) members = Inr ()"
proof -
  show "check_admission run kind \<lparr>sw_key = key, sw_entry = entry, sw_admission = admission_for entry members limit id' key\<rparr> = Inr ()"
    using assms
    by (auto simp: check_admission_def admission_for_def check_new_question_def is_complete_def
        repair_question_def is_blank_head)
  show "check_repair_admission run (admission_for entry members limit id' key) members = Inr ()"
    using l limit by (auto simp: check_repair_admission_def admission_for_def Let_def)
qed

lemma repair_ladder_admission:
  "fl_admission (repair_ladder l agents) = Runnable \<or> fl_admission (repair_ladder l agents) = HumanBinding agents"
  by (simp add: repair_ladder_def Let_def)

lemma task_registered:
  assumes "registry_inv run" "registry_len (st_registry run) < 2 ^ 32" "task_get run k = Some t"
  shows "k < of_nat (registry_len (st_registry run))" "\<exists>e. registry_get (st_registry run) k = Some e"
proof -
  have "unat k < registry_len (st_registry run)"
    using assms by (auto simp: task_get_def vec_get_def registry_inv_def registry_len_def split: if_splits)
  with assms(2) show "k < of_nat (registry_len (st_registry run))"
    by (simp add: word_less_nat_alt unat_of_nat)
  show "\<exists>e. registry_get (st_registry run) k = Some e"
    using assms by (auto simp: task_get_def registry_get_def vec_get_def registry_inv_def split: if_splits)
qed

lemma grounded_deps_accepted:
  assumes "registry_inv run" "registry_len (st_registry run) < 2 ^ 32" "entry_grounded run e"
    and "list_all (dep_is_merged run) (te_deps e)"
  shows "res_each (check_spawn_dep run kind (of_nat (registry_len (st_registry run))))
    (zip (te_deps e) (te_display_deps e)) = Inr ()"
  unfolding res_each_Inr
proof (clarify)
  fix k d assume kd: "(k, d) \<in> set (zip (te_deps e) (te_display_deps e))"
  from assms(3) kd obtain e' where "registry_get (st_registry run) k = Some e'" "te_display_id e' = d"
    by (auto simp: entry_grounded_def list_all2_iff)
  moreover from assms(4) kd obtain t where t: "task_get run k = Some t" "tf_state t = Merged"
    by (auto simp: list_all_iff dep_is_merged_def dest!: set_zip_leftD split: option.splits)
  ultimately show "check_spawn_dep run kind (of_nat (registry_len (st_registry run))) (k, d) = Inr ()"
    using task_registered(1) [OF assms(1,2) t(1)]
    by (simp add: check_spawn_dep_def st_entry_def st_task_def ok_or_def)
qed

lemma repair_spawn_accepted:
  assumes reach: "reachable x inputs run" and rej: "rejectable run id' candidate"
    and rt: "registry_get (st_registry run) (lineage_root run (cr_key candidate)) = Some root_entry"
    and entry: "entry = repair_entry f root_entry candidate head sequence disposition contended
      (lineage_root run (cr_key candidate)) (of_nat (registry_len (st_registry run))) (lineage_members run (lineage_root run (cr_key candidate)))"
    and limit: "limit = tl_max_merge_repairs (s4_limits (st_started run))"
    and members: "members = lineage_members run (lineage_root run (cr_key candidate))"
  shows "check_spawn run \<lparr>sw_key = of_nat (registry_len (st_registry run)), sw_entry = entry,
    sw_admission = admission_for entry members limit id' (of_nat (registry_len (st_registry run)))\<rparr> kind = Inr ()"
proof -
  let ?n = "registry_len (st_registry run)" and ?root = "lineage_root run (cr_key candidate)"
  let ?key = "of_nat ?n :: task_key"
  note inv = reachable_registry [OF reach]
  from rej rt have n: "?n < 2 ^ 32" and agents: "s4_probed_agents (st_started run) \<noteq> []"
    and q: "\<not> is_blank id'" "\<not> bs_contains (st_seen_questions run) id'"
    and deps: "list_all (dep_is_merged run) (te_deps root_entry)"
    and free: "key_of (st_registry run) (te_display_id entry) = None"
    by (auto simp: rejectable_def Let_def entry repair_entry_def)
  from rej obtain tr tp where tasks: "task_get run ?root = Some tr" "tf_state tr \<noteq> Failed"
    "task_get run (cr_key candidate) = Some tp" "tf_state tp \<noteq> Failed"
    by (auto simp: rejectable_def Let_def split: option.splits)
  have key: "unat ?key = ?n" using n by (simp add: unat_of_nat)
  note registered = task_registered [OF inv n]
  have rmem: "root_entry \<in> set (rg_entries (st_registry run))"
    using rt by (auto simp: registry_get_def vec_get_def split: if_splits)
  note g = reachable_entry_grounded [OF reach rt]
  have wf: "well_formed_ladder (te_ladder entry)"
    using repair_ladder_well_formed inv rmem g agents
    by (auto simp: entry repair_entry_def registry_inv_def check_ladder_well_formed entry_grounded_def)
  obtain pe where pe: "registry_get (st_registry run) (cr_key candidate) = Some pe" using registered(2) [OF tasks(3)] by blast
  have fields: "te_key entry = ?key" "te_lineage entry = Some \<lparr>ln_root = ?root, ln_parent = cr_key candidate, ln_index = members\<rparr>"
    "te_allowed_agents entry = s4_probed_agents (st_started run)" "te_deps entry = te_deps root_entry"
    "te_display_deps entry = te_display_deps root_entry" "length (te_deps root_entry) = length (te_display_deps root_entry)"
    using g by (auto simp: entry repair_entry_def members entry_grounded_def list_all2_iff)
  have deps': "res_each (check_spawn_dep run kind ?key) (zip (te_deps root_entry) (te_display_deps root_entry)) = Inr ()"
    using grounded_deps_accepted [OF inv n g deps] .
  have anc: "res_each (check_spawn_ancestor run kind ?key) [?root, cr_key candidate] = Inr ()"
    using tasks by (simp add: check_spawn_ancestor_def st_task_def ok_or_def)
  have adm: "check_admission run kind \<lparr>sw_key = ?key, sw_entry = entry,
      sw_admission = admission_for entry members limit id' ?key\<rparr> = Inr ()"
    using repair_ladder_admission g
    by (intro admission_for_accepted(1) [OF _ agents q limit]) (simp add: entry repair_entry_def entry_grounded_def)
  have lad: "check_ladder ?key (te_ladder entry) = Inr ()" using wf by (simp add: check_ladder_well_formed)
  show ?thesis
    unfolding check_spawn_def Let_def
    using registered(1) [OF tasks(1)] registered(1) [OF tasks(3)] rt pe deps' anc
    by (simp add: key free fields adm lad ok_or_def st_entry_def not_le)
qed

text \<open>
  C17. Every rejection can be recorded. In a state a log leads to, while the lineage is alive, its
  root's dependencies are merged and the repair's name and question are new, the engine builds the
  rejection event with its repair, and once the transaction is at the point of rejection the fold
  accepts it: key, lineage, cut ladder, dependencies, admission and lease effect all agree.
\<close>

theorem rejections_are_accepted:
  assumes "replay x inputs es = Inr f" "fo_run f = Some run" "rejectable run id' candidate"
  shows "\<exists>rejected. repair_rejected f id' candidate head sequence disposition contended = Inr rejected \<and>
    mr_sequence rejected = sequence \<and> mr_candidate rejected = candidate \<and> mr_rejecting_head rejected = head \<and>
    mr_disposition rejected = disposition \<and>
    (check_rejection_transaction x run rejected = Inr () \<longrightarrow>
       check_started_run x run (EvMergeRejected rejected) = Inr DerivedNone)"
proof -
  let ?root = "lineage_root run (cr_key candidate)" and ?n = "registry_len (st_registry run)"
  note reach = replay_reachable_run [OF assms(1,2)]
  note inv = reachable_registry [OF reach]
  from assms(3) have n: "?n < 2 ^ 32" and fin: "st_finished run = None" and agents: "s4_probed_agents (st_started run) \<noteq> []"
    and q: "\<not> is_blank id'" "\<not> bs_contains (st_seen_questions run) id'"
    by (auto simp: rejectable_def Let_def)
  from assms(3) obtain tp root_entry where tp: "task_get run (cr_key candidate) = Some tp"
    and rt: "registry_get (st_registry run) ?root = Some root_entry"
    by (auto simp: rejectable_def Let_def split: option.splits)
  obtain pe where pe: "registry_get (st_registry run) (cr_key candidate) = Some pe"
    using task_registered(2) [OF inv n tp] by blast
  have root: "?root = (case te_lineage pe of None \<Rightarrow> cr_key candidate | Some l \<Rightarrow> ln_root l)"
    using pe by (simp add: lineage_root_def entry_lineage_def)
  define members where "members = lineage_members run ?root"
  define limit where "limit = tl_max_merge_repairs (s4_limits (st_started run))"
  define entry where "entry = repair_entry f root_entry candidate head sequence disposition contended ?root (of_nat ?n) members"
  define spawn where "spawn = \<lparr>sw_key = of_nat ?n, sw_entry = entry, sw_admission = admission_for entry members limit id' (of_nat ?n)\<rparr>"
  define rejected where "rejected = \<lparr>mr_sequence = sequence, mr_candidate = candidate, mr_rejecting_head = head,
    mr_disposition = disposition, mr_repair = spawn,
    mr_lease_effect = (if te_lineage pe \<noteq> None then RejectionWidensLineage ?root contended else CreatesLineage ?root contended)\<rparr>"
  have built: "repair_rejected f id' candidate head sequence disposition contended = Inr rejected"
    using assms(2) n pe rt unfolding rejected_def spawn_def entry_def members_def limit_def root
    by (simp add: repair_rejected_def ok_or_def Let_def)
  have sp: "check_spawn run spawn kind = Inr ()" for kind
    unfolding spawn_def
    by (rule repair_spawn_accepted [OF reach assms(3) rt _ limit_def members_def]) (simp add: entry_def members_def)
  have adm: "check_repair_admission run (sw_admission spawn) members = Inr ()"
  proof -
    have "te_allowed_agents root_entry = s4_probed_agents (st_started run)"
      using reachable_entry_grounded [OF reach rt] by (simp add: entry_grounded_def)
    then have "fl_admission (te_ladder entry) = Runnable \<or> fl_admission (te_ladder entry) = HumanBinding (s4_probed_agents (st_started run))"
      using repair_ladder_admission by (simp add: entry_def repair_entry_def)
    from admission_for_accepted(2) [OF this agents q limit_def] show ?thesis by (simp add: spawn_def)
  qed
  have eff: "rejection_lineage_root (mr_lease_effect rejected) (te_lineage pe) (cr_key candidate) = Inr ?root"
    using root by (cases "te_lineage pe") (simp_all add: rejected_def)
  have "check_merge_rejected x run rejected = Inr ()" if "check_rejection_transaction x run rejected = Inr ()"
    using that pe eff sp adm
    by (simp add: check_merge_rejected_def rejected_def st_entry_def ok_or_def spawn_def entry_def repair_entry_def members_def Let_def)
  with built fin show ?thesis
    by (auto simp: rejected_def check_started_run_def check_body_def no_derived_def)
qed

lemma sample_rejectable: "rejectable sample_queued ''q1'' sample_candidate"
  by code_simp

lemma sample_rejection_start:
  "case check_transaction_start sample_x sample_queued ''merge_rejected'' 0 sample_candidate of
     Inl _ \<Rightarrow> False | Inr _ \<Rightarrow> True"
  by code_simp

theorem rejections_are_accepted_witness:
  "\<exists>f rejected. fo_run f = Some sample_queued \<and>
     repair_rejected f ''q1'' sample_candidate ''h'' 0 (RdConflict RepoWide) RepoWide = Inr rejected \<and>
     check_started_run sample_x sample_queued (EvMergeRejected rejected) = Inr DerivedNone"
proof -
  obtain es f where r: "replay sample_x sample_inputs es = Inr f" "fo_run f = Some sample_queued"
    using sample_replay [OF sample_reachable(4)] .
  from rejections_are_accepted [OF r sample_rejectable, of "''h''" 0 "RdConflict RepoWide" RepoWide]
  obtain rejected where b: "repair_rejected f ''q1'' sample_candidate ''h'' 0 (RdConflict RepoWide) RepoWide = Inr rejected"
    "mr_sequence rejected = 0" "mr_candidate rejected = sample_candidate" "mr_disposition rejected = RdConflict RepoWide"
    "check_rejection_transaction sample_x sample_queued rejected = Inr () \<longrightarrow>
       check_started_run sample_x sample_queued (EvMergeRejected rejected) = Inr DerivedNone" by blast
  moreover have "check_rejection_transaction sample_x sample_queued rejected = Inr ()"
    using b(2-4) sample_rejection_start
    by (cases "check_transaction_start sample_x sample_queued ''merge_rejected'' 0 sample_candidate")
      (auto simp: check_rejection_transaction_def)
  ultimately show ?thesis using r(2) by blast
qed

end
