(* ===== verification/Integrate.thy ===== *)
theory Integrate
  imports Repair
begin

section \<open>Integration: src/engine/topology/integrate.rs\<close>

text \<open>
  A candidate is published by moving the integration ref from the head the log authorizes to the
  proposed commit, between two events: the authorization is in the log before the ref moves, and
  the merge is recorded after. A candidate on a stale base is first picked onto the head and
  verified. The functions take the journal they write to as an argument, as the source does
  through its trait; two journals are given at the end. Running gates and reviews, and the
  cherry-pick, are effects whose results are arguments.
\<close>

subsection \<open>The repository\<close>

text \<open>
  What the engine changes in the repository through the workspace manager: refs and the names
  they have had, commits with their parent and tree, and the slots with a recorded intent. Git updates a ref only if it has the expected old value. Each call may
  be done, may fail with nothing done, or may be done although the caller sees an error or dies:
  \<open>rp_faults\<close> says which, call by call, and after its end calls succeed.
\<close>

datatype slot = SlotTask task_key generation_id | SlotStaging nat | SlotSnapshot string

datatype fault = FaultNone | FaultLost | FaultUnreported

record repository =
  rp_refs :: "git_ref \<Rightarrow> commit_sha option"
  rp_known :: "git_ref list"
  rp_commits :: "commit_sha \<Rightarrow> (commit_sha option \<times> commit_sha) option"
  rp_intents :: "slot list"
  rp_faults :: "fault list"

datatype repo_error =
    RepoFailed | MalformedObjectId git_ref string | NullNew git_ref | NullExpectedOld git_ref

definition repo_call ::
  "(repository \<Rightarrow> repository) \<Rightarrow> repository \<Rightarrow> repository \<times> (repo_error, unit) result" where
  "repo_call change r =
     (case rp_faults r of
        [] \<Rightarrow> (change r, Inr ())
      | FaultNone # faults \<Rightarrow> (change (r\<lparr>rp_faults := faults\<rparr>), Inr ())
      | FaultLost # faults \<Rightarrow> (r\<lparr>rp_faults := faults\<rparr>, Inl RepoFailed)
      | FaultUnreported # faults \<Rightarrow> (change (r\<lparr>rp_faults := faults\<rparr>), Inl RepoFailed))"

definition assert_publishable :: "git_ref \<Rightarrow> repository \<Rightarrow> repository \<times> (repo_error, unit) result" where
  "assert_publishable name r = repo_call (\<lambda>r. r) r"

definition direct_ref_target ::
  "git_ref \<Rightarrow> repository \<Rightarrow> repository \<times> (repo_error, commit_sha option) result" where
  "direct_ref_target name r = and_then (repo_call (\<lambda>r. r) r) (\<lambda>_ r. (r, Inr (rp_refs r name)))"

definition set_ref :: "git_ref \<Rightarrow> commit_sha option \<Rightarrow> repository \<Rightarrow> repository" where
  "set_ref name target r =
     r\<lparr>rp_refs := (rp_refs r)(name := target), rp_known := List.insert name (rp_known r)\<rparr>"

definition update_ref ::
  "git_ref \<Rightarrow> commit_sha option \<Rightarrow> commit_sha option \<Rightarrow> repository \<Rightarrow> repository \<times> (repo_error, unit) result" where
  "update_ref name old new r =
     (if rp_refs r name = old then repo_call (set_ref name new) r else (r, Inl RepoFailed))"

definition is_hexdigit :: "char \<Rightarrow> bool" where
  "is_hexdigit c \<longleftrightarrow>
     (let b = (of_char c :: nat) in 48 \<le> b \<and> b \<le> 57 \<or> 65 \<le> b \<and> b \<le> 70 \<or> 97 \<le> b \<and> b \<le> 102)"

definition is_object_id :: "string \<Rightarrow> bool" where
  "is_object_id value \<longleftrightarrow> (length value = 40 \<or> length value = 64) \<and> list_all is_hexdigit value"

definition is_null_object_id :: "string \<Rightarrow> bool" where
  "is_null_object_id value \<longleftrightarrow> is_object_id value \<and> list_all (\<lambda>c. c = CHR ''0'') value"

definition refuse_new :: "git_ref \<Rightarrow> commit_sha \<Rightarrow> (repo_error, unit) result" where
  "refuse_new name new =
     (if \<not> is_object_id new then Inl (MalformedObjectId name new)
      else if is_null_object_id new then Inl (NullNew name) else Inr ())"

definition refuse_expected_old :: "git_ref \<Rightarrow> commit_sha \<Rightarrow> (repo_error, unit) result" where
  "refuse_expected_old name old =
     (if \<not> is_object_id old then Inl (MalformedObjectId name old)
      else if is_null_object_id old then Inl (NullExpectedOld name) else Inr ())"

definition compare_and_swap_ref ::
  "git_ref \<Rightarrow> commit_sha \<Rightarrow> commit_sha \<Rightarrow> repository \<Rightarrow> repository \<times> (repo_error, unit) result" where
  "compare_and_swap_ref name old new r =
     and_then (assert_publishable name r) (\<lambda>_ r.
     and_then (r, refuse_new name new) (\<lambda>_ r.
     and_then (r, refuse_expected_old name old) (\<lambda>_ r.
     update_ref name (Some old) (Some new) r)))"

definition create_ref_zero_old ::
  "git_ref \<Rightarrow> commit_sha \<Rightarrow> repository \<Rightarrow> repository \<times> (repo_error, unit) result" where
  "create_ref_zero_old name new r =
     and_then (repo_call (\<lambda>r. r) r) (\<lambda>_ r.
     and_then (r, refuse_new name new) (\<lambda>_ r.
     update_ref name None (Some new) r))"

definition delete_ref_expected_old ::
  "git_ref \<Rightarrow> commit_sha \<Rightarrow> repository \<Rightarrow> repository \<times> (repo_error, unit) result" where
  "delete_ref_expected_old name old r =
     and_then (repo_call (\<lambda>r. r) r) (\<lambda>_ r.
     and_then (r, refuse_expected_old name old) (\<lambda>_ r.
     update_ref name (Some old) None r))"

definition write_intent :: "slot \<Rightarrow> repository \<Rightarrow> repository \<times> (repo_error, unit) result" where
  "write_intent slot = repo_call (\<lambda>r. r\<lparr>rp_intents := List.insert slot (rp_intents r)\<rparr>)"

definition remove_intent :: "slot \<Rightarrow> repository \<Rightarrow> repository \<times> (repo_error, unit) result" where
  "remove_intent slot = repo_call (\<lambda>r. r\<lparr>rp_intents := filter (\<lambda>s. s \<noteq> slot) (rp_intents r)\<rparr>)"

definition touch_worktree :: "slot \<Rightarrow> repository \<Rightarrow> repository \<times> (repo_error, unit) result" where
  "touch_worktree slot = repo_call (\<lambda>r. r)"

subsection \<open>Requests, refusals and the journal\<close>

datatype integrate_refusal =
    NoCandidateRecord task_key generation_id
  | IntegrationRefAbsent git_ref
  | ForeignHead sequence_id git_ref commit_sha commit_sha
  | DispatchHeadForeign task_key git_ref commit_sha commit_sha
  | DispatchHeadAbsent task_key git_ref commit_sha
  | ThirdSha sequence_id git_ref commit_sha commit_sha commit_sha
  | PinAtAnotherSha git_ref commit_sha commit_sha
  | PinSubstituted sequence_id git_ref commit_sha commit_sha
  | IntegrateNotStarted
  | RefElsewhere git_ref commit_sha commit_sha
  | PublishedRefMoved git_ref sequence_id commit_sha commit_sha
  | PublishedRefAbsent git_ref sequence_id commit_sha
  | SlotKept slot
  | UnexpectedRef string git_ref
  | RunOver run_outcome
  | NoDispatchRecord task_key generation_id
  | NoSourceObject candidate_ref
  | SourceMoved candidate_ref commit_sha
  | SourceRefAbsent candidate_ref

datatype candidate_refusal =
    ObjectMissing task_key generation_id commit_sha
  | RefAtAnotherSha git_ref commit_sha commit_sha
  | MalformedCommit task_key generation_id commit_sha
  | UnregisteredTask task_key

datatype closure_refusal =
    ClosureNotStarted
  | ClosureNotEnding "string list"
  | ClosureNoOutcome
  | ClosureUnvouched "string list"
  | ClosureNotHalted run_outcome "string list"
  | ClosureOtherOutcome run_outcome run_outcome
  | ClosureStillOpen "string list"
  | ClosureUnderived
  | NoCancelledVerification sequence_id

datatype 'e integrate_error =
    IntRefusal integrate_refusal
  | IntRepo repo_error
  | IntRepair repair_refusal
  | IntCandidate candidate_refusal
  | IntClosure closure_refusal
  | IntSettle settle_refusal
  | IntJournal 'e

record gate_verdict =
  gv_invocation :: string
  gv_timed_out :: bool
  gv_code :: "int option"

record judgement =
  jd_gates :: "gate_verdict list"
  jd_reviews :: "review_record list"
  jd_failure :: "attempt_failure option"

definition timed_out_gate :: "judgement \<Rightarrow> gate_verdict option" where
  "timed_out_gate j = find gv_timed_out (jd_gates j)"

datatype verified = VerifiedJudged judgement | VerifiedUnavailable infrastructure_kind string "review_record list"

record verify_request =
  vq_candidate :: candidate_ref
  vq_sequence :: sequence_id
  vq_staging :: slot
  vq_head :: commit_sha
  vq_proposed :: commit_sha
  vq_already_present :: bool

text \<open>The journal a publication needs, and with verification what a whole integration needs.\<close>

record ('s, 'e) journal =
  jn_emit :: "topology_event_body \<Rightarrow> 's \<Rightarrow> 's \<times> ('e, unit) result"
  jn_fold :: "'s \<Rightarrow> topology_fold"
  jn_converted :: "task_key \<Rightarrow> 's \<Rightarrow> 's \<times> ('e, unit) result"

record ('s, 'e) verifying_journal = "('s, 'e) journal" +
  jn_verify :: "verify_request \<Rightarrow> 's \<Rightarrow> 's \<times> ('e, verified) result"
  jn_question_id :: "'s \<Rightarrow> question_id"

definition with_repo ::
  "(repository \<Rightarrow> repository \<times> (repo_error, 'a) result) \<Rightarrow> 's \<times> repository \<Rightarrow>
     ('s \<times> repository) \<times> ('e integrate_error, 'a) result" where
  "with_repo f s =
     (case f (snd s) of (r, v) \<Rightarrow> ((fst s, r), case v of Inl e \<Rightarrow> Inl (IntRepo e) | Inr a \<Rightarrow> Inr a))"

definition with_journal ::
  "('s \<Rightarrow> 's \<times> ('e, 'a) result) \<Rightarrow> 's \<times> repository \<Rightarrow> ('s \<times> repository) \<times> ('e integrate_error, 'a) result" where
  "with_journal f s =
     (case f (fst s) of (j, v) \<Rightarrow> ((j, snd s), case v of Inl e \<Rightarrow> Inl (IntJournal e) | Inr a \<Rightarrow> Inr a))"

definition ref_root :: string where
  "ref_root = ''refs/upstroke/runs''"

definition integration_ref_for :: "string \<Rightarrow> git_ref" where
  "integration_ref_for run_id = ''refs/heads/upstroke/run-'' @ run_id"

definition prepared_pin_ref :: "string \<Rightarrow> sequence_id \<Rightarrow> git_ref" where
  "prepared_pin_ref run_id sequence =
     ref_root @ ''/'' @ run_id @ ''/prepared/'' @ show_nat (unat sequence)"

definition staging_slot :: "sequence_id \<Rightarrow> slot" where
  "staging_slot sequence = SlotStaging (unat sequence)"

record authorized_head =
  ah_head :: commit_sha
  ah_published_by :: "sequence_id option"

fun last_publication :: "topology_event list \<Rightarrow> task_merged option" where
  "last_publication [] = None"
| "last_publication (e # es) =
     (case last_publication es of
        Some merged \<Rightarrow> Some merged
      | None \<Rightarrow> (case ev_body e of EvTaskMerged merged \<Rightarrow> Some merged | _ \<Rightarrow> None))"

definition authorized_head_of :: "run_started4 \<Rightarrow> topology_event list \<Rightarrow> authorized_head" where
  "authorized_head_of started events =
     (case last_publication events of
        Some merged \<Rightarrow> \<lparr>ah_head = tm_merged_sha merged, ah_published_by = Some (tm_sequence merged)\<rparr>
      | None \<Rightarrow> \<lparr>ah_head = s4_base_sha started, ah_published_by = None\<rparr>)"

definition dispatch_head ::
  "run_started4 \<Rightarrow> topology_event list \<Rightarrow> task_key \<Rightarrow> 's \<times> repository \<Rightarrow>
     ('s \<times> repository) \<times> ('e integrate_error, commit_sha) result" where
  "dispatch_head started events key s =
     (let authorized = authorized_head_of started events; name = s4_integration_ref started in
      and_then (with_repo (assert_publishable name) s) (\<lambda>_ s.
      and_then (with_repo (direct_ref_target name) s) (\<lambda>target s.
      (s, case target of
            Some found \<Rightarrow>
              if found = ah_head authorized then Inr (ah_head authorized)
              else Inl (IntRefusal (DispatchHeadForeign key name found (ah_head authorized)))
          | None \<Rightarrow> Inl (IntRefusal (DispatchHeadAbsent key name (ah_head authorized)))))))"

definition recorded_candidate :: "topology_fold \<Rightarrow> candidate_ref \<Rightarrow> prepared_candidate option" where
  "recorded_candidate fold' candidate =
     Option.bind (fold_task fold' (cr_key candidate)) (\<lambda>task.
     Option.bind (find (\<lambda>g. gf_id g = cr_generation candidate) (tf_generations task)) gf_candidate)"

definition prepared_base :: "topology_fold \<Rightarrow> candidate_ref \<Rightarrow> (integrate_refusal, commit_sha) result" where
  "prepared_base fold' candidate =
     (case recorded_candidate fold' candidate of
        Some prepared \<Rightarrow>
          if pc_candidate prepared = candidate then Inr (pc_base_sha prepared)
          else Inl (NoCandidateRecord (cr_key candidate) (cr_generation candidate))
      | None \<Rightarrow> Inl (NoCandidateRecord (cr_key candidate) (cr_generation candidate)))"

definition lease_release_of :: "topology_fold \<Rightarrow> candidate_ref \<Rightarrow> merge_lease_release" where
  "lease_release_of fold' candidate =
     (case Option.bind (Option.bind (fold_registry fold') (\<lambda>r. registry_get r (cr_key candidate))) te_lineage of
        None \<Rightarrow> ReleaseCandidate (cr_key candidate) (cr_generation candidate)
      | Some lineage \<Rightarrow> ReleaseLineage (ln_root lineage))"

record integration_request =
  ir_candidate :: candidate_ref
  ir_sequence :: sequence_id
  ir_base_sha :: commit_sha
  ir_authorized :: authorized_head
  ir_satisfies :: "task_key list"
  ir_lease_release :: merge_lease_release
  ir_integration_ref :: git_ref

definition request_from_log ::
  "topology_fold \<Rightarrow> topology_event list \<Rightarrow> candidate_ref \<Rightarrow> (integrate_refusal, integration_request) result" where
  "request_from_log fold' events candidate =
     res_bind (ok_or (fo_run fold') IntegrateNotStarted) (\<lambda>run.
     res_bind (prepared_base fold' candidate) (\<lambda>base.
     Inr \<lparr>ir_candidate = candidate, ir_sequence = st_next_sequence run, ir_base_sha = base,
          ir_authorized = authorized_head_of (st_started run) events,
          ir_satisfies = satisfies_closure run (cr_key candidate),
          ir_lease_release = lease_release_of fold' candidate,
          ir_integration_ref = s4_integration_ref (st_started run)\<rparr>))"

subsection \<open>Deciding and publishing\<close>

datatype exact_base = BaseFast | BaseStale

definition decide ::
  "integration_request \<Rightarrow> 's \<times> repository \<Rightarrow>
     ('s \<times> repository) \<times> ('e integrate_error, commit_sha \<times> exact_base) result" where
  "decide request s =
     (let name = ir_integration_ref request in
      and_then (with_repo (assert_publishable name) s) (\<lambda>_ s.
      and_then (with_repo (direct_ref_target name) s) (\<lambda>target s.
      (s, case target of
            None \<Rightarrow> Inl (IntRefusal (IntegrationRefAbsent name))
          | Some head \<Rightarrow>
              if head \<noteq> ah_head (ir_authorized request)
              then Inl (IntRefusal (ForeignHead (ir_sequence request) name head (ah_head (ir_authorized request))))
              else Inr (head, if head = ir_base_sha request then BaseFast else BaseStale)))))"

record authorized =
  az_sequence :: sequence_id
  az_key :: task_key
  az_expected_head :: commit_sha
  az_proposed_sha :: commit_sha
  az_satisfies :: "task_key list"
  az_lease_release :: merge_lease_release
  az_integration_ref :: git_ref
  az_pin :: "git_ref option"
  az_staging :: "slot option"

definition authorized_from_fold :: "topology_fold \<Rightarrow> authorized option" where
  "authorized_from_fold fold' =
     Option.bind (fo_run fold') (\<lambda>run.
     Option.bind (st_transaction run) (\<lambda>tx.
     case tx_class tx of
       VerificationStarted _ _ _ \<Rightarrow> None
     | Prepared expected_head proposed_sha satisfies disposition prepared_ref \<Rightarrow>
         Some \<lparr>az_sequence = tx_sequence tx, az_key = cr_key (tx_candidate tx),
               az_expected_head = expected_head, az_proposed_sha = proposed_sha, az_satisfies = satisfies,
               az_lease_release = lease_release_of fold' (tx_candidate tx),
               az_integration_ref = s4_integration_ref (st_started run), az_pin = prepared_ref,
               az_staging = (if disposition \<noteq> PdFast then Some (staging_slot (tx_sequence tx)) else None)\<rparr>))"

record published =
  pb_sequence :: sequence_id
  pb_key :: task_key
  pb_merged_sha :: commit_sha
  pb_satisfies :: "task_key list"

definition prune_pin ::
  "git_ref \<Rightarrow> commit_sha \<Rightarrow> 's \<times> repository \<Rightarrow> ('s \<times> repository) \<times> ('e integrate_error, unit) result" where
  "prune_pin pin proposed s =
     and_then (with_repo (direct_ref_target pin) s) (\<lambda>target s.
     case target of
       None \<Rightarrow> (s, Inr ())
     | Some found \<Rightarrow>
         if found \<noteq> proposed then (s, Inl (IntRefusal (PinAtAnotherSha pin found proposed)))
         else with_repo (delete_ref_expected_old pin found) s)"

definition remove_slot ::
  "slot \<Rightarrow> 's \<times> repository \<Rightarrow> ('s \<times> repository) \<times> ('e integrate_error, unit) result" where
  "remove_slot slot s =
     and_then (with_repo (touch_worktree slot) s) (\<lambda>_ s. with_repo (remove_intent slot) s)"

definition opt_do ::
  "('a \<Rightarrow> 's \<Rightarrow> 's \<times> ('e, unit) result) \<Rightarrow> 'a option \<Rightarrow> 's \<Rightarrow> 's \<times> ('e, unit) result" where
  "opt_do f v s = (case v of None \<Rightarrow> (s, Inr ()) | Some a \<Rightarrow> f a s)"

definition merged_event :: "authorized \<Rightarrow> topology_event_body" where
  "merged_event a = EvTaskMerged
     \<lparr>tm_sequence = az_sequence a, tm_merged_sha = az_proposed_sha a, tm_satisfies = az_satisfies a,
      tm_lease_release = az_lease_release a\<rparr>"

definition move_integration_ref ::
  "authorized \<Rightarrow> commit_sha option \<Rightarrow> 's \<times> repository \<Rightarrow> ('s \<times> repository) \<times> ('e integrate_error, unit) result" where
  "move_integration_ref a target s =
     (let name = az_integration_ref a in
      case target of
        None \<Rightarrow> (s, Inl (IntRefusal (IntegrationRefAbsent name)))
      | Some found \<Rightarrow>
          if found = az_expected_head a
          then with_repo (compare_and_swap_ref name (az_expected_head a) (az_proposed_sha a)) s
          else if found \<noteq> az_proposed_sha a
          then (s, Inl (IntRefusal (ThirdSha (az_sequence a) name found (az_expected_head a) (az_proposed_sha a))))
          else (s, Inr ()))"

definition reclaim_publication ::
  "authorized \<Rightarrow> 's \<times> repository \<Rightarrow> ('s \<times> repository) \<times> ('e integrate_error, unit) result" where
  "reclaim_publication a s =
     and_then (opt_do (\<lambda>pin. prune_pin pin (az_proposed_sha a)) (az_pin a) s) (\<lambda>_ s.
     opt_do remove_slot (az_staging a) s)"

definition publish ::
  "('s, 'e, 'z) journal_scheme \<Rightarrow> authorized \<Rightarrow> 's \<times> repository \<Rightarrow>
     ('s \<times> repository) \<times> ('e integrate_error, published) result" where
  "publish jn a s =
     and_then (with_repo (assert_publishable (az_integration_ref a)) s) (\<lambda>_ s.
     and_then (with_repo (direct_ref_target (az_integration_ref a)) s) (\<lambda>target s.
     and_then (move_integration_ref a target s) (\<lambda>_ s.
     and_then (with_journal (jn_emit jn (merged_event a)) s) (\<lambda>_ s.
     and_then (reclaim_publication a s) (\<lambda>_ s.
     (s, Inr \<lparr>pb_sequence = az_sequence a, pb_key = az_key a, pb_merged_sha = az_proposed_sha a,
              pb_satisfies = az_satisfies a\<rparr>))))))"

definition authorized_for ::
  "integration_request \<Rightarrow> commit_sha \<Rightarrow> commit_sha \<Rightarrow> git_ref option \<Rightarrow> slot option \<Rightarrow> authorized" where
  "authorized_for request head proposed pin staging =
     \<lparr>az_sequence = ir_sequence request, az_key = cr_key (ir_candidate request), az_expected_head = head,
      az_proposed_sha = proposed, az_satisfies = ir_satisfies request,
      az_lease_release = ir_lease_release request, az_integration_ref = ir_integration_ref request,
      az_pin = pin, az_staging = staging\<rparr>"

definition prepared_event ::
  "integration_request \<Rightarrow> prepared_disposition \<Rightarrow> commit_sha \<Rightarrow> commit_sha \<Rightarrow> git_ref option \<Rightarrow>
     verification_source \<Rightarrow> verification_record option \<Rightarrow> merge_prepared" where
  "prepared_event request disposition head proposed pin source verification =
     (let candidate = ir_candidate request in
      \<lparr>mp_sequence = ir_sequence request, mp_disposition = disposition, mp_expected_head = head,
       mp_proposed_sha = proposed, mp_key = cr_key candidate, mp_generation = cr_generation candidate,
       mp_candidate_sha = cr_commit_sha candidate, mp_candidate_ref = cr_candidate_ref candidate,
       mp_prepared_ref = pin, mp_verification_source = source, mp_verification = verification,
       mp_satisfies = ir_satisfies request\<rparr>)"

definition prepare_fast ::
  "('s, 'e, 'z) journal_scheme \<Rightarrow> integration_request \<Rightarrow> commit_sha \<Rightarrow> 's \<times> repository \<Rightarrow>
     ('s \<times> repository) \<times> ('e integrate_error, authorized) result" where
  "prepare_fast jn request head s =
     (let candidate = ir_candidate request in
      and_then (with_journal (jn_emit jn (EvMergePrepared (prepared_event request PdFast head
          (cr_commit_sha candidate) None
          (SourceCandidatePrepared (cr_key candidate) (cr_generation candidate)) None))) s) (\<lambda>_ s.
      and_then (with_journal (jn_converted jn (cr_key candidate)) s) (\<lambda>_ s.
      (s, Inr (authorized_for request head (cr_commit_sha candidate) None None)))))"

definition prepare_verified ::
  "('s, 'e, 'z) journal_scheme \<Rightarrow> integration_request \<Rightarrow> commit_sha \<Rightarrow> commit_sha \<Rightarrow> git_ref option \<Rightarrow>
     prepared_disposition \<Rightarrow> verification_record \<Rightarrow> 's \<times> repository \<Rightarrow>
     ('s \<times> repository) \<times> ('e integrate_error, authorized) result" where
  "prepare_verified jn request head proposed pin disposition verification s =
     and_then (with_journal (jn_emit jn (EvMergePrepared (prepared_event request disposition head proposed pin
         (SourceVerification (ir_sequence request)) (Some verification)))) s) (\<lambda>_ s.
     (s, Inr (authorized_for request head proposed pin (Some (staging_slot (ir_sequence request))))))"

subsection \<open>Verifying on a stale base\<close>

datatype terminal =
    TerminalMerged published
  | TerminalRejected sequence_id task_key
  | TerminalUnavailable sequence_id task_key bool

definition is_snapshot :: "slot \<Rightarrow> bool" where
  "is_snapshot slot = (case slot of SlotSnapshot _ \<Rightarrow> True | _ \<Rightarrow> False)"

fun each_do :: "('a \<Rightarrow> 's \<Rightarrow> 's \<times> ('e, unit) result) \<Rightarrow> 'a list \<Rightarrow> 's \<Rightarrow> 's \<times> ('e, unit) result" where
  "each_do f [] s = (s, Inr ())"
| "each_do f (a # as) s = and_then (f a s) (\<lambda>_ s. each_do f as s)"

definition list_intents :: "repository \<Rightarrow> repository \<times> (repo_error, slot list) result" where
  "list_intents r = and_then (repo_call (\<lambda>r. r) r) (\<lambda>_ r. (r, Inr (rp_intents r)))"

definition reclaim_snapshots ::
  "'s \<times> repository \<Rightarrow> ('s \<times> repository) \<times> ('e integrate_error, unit) result" where
  "reclaim_snapshots s =
     and_then (with_repo list_intents s) (\<lambda>slots s. each_do remove_slot (filter is_snapshot slots) s)"

definition reclaim_staging ::
  "slot \<Rightarrow> (git_ref \<times> commit_sha) option \<Rightarrow> 's \<times> repository \<Rightarrow>
     ('s \<times> repository) \<times> ('e integrate_error, unit) result" where
  "reclaim_staging staging pinned s =
     and_then (reclaim_snapshots s) (\<lambda>_ s.
     and_then (remove_slot staging s) (\<lambda>_ s.
     opt_do (\<lambda>(pin, proposed). prune_pin pin proposed) pinned s))"

definition candidate_defers :: "topology_fold \<Rightarrow> candidate_ref \<Rightarrow> u32" where
  "candidate_defers fold' candidate =
     (case Option.bind (fo_run fold') (\<lambda>run. queue_get (st_queue run) (cr_key candidate) (cr_generation candidate)) of
        None \<Rightarrow> 0 | Some entry \<Rightarrow> qe_defers entry)"

text \<open>\<open>debug_kind\<close> prints an infrastructure kind the way the derived \<^verbatim>\<open>Debug\<close> does.\<close>

definition unavailable_question ::
  "(infrastructure_kind \<Rightarrow> string) \<Rightarrow> question_id \<Rightarrow> task_key \<Rightarrow> unavailable_cause \<Rightarrow> string option \<Rightarrow> frozen_question" where
  "unavailable_question debug_kind id' key cause detail =
     (let (kind, context) =
        (case cause of
           CauseHumanRequired verdict \<Rightarrow> (Clarify, ''integration verification needs a person: '' @ verdict)
         | CauseInfrastructure kind \<Rightarrow>
             (Unblock, ''integration verification kept failing on infrastructure ('' @ debug_kind kind @
                (case detail of None \<Rightarrow> [] | Some d \<Rightarrow> '': '' @ d) @
                '') and has exhausted its deferrals; retry it or decline the task'')) in
      \<lparr>fq_id = id', fq_key = key, fq_kind = kind, fq_context = context,
       fq_options = topology_question_options kind\<rparr>)"

definition unavailable_event ::
  "(infrastructure_kind \<Rightarrow> string) \<Rightarrow> question_id \<Rightarrow> topology_fold \<Rightarrow> integration_request \<Rightarrow> unavailable_cause \<Rightarrow>
     string option \<Rightarrow> review_record list \<Rightarrow> (integrate_refusal, merge_verification_unavailable) result" where
  "unavailable_event debug_kind id' fold' request cause detail reviews =
     (let taken = candidate_defers fold' (ir_candidate request) in
      res_bind (ok_or (fold_started fold') IntegrateNotStarted) (\<lambda>started.
      let is_outage = (case cause of CauseInfrastructure _ \<Rightarrow> True | CauseHumanRequired _ \<Rightarrow> False);
          outcome = (if is_outage \<and> sat_add taken 1 < tl_max_defers (s4_limits started)
                     then UnavailableDeferred (sat_add taken 1)
                     else UnavailableParked
                       (unavailable_question debug_kind id' (cr_key (ir_candidate request)) cause detail)) in
      Inr \<lparr>vu_sequence = ir_sequence request, vu_cause = cause, vu_outcome = outcome, vu_reviews = reviews\<rparr>))"

definition unavailable ::
  "(infrastructure_kind \<Rightarrow> string) \<Rightarrow> ('s, 'e, 'z) verifying_journal_scheme \<Rightarrow> integration_request \<Rightarrow> slot \<Rightarrow>
     git_ref option \<Rightarrow> commit_sha \<Rightarrow> unavailable_cause \<Rightarrow> string option \<Rightarrow> review_record list \<Rightarrow> 's \<times> repository \<Rightarrow>
     ('s \<times> repository) \<times> ('e integrate_error, terminal) result" where
  "unavailable debug_kind jn request staging pin proposed cause detail reviews s =
     (case unavailable_event debug_kind (jn_question_id jn (fst s)) (jn_fold jn (fst s)) request cause detail reviews of
        Inl e \<Rightarrow> (s, Inl (IntRefusal e))
      | Inr event \<Rightarrow>
          and_then (with_journal (jn_emit jn (EvMergeVerificationUnavailable event)) s) (\<lambda>_ s.
          and_then (reclaim_staging staging (map_option (\<lambda>p. (p, proposed)) pin) s) (\<lambda>_ s.
          (s, Inr (TerminalUnavailable (ir_sequence request) (cr_key (ir_candidate request))
                (case vu_outcome event of UnavailableParked _ \<Rightarrow> True | UnavailableDeferred _ \<Rightarrow> False))))))"

definition infrastructure :: "attempt_failure \<Rightarrow> unavailable_cause" where
  "infrastructure failure =
     CauseInfrastructure
       (if af_never_started failure then InfraRunnerSpawnFailure
        else (case af_kind failure of
                RateLimited \<Rightarrow> InfraRateLimited
              | ReviewUnavailable \<Rightarrow> InfraReviewUnavailable
              | Timeout \<Rightarrow> InfraReviewerTimeout
              | _ \<Rightarrow> InfraOther (af_reason failure)))"

definition needs_human :: "attempt_failure \<Rightarrow> bool" where
  "needs_human failure \<longleftrightarrow> af_kind failure \<in> {NeedsHuman, ReviewInputTooLarge, ReviewInputOpaque}"

definition passing_record :: "judgement \<Rightarrow> verification_record" where
  "passing_record j =
     \<lparr>vr_verdict = VerdictPassed, vr_gates_passed = True, vr_reviews = jd_reviews j,
      vr_detail = ''the integration verification passed''\<rparr>"

text \<open>A byte of a UTF-8 string that does not start a character.\<close>

definition is_continuation :: "char \<Rightarrow> bool" where
  "is_continuation c \<longleftrightarrow> (of_char c :: nat) div 64 = 2"

definition text_tail :: "string \<Rightarrow> nat \<Rightarrow> string" where
  "text_tail text max_bytes =
     (let trimmed = str_trim text in
      if length trimmed \<le> max_bytes then trimmed
      else [CHR 0xE2, CHR 0x80, CHR 0xA6] @ dropWhile is_continuation (drop (length trimmed - max_bytes) trimmed))"

definition feedback_tail_bytes :: nat where
  "feedback_tail_bytes = 8 * 1024"

definition rejection_detail :: "attempt_failure \<Rightarrow> string" where
  "rejection_detail failure =
     (case map_option str_trim (af_feedback failure) of
        None \<Rightarrow> af_reason failure
      | Some feedback \<Rightarrow>
          if feedback = [] then af_reason failure
          else af_reason failure @ [newline, newline] @ text_tail feedback feedback_tail_bytes)"

definition code_record :: "judgement \<Rightarrow> attempt_failure \<Rightarrow> verification_record" where
  "code_record j failure =
     code_rejection_record (af_kind failure \<noteq> GateFailed) (jd_reviews j) (rejection_detail failure)"

definition reject ::
  "('s, 'e, 'z) verifying_journal_scheme \<Rightarrow> integration_request \<Rightarrow> commit_sha \<Rightarrow> rejection_disposition \<Rightarrow> path_set \<Rightarrow>
     's \<times> repository \<Rightarrow> ('s \<times> repository) \<times> ('e integrate_error, unit) result" where
  "reject jn request head disposition contended s =
     (case repair_rejected (jn_fold jn (fst s)) (jn_question_id jn (fst s)) (ir_candidate request) head
             (ir_sequence request) disposition contended of
        Inl e \<Rightarrow> (s, Inl (IntRepair e))
      | Inr rejected \<Rightarrow> with_journal (jn_emit jn (EvMergeRejected rejected)) s)"

text \<open>What is written once the proposal has been judged.\<close>

definition judge_proposal ::
  "(infrastructure_kind \<Rightarrow> string) \<Rightarrow> ('s, 'e, 'z) verifying_journal_scheme \<Rightarrow> integration_request \<Rightarrow> slot \<Rightarrow>
     commit_sha \<Rightarrow> commit_sha \<Rightarrow> git_ref option \<Rightarrow> prepared_disposition \<Rightarrow> judgement \<Rightarrow> 's \<times> repository \<Rightarrow>
     ('s \<times> repository) \<times> ('e integrate_error, terminal) result" where
  "judge_proposal debug_kind jn request staging head proposed pin disposition j s =
     (case timed_out_gate j of
        Some verdict \<Rightarrow>
          let detail = ''gate '' @ quoted (gv_invocation verdict) @
            '' timed out and produced no verdict; a timeout is not a repair (decisions.repairs.not_repairs)'' in
          unavailable debug_kind jn request staging pin proposed (CauseInfrastructure (InfraOther detail)) (Some detail)
            (jd_reviews j) s
      | None \<Rightarrow>
          (case jd_failure j of
             None \<Rightarrow>
               and_then (prepare_verified jn request head proposed pin disposition (passing_record j) s) (\<lambda>a s.
               and_then (reclaim_snapshots s) (\<lambda>_ s.
               and_then (publish jn a s) (\<lambda>p s. (s, Inr (TerminalMerged p)))))
           | Some failure \<Rightarrow>
               if is_outage (shape_of failure) then
                 unavailable debug_kind jn request staging pin proposed (infrastructure failure)
                   (Some (af_reason failure)) (jd_reviews j) s
               else if needs_human failure then
                 unavailable debug_kind jn request staging pin proposed (CauseHumanRequired (af_reason failure)) None
                   (jd_reviews j) s
               else
                 and_then (reject jn request head (RdCodeRejected (code_record j failure))
                     (candidate_paths (jn_fold jn (fst s)) (ir_candidate request)) s) (\<lambda>_ s.
                 and_then (reclaim_staging staging (map_option (\<lambda>p. (p, proposed)) pin) s) (\<lambda>_ s.
                 (s, Inr (TerminalRejected (ir_sequence request) (cr_key (ir_candidate request))))))))"

definition start_and_verify ::
  "(infrastructure_kind \<Rightarrow> string) \<Rightarrow> ('s, 'e, 'z) verifying_journal_scheme \<Rightarrow> integration_request \<Rightarrow> slot \<Rightarrow>
     commit_sha \<Rightarrow> commit_sha \<Rightarrow> git_ref option \<Rightarrow> verification_basis \<Rightarrow> prepared_disposition \<Rightarrow> 's \<times> repository \<Rightarrow>
     ('s \<times> repository) \<times> ('e integrate_error, terminal) result" where
  "start_and_verify debug_kind jn request staging head proposed pin basis disposition s =
     (let candidate = ir_candidate request in
      and_then (with_journal (jn_emit jn (EvMergeVerificationStarted
          \<lparr>vs_sequence = ir_sequence request, vs_candidate = candidate, vs_basis = basis,
           vs_expected_head = head, vs_proposed_sha = proposed\<rparr>)) s) (\<lambda>_ s.
      and_then (with_journal (jn_converted jn (cr_key candidate)) s) (\<lambda>_ s.
      and_then (with_journal (jn_verify jn
          \<lparr>vq_candidate = candidate, vq_sequence = ir_sequence request, vq_staging = staging, vq_head = head,
           vq_proposed = proposed, vq_already_present = (disposition = PdAlreadyPresent)\<rparr>) s) (\<lambda>verified s.
      case verified of
        VerifiedJudged j \<Rightarrow> judge_proposal debug_kind jn request staging head proposed pin disposition j s
      | VerifiedUnavailable kind detail reviews \<Rightarrow>
          unavailable debug_kind jn request staging pin proposed (CauseInfrastructure kind) (Some detail) reviews s))))"

text \<open>What the cherry-pick onto the head left in the staging worktree.\<close>

datatype picked =
    PickedClean commit_sha | PickedConflict path_set | PickedEmpty | PickedUnclassified | PickedUnread

definition integrate_clean ::
  "(infrastructure_kind \<Rightarrow> string) \<Rightarrow> ('s, 'e, 'z) verifying_journal_scheme \<Rightarrow> integration_request \<Rightarrow> commit_sha \<Rightarrow>
     commit_sha \<Rightarrow> 's \<times> repository \<Rightarrow> ('s \<times> repository) \<times> ('e integrate_error, terminal) result" where
  "integrate_clean debug_kind jn request head proposal s =
     (case fold_started (jn_fold jn (fst s)) of
        None \<Rightarrow> (s, Inl (IntRefusal IntegrateNotStarted))
      | Some started \<Rightarrow>
          let pin = prepared_pin_ref (s4_run_id started) (ir_sequence request) in
          and_then (with_repo (create_ref_zero_old pin proposal) s) (\<lambda>_ s.
          start_and_verify debug_kind jn request (staging_slot (ir_sequence request)) head proposal (Some pin)
            (BasisStaleClean pin) PdStaleClean s))"

definition integrate_conflict ::
  "('s, 'e, 'z) verifying_journal_scheme \<Rightarrow> integration_request \<Rightarrow> commit_sha \<Rightarrow> path_set \<Rightarrow> 's \<times> repository \<Rightarrow>
     ('s \<times> repository) \<times> ('e integrate_error, terminal) result" where
  "integrate_conflict jn request head paths s =
     and_then (reject jn request head (RdConflict paths) paths s) (\<lambda>_ s.
     and_then (with_journal (jn_converted jn (cr_key (ir_candidate request))) s) (\<lambda>_ s.
     and_then (reclaim_staging (staging_slot (ir_sequence request)) None s) (\<lambda>_ s.
     (s, Inr (TerminalRejected (ir_sequence request) (cr_key (ir_candidate request)))))))"

definition integrate_stale ::
  "(infrastructure_kind \<Rightarrow> string) \<Rightarrow> picked \<Rightarrow> ('s, 'e, 'z) verifying_journal_scheme \<Rightarrow> integration_request \<Rightarrow>
     commit_sha \<Rightarrow> 's \<times> repository \<Rightarrow> ('s \<times> repository) \<times> ('e integrate_error, terminal) result" where
  "integrate_stale debug_kind picked jn request head s =
     (let staging = staging_slot (ir_sequence request) in
      and_then (with_repo (write_intent staging) s) (\<lambda>_ s.
      and_then (with_repo (touch_worktree staging) s) (\<lambda>_ s.
      case picked of
        PickedClean proposal \<Rightarrow> integrate_clean debug_kind jn request head proposal s
      | PickedEmpty \<Rightarrow>
          start_and_verify debug_kind jn request staging head head None BasisAlreadyPresent PdAlreadyPresent s
      | PickedConflict paths \<Rightarrow> integrate_conflict jn request head paths s
      | PickedUnclassified \<Rightarrow>
          and_then (reclaim_staging staging None s) (\<lambda>_ s. (s, Inl (IntRepo RepoFailed)))
      | PickedUnread \<Rightarrow> (s, Inl (IntRepo RepoFailed)))))"

definition integrate_fast ::
  "('s, 'e, 'z) journal_scheme \<Rightarrow> integration_request \<Rightarrow> commit_sha \<Rightarrow> 's \<times> repository \<Rightarrow>
     ('s \<times> repository) \<times> ('e integrate_error, terminal) result" where
  "integrate_fast jn request head s =
     and_then (prepare_fast jn request head s) (\<lambda>a s.
     and_then (publish jn a s) (\<lambda>p s. (s, Inr (TerminalMerged p))))"

definition integrate ::
  "(infrastructure_kind \<Rightarrow> string) \<Rightarrow> picked \<Rightarrow> ('s, 'e, 'z) verifying_journal_scheme \<Rightarrow> integration_request \<Rightarrow>
     's \<times> repository \<Rightarrow> ('s \<times> repository) \<times> ('e integrate_error, terminal) result" where
  "integrate debug_kind picked jn request s =
     and_then (decide request s) (\<lambda>(head, exact) s.
     case exact of
       BaseFast \<Rightarrow> integrate_fast jn request head s
     | BaseStale \<Rightarrow> integrate_stale debug_kind picked jn request head s)"

subsection \<open>The journals\<close>

text \<open>
  What ended a verification, as its result and the review passes it charged. The running process
  writes through its emitter; each event meets its own world and its own time, counted by the
  journal's second component.
\<close>

datatype judge_error =
    JudgeCancelled | JudgeRunner process_fate string string | JudgeGit string | JudgeOther

definition verified_of ::
  "(judge_error, judgement) result \<Rightarrow> review_record list \<Rightarrow> sequence_id \<Rightarrow> (judge_error, verified) result" where
  "verified_of outcome passes sequence =
     (case outcome of
        Inr j \<Rightarrow> Inr (VerifiedJudged j)
      | Inl (JudgeRunner NeverStarted invocation message) \<Rightarrow>
          Inr (VerifiedUnavailable InfraRunnerSpawnFailure message passes)
      | Inl (JudgeRunner ProcessGone invocation message) \<Rightarrow>
          Inr (VerifiedUnavailable
            (InfraOther (''the Runner lost '' @ quoted invocation @
               '' after its process started and has since established the process is gone; nothing was judged''))
            message passes)
      | Inl (JudgeGit message) \<Rightarrow>
          Inr (VerifiedUnavailable
            (InfraOther (''foreign Git state observed by the verification of sequence '' @ show_nat (unat sequence) @
               '': '' @ message)) message passes)
      | Inl e \<Rightarrow> Inl e)"

datatype journal_error = JournalStep step_error | JournalVerify judge_error | JournalPermit permit_refusal

definition run_journal_emit ::
  "externals \<Rightarrow> (nat \<Rightarrow> emit_world) \<Rightarrow> (nat \<Rightarrow> string) \<Rightarrow> run_identity \<Rightarrow> topology_event_body \<Rightarrow>
     topology_run \<times> nat \<Rightarrow> (topology_run \<times> nat) \<times> (journal_error, unit) result" where
  "run_journal_emit x world clock identity body s =
     (case emit_through x (world (snd s)) identity (clock (snd s)) body (fst s) of
        (run, Inr _) \<Rightarrow> ((run, Suc (snd s)), Inr ())
      | (run, Inl e) \<Rightarrow> ((run, Suc (snd s)), Inl (JournalStep e)))"

definition run_converted :: "task_key \<Rightarrow> topology_run \<times> nat \<Rightarrow> (topology_run \<times> nat) \<times> (journal_error, unit) result" where
  "run_converted key s =
     (case reservation_convert key ReserveIntegration (em_reservations (tr_emit (fst s))) of
        Inl e \<Rightarrow> (s, Inl (JournalPermit e))
      | Inr r \<Rightarrow> (((fst s)\<lparr>tr_emit := (tr_emit (fst s))\<lparr>em_reservations := r\<rparr>\<rparr>, snd s), Inr ()))"

definition run_verify ::
  "(verify_request \<Rightarrow> (judge_error, judgement) result \<times> review_record list) \<Rightarrow> verify_request \<Rightarrow>
     topology_run \<times> nat \<Rightarrow> (topology_run \<times> nat) \<times> (journal_error, verified) result" where
  "run_verify judge request s =
     (case judge request of (outcome, passes) \<Rightarrow>
        (((fst s)\<lparr>tr_spend := record_reviews (cr_key (vq_candidate request)) passes (tr_spend (fst s))\<rparr>, snd s),
         case verified_of outcome passes (vq_sequence request) of
           Inl e \<Rightarrow> Inl (JournalVerify e) | Inr v \<Rightarrow> Inr v))"

definition run_journal ::
  "externals \<Rightarrow> (nat \<Rightarrow> emit_world) \<Rightarrow> (nat \<Rightarrow> string) \<Rightarrow> run_identity \<Rightarrow>
     (verify_request \<Rightarrow> (judge_error, judgement) result \<times> review_record list) \<Rightarrow> question_id \<Rightarrow>
     (topology_run \<times> nat, journal_error) verifying_journal" where
  "run_journal x world clock identity judge id' =
     \<lparr>jn_emit = run_journal_emit x world clock identity, jn_fold = \<lambda>s. em_fold (tr_emit (fst s)),
      jn_converted = run_converted, jn_verify = run_verify judge, jn_question_id = \<lambda>_. id'\<rparr>"

text \<open>Recovery writes with no notifiers and nothing reserved, so a conversion has nothing to do.\<close>

record recovery_state =
  rc_emit :: emit_state
  rc_invocations :: invocation_ledger
  rc_calls :: nat

definition recovery_emit ::
  "externals \<Rightarrow> (nat \<Rightarrow> emit_world) \<Rightarrow> (nat \<Rightarrow> string) \<Rightarrow> run_identity \<Rightarrow> topology_event_body \<Rightarrow> recovery_state \<Rightarrow>
     recovery_state \<times> (emit_error, unit) result" where
  "recovery_emit x world clock identity body s =
     (case emit x (world (rc_calls s)) identity (clock (rc_calls s)) body (rc_emit s) of
        (st, Inr _) \<Rightarrow> (s\<lparr>rc_emit := st, rc_calls := Suc (rc_calls s)\<rparr>, Inr ())
      | (st, Inl e) \<Rightarrow>
          (s\<lparr>rc_emit := st, rc_calls := Suc (rc_calls s), rc_invocations := fst (discharging e (rc_invocations s))\<rparr>,
           Inl e))"

definition recovery_journal ::
  "externals \<Rightarrow> (nat \<Rightarrow> emit_world) \<Rightarrow> (nat \<Rightarrow> string) \<Rightarrow> run_identity \<Rightarrow> (recovery_state, emit_error) journal" where
  "recovery_journal x world clock identity =
     \<lparr>jn_emit = recovery_emit x world clock identity, jn_fold = \<lambda>s. em_fold (rc_emit s),
      jn_converted = \<lambda>_ s. (s, Inr ())\<rparr>"

end
