(* ===== verification/Candidate.thy ===== *)
theory Candidate
  imports Integrate
begin

section \<open>Candidates: src/engine/topology/candidate.rs\<close>

text \<open>
  An accepted attempt becomes a candidate in steps between which the process may die: the commit
  is written, pinned, recorded as prepared, named by its candidates ref, recorded as created, and
  only then are the pin and the worktree given up. A recovery finds out which step was the last
  and goes on from there. The hash of a commit is an argument, and so is what the check of a
  kept worktree finds.
\<close>

subsection \<open>Names\<close>

definition run_namespace :: "string \<Rightarrow> string" where
  "run_namespace run_id = ref_root @ ''/'' @ run_id @ ''/''"

definition candidate_pin_ref :: "string \<Rightarrow> task_key \<Rightarrow> generation_id \<Rightarrow> git_ref" where
  "candidate_pin_ref run_id key generation =
     ref_root @ ''/'' @ run_id @ ''/candidate-prepared/'' @ show_nat (unat key) @ ''/'' @ show_nat (unat generation)"

definition candidates_ref :: "string \<Rightarrow> task_key \<Rightarrow> generation_id \<Rightarrow> git_ref" where
  "candidates_ref run_id key generation =
     ref_root @ ''/'' @ run_id @ ''/candidates/'' @ show_nat (unat key) @ ''/'' @ show_nat (unat generation)"

record candidate_names =
  cn_prepared_ref :: git_ref
  cn_candidate_ref :: git_ref

definition candidate_names_of :: "string \<Rightarrow> task_key \<Rightarrow> generation_id \<Rightarrow> candidate_names" where
  "candidate_names_of run_id key generation =
     \<lparr>cn_prepared_ref = candidate_pin_ref run_id key generation,
      cn_candidate_ref = candidates_ref run_id key generation\<rparr>"

definition task_slot :: "task_key \<Rightarrow> generation_id \<Rightarrow> slot" where
  "task_slot key generation = SlotTask key generation"

subsection \<open>The stages of a candidate\<close>

record judged_tree =
  jt_key :: task_key
  jt_generation :: generation_id
  jt_attempt :: attempt_record
  jt_base_sha :: commit_sha
  jt_tree_sha :: commit_sha
  jt_message :: string
  jt_actual_paths :: path_set
  jt_lease_effect :: candidate_lease_effect

record unpinned_candidate =
  up_judged :: judged_tree
  up_names :: candidate_names
  up_commit_sha :: commit_sha

record pinned_candidate =
  pn_judged :: judged_tree
  pn_names :: candidate_names
  pn_commit_sha :: commit_sha

record promotable_candidate =
  pm_candidate :: candidate_ref
  pm_prepared_ref :: git_ref
  pm_base :: commit_sha
  pm_tree :: commit_sha

record referenced_candidate =
  rf_candidate :: candidate_ref
  rf_prepared_ref :: git_ref

record created_candidate =
  ct_candidate :: candidate_ref
  ct_prepared_ref :: git_ref

definition refuse_malformed_commit ::
  "task_key \<Rightarrow> generation_id \<Rightarrow> commit_sha \<Rightarrow> (candidate_refusal, unit) result" where
  "refuse_malformed_commit key generation commit =
     (if is_object_id commit then Inr () else Inl (MalformedCommit key generation commit))"

definition write_commit :: "commit_sha \<Rightarrow> commit_sha \<Rightarrow> commit_sha \<Rightarrow> repository \<Rightarrow> repository \<times> (repo_error, unit) result" where
  "write_commit commit parent tree =
     repo_call (\<lambda>r. r\<lparr>rp_commits := (rp_commits r)(commit := Some (Some parent, tree))\<rparr>)"

definition read_repo :: "(repository \<Rightarrow> 'a) \<Rightarrow> repository \<Rightarrow> repository \<times> (repo_error, 'a) result" where
  "read_repo f r = and_then (repo_call (\<lambda>r. r) r) (\<lambda>_ r. (r, Inr (f r)))"

definition write_candidate_commit ::
  "(commit_sha \<Rightarrow> commit_sha \<Rightarrow> string \<Rightarrow> commit_sha) \<Rightarrow> string \<Rightarrow> judged_tree \<Rightarrow> 's \<times> repository \<Rightarrow>
     ('s \<times> repository) \<times> ('e integrate_error, unpinned_candidate) result" where
  "write_candidate_commit commit_id run_id judged s =
     (let names = candidate_names_of run_id (jt_key judged) (jt_generation judged);
          commit = commit_id (jt_tree_sha judged) (jt_base_sha judged) (jt_message judged) in
      and_then (with_repo (write_commit commit (jt_base_sha judged) (jt_tree_sha judged)) s) (\<lambda>_ s.
      (s, case refuse_malformed_commit (jt_key judged) (jt_generation judged) commit of
            Inl e \<Rightarrow> Inl (IntCandidate e)
          | Inr _ \<Rightarrow> Inr \<lparr>up_judged = judged, up_names = names, up_commit_sha = commit\<rparr>)))"

definition pin_candidate ::
  "unpinned_candidate \<Rightarrow> 's \<times> repository \<Rightarrow> ('s \<times> repository) \<times> ('e integrate_error, pinned_candidate) result" where
  "pin_candidate u s =
     and_then (with_repo (create_ref_zero_old (cn_prepared_ref (up_names u)) (up_commit_sha u)) s) (\<lambda>_ s.
     (s, Inr \<lparr>pn_judged = up_judged u, pn_names = up_names u, pn_commit_sha = up_commit_sha u\<rparr>))"

definition prepared_event_of :: "pinned_candidate \<Rightarrow> candidate_prepared" where
  "prepared_event_of p =
     (let judged = pn_judged p in
      \<lparr>cp_key = jt_key judged, cp_generation = jt_generation judged, cp_attempt = jt_attempt judged,
       cp_base_sha = jt_base_sha judged, cp_parent_sha = jt_base_sha judged, cp_tree_sha = jt_tree_sha judged,
       cp_commit_sha = pn_commit_sha p, cp_message = jt_message judged,
       cp_prepared_ref = cn_prepared_ref (pn_names p), cp_candidate_ref = cn_candidate_ref (pn_names p),
       cp_actual_paths = jt_actual_paths judged, cp_lease_effect = jt_lease_effect judged\<rparr>)"

definition append_candidate_prepared ::
  "('s, 'e, 'z) journal_scheme \<Rightarrow> pinned_candidate \<Rightarrow> 's \<times> repository \<Rightarrow>
     ('s \<times> repository) \<times> ('e integrate_error, promotable_candidate) result" where
  "append_candidate_prepared jn p s =
     (let prepared = prepared_event_of p in
      and_then (with_journal (jn_emit jn (EvCandidatePrepared prepared)) s) (\<lambda>_ s.
      (s, Inr \<lparr>pm_candidate = candidate_of_prepared prepared, pm_prepared_ref = cn_prepared_ref (pn_names p),
               pm_base = jt_base_sha (pn_judged p), pm_tree = jt_tree_sha (pn_judged p)\<rparr>)))"

definition verify_object ::
  "candidate_ref \<Rightarrow> commit_sha \<Rightarrow> commit_sha \<Rightarrow> 's \<times> repository \<Rightarrow> ('s \<times> repository) \<times> ('e integrate_error, unit) result" where
  "verify_object candidate base tree s =
     (let commit = cr_commit_sha candidate;
          missing = Inl (IntCandidate (ObjectMissing (cr_key candidate) (cr_generation candidate) commit)) in
      and_then (with_repo (read_repo (\<lambda>r. rp_commits r commit)) s) (\<lambda>there s.
      if there = None then (s, missing)
      else
        and_then (with_repo (read_repo (\<lambda>r. Option.bind (rp_commits r commit) fst)) s) (\<lambda>parent s.
        if parent \<noteq> Some base then (s, missing)
        else
          and_then (with_repo (read_repo (\<lambda>r. map_option snd (rp_commits r commit))) s) (\<lambda>found s.
          if found \<noteq> Some tree then (s, missing) else (s, Inr ())))))"

definition create_candidates_ref ::
  "promotable_candidate \<Rightarrow> 's \<times> repository \<Rightarrow> ('s \<times> repository) \<times> ('e integrate_error, referenced_candidate) result" where
  "create_candidates_ref p s =
     (let candidate = pm_candidate p; name = cr_candidate_ref candidate in
      and_then (verify_object candidate (pm_base p) (pm_tree p) s) (\<lambda>_ s.
      and_then (with_repo (direct_ref_target name) s) (\<lambda>target s.
      and_then
        (case target of
           None \<Rightarrow> with_repo (create_ref_zero_old name (cr_commit_sha candidate)) s
         | Some found \<Rightarrow>
             (s, if found = cr_commit_sha candidate then Inr ()
                 else Inl (IntCandidate (RefAtAnotherSha name found (cr_commit_sha candidate))))) (\<lambda>_ s.
      (s, Inr \<lparr>rf_candidate = candidate, rf_prepared_ref = pm_prepared_ref p\<rparr>)))))"

definition is_promoting :: "topology_fold \<Rightarrow> task_key \<Rightarrow> generation_id \<Rightarrow> bool" where
  "is_promoting fold' key generation =
     (case fold_task fold' key of
        None \<Rightarrow> False
      | Some task \<Rightarrow> list_ex (\<lambda>g. gf_id g = generation \<and> gf_class g = Promoting) (tf_generations task))"

definition append_candidate_created ::
  "('s, 'e, 'z) journal_scheme \<Rightarrow> referenced_candidate \<Rightarrow> 's \<times> repository \<Rightarrow>
     ('s \<times> repository) \<times> ('e integrate_error, created_candidate) result" where
  "append_candidate_created jn referenced s =
     (let candidate = rf_candidate referenced in
      and_then
        (if is_promoting (jn_fold jn (fst s)) (cr_key candidate) (cr_generation candidate)
         then with_journal (jn_emit jn (EvTaskCandidateCreated \<lparr>tc_candidate = candidate\<rparr>)) s
         else (s, Inr ())) (\<lambda>_ s.
      (s, Inr \<lparr>ct_candidate = candidate, ct_prepared_ref = rf_prepared_ref referenced\<rparr>)))"

definition reclaim_after_creation ::
  "slot \<Rightarrow> created_candidate \<Rightarrow> 's \<times> repository \<Rightarrow> ('s \<times> repository) \<times> ('e integrate_error, candidate_ref) result" where
  "reclaim_after_creation worktree created s =
     (let candidate = ct_candidate created; pin = ct_prepared_ref created in
      and_then (with_repo (direct_ref_target pin) s) (\<lambda>target s.
      and_then
        (opt_do (\<lambda>found s.
           if found \<noteq> cr_commit_sha candidate
           then (s, Inl (IntCandidate (RefAtAnotherSha pin found (cr_commit_sha candidate))))
           else with_repo (delete_ref_expected_old pin found) s) target s) (\<lambda>_ s.
      and_then (remove_slot worktree s) (\<lambda>_ s. (s, Inr candidate)))))"

definition complete_promotion ::
  "('s, 'e, 'z) journal_scheme \<Rightarrow> slot \<Rightarrow> promotable_candidate \<Rightarrow> 's \<times> repository \<Rightarrow>
     ('s \<times> repository) \<times> ('e integrate_error, candidate_ref) result" where
  "complete_promotion jn worktree promoting s =
     and_then (create_candidates_ref promoting s) (\<lambda>referenced s.
     and_then (append_candidate_created jn referenced s) (\<lambda>created s.
     reclaim_after_creation worktree created s))"

definition promote ::
  "('s, 'e, 'z) journal_scheme \<Rightarrow> slot \<Rightarrow> pinned_candidate \<Rightarrow> 's \<times> repository \<Rightarrow>
     ('s \<times> repository) \<times> ('e integrate_error, candidate_ref) result" where
  "promote jn worktree pinned s =
     and_then (append_candidate_prepared jn pinned s) (\<lambda>promoting s. complete_promotion jn worktree promoting s)"

subsection \<open>What a recovery owes a candidate\<close>

record orphan_pin =
  op_refname :: git_ref
  op_object :: commit_sha

record candidate_recovery =
  cy_promotion :: "promotable_candidate option"
  cy_orphan_pin :: "orphan_pin option"
  cy_settles_interrupted :: bool

definition nothing_owed :: candidate_recovery where
  "nothing_owed = \<lparr>cy_promotion = None, cy_orphan_pin = None, cy_settles_interrupted = False\<rparr>"

definition last_generation :: "topology_fold \<Rightarrow> task_key \<Rightarrow> generation_fold option" where
  "last_generation fold' key =
     Option.bind (fold_task fold' key) (\<lambda>task. if tf_generations task = [] then None else Some (last (tf_generations task)))"

definition owed_by ::
  "candidate_names \<Rightarrow> generation_fold \<Rightarrow> commit_sha option \<Rightarrow> (candidate_refusal, candidate_recovery) result" where
  "owed_by names generation pin =
     (case gf_candidate generation of
        None \<Rightarrow>
          Inr \<lparr>cy_promotion = None,
               cy_orphan_pin = map_option (\<lambda>object. \<lparr>op_refname = cn_prepared_ref names, op_object = object\<rparr>) pin,
               cy_settles_interrupted = (case gf_class generation of InFlight _ \<Rightarrow> True | _ \<Rightarrow> False)\<rparr>
      | Some prepared \<Rightarrow>
          let commit = cr_commit_sha (pc_candidate prepared) in
          if pin \<noteq> None \<and> pin \<noteq> Some commit
          then Inl (RefAtAnotherSha (cn_prepared_ref names) (the pin) commit)
          else
            Inr \<lparr>cy_promotion =
                   (if gf_class generation = Promoting \<or> pin \<noteq> None
                    then Some \<lparr>pm_candidate = pc_candidate prepared, pm_prepared_ref = cn_prepared_ref names,
                               pm_base = pc_base_sha prepared, pm_tree = pc_tree_sha prepared\<rparr>
                    else None),
                 cy_orphan_pin = None, cy_settles_interrupted = False\<rparr>)"

definition owed_for ::
  "string \<Rightarrow> topology_fold \<Rightarrow> task_key \<Rightarrow> 's \<times> repository \<Rightarrow>
     ('s \<times> repository) \<times> ('e integrate_error, candidate_recovery) result" where
  "owed_for run_id fold' key s =
     (case last_generation fold' key of
        None \<Rightarrow> (s, Inr nothing_owed)
      | Some generation \<Rightarrow>
          let names = candidate_names_of run_id key (gf_id generation) in
          and_then (with_repo (direct_ref_target (cn_prepared_ref names)) s) (\<lambda>pin s.
          (s, case owed_by names generation pin of Inl e \<Rightarrow> Inl (IntCandidate e) | Inr owed \<Rightarrow> Inr owed)))"

text \<open>A slot whose directory still holds something while its registration is broken is left alone.\<close>

definition refuse_kept_slot ::
  "(slot \<Rightarrow> bool) \<Rightarrow> slot \<Rightarrow> 's \<times> repository \<Rightarrow> ('s \<times> repository) \<times> ('e integrate_error, unit) result" where
  "refuse_kept_slot kept slot s =
     and_then (with_repo (touch_worktree slot) s) (\<lambda>_ s.
     (s, if kept slot then Inl (IntRefusal (SlotKept slot)) else Inr ()))"

definition recovery_for ::
  "(slot \<Rightarrow> bool) \<Rightarrow> string \<Rightarrow> topology_fold \<Rightarrow> task_key \<Rightarrow> 's \<times> repository \<Rightarrow>
     ('s \<times> repository) \<times> ('e integrate_error, candidate_recovery) result" where
  "recovery_for kept run_id fold' key s =
     and_then (owed_for run_id fold' key s) (\<lambda>owed s.
     and_then
       (opt_do (\<lambda>promoting. refuse_kept_slot kept (task_slot key (cr_generation (pm_candidate promoting))))
          (cy_promotion owed) s) (\<lambda>_ s.
     (s, Inr owed)))"

definition prune_orphan_pin :: "orphan_pin \<Rightarrow> 's \<times> repository \<Rightarrow> ('s \<times> repository) \<times> ('e integrate_error, unit) result" where
  "prune_orphan_pin pin s = with_repo (delete_ref_expected_old (op_refname pin) (op_object pin)) s"

definition expected_refs :: "string \<Rightarrow> topology_fold \<Rightarrow> git_ref list" where
  "expected_refs run_id fold' =
     (case fold_registry fold' of
        None \<Rightarrow> []
      | Some registry \<Rightarrow>
          concat (map (\<lambda>entry.
            case fold_task fold' (te_key entry) of
              None \<Rightarrow> []
            | Some task \<Rightarrow>
                concat (map (\<lambda>g.
                  let names = candidate_names_of run_id (te_key entry) (gf_id g) in
                  (if gf_candidate g \<noteq> None then [cn_candidate_ref names] else []) @ [cn_prepared_ref names])
                  (tf_generations task))) (rg_entries registry)))"

subsection \<open>Promoting an accepted attempt: src/engine/topology/run.rs\<close>

definition judged_tree_of ::
  "topology_fold \<Rightarrow> attempt_site \<Rightarrow> commit_sha \<Rightarrow> attempt_record \<Rightarrow> path_set \<Rightarrow> (candidate_refusal, judged_tree) result" where
  "judged_tree_of fold' site base record paths =
     (let key = si_key site; entry = Option.bind (fold_registry fold') (\<lambda>r. registry_get r key) in
      res_bind (ok_or entry (UnregisteredTask key)) (\<lambda>e.
      Inr \<lparr>jt_key = key, jt_generation = si_generation site, jt_attempt = record, jt_base_sha = base,
           jt_tree_sha = si_tree site,
           jt_message = ''upstroke: '' @ te_display_id e @ '' attempt '' @ show_nat (unat (si_attempt site)),
           jt_actual_paths = paths,
           jt_lease_effect =
             (case te_lineage e of
                Some lineage \<Rightarrow> CandidateWidensLineage (ln_root lineage) paths
              | None \<Rightarrow> ReplacesPredicted paths)\<rparr>))"

definition record_promoted :: "task_key \<Rightarrow> attempt_record \<Rightarrow> topology_run \<Rightarrow> topology_run" where
  "record_promoted key record run =
     run\<lparr>tr_spend := spend_record key record (tr_spend run), tr_brief := brief_record key record (tr_brief run)\<rparr>"

definition promote_candidate ::
  "(commit_sha \<Rightarrow> commit_sha \<Rightarrow> string \<Rightarrow> commit_sha) \<Rightarrow> (topology_run \<times> nat, 'e, 'z) journal_scheme \<Rightarrow> run_identity \<Rightarrow>
     attempt_site \<Rightarrow> commit_sha \<Rightarrow> attempt_record \<Rightarrow> path_set \<Rightarrow> (topology_run \<times> nat) \<times> repository \<Rightarrow>
     ((topology_run \<times> nat) \<times> repository) \<times> ('e integrate_error, unit) result" where
  "promote_candidate commit_id jn identity site base record paths s =
     and_then (with_repo (touch_worktree (task_slot (si_key site) (si_generation site))) s) (\<lambda>_ s.
     case judged_tree_of (jn_fold jn (fst s)) site base record paths of
       Inl e \<Rightarrow> (s, Inl (IntCandidate e))
     | Inr judged \<Rightarrow>
         and_then (write_candidate_commit commit_id (ri_run_id identity) judged s) (\<lambda>unpinned s.
         and_then (pin_candidate unpinned s) (\<lambda>pinned s.
         let s = (apfst (record_promoted (si_key site) record) (fst s), snd s) in
         and_then (append_candidate_prepared jn pinned s) (\<lambda>promoting s.
         and_then (complete_promotion jn (task_slot (si_key site) (si_generation site)) promoting s) (\<lambda>_ s.
         (s, Inr ()))))))"

end
