(* ===== verification/Dispatch.thy ===== *)
theory Dispatch
  imports Candidate
begin

section \<open>Dispatch: src/engine/topology/dispatch.rs\<close>

text \<open>
  A dispatch is recorded before its worktree exists, so a process that dies between the two
  leaves a generation whose worktree a later process verifies or makes again. What the check of
  a worktree finds, and what applying a rejected candidate to it leaves, are arguments.
\<close>

datatype dispatch_kind = DispatchOrdinary path_set | DispatchRepair task_key candidate_ref

definition dispatch_grant :: "dispatch_kind \<Rightarrow> lease_grant" where
  "dispatch_grant kind =
     (case kind of DispatchOrdinary paths \<Rightarrow> GrantPredicted paths | DispatchRepair root' _ \<Rightarrow> GrantInheritedLineage root')"

definition dispatch_source :: "dispatch_kind \<Rightarrow> candidate_ref option" where
  "dispatch_source kind = (case kind of DispatchOrdinary _ \<Rightarrow> None | DispatchRepair _ source \<Rightarrow> Some source)"

definition dispatch_lease :: "dispatch_kind \<Rightarrow> generation_lease" where
  "dispatch_lease kind =
     (case kind of DispatchOrdinary _ \<Rightarrow> OwnLease | DispatchRepair root' _ \<Rightarrow> InheritedLineage root')"

definition closing_disposition :: "dispatch_kind \<Rightarrow> lease_disposition" where
  "closing_disposition kind = expected_disposition (dispatch_lease kind) False"

record open_generation_slot =
  og_key :: task_key
  og_generation :: generation_id
  og_base :: commit_sha
  og_slot :: slot
  og_source :: "candidate_ref option"

record dispatch_request =
  dr_key :: task_key
  dr_generation :: generation_id
  dr_base :: commit_sha
  dr_kind :: dispatch_kind

record dispatched =
  ds_key :: task_key
  ds_generation :: generation_id
  ds_base :: commit_sha
  ds_slot :: slot
  ds_kind :: dispatch_kind
  ds_materialized :: "materialization option"

definition create_worktree ::
  "open_generation_slot \<Rightarrow> 's \<times> repository \<Rightarrow> ('s \<times> repository) \<times> ('e integrate_error, unit) result" where
  "create_worktree open' s =
     and_then (with_repo (write_intent (og_slot open')) s) (\<lambda>_ s. with_repo (touch_worktree (og_slot open')) s)"

definition refuse_absent_source ::
  "candidate_ref \<Rightarrow> 's \<times> repository \<Rightarrow> ('s \<times> repository) \<times> ('e integrate_error, unit) result" where
  "refuse_absent_source source s =
     and_then (with_repo (read_repo (\<lambda>r. rp_commits r (cr_commit_sha source))) s) (\<lambda>there s.
     if there = None then (s, Inl (IntRefusal (NoSourceObject source)))
     else
       and_then (with_repo (direct_ref_target (cr_candidate_ref source)) s) (\<lambda>target s.
       (s, case target of
             None \<Rightarrow> Inl (IntRefusal (SourceRefAbsent source))
           | Some at \<Rightarrow>
               if to_ascii_lowercase at = to_ascii_lowercase (cr_commit_sha source) then Inr ()
               else Inl (IntRefusal (SourceMoved source at)))))"

definition materialize_repair ::
  "materialization \<Rightarrow> open_generation_slot \<Rightarrow> 's \<times> repository \<Rightarrow>
     ('s \<times> repository) \<times> ('e integrate_error, materialization) result" where
  "materialize_repair observed open' s =
     and_then (with_repo (touch_worktree (og_slot open')) s) (\<lambda>_ s. (s, Inr observed))"

definition dispatch_through ::
  "('s, 'e, 'z) journal_scheme \<Rightarrow> (slot \<Rightarrow> string) \<Rightarrow> materialization \<Rightarrow> dispatch_request \<Rightarrow> 's \<times> repository \<Rightarrow>
     ('s \<times> repository) \<times> ('e integrate_error, dispatched) result" where
  "dispatch_through jn slot_path observed request s =
     (let slot = task_slot (dr_key request) (dr_generation request); source = dispatch_source (dr_kind request);
          open' = \<lparr>og_key = dr_key request, og_generation = dr_generation request, og_base = dr_base request,
                  og_slot = slot, og_source = source\<rparr> in
      and_then (with_repo (touch_worktree slot) s) (\<lambda>_ s.
      and_then (opt_do refuse_absent_source source s) (\<lambda>_ s.
      and_then (with_journal (jn_emit jn (EvTaskDispatched
          \<lparr>td_key = dr_key request, td_generation = dr_generation request, td_base_sha = dr_base request,
           td_worktree_path = slot_path slot, td_lease = dispatch_grant (dr_kind request),
           td_source_candidate = source\<rparr>)) s) (\<lambda>_ s.
      and_then (create_worktree open' s) (\<lambda>_ s.
      and_then
        (if source \<noteq> None then and_then (materialize_repair observed open' s) (\<lambda>m s. (s, Inr (Some m)))
         else (s, Inr None)) (\<lambda>materialized s.
      (s, Inr \<lparr>ds_key = dr_key request, ds_generation = dr_generation request, ds_base = dr_base request,
               ds_slot = slot, ds_kind = dr_kind request, ds_materialized = materialized\<rparr>)))))))"

subsection \<open>Reusing a worktree\<close>

datatype verify_failure =
    WtNotRegistered | WtUnpopulated | WtForeignRepository | WtMissing | WtHeadMismatch | WtTreeMismatch | WtResidue

definition may_follow_a_deletion :: "verify_failure \<Rightarrow> bool" where
  "may_follow_a_deletion failure \<longleftrightarrow> failure \<in> {WtNotRegistered, WtMissing, WtTreeMismatch}"

datatype reuse = ReuseVerified | ReuseRecreated verify_failure

definition scrub :: "slot \<Rightarrow> 's \<times> repository \<Rightarrow> ('s \<times> repository) \<times> ('e integrate_error, unit) result" where
  "scrub slot s = remove_slot slot s"

definition verify_or_recreate ::
  "(slot \<Rightarrow> verify_failure option) \<Rightarrow> (slot \<Rightarrow> bool) \<Rightarrow> open_generation_slot \<Rightarrow> 's \<times> repository \<Rightarrow>
     ('s \<times> repository) \<times> ('e integrate_error, reuse) result" where
  "verify_or_recreate verified kept open' s =
     (let slot = og_slot open' in
      and_then (with_repo (touch_worktree slot) s) (\<lambda>_ s.
      case verified slot of
        None \<Rightarrow> (s, Inr ReuseVerified)
      | Some failure \<Rightarrow>
          and_then (if may_follow_a_deletion failure then refuse_kept_slot kept slot s else (s, Inr ())) (\<lambda>_ s.
          and_then (scrub slot s) (\<lambda>_ s.
          and_then (create_worktree open' s) (\<lambda>_ s. (s, Inr (ReuseRecreated failure)))))))"

fun last_dispatch :: "topology_event list \<Rightarrow> task_key \<Rightarrow> generation_id \<Rightarrow> candidate_ref option option" where
  "last_dispatch [] key generation = None"
| "last_dispatch (e # es) key generation =
     (case last_dispatch es key generation of
        Some source \<Rightarrow> Some source
      | None \<Rightarrow>
          (case ev_body e of
             EvTaskDispatched d \<Rightarrow>
               if td_key d = key \<and> td_generation d = generation then Some (td_source_candidate d) else None
           | _ \<Rightarrow> None))"

definition dispatched_source ::
  "topology_event list \<Rightarrow> task_key \<Rightarrow> generation_id \<Rightarrow> (integrate_refusal, candidate_ref) result" where
  "dispatched_source events key generation =
     (case last_dispatch events key generation of
        Some (Some source) \<Rightarrow> Inr source
      | _ \<Rightarrow> Inl (NoDispatchRecord key generation))"

end
