(* ===== verification/Closure.thy ===== *)
theory Closure
  imports Dispatch
begin

section \<open>Ending a run: closure.rs, finalize.rs and close\_run of run.rs in src/engine/topology\<close>

text \<open>
  Before a run is recorded as finished everything open is settled: attempts and verifications the
  coordinator cancelled are interrupted, candidates being promoted are completed, an authorized
  publication is completed, and the remaining generations are closed. Then the outcome is derived
  again, the end recorded and the residue removed. The report is written by a call whose content
  is not modelled.
\<close>

subsection \<open>What is open\<close>

definition closure_keys :: "topology_fold \<Rightarrow> task_key list" where
  "closure_keys fold' =
     map of_nat [0..<min (case fold_registry fold' of None \<Rightarrow> 0 | Some registry \<Rightarrow> registry_len registry) (2 ^ 32 - 1)]"

datatype in_flight_item =
    FlightAttempt task_key generation_id attempt_number lease_disposition
  | FlightVerification sequence_id task_key "(git_ref \<times> commit_sha) option" bool

definition flight_describe :: "in_flight_item \<Rightarrow> string" where
  "flight_describe item =
     (case item of
        FlightAttempt key generation attempt _ \<Rightarrow>
          ''task k'' @ show_nat (unat key) @ '' generation '' @ show_nat (unat generation) @
          '' is in flight (attempt '' @ show_nat (unat attempt) @ '')''
      | FlightVerification sequence key _ _ \<Rightarrow>
          ''integration sequence '' @ show_nat (unat sequence) @ '' of task k'' @ show_nat (unat key) @
          '' is unresolved'')"

definition halted_attempt_detail :: string where
  "halted_attempt_detail = ''the run halted while this attempt was in flight: the coordinator cancelled its pipeline and the Runner terminated its processes before this was appended; the spend is unknown''"

definition ended_verification_detail :: "bool \<Rightarrow> string" where
  "ended_verification_detail cancelled =
     (if cancelled
      then ''a decline, or a lineage member's failed settlement, failed this verification's lineage and cancelled it: its pipeline had ended, stopped by the coordinator or with a result the cancellation discards, and the Runner had established the end of each of its processes before this was appended; nothing was published, and its candidate, whose task failed, is not verified again''
      else ''the run halted while this verification was in flight: its pipeline had ended, cancelled by the coordinator or with a result the halt discards unprepared, and the Runner had established the end of each of its processes before this was appended; nothing was published and the candidate stays queued'')"

definition flight_interrupted :: "in_flight_item \<Rightarrow> topology_event_body" where
  "flight_interrupted item =
     (case item of
        FlightAttempt key generation attempt lease \<Rightarrow>
          EvAttemptInterrupted \<lparr>ai_key = key, ai_generation = generation, ai_attempt = attempt, ai_lease = lease,
                                ai_detail = halted_attempt_detail\<rparr>
      | FlightVerification sequence _ _ cancelled \<Rightarrow>
          EvMergeVerificationInterrupted
            \<lparr>vi_sequence = sequence, vi_detail = ended_verification_detail cancelled\<rparr>)"

definition cancelled_by_lineage :: "topology_fold \<Rightarrow> sequence_id \<Rightarrow> bool" where
  "cancelled_by_lineage fold' sequence =
     (case fold_transaction fold' of
        None \<Rightarrow> False
      | Some open' \<Rightarrow>
          tx_sequence open' = sequence \<and> is_verifying (tx_class open') \<and>
          map_option tf_state (fold_task fold' (cr_key (tx_candidate open'))) = Some Failed)"

definition flying_attempts :: "topology_fold \<Rightarrow> in_flight_item list" where
  "flying_attempts fold' =
     concat (map (\<lambda>key.
       case fold_task fold' key of
         None \<Rightarrow> []
       | Some task \<Rightarrow>
           List.map_filter (\<lambda>g.
             case gf_class g of
               InFlight attempt \<Rightarrow> Some (FlightAttempt key (gf_id g) attempt (expected_disposition (gf_lease g) False))
             | _ \<Rightarrow> None) (tf_generations task)) (closure_keys fold'))"

definition flying_verification :: "topology_fold \<Rightarrow> in_flight_item list" where
  "flying_verification fold' =
     (case fold_transaction fold' of
        None \<Rightarrow> []
      | Some tx \<Rightarrow>
          (case tx_class tx of
             VerificationStarted basis _ proposed \<Rightarrow>
               [FlightVerification (tx_sequence tx) (cr_key (tx_candidate tx))
                  (case basis of BasisStaleClean pin \<Rightarrow> Some (pin, proposed) | BasisAlreadyPresent \<Rightarrow> None)
                  (cancelled_by_lineage fold' (tx_sequence tx))]
           | _ \<Rightarrow> []))"

definition all_in_flight :: "topology_fold \<Rightarrow> in_flight_item list" where
  "all_in_flight fold' = flying_attempts fold' @ flying_verification fold'"

definition has_generation :: "(generation_class \<Rightarrow> bool) \<Rightarrow> topology_fold \<Rightarrow> task_key \<Rightarrow> bool" where
  "has_generation p fold' key =
     (case fold_task fold' key of None \<Rightarrow> False | Some task \<Rightarrow> list_ex (\<lambda>g. p (gf_class g)) (tf_generations task))"

definition promoting_keys :: "topology_fold \<Rightarrow> task_key list" where
  "promoting_keys fold' = filter (has_generation (\<lambda>c. c = Promoting) fold') (closure_keys fold')"

definition closable :: "topology_fold \<Rightarrow> task_key list" where
  "closable fold' =
     filter (has_generation (\<lambda>c. c = OpenNoAttempt \<or> is_retained_idle c) fold') (closure_keys fold')"

definition generation_blocker :: "task_key \<Rightarrow> generation_fold \<Rightarrow> string option" where
  "generation_blocker key g =
     (let at = ''task k'' @ show_nat (unat key) @ '' generation '' @ show_nat (unat (gf_id g)) in
      case gf_class g of
        OpenNoAttempt \<Rightarrow> Some (at @ '' is open with no attempt'')
      | RetainedIdle _ epoch \<Rightarrow> Some (at @ '' is retained idle from epoch '' @ show_nat (unat epoch))
      | Promoting \<Rightarrow> Some (at @ '' is promoting'')
      | _ \<Rightarrow> None)"

definition task_blockers :: "topology_fold \<Rightarrow> task_key \<Rightarrow> string list" where
  "task_blockers fold' key =
     (case fold_task fold' key of
        None \<Rightarrow> []
      | Some task \<Rightarrow>
          List.map_filter (generation_blocker key) (tf_generations task) @
          (if tf_state task = Deferred
           then [''task k'' @ show_nat (unat key) @ '' is deferred (backoff pending)''] else []))"

definition blockers :: "externals \<Rightarrow> topology_fold \<Rightarrow> string list" where
  "blockers x fold' =
     (let found =
        map flight_describe (all_in_flight fold') @
        concat (map (task_blockers fold') (closure_keys fold')) @
        (case fold_transaction fold' of
           None \<Rightarrow> []
         | Some tx \<Rightarrow>
             if is_verifying (tx_class tx) then []
             else [''integration sequence '' @ show_nat (unat (tx_sequence tx)) @ '' of task k'' @
                   show_nat (unat (cr_key (tx_candidate tx))) @ '' is prepared and not yet published'']) @
        (case fo_run fold' of
           None \<Rightarrow> []
         | Some run \<Rightarrow>
             map (\<lambda>e. ''candidate k'' @ show_nat (unat (cr_key (qe_candidate e))) @ '' g'' @
                     show_nat (unat (cr_generation (qe_candidate e))) @ '' is verification-deferred (backoff pending)'')
               (filter qe_verification_deferred (st_queue run)) @
             (if structurally_admissible x run then [''structurally admissible work exists''] else [])) in
      if found = [] then [''of a state this module cannot name''] else found)"

subsection \<open>Deciding and recording the end\<close>

definition ending_outcome :: "externals \<Rightarrow> topology_fold \<Rightarrow> (closure_refusal, run_outcome) result" where
  "ending_outcome x fold' =
     (case fo_run fold' of
        None \<Rightarrow> Inl ClosureNotStarted
      | Some run \<Rightarrow>
          if st_halted_at run \<noteq> None then Inr OutHalted
          else if st_budget_stop run \<noteq> None then Inr OutBudgetExceeded
          else
            (case fold_derived_outcome x fold' of
               Ending outcome \<Rightarrow> Inr outcome
             | NotEnding \<Rightarrow> Inl (ClosureNotEnding (blockers x fold'))
             | OutcomeFoldError \<Rightarrow> Inl ClosureNoOutcome))"

record cancelled =
  ca_attempts :: "(task_key \<times> generation_id \<times> attempt_number) list"
  ca_sequences :: "sequence_id list"

definition cancelled_none :: cancelled where
  "cancelled_none = \<lparr>ca_attempts = [], ca_sequences = []\<rparr>"

definition vouches :: "cancelled \<Rightarrow> in_flight_item \<Rightarrow> bool" where
  "vouches c item =
     (case item of
        FlightAttempt key generation attempt _ \<Rightarrow> List.member (ca_attempts c) (key, generation, attempt)
      | FlightVerification sequence _ _ _ \<Rightarrow> List.member (ca_sequences c) sequence)"

definition settleable ::
  "topology_fold \<Rightarrow> run_outcome \<Rightarrow> cancelled \<Rightarrow> (closure_refusal, in_flight_item list) result" where
  "settleable fold' outcome c =
     (let found = all_in_flight fold'; unvouched = map flight_describe (filter (\<lambda>item. \<not> vouches c item) found) in
      if unvouched \<noteq> [] then Inl (ClosureUnvouched unvouched)
      else if found \<noteq> [] \<and> outcome \<noteq> OutHalted then Inl (ClosureNotHalted outcome (map flight_describe found))
      else Inr found)"

definition confirm_derived :: "externals \<Rightarrow> topology_fold \<Rightarrow> run_outcome \<Rightarrow> (closure_refusal, unit) result" where
  "confirm_derived x fold' outcome =
     (case fold_derived_outcome x fold' of
        Ending derived \<Rightarrow> if derived = outcome then Inr () else Inl (ClosureOtherOutcome outcome derived)
      | NotEnding \<Rightarrow> Inl (ClosureStillOpen (blockers x fold'))
      | OutcomeFoldError \<Rightarrow> Inl ClosureUnderived)"

fun merged_and_parked_from :: "topology_fold \<Rightarrow> task_entry list \<Rightarrow> u32 \<times> u32 \<Rightarrow> u32 \<times> u32" where
  "merged_and_parked_from fold' [] counts = counts"
| "merged_and_parked_from fold' (entry # entries) (merged, parked) =
     merged_and_parked_from fold' entries
       (case map_option tf_state (fold_task fold' (te_key entry)) of
          Some Merged \<Rightarrow> (sat_add merged 1, parked)
        | Some AwaitingInput \<Rightarrow> (merged, sat_add parked 1)
        | _ \<Rightarrow> (merged, parked))"

definition merged_and_parked :: "topology_fold \<Rightarrow> u32 \<times> u32" where
  "merged_and_parked fold' =
     (case fold_registry fold' of None \<Rightarrow> (0, 0) | Some registry \<Rightarrow> merged_and_parked_from fold' (rg_entries registry) (0, 0))"

definition run_finished :: "topology_fold \<Rightarrow> run_outcome \<Rightarrow> run_finished4" where
  "run_finished fold' outcome =
     (let (merged, parked) = merged_and_parked fold' in
      \<lparr>f4_outcome = outcome, f4_halted_at = Option.bind (fo_run fold') st_halted_at, f4_merged = merged, f4_parked = parked\<rparr>)"

subsection \<open>Removing the residue\<close>

definition refs_under :: "string \<Rightarrow> repository \<Rightarrow> repository \<times> (repo_error, (git_ref \<times> commit_sha) list) result" where
  "refs_under root' =
     read_repo (\<lambda>r. List.map_filter (\<lambda>name. if prefix root' name then map_option (Pair name) (rp_refs r name) else None)
       (rp_known r))"

definition delete_refs_under ::
  "string \<Rightarrow> 's \<times> repository \<Rightarrow> ('s \<times> repository) \<times> ('e integrate_error, nat) result" where
  "delete_refs_under root' s =
     and_then (with_repo (refs_under root') s) (\<lambda>refs s.
     and_then (each_do (\<lambda>(name, oid). with_repo (delete_ref_expected_old name oid)) refs s) (\<lambda>_ s.
     (s, Inr (length refs))))"

definition scrub_slots ::
  "(slot \<Rightarrow> bool) \<Rightarrow> 's \<times> repository \<Rightarrow> ('s \<times> repository) \<times> ('e integrate_error, nat) result" where
  "scrub_slots keep s =
     and_then (with_repo list_intents s) (\<lambda>slots s.
     and_then (each_do remove_slot (filter keep slots) s) (\<lambda>_ s. (s, Inr (length (filter keep slots)))))"

datatype cleanup_step =
    CleanTaskWorktrees | CleanSnapshots | CleanStaging | CleanPins | CleanCandidatesRefs | CleanExecutionRoot

definition cleanup_order :: "cleanup_step list" where
  "cleanup_order =
     [CleanTaskWorktrees, CleanSnapshots, CleanStaging, CleanPins, CleanCandidatesRefs, CleanExecutionRoot]"

definition applies_to :: "run_outcome \<Rightarrow> cleanup_step \<Rightarrow> bool" where
  "applies_to outcome step =
     (case step of
        CleanTaskWorktrees \<Rightarrow> outcome \<in> {OutComplete, OutHalted}
      | CleanCandidatesRefs \<Rightarrow> outcome = OutComplete
      | _ \<Rightarrow> True)"

definition is_task_slot :: "slot \<Rightarrow> bool" where
  "is_task_slot slot = (case slot of SlotTask _ _ \<Rightarrow> True | _ \<Rightarrow> False)"

definition is_staging :: "slot \<Rightarrow> bool" where
  "is_staging slot = (case slot of SlotStaging _ \<Rightarrow> True | _ \<Rightarrow> False)"

definition remove_execution_root :: "'s \<times> repository \<Rightarrow> ('s \<times> repository) \<times> ('e integrate_error, nat) result" where
  "remove_execution_root s = with_repo (\<lambda>r. and_then (repo_call (\<lambda>r. r) r) (\<lambda>_ r. (r, Inr 1))) s"

definition cleanup ::
  "string \<Rightarrow> cleanup_step \<Rightarrow> 's \<times> repository \<Rightarrow> ('s \<times> repository) \<times> ('e integrate_error, nat) result" where
  "cleanup run_id step s =
     (let namespace = run_namespace run_id in
      case step of
        CleanTaskWorktrees \<Rightarrow> scrub_slots is_task_slot s
      | CleanSnapshots \<Rightarrow> scrub_slots is_snapshot s
      | CleanStaging \<Rightarrow> scrub_slots is_staging s
      | CleanPins \<Rightarrow>
          and_then (delete_refs_under (namespace @ ''prepared/'') s) (\<lambda>prepared s.
          and_then (delete_refs_under (namespace @ ''candidate-prepared/'') s) (\<lambda>pins s.
          (s, Inr (prepared + pins))))
      | CleanCandidatesRefs \<Rightarrow> delete_refs_under (namespace @ ''candidates/'') s
      | CleanExecutionRoot \<Rightarrow> remove_execution_root s)"

fun cleanup_each ::
  "string \<Rightarrow> cleanup_step list \<Rightarrow> 's \<times> repository \<Rightarrow>
     ('s \<times> repository) \<times> ('e integrate_error, (cleanup_step \<times> nat) list) result" where
  "cleanup_each run_id [] s = (s, Inr [])"
| "cleanup_each run_id (step # steps) s =
     and_then (cleanup run_id step s) (\<lambda>count s.
     and_then (cleanup_each run_id steps s) (\<lambda>removed s. (s, Inr ((step, count) # removed))))"

definition write_report :: "repository \<Rightarrow> repository \<times> (repo_error, unit) result" where
  "write_report = repo_call (\<lambda>r. r)"

definition finalize ::
  "string \<Rightarrow> topology_fold \<Rightarrow> 's \<times> repository \<Rightarrow>
     ('s \<times> repository) \<times> ('e integrate_error, run_outcome \<times> (cleanup_step \<times> nat) list) result" where
  "finalize run_id fold' s =
     (case fold_finished fold' of
        None \<Rightarrow> (s, Inl (IntRefusal IntegrateNotStarted))
      | Some outcome \<Rightarrow>
          and_then (with_repo write_report s) (\<lambda>_ s.
          and_then (cleanup_each run_id (filter (applies_to outcome) cleanup_order) s) (\<lambda>removed s.
          (s, Inr (outcome, removed)))))"

subsection \<open>Closing the run\<close>

datatype judge_names = NamesAttempt u32 u32 u32 | NamesIntegration nat

definition judge_stem :: "judge_names \<Rightarrow> string" where
  "judge_stem names =
     (case names of
        NamesAttempt key generation attempt \<Rightarrow>
          ''k'' @ show_nat (unat key) @ ''-g'' @ show_nat (unat generation) @ ''-a'' @ show_nat (unat attempt)
      | NamesIntegration sequence \<Rightarrow> ''s'' @ show_nat sequence)"

definition gates_name :: "judge_names \<Rightarrow> string" where
  "gates_name names =
     judge_stem names @ (case names of NamesAttempt _ _ _ \<Rightarrow> ''-gates'' | NamesIntegration _ \<Rightarrow> ''-integration'')"

definition owns_name :: "judge_names \<Rightarrow> string \<Rightarrow> bool" where
  "owns_name names name \<longleftrightarrow>
     name = gates_name names \<or>
     (let stem = judge_stem names @ ''-review''; pass = drop (length stem) name in
      prefix stem name \<and> pass \<noteq> [] \<and> list_all is_digit pass)"

definition reclaim_snapshots_of ::
  "judge_names \<Rightarrow> 's \<times> repository \<Rightarrow> ('s \<times> repository) \<times> ('e integrate_error, unit) result" where
  "reclaim_snapshots_of names s =
     and_then (with_repo list_intents s) (\<lambda>slots s.
     each_do remove_slot
       (filter (\<lambda>slot. case slot of SlotSnapshot name \<Rightarrow> owns_name names name | _ \<Rightarrow> False) slots) s)"

definition forget_retained :: "task_key \<Rightarrow> topology_run \<times> nat \<Rightarrow> topology_run \<times> nat" where
  "forget_retained key j = apfst (\<lambda>run. run\<lparr>tr_retained := bt_remove key (tr_retained run)\<rparr>) j"

definition reclaim_interrupted ::
  "in_flight_item \<Rightarrow> (topology_run \<times> nat) \<times> repository \<Rightarrow>
     ((topology_run \<times> nat) \<times> repository) \<times> ('e integrate_error, unit) result" where
  "reclaim_interrupted item s =
     (case item of
        FlightAttempt key generation attempt _ \<Rightarrow>
          and_then (reclaim_snapshots_of (NamesAttempt key generation attempt) (forget_retained key (fst s), snd s)) (\<lambda>_ s.
          scrub (task_slot key generation) s)
      | FlightVerification sequence _ pin _ \<Rightarrow>
          and_then (opt_do (\<lambda>(pin, proposed). prune_pin pin proposed) pin s) (\<lambda>_ s.
          and_then (remove_slot (staging_slot sequence) s) (\<lambda>_ s.
          reclaim_snapshots_of (NamesIntegration (unat sequence)) s)))"

definition interrupt_each ::
  "(topology_run \<times> nat, 'e, 'z) journal_scheme \<Rightarrow> in_flight_item list \<Rightarrow> (topology_run \<times> nat) \<times> repository \<Rightarrow>
     ((topology_run \<times> nat) \<times> repository) \<times> ('e integrate_error, unit) result" where
  "interrupt_each jn items s =
     each_do (\<lambda>item s. and_then (with_journal (jn_emit jn (flight_interrupted item)) s) (\<lambda>_ s.
       reclaim_interrupted item s)) items s"

definition settle_cancelled_verification ::
  "(topology_run \<times> nat, 'e, 'z) journal_scheme \<Rightarrow> sequence_id \<Rightarrow> (topology_run \<times> nat) \<times> repository \<Rightarrow>
     ((topology_run \<times> nat) \<times> repository) \<times> ('e integrate_error, unit) result" where
  "settle_cancelled_verification jn sequence s =
     (case find (\<lambda>item. case item of
                 FlightVerification held _ _ cancelled \<Rightarrow> cancelled \<and> held = sequence | _ \<Rightarrow> False)
             (all_in_flight (jn_fold jn (fst s))) of
        None \<Rightarrow> (s, Inl (IntClosure (NoCancelledVerification sequence)))
      | Some item \<Rightarrow> interrupt_each jn [item] s)"

definition complete_promotions ::
  "('s, 'e, 'z) journal_scheme \<Rightarrow> string \<Rightarrow> 's \<times> repository \<Rightarrow> ('s \<times> repository) \<times> ('e integrate_error, unit) result" where
  "complete_promotions jn run_id s =
     each_do (\<lambda>key s.
       and_then (owed_for run_id (jn_fold jn (fst s)) key s) (\<lambda>owed s.
       opt_do (\<lambda>promoting s.
         and_then (complete_promotion jn (task_slot key (cr_generation (pm_candidate promoting))) promoting s) (\<lambda>_ s.
         (s, Inr ()))) (cy_promotion owed) s))
       (promoting_keys (jn_fold jn (fst s))) s"

definition complete_publication ::
  "('s, 'e, 'z) journal_scheme \<Rightarrow> 's \<times> repository \<Rightarrow> ('s \<times> repository) \<times> ('e integrate_error, unit) result" where
  "complete_publication jn s =
     (case authorized_from_fold (jn_fold jn (fst s)) of
        None \<Rightarrow> (s, Inr ())
      | Some a \<Rightarrow> and_then (publish jn a s) (\<lambda>_ s. (s, Inr ())))"

definition close_each ::
  "(topology_run \<times> nat, 'e, 'z) journal_scheme \<Rightarrow> generation_close_reason \<Rightarrow> task_key list \<Rightarrow>
     (topology_run \<times> nat) \<times> repository \<Rightarrow> ((topology_run \<times> nat) \<times> repository) \<times> ('e integrate_error, unit) result" where
  "close_each jn reason keys s =
     each_do (\<lambda>key s.
       case settle_close (jn_fold jn (fst s)) key reason of
         Inl e \<Rightarrow> (s, Inl (IntSettle e))
       | Inr event \<Rightarrow>
           and_then (with_journal (jn_emit jn (EvGenerationClosed event)) s) (\<lambda>_ s.
           scrub (task_slot key (gc_generation event)) (forget_retained key (fst s), snd s))) keys s"

definition cancel_reservations :: "topology_run \<times> nat \<Rightarrow> topology_run \<times> nat" where
  "cancel_reservations j =
     apfst (\<lambda>run. run\<lparr>tr_emit := (tr_emit run)\<lparr>em_reservations := fst (cancel_any (em_reservations (tr_emit run)))\<rparr>\<rparr>) j"

definition record_end ::
  "externals \<Rightarrow> (topology_run \<times> nat, 'e, 'z) journal_scheme \<Rightarrow> run_outcome \<Rightarrow> (topology_run \<times> nat) \<times> repository \<Rightarrow>
     ((topology_run \<times> nat) \<times> repository) \<times> ('e integrate_error, unit) result" where
  "record_end x jn outcome s =
     (case confirm_derived x (jn_fold jn (fst s)) outcome of
        Inl e \<Rightarrow> (s, Inl (IntClosure e))
      | Inr _ \<Rightarrow> with_journal (jn_emit jn (EvRunFinished (run_finished (jn_fold jn (fst s)) outcome))) s)"

definition close_run ::
  "externals \<Rightarrow> (topology_run \<times> nat, 'e, 'z) journal_scheme \<Rightarrow> run_identity \<Rightarrow> cancelled \<Rightarrow>
     (topology_run \<times> nat) \<times> repository \<Rightarrow>
     ((topology_run \<times> nat) \<times> repository) \<times> ('e integrate_error, run_outcome \<times> nat) result" where
  "close_run x jn identity c s =
     (let fold' = jn_fold jn (fst s) in
      case res_bind (ending_outcome x fold') (\<lambda>outcome.
           res_bind (settleable fold' outcome c) (\<lambda>interrupted. Inr (outcome, interrupted))) of
        Inl e \<Rightarrow> (s, Inl (IntClosure e))
      | Inr (outcome, interrupted) \<Rightarrow>
          and_then (interrupt_each jn interrupted s) (\<lambda>_ s.
          and_then (complete_promotions jn (ri_run_id identity) s) (\<lambda>_ s.
          and_then (complete_publication jn s) (\<lambda>_ s.
          let keys = closable (jn_fold jn (fst s)) in
          and_then (close_each jn (RunEnding outcome) keys s) (\<lambda>_ s.
          and_then (record_end x jn outcome (cancel_reservations (fst s), snd s)) (\<lambda>_ s.
          and_then (finalize (ri_run_id identity) (jn_fold jn (fst s)) s) (\<lambda>_ s.
          (s, Inr (outcome, length keys)))))))))"

end
