(* ===== verification/Recover.thy ===== *)
theory Recover
  imports Closure
begin

section \<open>Recovery: src/engine/topology/recover.rs\<close>

text \<open>
  What a new process does with the log of one that died, once the prefix is proven stable, the
  census is taken and the runner certified: it refuses a run that is over, reclaims pins and
  staging slots of sequences that are over, refuses refs it does not know, checks or creates the
  integration ref, settles every attempt in flight as interrupted, closes the sessions kept for a
  retry, completes an authorized publication or interrupts a verification, completes promotions,
  makes missing worktrees again, and records that the run goes on. What the checks of worktrees
  find are arguments; locks and records are not modelled.
\<close>

subsection \<open>The integration ref\<close>

definition ensure_integration_ref ::
  "git_ref \<Rightarrow> commit_sha \<Rightarrow> 's \<times> repository \<Rightarrow> ('s \<times> repository) \<times> ('e integrate_error, unit) result" where
  "ensure_integration_ref name base s =
     and_then (with_repo (\<lambda>r. (r, refuse_new name base)) s) (\<lambda>_ s.
     and_then (with_repo (assert_publishable name) s) (\<lambda>_ s.
     and_then (with_repo (direct_ref_target name) s) (\<lambda>target s.
     case target of
       None \<Rightarrow> with_repo (create_ref_zero_old name base) s
     | Some at \<Rightarrow>
         if at = base then (s, Inr ()) else (s, Inl (IntRefusal (RefElsewhere name at base))))))"

definition ensure_recorded_integration_ref ::
  "run_started4 \<Rightarrow> topology_event list \<Rightarrow> 's \<times> repository \<Rightarrow> ('s \<times> repository) \<times> ('e integrate_error, unit) result" where
  "ensure_recorded_integration_ref started events s =
     (let name = s4_integration_ref started; authorized = authorized_head_of started events in
      case ah_published_by authorized of
        None \<Rightarrow> ensure_integration_ref name (s4_base_sha started) s
      | Some sequence \<Rightarrow>
          and_then (with_repo (assert_publishable name) s) (\<lambda>_ s.
          and_then (with_repo (direct_ref_target name) s) (\<lambda>target s.
          (s, case target of
                None \<Rightarrow> Inl (IntRefusal (PublishedRefAbsent name sequence (ah_head authorized)))
              | Some at \<Rightarrow>
                  if at = ah_head authorized then Inr ()
                  else Inl (IntRefusal (PublishedRefMoved name sequence at (ah_head authorized)))))))"

subsection \<open>Residue of earlier sequences\<close>

definition pinned_sequences :: "topology_event list \<Rightarrow> (sequence_id \<times> git_ref \<times> commit_sha) list" where
  "pinned_sequences events =
     List.map_filter (\<lambda>e.
       case ev_body e of
         EvMergeVerificationStarted d \<Rightarrow>
           (case vs_basis d of
              BasisStaleClean pin \<Rightarrow> Some (vs_sequence d, pin, vs_proposed_sha d)
            | BasisAlreadyPresent \<Rightarrow> None)
       | _ \<Rightarrow> None) events"

fun reclaim_pins ::
  "sequence_id option \<Rightarrow> (sequence_id \<times> git_ref \<times> commit_sha) list \<Rightarrow> git_ref option \<Rightarrow> 's \<times> repository \<Rightarrow>
     ('s \<times> repository) \<times> ('e integrate_error, git_ref option) result" where
  "reclaim_pins open' [] live_pin s = (s, Inr live_pin)"
| "reclaim_pins open' ((sequence, pin, proposed) # rest) live_pin s =
     (if Some sequence = open' then
        and_then (with_repo (direct_ref_target pin) s) (\<lambda>target s.
        case target of
          Some found \<Rightarrow>
            if found \<noteq> proposed then (s, Inl (IntRefusal (PinSubstituted sequence pin found proposed)))
            else reclaim_pins open' rest (Some pin) s
        | None \<Rightarrow> reclaim_pins open' rest (Some pin) s)
      else
        and_then (prune_pin pin proposed s) (\<lambda>_ s. reclaim_pins open' rest live_pin s))"

definition reclaim_orphan :: "git_ref \<Rightarrow> 's \<times> repository \<Rightarrow> ('s \<times> repository) \<times> ('e integrate_error, unit) result" where
  "reclaim_orphan orphan s =
     and_then (with_repo (direct_ref_target orphan) s) (\<lambda>target s.
     opt_do (\<lambda>found. with_repo (delete_ref_expected_old orphan found)) target s)"

definition reclaim_stale_residue ::
  "topology_fold \<Rightarrow> topology_event list \<Rightarrow> 's \<times> repository \<Rightarrow>
     ('s \<times> repository) \<times> ('e integrate_error, git_ref option) result" where
  "reclaim_stale_residue fold' events s =
     (case fo_run fold' of
        None \<Rightarrow> (s, Inl (IntRefusal IntegrateNotStarted))
      | Some run \<Rightarrow>
          let open' = map_option tx_sequence (st_transaction run); live_staging = map_option staging_slot open' in
          and_then (with_repo list_intents s) (\<lambda>slots s.
          and_then (each_do remove_slot (filter (\<lambda>slot. is_staging slot \<and> Some slot \<noteq> live_staging) slots) s) (\<lambda>_ s.
          and_then (reclaim_pins open' (pinned_sequences events) None s) (\<lambda>live_pin s.
          and_then
            (if open' = None
             then reclaim_orphan (prepared_pin_ref (s4_run_id (st_started run)) (st_next_sequence run)) s
             else (s, Inr ())) (\<lambda>_ s.
          (s, Inr live_pin))))))"

subsection \<open>Settling what was in flight\<close>

definition task_keys :: "topology_fold \<Rightarrow> task_key list" where
  "task_keys fold' =
     (case fold_registry fold' of None \<Rightarrow> [] | Some registry \<Rightarrow> map of_nat [0..<registry_len registry])"

definition interruptions :: "topology_fold \<Rightarrow> string \<Rightarrow> attempt_interrupted4 list" where
  "interruptions fold' detail =
     concat (map (\<lambda>key.
       case fold_task fold' key of
         None \<Rightarrow> []
       | Some task \<Rightarrow>
           List.map_filter (\<lambda>g.
             case gf_class g of
               InFlight attempt \<Rightarrow>
                 Some \<lparr>ai_key = key, ai_generation = gf_id g, ai_attempt = attempt,
                       ai_lease = expected_disposition (gf_lease g) False, ai_detail = detail\<rparr>
             | _ \<Rightarrow> None) (tf_generations task)) (task_keys fold'))"

definition retained_closings :: "topology_fold \<Rightarrow> generation_closed list" where
  "retained_closings fold' =
     concat (map (\<lambda>key.
       case fold_task fold' key of
         None \<Rightarrow> []
       | Some task \<Rightarrow>
           List.map_filter (\<lambda>g.
             case gf_class g of
               RetainedIdle _ _ \<Rightarrow>
                 Some \<lparr>gc_key = key, gc_generation = gf_id g, gc_reason = ResumeDiscardsRetainedSession,
                       gc_lease = expected_disposition (gf_lease g) False\<rparr>
             | _ \<Rightarrow> None) (tf_generations task)) (task_keys fold'))"

definition lost_attempt_detail :: string where
  "lost_attempt_detail = ''the coordinator that started this attempt did not survive it; recovery step (d) settles every in-flight identity interrupted before any resume''"

definition lost_verification_detail :: "bool \<Rightarrow> string" where
  "lost_verification_detail cancelled =
     (if cancelled
      then ''a decline, or a lineage member's failed settlement, failed this verification's lineage and cancelled it, and the coordinator that started it did not survive it; recovery step (f) settles it interrupted, and its candidate, whose task failed, is not verified again''
      else ''the coordinator that started this verification did not survive it; recovery step (f) settles it interrupted and the candidate re-verifies under a new sequence'')"

definition emit_each ::
  "('s, 'e, 'z) journal_scheme \<Rightarrow> topology_event_body list \<Rightarrow> 's \<times> repository \<Rightarrow>
     ('s \<times> repository) \<times> ('e integrate_error, unit) result" where
  "emit_each jn bodies s = each_do (\<lambda>body. with_journal (jn_emit jn body)) bodies s"

definition settle_interrupted ::
  "('s, 'e, 'z) journal_scheme \<Rightarrow> 's \<times> repository \<Rightarrow> ('s \<times> repository) \<times> ('e integrate_error, nat) result" where
  "settle_interrupted jn s =
     (let found = interruptions (jn_fold jn (fst s)) lost_attempt_detail in
      and_then (emit_each jn (map EvAttemptInterrupted found) s) (\<lambda>_ s. (s, Inr (length found))))"

definition close_retained_idle ::
  "('s, 'e, 'z) journal_scheme \<Rightarrow> 's \<times> repository \<Rightarrow> ('s \<times> repository) \<times> ('e integrate_error, nat) result" where
  "close_retained_idle jn s =
     (let found = retained_closings (jn_fold jn (fst s)) in
      and_then (emit_each jn (map EvGenerationClosed found) s) (\<lambda>_ s. (s, Inr (length found))))"

definition verification_interruption :: "topology_fold \<Rightarrow> transaction \<Rightarrow> merge_verification_interrupted" where
  "verification_interruption fold' tx =
     \<lparr>vi_sequence = tx_sequence tx,
      vi_detail = lost_verification_detail
        (map_option tf_state (fold_task fold' (cr_key (tx_candidate tx))) = Some Failed)\<rparr>"

definition interrupt_verification ::
  "('s, 'e, 'z) journal_scheme \<Rightarrow> transaction \<Rightarrow> verification_basis \<Rightarrow> commit_sha \<Rightarrow> 's \<times> repository \<Rightarrow>
     ('s \<times> repository) \<times> ('e integrate_error, unit) result" where
  "interrupt_verification jn tx basis proposed s =
     and_then (with_journal (jn_emit jn (EvMergeVerificationInterrupted
         (verification_interruption (jn_fold jn (fst s)) tx))) s) (\<lambda>_ s.
     and_then (case basis of
         BasisStaleClean pin \<Rightarrow> prune_pin pin proposed s
       | BasisAlreadyPresent \<Rightarrow> (s, Inr ())) (\<lambda>_ s.
     remove_slot (staging_slot (tx_sequence tx)) s))"

definition finish_integration ::
  "('s, 'e, 'z) journal_scheme \<Rightarrow> 's \<times> repository \<Rightarrow> ('s \<times> repository) \<times> ('e integrate_error, unit) result" where
  "finish_integration jn s =
     (let fold' = jn_fold jn (fst s) in
      and_then
        (case Option.bind (fo_run fold') st_transaction of
           None \<Rightarrow> (s, Inr ())
         | Some tx \<Rightarrow>
             (case tx_class tx of
                Prepared _ _ _ _ _ \<Rightarrow>
                  (case authorized_from_fold fold' of
                     None \<Rightarrow> (s, Inl (IntRefusal IntegrateNotStarted))
                   | Some a \<Rightarrow> and_then (publish jn a s) (\<lambda>_ s. (s, Inr ())))
              | VerificationStarted basis _ proposed \<Rightarrow> interrupt_verification jn tx basis proposed s)) (\<lambda>_ s.
      reclaim_snapshots s))"

definition publication_pending :: "topology_fold \<Rightarrow> bool" where
  "publication_pending fold' =
     (case Option.bind (fo_run fold') st_transaction of
        Some tx \<Rightarrow> \<not> is_verifying (tx_class tx) | None \<Rightarrow> False)"

subsection \<open>Promotions, closed generations and worktrees\<close>

definition finalize_if_finished ::
  "topology_fold \<Rightarrow> 's \<times> repository \<Rightarrow> ('s \<times> repository) \<times> ('e integrate_error, unit) result" where
  "finalize_if_finished fold' s =
     (case (fold_finished fold', fold_started fold') of
        (Some outcome, Some started) \<Rightarrow>
          if outcome \<in> {OutComplete, OutHalted} then
            and_then (finalize (s4_run_id started) fold' s) (\<lambda>_ s. (s, Inl (IntRefusal (RunOver outcome))))
          else (s, Inr ())
      | _ \<Rightarrow> (s, Inr ()))"

definition refuse_unexpected_refs ::
  "string \<Rightarrow> git_ref list \<Rightarrow> 's \<times> repository \<Rightarrow> ('s \<times> repository) \<times> ('e integrate_error, unit) result" where
  "refuse_unexpected_refs namespace expected s =
     and_then (with_repo (refs_under namespace) s) (\<lambda>refs s.
     (s, case find (\<lambda>(name, _). \<not> List.member expected name) refs of
           None \<Rightarrow> Inr ()
         | Some (name, _) \<Rightarrow> Inl (IntRefusal (UnexpectedRef namespace name))))"

definition closed_slots :: "topology_fold \<Rightarrow> slot list" where
  "closed_slots fold' =
     concat (map (\<lambda>key.
       case fold_task fold' key of
         None \<Rightarrow> []
       | Some task \<Rightarrow> map (\<lambda>g. task_slot key (gf_id g)) (filter (\<lambda>g. gf_class g = Closed) (tf_generations task)))
       (task_keys fold'))"

definition reclaim_closed_generations ::
  "(slot \<Rightarrow> bool) \<Rightarrow> topology_fold \<Rightarrow> 's \<times> repository \<Rightarrow> ('s \<times> repository) \<times> ('e integrate_error, unit) result" where
  "reclaim_closed_generations kept fold' s =
     and_then (with_repo list_intents s) (\<lambda>intents s.
     each_do (\<lambda>slot s. and_then (refuse_kept_slot kept slot s) (\<lambda>_ s. scrub slot s))
       (filter (List.member intents) (closed_slots fold')) s)"

fun recoveries_for ::
  "(slot \<Rightarrow> bool) \<Rightarrow> string \<Rightarrow> topology_fold \<Rightarrow> task_key list \<Rightarrow> 's \<times> repository \<Rightarrow>
     ('s \<times> repository) \<times> ('e integrate_error, candidate_recovery list) result" where
  "recoveries_for kept run_id fold' [] s = (s, Inr [])"
| "recoveries_for kept run_id fold' (key # keys) s =
     and_then (recovery_for kept run_id fold' key s) (\<lambda>owed s.
     and_then (recoveries_for kept run_id fold' keys s) (\<lambda>rest s. (s, Inr (owed # rest))))"

definition finish_promotions ::
  "('s, 'e, 'z) journal_scheme \<Rightarrow> (slot \<Rightarrow> bool) \<Rightarrow> 's \<times> repository \<Rightarrow>
     ('s \<times> repository) \<times> ('e integrate_error, task_key list) result" where
  "finish_promotions jn kept s =
     (let fold' = jn_fold jn (fst s) in
      case fold_started fold' of
        None \<Rightarrow> (s, Inl (IntRefusal IntegrateNotStarted))
      | Some started \<Rightarrow>
          and_then (recoveries_for kept (s4_run_id started) fold' (task_keys fold') s) (\<lambda>owed s.
          let unfinished = List.map_filter cy_promotion owed in
          and_then (each_do prune_orphan_pin (List.map_filter cy_orphan_pin owed) s) (\<lambda>_ s.
          and_then
            (each_do (\<lambda>p s.
               and_then (complete_promotion jn (task_slot (cr_key (pm_candidate p)) (cr_generation (pm_candidate p))) p s)
                 (\<lambda>_ s. (s, Inr ()))) unfinished s) (\<lambda>_ s.
          (s, Inr (map (\<lambda>p. cr_key (pm_candidate p)) unfinished))))))"

fun open_no_attempt_of ::
  "topology_fold \<Rightarrow> topology_event list \<Rightarrow> task_key list \<Rightarrow> (integrate_refusal, open_generation_slot list) result" where
  "open_no_attempt_of fold' events [] = Inr []"
| "open_no_attempt_of fold' events (key # keys) =
     (case Option.bind (fold_task fold' key) tf_open of
        Some g \<Rightarrow>
          if gf_class g = OpenNoAttempt then
            res_bind
              (case gf_lease g of
                 OwnLease \<Rightarrow> Inr None
               | InheritedLineage _ \<Rightarrow> res_bind (dispatched_source events key (gf_id g)) (\<lambda>source. Inr (Some source)))
              (\<lambda>source.
            res_bind (open_no_attempt_of fold' events keys) (\<lambda>rest.
            Inr (\<lparr>og_key = key, og_generation = gf_id g, og_base = gf_base_sha g,
                  og_slot = task_slot key (gf_id g), og_source = source\<rparr> # rest)))
          else open_no_attempt_of fold' events keys
      | None \<Rightarrow> open_no_attempt_of fold' events keys)"

definition recreate_open_no_attempt ::
  "(slot \<Rightarrow> verify_failure option) \<Rightarrow> (slot \<Rightarrow> bool) \<Rightarrow> topology_fold \<Rightarrow> topology_event list \<Rightarrow> 's \<times> repository \<Rightarrow>
     ('s \<times> repository) \<times> ('e integrate_error, unit) result" where
  "recreate_open_no_attempt verified kept fold' events s =
     (case open_no_attempt_of fold' events (task_keys fold') of
        Inl e \<Rightarrow> (s, Inl (IntRefusal e))
      | Inr found \<Rightarrow>
          each_do (\<lambda>open' s. and_then (verify_or_recreate verified kept open' s) (\<lambda>_ s. (s, Inr ()))) found s)"

subsection \<open>The order of recovery\<close>

text \<open>The events are those of the log; the rebuilt runner and the agents found are arguments.\<close>

record recovery_seams =
  se_incarnation :: incarnation_id
  se_runner :: runner_policy
  se_probed_agents :: "string list"
  se_version :: string
  se_kept :: "slot \<Rightarrow> bool"
  se_verified :: "slot \<Rightarrow> verify_failure option"

definition resumption :: "recovery_seams \<Rightarrow> run_resumed4" where
  "resumption seams =
     \<lparr>r4_incarnation = se_incarnation seams, r4_runner = se_runner seams, r4_probed_agents = se_probed_agents seams,
      r4_upstroke_version = se_version seams\<rparr>"

definition recover_effects ::
  "topology_fold \<Rightarrow> topology_event list \<Rightarrow> run_started4 \<Rightarrow> 's \<times> repository \<Rightarrow> ('s \<times> repository) \<times> ('e integrate_error, unit) result" where
  "recover_effects fold' events started s =
     and_then (finalize_if_finished fold' s) (\<lambda>_ s.
     and_then (with_repo (repo_call (\<lambda>r. r)) s) (\<lambda>_ s.
     and_then (reclaim_stale_residue fold' events s) (\<lambda>live_pin s.
     and_then (refuse_unexpected_refs (run_namespace (s4_run_id started))
         (expected_refs (s4_run_id started) fold' @ [s4_integration_ref started] @
            (case live_pin of None \<Rightarrow> [] | Some pin \<Rightarrow> [pin])) s) (\<lambda>_ s.
     if publication_pending fold' then (s, Inr ()) else ensure_recorded_integration_ref started events s))))"

definition recover_run ::
  "('s, 'e, 'z) journal_scheme \<Rightarrow> ('s \<Rightarrow> topology_event list) \<Rightarrow> recovery_seams \<Rightarrow> 's \<times> repository \<Rightarrow>
     ('s \<times> repository) \<times> ('e integrate_error, nat \<times> nat \<times> task_key list) result" where
  "recover_run jn events seams s =
     (case fold_started (jn_fold jn (fst s)) of
        None \<Rightarrow> (s, Inl (IntRefusal IntegrateNotStarted))
      | Some started \<Rightarrow>
          and_then (recover_effects (jn_fold jn (fst s)) (events (fst s)) started s) (\<lambda>_ s.
          and_then (settle_interrupted jn s) (\<lambda>interrupted s.
          and_then (close_retained_idle jn s) (\<lambda>closed s.
          and_then (reclaim_closed_generations (se_kept seams) (jn_fold jn (fst s)) s) (\<lambda>_ s.
          and_then (finish_integration jn s) (\<lambda>_ s.
          and_then (finish_promotions jn (se_kept seams) s) (\<lambda>finished s.
          and_then (recreate_open_no_attempt (se_verified seams) (se_kept seams) (jn_fold jn (fst s)) (events (fst s)) s) (\<lambda>_ s.
          and_then (with_journal (jn_emit jn (EvRunResumed (resumption seams))) s) (\<lambda>_ s.
          (s, Inr (interrupted, closed, finished)))))))))))"

end
