(* ===== verification/Emit_Facts.thy ===== *)
theory Emit_Facts
  imports Emit
begin

section \<open>The log and the fold agree, through faults and crashes\<close>

text \<open>
  While a process runs, its fold is the replay of the file. An append that is entered and fails
  leaves the old content with a part of the new line behind it, whatever the system calls did,
  so that a crash leaves a log that reads as the events acknowledged or as those and the one
  whose outcome was unknown.
\<close>

subsection \<open>What an append does to the file\<close>

definition log_holds :: "string \<Rightarrow> string \<Rightarrow> event_log \<Rightarrow> bool" where
  "log_holds bytes synced log \<longleftrightarrow>
     dk_file (lg_disk log) = Some bytes \<and> dk_reach (lg_disk log) = bytes \<and> dk_synced (lg_disk log) = synced"

definition same_handle :: "event_log \<Rightarrow> event_log \<Rightarrow> bool" where
  "same_handle log log' \<longleftrightarrow>
     lg_opened_at log' = lg_opened_at log \<and> dk_linked (lg_disk log') = dk_linked (lg_disk log)"

lemma same_handle_refl [simp]: "same_handle log log"
  by (simp add: same_handle_def)

lemma same_handle_trans: "same_handle a b \<Longrightarrow> same_handle b c \<Longrightarrow> same_handle a c"
  by (simp add: same_handle_def)

lemma log_holds_poison [simp]: "log_holds b s (log_poison site point log) = log_holds b s log"
  by (simp add: log_holds_def log_poison_def)

lemma same_handle_poison [simp]: "same_handle log (log_poison site point log') = same_handle log log'"
  by (simp add: same_handle_def log_poison_def)

lemma poisoned_poison [simp]: "lg_poisoned (log_poison site point log) = Some (site, point)"
  by (simp add: log_poison_def)

lemma write_or_poison_spec:
  assumes "log_holds b s log" "write_or_poison site bytes point fault log = (log', r)"
  shows "\<exists>p. prefix p bytes \<and> log_holds (b @ p) s log' \<and> same_handle log log' \<and>
    (r = Inr () \<longrightarrow> p = bytes \<and> lg_poisoned log' = lg_poisoned log) \<and>
    (r \<noteq> Inr () \<longrightarrow> lg_poisoned log' \<noteq> None)"
  using assms
  by (cases fault)
    (auto simp: write_or_poison_def log_holds_def disk_write_def disk_bytes_def same_handle_def log_poison_def
       Let_def take_is_prefix)

lemma at_point_spec:
  assumes "at_point hooks site point mode log = (log', r)"
  shows "log_holds b s log' = log_holds b s log \<and> same_handle log log' \<and>
    (r = Inr () \<longrightarrow> log' = log) \<and> (r \<noteq> Inr () \<longrightarrow> lg_poisoned log' \<noteq> None)"
  using assms
  by (cases "hk_point hooks site point mode")
    (auto simp: at_point_def apply_injection_def Let_def)

lemma and_then_cases:
  assumes "and_then p f = (s', r)"
  obtains (stop) e where "p = (s', Inl e)" "r = Inl e" | (go) s v where "p = (s, Inr v)" "f v s = (s', r)"
  using assms by (cases p; cases "snd p") (auto simp: and_then_def)

lemma write_line_spec:
  assumes h: "log_holds b s log" and w: "write_line hooks io site bytes log = (log', r)"
  shows "\<exists>p. prefix p bytes \<and> log_holds (b @ p) s log' \<and> same_handle log log' \<and>
    (r = Inr () \<longrightarrow> p = bytes \<and> lg_poisoned log' = lg_poisoned log) \<and>
    (r \<noteq> Inr () \<longrightarrow> lg_poisoned log' \<noteq> None)"
proof (cases "hk_kill_shape hooks site")
  case ShapeComplete
  with w have "and_then (write_or_poison site bytes PtWritten (io_first io) log)
      (\<lambda>_ log. at_point hooks site PtWritten ModeKill log) = (log', r)"
    by (simp add: write_line_def)
  then show ?thesis
  proof (cases rule: and_then_cases)
    case (stop e)
    with write_or_poison_spec [OF h stop(1)] show ?thesis by auto
  next
    case (go s1 v)
    from write_or_poison_spec [OF h go(1)] have "log_holds (b @ bytes) s s1" "same_handle log s1"
      "lg_poisoned s1 = lg_poisoned log" by auto
    with at_point_spec [OF go(2), of "b @ bytes" s] show ?thesis
      by (intro exI [of _ bytes]) (auto intro: same_handle_trans)
  qed
next
  case ShapeTorn
  let ?c = "torn_cut bytes"
  from ShapeTorn w have "and_then (write_or_poison site (take ?c bytes) PtWritten (io_first io) log) (\<lambda>_ log.
      and_then (at_point hooks site PtWritten ModeKill log) (\<lambda>_ log.
      write_or_poison site (drop ?c bytes) PtWritten (io_second io) log)) = (log', r)"
    by (simp add: write_line_def Let_def)
  then show ?thesis
  proof (cases rule: and_then_cases)
    case (stop e)
    from write_or_poison_spec [OF h stop(1)] obtain p where "prefix p (take ?c bytes)" "log_holds (b @ p) s log'"
      "same_handle log log'" "lg_poisoned log' \<noteq> None" by auto
    with stop take_is_prefix [of ?c bytes] show ?thesis by (auto intro: prefix_order.trans)
  next
    case (go s1 v)
    from write_or_poison_spec [OF h go(1)] have h1: "log_holds (b @ take ?c bytes) s s1" "same_handle log s1"
      "lg_poisoned s1 = lg_poisoned log" by auto
    from go(2) show ?thesis
    proof (cases rule: and_then_cases)
      case (stop e)
      with at_point_spec [OF stop(1), of "b @ take ?c bytes" s] h1 take_is_prefix [of ?c bytes] show ?thesis
        by (intro exI [of _ "take ?c bytes"]) (auto intro: same_handle_trans)
    next
      case (go s2 v')
      from at_point_spec [OF go(1)] have s2: "s2 = s1" by auto
      from write_or_poison_spec [OF h1(1) go(2) [unfolded s2]] obtain p where
        "prefix p (drop ?c bytes)" "log_holds ((b @ take ?c bytes) @ p) s log'" "same_handle s1 log'"
        "r = Inr () \<longrightarrow> p = drop ?c bytes \<and> lg_poisoned log' = lg_poisoned s1" "r \<noteq> Inr () \<longrightarrow> lg_poisoned log' \<noteq> None"
        by auto
      moreover from this(1) have "prefix (take ?c bytes @ p) bytes"
        by (metis append_take_drop_id same_prefix_prefix)
      ultimately show ?thesis using h1
        by (intro exI [of _ "take ?c bytes @ p"]) (auto intro: same_handle_trans)
    qed
  qed
qed

lemma sync_line_spec:
  assumes h: "log_holds b s log" and w: "sync_line hooks io site log = (log', r)"
  shows "\<exists>s'. s' \<in> {s, b} \<and> log_holds b s' log' \<and> same_handle log log' \<and>
    (r = Inr () \<longrightarrow> s' = b \<and> lg_poisoned log' = lg_poisoned log) \<and>
    (r \<noteq> Inr () \<longrightarrow> lg_poisoned log' \<noteq> None)"
  using w unfolding sync_line_def
proof (cases rule: and_then_cases)
  case (stop e)
  with at_point_spec [OF stop(1), of b s] h show ?thesis by auto
next
  case (go l1 v)
  from at_point_spec [OF go(1)] have l1: "l1 = log" by auto
  show ?thesis
  proof (cases "io_flush io \<and> io_sync io")
    case False
    with go(2) h l1 show ?thesis
      by (intro exI [of _ s]) (auto simp: disk_sync_def Let_def split: if_splits)
  next
    case True
    let ?synced = "log\<lparr>lg_disk := disk_sync True (lg_disk log)\<rparr>"
    have hs: "log_holds b b ?synced" "same_handle log ?synced" "lg_poisoned ?synced = lg_poisoned log"
      using h by (auto simp: log_holds_def disk_sync_def disk_bytes_def same_handle_def)
    from True go(2) l1 have "and_then (at_point hooks site PtSynced ModeKill ?synced)
        (\<lambda>_ log. at_point hooks site PtSynced ModeErrorReturn log) = (log', r)"
      by (simp add: Let_def)
    then show ?thesis
    proof (cases rule: and_then_cases)
      case (stop e)
      with at_point_spec [OF stop(1), of b b] hs show ?thesis by (auto intro: same_handle_trans)
    next
      case (go l2 v')
      from at_point_spec [OF go(1)] have "l2 = ?synced" by auto
      with at_point_spec [OF go(2), of b b] hs show ?thesis by (auto intro: same_handle_trans)
    qed
  qed
qed

lemma write_committed_spec:
  assumes h: "log_holds b b log" and w: "write_committed hooks io site bytes log = (log', r)"
  shows "\<exists>p s. prefix p bytes \<and> s \<in> {b, b @ p} \<and> log_holds (b @ p) s log' \<and> same_handle log log' \<and>
    (r = Inr () \<longrightarrow> p = bytes \<and> s = b @ bytes \<and> lg_poisoned log' = lg_poisoned log) \<and>
    (r \<noteq> Inr () \<longrightarrow> lg_poisoned log' \<noteq> None)"
proof (cases "hk_point hooks site PtWritten ModeErrorReturn = InjectError")
  case True
  let ?c = "torn_cut bytes"
  obtain l1 r1 where l1: "write_or_poison site (take ?c bytes) PtWritten (io_first io) log = (l1, r1)"
    by (cases "write_or_poison site (take ?c bytes) PtWritten (io_first io) log")
  from write_or_poison_spec [OF h l1] obtain p where "prefix p (take ?c bytes)" "log_holds (b @ p) b l1"
    "same_handle log l1" by auto
  moreover have "log' = log_poison site PtWritten l1" "r \<noteq> Inr ()"
    using w True l1 by (auto simp: write_committed_def)
  ultimately show ?thesis using take_is_prefix [of ?c bytes]
    by (intro exI [of _ p] exI [of _ b]) (auto intro: prefix_order.trans)
next
  case False
  with w have "and_then (write_line hooks io site bytes log) (\<lambda>_ log. sync_line hooks io site log) = (log', r)"
    by (simp add: write_committed_def)
  then show ?thesis
  proof (cases rule: and_then_cases)
    case (stop e)
    with write_line_spec [OF h stop(1)] show ?thesis by blast
  next
    case (go l1 v)
    from write_line_spec [OF h go(1)] have l1: "log_holds (b @ bytes) b l1" "same_handle log l1"
      "lg_poisoned l1 = lg_poisoned log" by auto
    from sync_line_spec [OF l1(1) go(2)] obtain s where s: "s \<in> {b, b @ bytes}" "log_holds (b @ bytes) s log'"
      "same_handle l1 log'" "r = Inr () \<longrightarrow> s = b @ bytes \<and> lg_poisoned log' = lg_poisoned l1"
      "r \<noteq> Inr () \<longrightarrow> lg_poisoned log' \<noteq> None" by blast
    with l1 same_handle_trans [OF l1(2) s(3)] show ?thesis
      by (intro exI [of _ bytes] exI [of _ s]) simp
  qed
qed

subsection \<open>Reading a log with a part of a line behind it\<close>

lemma not_torn_cases: "\<not> torn b \<longleftrightarrow> b = [] \<or> (\<exists>a. b = a @ [newline])"
  by (cases b rule: rev_cases) (auto simp: torn_def)

lemma committed_lines_nonempty: "committed_lines (a @ [newline]) \<noteq> []"
  by (induction a) (auto split: list.splits)

lemma committed_lines_append:
  "\<not> torn b \<Longrightarrow> committed_lines (b @ p) = committed_lines b @ committed_lines p"
proof (induction b)
  case (Cons c b)
  show ?case
  proof (cases "b = []")
    case True
    with Cons.prems show ?thesis by (simp add: torn_def)
  next
    case False
    with Cons.prems have nt: "\<not> torn b" by (simp add: torn_def)
    have "committed_lines b \<noteq> []"
      using nt False by (auto simp: not_torn_cases committed_lines_nonempty)
    with Cons.IH [OF nt] show ?thesis by (auto split: list.splits)
  qed
qed simp

lemma parse_lines_append:
  "parse_lines decode n (ls @ ms) =
     res_bind (parse_lines decode n ls) (\<lambda>es. res_bind (parse_lines decode (n + length ls) ms) (\<lambda>fs. Inr (es @ fs)))"
  by (induction ls arbitrary: n)
    (auto simp: res_bind_def split: option.splits sum.splits)

lemma prefix_of_line:
  assumes "prefix p (line @ [newline])" "newline \<notin> set line"
  shows "p = line @ [newline] \<or> newline \<notin> set p"
  using assms by (auto simp: prefix_def append_eq_append_conv2 Cons_eq_append_conv)

text \<open>What is behind a committed log is not read before its newline is there.\<close>

lemma parse_log_behind:
  assumes "\<not> torn b" "parse_log decode b = Inr es" "newline \<notin> set line" "decode line = Some e"
    and "prefix p (line @ [newline])"
  shows "parse_log decode (b @ p) = Inr (if p = line @ [newline] then es @ [e] else es)"
proof -
  have "committed_lines p = (if p = line @ [newline] then [line] else [])"
    using prefix_of_line [OF assms(5,3)] committed_lines_line [OF assms(3), of "[]"]
    by (auto simp: committed_lines_tail)
  with assms show ?thesis
    by (simp add: parse_log_def committed_lines_append parse_lines_append)
qed

lemma replay_extends:
  assumes "replay x inputs es = Inr f" "plan_transition x f e = Inr delta"
  shows "replay x inputs (es @ [e]) = Inr (apply_delta delta f)"
  using assms by (simp add: replay_def fold.run_snoc)

subsection \<open>Opening\<close>

lemma committed_prefix_snoc [simp]:
  "committed_prefix [] = []" "committed_prefix (a @ [newline]) = a @ [newline]"
  by (simp_all add: committed_prefix_def)

lemma committed_prefix_not_torn: "\<not> torn b \<Longrightarrow> committed_prefix b = b"
  by (auto simp: not_torn_cases)

lemma committed_prefix_behind:
  "\<not> torn b \<Longrightarrow> newline \<notin> set p \<Longrightarrow> committed_prefix (b @ p) = b"
  by (auto simp: not_torn_cases committed_prefix_def dropWhile_append)

lemma not_torn_committed_prefix: "\<not> torn (committed_prefix b)"
proof -
  have "dropWhile (\<lambda>c. c \<noteq> newline) (rev b) = [] \<or> hd (dropWhile (\<lambda>c. c \<noteq> newline) (rev b)) = newline"
    using hd_dropWhile by blast
  then show ?thesis by (auto simp: torn_def committed_prefix_def last_rev)
qed

lemma fails_at_Inr [simp]: "fails_at step r = Inr v \<longleftrightarrow> r = Inr v"
  by (cases r) (simp_all add: fails_at_def)

lemma normalize_tail_spec:
  assumes "normalize_tail hooks io site s = (s', r)"
  shows "dk_file (fst s') \<in> {dk_file (fst s), map_option committed_prefix (dk_file (fst s))} \<and>
    dk_synced (fst s') = dk_synced (fst s) \<and> dk_reach (fst s') = dk_reach (fst s) \<and>
    dk_linked (fst s') = dk_linked (fst s) \<and>
    (\<forall>kept truncated. r = Inr (kept, truncated) \<longrightarrow>
       kept = disk_bytes (fst s') \<and> kept = committed_prefix (disk_bytes (fst s)))"
  using assms
  by (auto simp: normalize_tail_def Let_def disk_bytes_def fails_at_def and_then_def
      committed_prefix_not_torn split: option.splits if_splits sum.splits)

definition open_rest ::
  "event_hooks \<Rightarrow> open_io \<Rightarrow> event_site \<Rightarrow> bool \<Rightarrow> string \<times> bool \<Rightarrow> open_state \<Rightarrow>
     open_state \<times> (barrier_step \<times> log_stop, event_log \<times> string) result" where
  "open_rest hooks io site created = (\<lambda>(kept, truncated) s.
     if \<not> oi_open io then (s, Inl (BarrierOpenLog, LogFailed LogIo))
     else
       let s = ((fst s)\<lparr>dk_file := Some (disk_bytes (fst s))\<rparr>, snd s) in
       and_then
         (if created then
            and_then (stepped BarrierOpenLog (sync_directory (oi_sync_created io) s)) (\<lambda>_ s.
            (s, fails_at BarrierOpenLog (inject_modes hooks site PtCreate)))
          else (s, Inr ())) (\<lambda>_ s.
       and_then (s, fails_at BarrierSyncPrefix (inject_modes hooks site PtSyncPrefix)) (\<lambda>_ s.
       and_then (stepped BarrierSyncPrefix (sync_log_file (oi_sync_file io) (oi_metadata io) s)) (\<lambda>_ s.
       and_then
         (if truncated then stepped BarrierSyncPrefix (sync_directory (oi_sync_truncated io) s)
          else (s, Inr ())) (\<lambda>_ s.
       (s, Inr (\<lparr>lg_disk = fst s, lg_opened_at = site, lg_poisoned = None\<rparr>, kept)))))))"

lemma open_funnel_rest:
  "open_funnel hooks io site s =
     (if \<not> oi_read io then (s, Inl (BarrierOpenLog, LogFailed LogIo))
      else and_then (normalize_tail hooks io site s) (open_rest hooks io site (dk_file (fst s) = None)))"
  unfolding open_funnel_def open_rest_def Let_def ..

lemma and_then_Inr:
  "and_then p f = (s', Inr w) \<longleftrightarrow> (\<exists>s v. p = (s, Inr v) \<and> f v s = (s', Inr w))"
  by (cases p; cases "snd p") (auto simp: and_then_def)

text \<open>What the steps of an open may do to a file whose content they keep.\<close>

definition settles :: "open_state \<Rightarrow> open_state \<Rightarrow> bool" where
  "settles s s' \<longleftrightarrow>
     disk_bytes (fst s') = disk_bytes (fst s) \<and> (dk_file (fst s) \<noteq> None \<longrightarrow> dk_file (fst s') \<noteq> None) \<and>
     dk_synced (fst s') \<in> {dk_synced (fst s), disk_bytes (fst s)} \<and>
     dk_reach (fst s') \<in> {dk_reach (fst s), disk_bytes (fst s)} \<and>
     (dk_linked (fst s) \<longrightarrow> dk_linked (fst s'))"

lemma settles_refl [simp]: "settles s s"
  by (simp add: settles_def)

lemma settles_trans: "settles a b \<Longrightarrow> settles b c \<Longrightarrow> settles a c"
  unfolding settles_def by auto

lemma settles_and_then:
  assumes "and_then p f = (s', r)" "settles s (fst p)" "\<And>s1 v. p = (s1, Inr v) \<Longrightarrow> f v s1 = (s', r) \<Longrightarrow> settles s1 s'"
  shows "settles s s'"
  using assms(1)
proof (cases rule: and_then_cases)
  case (stop e)
  with assms(2) show ?thesis by simp
next
  case (go s1 v)
  with assms(2) assms(3) [OF go] show ?thesis by (auto intro: settles_trans)
qed

lemma settles_steps [simp]:
  "settles s (fst (stepped step (sync_directory ok s)))" "settles s (fst (stepped step (sync_log_file ok metadata s)))"
  "settles s ((fst s)\<lparr>dk_file := Some (disk_bytes (fst s))\<rparr>, snd s)"
  by (simp_all add: settles_def stepped_def sync_directory_def sync_log_file_def disk_sync_def disk_bytes_def
      split: option.splits)

lemma open_rest_settles:
  assumes "open_rest hooks io site created kt s = (s', r)"
  shows "settles s s'"
proof (cases "oi_open io")
  case True
  obtain kept truncated where kt: "kt = (kept, truncated)" by (cases kt)
  let ?s = "((fst s)\<lparr>dk_file := Some (disk_bytes (fst s))\<rparr>, snd s)"
  have cr: "settles ?s (fst (if created then
            and_then (stepped BarrierOpenLog (sync_directory (oi_sync_created io) ?s)) (\<lambda>_ s.
            (s, fails_at BarrierOpenLog (inject_modes hooks site PtCreate)))
          else (?s, Inr ())))" (is "settles _ (fst ?p)")
  proof (cases created)
    case True
    show ?thesis
      by (rule settles_and_then [of "stepped BarrierOpenLog (sync_directory (oi_sync_created io) ?s)"
            "\<lambda>_ s. (s, fails_at BarrierOpenLog (inject_modes hooks site PtCreate))" _ "snd ?p"]) (simp_all add: True)
  qed simp
  have tr: "settles q (fst (if truncated then stepped BarrierSyncPrefix (sync_directory (oi_sync_truncated io) q)
          else (q, Inr ())))" for q by simp
  have "settles ?s s'"
    apply (rule settles_and_then [OF _ cr])
     apply (use assms True in \<open>simp only: open_rest_def kt Let_def prod.case not_True_eq_False if_False\<close>)
    apply (erule settles_and_then, simp)
    apply (erule settles_and_then, simp)
    apply (erule settles_and_then, rule tr, simp)
    done
  then show ?thesis using settles_trans [OF settles_steps(3)] by blast
next
  case False
  with assms show ?thesis by (cases kt) (simp add: open_rest_def)
qed

lemma open_rest_opened:
  assumes "open_rest hooks io site created (kept, truncated) s = (s', Inr (log, kept'))"
  shows "kept' = kept \<and> lg_disk log = fst s' \<and> lg_opened_at log = site \<and> lg_poisoned log = None \<and>
    log_holds (disk_bytes (fst s)) (disk_bytes (fst s)) log \<and> (created \<longrightarrow> dk_linked (fst s'))"
  using assms
  by (auto simp: open_rest_def and_then_Inr stepped_def sync_directory_def sync_log_file_def disk_sync_def
      disk_bytes_def log_holds_def Let_def split: if_splits)

lemma open_funnel_disk:
  assumes "open_funnel hooks io site s = (s', r)" "dk_file (fst s) = Some b"
  shows "\<exists>b'. b' \<in> {b, committed_prefix b} \<and> dk_file (fst s') = Some b' \<and>
    dk_synced (fst s') \<in> {dk_synced (fst s), b'} \<and> dk_reach (fst s') \<in> {dk_reach (fst s), b'} \<and>
    (dk_linked (fst s) \<longrightarrow> dk_linked (fst s'))"
proof (cases "oi_read io")
  case True
  with assms(1) have "and_then (normalize_tail hooks io site s) (open_rest hooks io site False) = (s', r)"
    using assms(2) by (simp add: open_funnel_rest)
  then show ?thesis
  proof (cases rule: and_then_cases)
    case (stop e)
    from normalize_tail_spec [OF stop(1)] assms(2) show ?thesis by auto
  next
    case (go s1 v)
    from normalize_tail_spec [OF go(1)] assms(2) obtain b' where b': "b' \<in> {b, committed_prefix b}"
      "dk_file (fst s1) = Some b'" "dk_synced (fst s1) = dk_synced (fst s)" "dk_reach (fst s1) = dk_reach (fst s)"
      "dk_linked (fst s1) = dk_linked (fst s)" by auto
    with open_rest_settles [OF go(2)] show ?thesis
      by (cases "dk_file (fst s')") (auto simp: settles_def disk_bytes_def)
  qed
next
  case False
  with assms show ?thesis by (simp add: open_funnel_rest)
qed

lemma open_funnel_opened:
  assumes "open_funnel hooks io site s = (s', Inr (log, kept))"
  shows "lg_disk log = fst s' \<and> lg_opened_at log = site \<and> lg_poisoned log = None \<and>
    log_holds kept kept log \<and> kept = committed_prefix (disk_bytes (fst s)) \<and>
    (dk_linked (fst s) \<or> dk_file (fst s) = None \<longrightarrow> dk_linked (fst s'))"
proof -
  have "oi_read io" using assms by (auto simp: open_funnel_rest split: if_splits)
  with assms have "and_then (normalize_tail hooks io site s) (open_rest hooks io site (dk_file (fst s) = None)) =
      (s', Inr (log, kept))"
    by (simp add: open_funnel_rest)
  then show ?thesis
  proof (cases rule: and_then_cases)
    case (go s1 v)
    obtain k truncated where v: "v = (k, truncated)" by (cases v)
    from normalize_tail_spec [OF go(1)] v have "k = disk_bytes (fst s1)" "k = committed_prefix (disk_bytes (fst s))"
      "dk_linked (fst s1) = dk_linked (fst s)" by auto
    moreover from open_rest_settles [OF go(2)] have "dk_linked (fst s1) \<longrightarrow> dk_linked (fst s')"
      by (simp add: settles_def)
    ultimately show ?thesis using open_rest_opened [OF go(2) [unfolded v]] by simp
  qed simp
qed

end
