(* ===== verification/Crash_Facts.thy ===== *)
theory Crash_Facts
  imports Emit_Facts Fold_Sample
begin

section \<open>What survives a crash\<close>

text \<open>
  A process opens the log through the stable-prefix barrier and then writes events, with any
  outcome of the system calls and any fault the hooks inject, until it stops or dies. The
  relation \<open>emits\<close> holds of the states it can be in; its last argument tells whether the process
  still runs. Serialized events hold no newline, which is what the JSON of one event looks like.
\<close>

definition one_line :: "(topology_event \<Rightarrow> string option) \<Rightarrow> bool" where
  "one_line encode \<longleftrightarrow> (\<forall>e line. encode e = Some line \<longrightarrow> newline \<notin> set line)"

inductive emits ::
  "externals \<Rightarrow> (string \<Rightarrow> topology_event option) \<Rightarrow> frozen_inputs \<Rightarrow> emit_state \<Rightarrow> bool \<Rightarrow> bool"
  for x decode inputs where
  emits_open:
    "establish_stable_prefix x decode hooks io reread inputs expected (d, w) = ((d', w'), Inr p) \<Longrightarrow>
     dk_linked d \<or> dk_file d = None \<Longrightarrow>
     emits x decode inputs
       \<lparr>em_fold = sp_fold p, em_log = sp_log p, em_events = sp_events p, em_reservations = r, em_warnings = w'\<rparr> True"
| emits_reserve: "emits x decode inputs st alive \<Longrightarrow> emits x decode inputs (st\<lparr>em_reservations := r\<rparr>) alive"
| emits_write:
    "emits x decode inputs st True \<Longrightarrow> ew_decode w = decode \<Longrightarrow> one_line (ew_encode w) \<Longrightarrow>
     emit x w identity ts body st = (st', r) \<Longrightarrow> emits x decode inputs st' (r \<noteq> Inl EmitAborted)"

subsection \<open>The invariant\<close>

definition reads_as ::
  "externals \<Rightarrow> (string \<Rightarrow> topology_event option) \<Rightarrow> frozen_inputs \<Rightarrow> string \<Rightarrow> topology_event list \<Rightarrow> topology_fold \<Rightarrow> bool" where
  "reads_as x decode inputs bytes es f \<longleftrightarrow> parse_log decode bytes = Inr es \<and> replay x inputs es = Inr f"

text \<open>A running process whose last append did not fail.\<close>

definition in_step :: "externals \<Rightarrow> (string \<Rightarrow> topology_event option) \<Rightarrow> frozen_inputs \<Rightarrow> emit_state \<Rightarrow> bool" where
  "in_step x decode inputs st \<longleftrightarrow>
     lg_poisoned (em_log st) = None \<and> dk_linked (lg_disk (em_log st)) \<and>
     (\<exists>b. \<not> torn b \<and> log_holds b b (em_log st) \<and> reads_as x decode inputs b (em_events st) (em_fold st))"

text \<open>The file after an append of \<open>line\<close> behind \<open>b\<close> that failed at some point.\<close>

definition within :: "string \<Rightarrow> string \<Rightarrow> disk \<Rightarrow> bool" where
  "within b line d \<longleftrightarrow>
     (\<exists>q s t. list_all (\<lambda>p. prefix p line) [q, s, t] \<and> dk_file d = Some (b @ q) \<and>
        dk_synced d = b @ s \<and> dk_reach d = b @ t)"

text \<open>After a failed append of the event \<open>e\<close>, when the log before it had the fold \<open>f\<close>.\<close>

definition in_doubt :: "externals \<Rightarrow> (string \<Rightarrow> topology_event option) \<Rightarrow> frozen_inputs \<Rightarrow> emit_state \<Rightarrow> topology_fold \<Rightarrow>
     topology_event \<Rightarrow> bool" where
  "in_doubt x decode inputs st f e \<longleftrightarrow>
     lg_poisoned (em_log st) \<noteq> None \<and> dk_linked (lg_disk (em_log st)) \<and>
     (\<exists>b line delta. \<not> torn b \<and> newline \<notin> set line \<and> decode line = Some e \<and>
        reads_as x decode inputs b (em_events st) f \<and> plan_transition x f e = Inr delta \<and>
        within b (line @ [newline]) (lg_disk (em_log st)))"

lemma reads_behind:
  assumes "\<not> torn b" "reads_as x decode inputs b es f" "newline \<notin> set line" "decode line = Some e"
    and "plan_transition x f e = Inr delta" "prefix p (line @ [newline])"
  shows "if p = line @ [newline] then reads_as x decode inputs (b @ p) (es @ [e]) (apply_delta delta f)
    else reads_as x decode inputs (b @ p) es f"
proof -
  from assms(2) have "parse_log decode b = Inr es" "replay x inputs es = Inr f" by (simp_all add: reads_as_def)
  with parse_log_behind [OF assms(1) this(1) assms(3,4,6)] replay_extends [OF this(2) assms(5)] show ?thesis
    by (cases "p = line @ [newline]") (auto simp: reads_as_def)
qed

lemma within_open:
  assumes "within b (line @ [newline]) (fst s)" "\<not> torn b" "newline \<notin> set line"
    and "open_funnel hooks io site s = (s', r)"
  shows "within b (line @ [newline]) (fst s') \<and> (dk_linked (fst s) \<longrightarrow> dk_linked (fst s'))"
proof -
  let ?full = "line @ [newline]"
  from assms(1) obtain q s0 t where w: "prefix q ?full" "prefix s0 ?full" "prefix t ?full"
    "dk_file (fst s) = Some (b @ q)" "dk_synced (fst s) = b @ s0" "dk_reach (fst s) = b @ t"
    by (auto simp: within_def)
  have "committed_prefix (b @ q) \<in> {b @ q, b @ []}"
  proof (cases "q = ?full")
    case True
    with committed_prefix_snoc(2) [of "b @ line"] show ?thesis by simp
  next
    case False
    with prefix_of_line [OF w(1) assms(3)] committed_prefix_behind [OF assms(2), of q] show ?thesis by simp
  qed
  moreover obtain b' where
    b': "b' \<in> {b @ q, committed_prefix (b @ q)}" and d: "dk_file (fst s') = Some b'"
    "dk_synced (fst s') \<in> {b @ s0, b'}" "dk_reach (fst s') \<in> {b @ t, b'}" "dk_linked (fst s) \<longrightarrow> dk_linked (fst s')"
    using open_funnel_disk [OF assms(4) w(4)] unfolding w(5,6) by blast
  ultimately have "b' = b @ q \<or> b' = b @ []" by blast
  then obtain q' where q': "b' = b @ q'" "prefix q' ?full" using w(1) Nil_prefix by metis
  from d(2) q' w(2) obtain s1 where "dk_synced (fst s') = b @ s1" "prefix s1 ?full" by auto
  moreover from d(3) q' w(3) obtain t1 where "dk_reach (fst s') = b @ t1" "prefix t1 ?full" by auto
  ultimately show ?thesis using q' d(1,4) unfolding within_def by fastforce
qed

lemma establish_opened:
  assumes "establish_stable_prefix x decode hooks io reread inputs expected s = (s', Inr p)"
  shows "\<not> torn (sp_bytes p) \<and> log_holds (sp_bytes p) (sp_bytes p) (sp_log p) \<and> lg_poisoned (sp_log p) = None \<and>
    lg_opened_at (sp_log p) = SiteOpenLog \<and> lg_disk (sp_log p) = fst s' \<and>
    sp_bytes p = committed_prefix (disk_bytes (fst s)) \<and>
    (dk_linked (fst s) \<or> dk_file (fst s) = None \<longrightarrow> dk_linked (fst s')) \<and>
    reads_as x decode inputs (sp_bytes p) (sp_events p) (sp_fold p)"
proof -
  obtain s1 r1 where o: "open_funnel hooks io SiteOpenLog s = (s1, r1)"
    by (cases "open_funnel hooks io SiteOpenLog s")
  from assms o obtain log kept where r1: "r1 = Inr (log, kept)" "s1 = s'"
    by (cases r1) (auto simp: establish_stable_prefix_def)
  from assms o r1 have "sp_log p = log" "sp_bytes p = kept" "\<not> torn kept"
    "reads_as x decode inputs (sp_bytes p) (sp_events p) (sp_fold p)"
    by (auto simp: establish_stable_prefix_def prove_stable_def reads_as_def res_bind_Inr Let_def
        split: option.splits if_splits sum.splits)
  with open_funnel_opened [OF o [unfolded r1]] show ?thesis by metis
qed

lemma establish_open:
  assumes "establish_stable_prefix x decode hooks io reread inputs expected s = (s', r)"
  obtains r' where "open_funnel hooks io SiteOpenLog s = (s', r')"
  using assms by (auto simp: establish_stable_prefix_def split: prod.splits sum.splits)

subsection \<open>One event\<close>

lemma append_topology_cases:
  assumes "append_topology hooks io site line log = (log', r)"
  shows "(\<exists>e. r = Inl (LogFailed e)) \<and> log' = log \<or> write_committed hooks io site (ty_committed line) log = (log', r)"
  using assms
  by (auto simp: append_topology_def check_scope_def check_poison_def split: if_splits option.splits)

lemma round_trip_Inr:
  assumes "round_trip encode decode event = Inr (line, checked)"
  obtains l where "encode event = Some l" "decode l = Some checked" "ty_committed line = l @ [newline]"
  using assms by (auto simp: round_trip_def Let_def res_bind_Inr ok_or_def split: option.splits)

text \<open>An append that was entered leaves the file between the old content and the new.\<close>

lemma append_entered:
  assumes h: "log_holds b b log" and w: "write_committed hooks io site (l @ [newline]) log = (log', r)"
  shows "within b (l @ [newline]) (lg_disk log') \<and> dk_linked (lg_disk log') = dk_linked (lg_disk log) \<and>
    (r = Inr () \<longrightarrow> log_holds (b @ l @ [newline]) (b @ l @ [newline]) log' \<and> lg_poisoned log' = lg_poisoned log) \<and>
    (r \<noteq> Inr () \<longrightarrow> lg_poisoned log' \<noteq> None)"
proof -
  from write_committed_spec [OF h w] obtain p s where ps: "prefix p (l @ [newline])" "s = b \<or> s = b @ p"
    "log_holds (b @ p) s log'" "same_handle log log'"
    "r = Inr () \<longrightarrow> p = l @ [newline] \<and> s = b @ l @ [newline] \<and> lg_poisoned log' = lg_poisoned log"
    "r \<noteq> Inr () \<longrightarrow> lg_poisoned log' \<noteq> None" by auto
  obtain q where "s = b @ q" "prefix q (l @ [newline])" using ps(1,2) Nil_prefix by (metis append_Nil2)
  with ps have "within b (l @ [newline]) (lg_disk log')"
    by (auto simp: within_def log_holds_def)
  with ps show ?thesis by (auto simp: same_handle_def)
qed

definition emit_inv :: "externals \<Rightarrow> (string \<Rightarrow> topology_event option) \<Rightarrow> frozen_inputs \<Rightarrow> emit_state \<Rightarrow> bool \<Rightarrow> bool" where
  "emit_inv x decode inputs st alive \<longleftrightarrow>
     in_step x decode inputs st \<or>
     (\<exists>f e. in_doubt x decode inputs st f e \<and> em_fold st \<in> {f, poison f} \<and> (alive \<longrightarrow> em_fold st = poison f))"

lemma emit_poisoned:
  assumes "fo_poisoned (em_fold st)" "emit x w identity ts body st = (st', r)"
  shows "st' = st \<and> r \<noteq> Inl EmitAborted \<and> (\<forall>e. r \<noteq> Inr e)"
  using assms by (auto simp: emit_def plan_transition_def split: sum.splits)

lemma emit_protocol_in_doubt:
  assumes b: "\<not> torn b" "reads_as x decode inputs b (em_events st) (em_fold st)"
    and l: "newline \<notin> set l" "decode l = Some e" "plan_transition x (em_fold st) e = Inr delta"
    and d: "within b (l @ [newline]) (lg_disk (em_log st))" "dk_linked (lg_disk (em_log st))"
      "lg_poisoned (em_log st) \<noteq> None"
    and p: "emit_protocol x w identity line site cause st = (st', r)"
  shows "in_doubt x decode inputs st' (em_fold st) e \<and> em_fold st' = poison (em_fold st) \<and>
    em_events st' = em_events st \<and> (\<exists>err. r = Inl err)"
proof -
  obtain d' w' r' where e: "establish_stable_prefix x (ew_decode w) (ew_hooks w) (ew_open w) (ew_reread w)
             (ri_inputs identity) (ri_first_line identity) (lg_disk (em_log st), em_warnings st) = ((d', w'), r')"
    by (metis prod.collapse)
  obtain r0 where o: "open_funnel (ew_hooks w) (ew_open w) SiteOpenLog (lg_disk (em_log st), em_warnings st) = ((d', w'), r0)"
    using establish_open [OF e] by metis
  from within_open [OF _ b(1) l(1) o] d have "within b (l @ [newline]) d'" "dk_linked d'" by simp_all
  moreover from p e have "lg_disk (em_log st') = d'" "lg_poisoned (em_log st') = lg_poisoned (em_log st)"
    "em_events st' = em_events st" "em_fold st' = poison (em_fold st)" "\<exists>err. r = Inl err"
    by (auto simp: emit_protocol_def split: prod.splits)
  ultimately show ?thesis using b l d(3) unfolding in_doubt_def by metis
qed

text \<open>The event a body becomes: what its line reads as.\<close>

definition sent :: "emit_world \<Rightarrow> string \<Rightarrow> topology_event_body \<Rightarrow> topology_event \<Rightarrow> bool" where
  "sent w ts body e \<longleftrightarrow> (\<exists>l. ew_encode w \<lparr>ev_ts = ts, ev_body = body\<rparr> = Some l \<and> ew_decode w l = Some e)"

lemma emit_in_step:
  assumes inv: "in_step x decode inputs st" and w: "ew_decode w = decode" "one_line (ew_encode w)"
    and e: "emit x w identity ts body st = (st', r)"
  shows "in_step x decode inputs st' \<and> r \<noteq> Inl EmitAborted \<and>
      (case r of Inl _ \<Rightarrow> em_events st' = em_events st
       | Inr event \<Rightarrow> em_events st' = em_events st @ [event] \<and> sent w ts body event) \<or>
    (\<exists>event err. in_doubt x decode inputs st' (em_fold st) event \<and> sent w ts body event \<and> r = Inl err \<and>
      em_events st' = em_events st \<and> em_fold st' \<in> {em_fold st, poison (em_fold st)} \<and>
      (r \<noteq> Inl EmitAborted \<longrightarrow> em_fold st' = poison (em_fold st)))"
proof -
  let ?event = "\<lparr>ev_ts = ts, ev_body = body\<rparr>"
  consider (stays) err where "st' = st" "r = Inl err" "err \<noteq> EmitAborted"
    | (writes) line checked delta where "round_trip (ew_encode w) decode ?event = Inr (line, checked)"
        "plan_transition x (em_fold st) checked = Inr delta"
    using e w(1) by (auto simp: emit_def split: sum.splits)
  then show ?thesis
  proof cases
    case stays
    with inv show ?thesis by simp
  next
    case writes
    from round_trip_Inr [OF writes(1)] obtain l where l: "ew_encode w ?event = Some l" "decode l = Some checked"
      "ty_committed line = l @ [newline]" .
    have nl: "newline \<notin> set l" using w(2) l(1) by (auto simp: one_line_def)
    have sent: "sent w ts body checked" using l w(1) by (auto simp: sent_def)
    from inv obtain b where b: "\<not> torn b" "log_holds b b (em_log st)"
      "reads_as x decode inputs b (em_events st) (em_fold st)" and p: "lg_poisoned (em_log st) = None"
      "dk_linked (lg_disk (em_log st))" by (auto simp: in_step_def)
    let ?site = "site_for (ev_body checked)"
    obtain log ra where a: "append_topology (ew_hooks w) (ew_append w) ?site line (em_log st) = (log, ra)"
      by (cases "append_topology (ew_hooks w) (ew_append w) ?site line (em_log st)")
    from append_topology_cases [OF a] show ?thesis
    proof (elim disjE conjE exE)
      fix er assume er: "ra = Inl (LogFailed er)" "log = em_log st"
      with e w(1) writes a p have "st' = st\<lparr>em_log := log\<rparr>" "r = Inl (EmitNotEntered er)"
        by (simp_all add: emit_def Let_def)
      with er inv show ?thesis by (simp add: in_step_def)
    next
      assume wc: "write_committed (ew_hooks w) (ew_append w) ?site (ty_committed line) (em_log st) = (log, ra)"
      note ae = append_entered [OF b(2) wc [unfolded l(3)]]
      show ?thesis
      proof (cases ra)
        case (Inr u)
        with e w(1) writes a have st': "st' = st\<lparr>em_log := log, em_fold := apply_delta delta (em_fold st),
            em_events := em_events st @ [checked]\<rparr>" "r = Inr checked"
          by (simp_all add: emit_def Let_def)
        have "reads_as x decode inputs (b @ l @ [newline]) (em_events st @ [checked]) (apply_delta delta (em_fold st))"
          using reads_behind [OF b(1,3) nl l(2) writes(2) prefix_order.refl] by simp
        moreover have "\<not> torn (b @ l @ [newline])" by (simp add: torn_def)
        ultimately show ?thesis using st' ae Inr p sent by (auto simp: in_step_def)
      next
        case (Inl stop)
        with ae p have d: "lg_poisoned log \<noteq> None" "within b (l @ [newline]) (lg_disk log)" "dk_linked (lg_disk log)"
          by simp_all
        show ?thesis
        proof (cases stop)
          case ProcessAborted
          with e w(1) writes a Inl have "st' = st\<lparr>em_log := log\<rparr>" "r = Inl EmitAborted"
            by (simp_all add: emit_def Let_def)
          with b(1,3) nl l(2) writes(2) d sent show ?thesis by (simp add: in_doubt_def) blast
        next
          case (LogFailed cause)
          with e w(1) writes a Inl d(1) p(1) have
            "emit_protocol x w identity line ?site cause (st\<lparr>em_log := log\<rparr>) = (st', r)"
            by (simp add: emit_def Let_def)
          with emit_protocol_in_doubt [of b x decode inputs "st\<lparr>em_log := log\<rparr>" l checked delta w identity line
              ?site cause st' r] b(1,3) nl l(2) writes(2) d sent show ?thesis by auto
        qed
      qed
    qed
  qed
qed

lemma emits_inv: "emits x decode inputs st alive \<Longrightarrow> emit_inv x decode inputs st alive"
proof (induction rule: emits.induct)
  case (emits_open hooks io reread expected d w d' w' p r)
  from establish_opened [OF emits_open(1)] emits_open(2) show ?case
    by (auto simp: emit_inv_def in_step_def)
next
  case (emits_reserve st alive r)
  then show ?case by (simp add: emit_inv_def in_step_def in_doubt_def)
next
  case (emits_write st w identity ts body st' r)
  from emits_write.IH consider (step) "in_step x decode inputs st"
    | (doubt) f event where "in_doubt x decode inputs st f event" "em_fold st = poison f"
    by (auto simp: emit_inv_def)
  then show ?case
  proof cases
    case step
    from emit_in_step [OF this emits_write.hyps(2,3,4)] show ?thesis unfolding emit_inv_def by blast
  next
    case doubt
    then have "fo_poisoned (em_fold st)" by (simp add: poison_def)
    from emit_poisoned [OF this emits_write.hyps(4)] doubt show ?thesis unfolding emit_inv_def by blast
  qed
qed

subsection \<open>What a crash leaves\<close>

lemma within_crash:
  assumes "within b full d" "dk_linked d" "crash_leaves d left"
  obtains p where "left = Some (b @ p)" "prefix p full"
proof -
  from assms obtain q s t c where w: "prefix t full" "left = Some c" "prefix (b @ s) c" "prefix c (b @ t)"
    by (cases left) (auto simp: within_def crash_leaves_def)
  from w(3) obtain z where "c = b @ s @ z" by (auto simp: prefix_def)
  with w(4) have "prefix (s @ z) t" by simp
  with w \<open>c = b @ s @ z\<close> that show ?thesis using prefix_order.trans by blast
qed

text \<open>
  C13. Whatever fails and whenever the machine stops, the file a crash leaves is a readable log
  that replays: it holds the events acknowledged to this process and no other, or, only if the
  last append was entered and did not succeed, those and one event more. While no append has
  failed, the file is exactly the log the process's fold is the replay of.
\<close>

theorem acknowledged_events_survive_a_crash:
  assumes "emits x decode inputs st alive" "crash_leaves (lg_disk (em_log st)) left"
  shows "\<exists>bytes es f. left = Some bytes \<and> parse_log decode bytes = Inr es \<and> replay x inputs es = Inr f \<and>
    (if lg_poisoned (em_log st) = None
     then bytes = disk_bytes (lg_disk (em_log st)) \<and> es = em_events st \<and> f = em_fold st
     else es = em_events st \<and> em_fold st \<in> {f, poison f} \<or> (\<exists>e. es = em_events st @ [e]))"
  using emits_inv [OF assms(1)] unfolding emit_inv_def
proof (elim disjE exE conjE)
  assume "in_step x decode inputs st"
  with assms(2) show ?thesis
    by (cases left) (auto simp: in_step_def crash_leaves_def log_holds_def reads_as_def disk_bytes_def
        dest: prefix_order.antisym)
next
  fix f e assume f: "in_doubt x decode inputs st f e" "em_fold st \<in> {f, poison f}"
  then obtain b line delta where d: "\<not> torn b" "newline \<notin> set line" "decode line = Some e"
    "reads_as x decode inputs b (em_events st) f" "plan_transition x f e = Inr delta"
    "within b (line @ [newline]) (lg_disk (em_log st))" "dk_linked (lg_disk (em_log st))"
    "lg_poisoned (em_log st) \<noteq> None" by (auto simp: in_doubt_def)
  from within_crash [OF d(6,7) assms(2)] obtain p where p: "left = Some (b @ p)" "prefix p (line @ [newline])" .
  from reads_behind [OF d(1,4,2,3,5) p(2)] p d(8) f(2) show ?thesis
    by (auto simp: reads_as_def split: if_splits)
qed

text \<open>A small world for the witnesses: one event, its line, and a write that may stop early.\<close>

definition sample_begin :: topology_event where
  "sample_begin = \<lparr>ev_ts = ''t'', ev_body = EvRunStarted sample_started4\<rparr>"

definition sample_decode :: "string \<Rightarrow> topology_event option" where
  "sample_decode line = (if line = ''{1}'' then Some sample_begin else None)"

definition sample_world :: "nat option \<Rightarrow> emit_world" where
  "sample_world fault =
     \<lparr>ew_encode = \<lambda>_. Some ''{1}'', ew_decode = sample_decode,
      ew_append = \<lparr>io_first = fault, io_second = None, io_flush = True, io_sync = True\<rparr>,
      ew_open = \<lparr>oi_read = True, oi_truncate = True, oi_open = True, oi_sync_created = True,
                 oi_sync_file = True, oi_metadata = True, oi_sync_truncated = True\<rparr>,
      ew_reread = dk_file, ew_hooks = no_event_hooks\<rparr>"

definition sample_identity :: run_identity where
  "sample_identity = \<lparr>ri_run_id = ''r'', ri_inputs = sample_inputs, ri_first_line = None\<rparr>"

definition sample_handle :: "string \<Rightarrow> event_log" where
  "sample_handle bytes =
     \<lparr>lg_disk = \<lparr>dk_file = Some bytes, dk_synced = bytes, dk_reach = bytes, dk_linked = True\<rparr>,
      lg_opened_at = SiteOpenLog, lg_poisoned = None\<rparr>"

definition sample_opened :: emit_state where
  "sample_opened =
     \<lparr>em_fold = fold_new sample_inputs, em_log = sample_handle [], em_events = [],
      em_reservations = reservations_new, em_warnings = []\<rparr>"

definition sample_begun :: emit_state where
  "sample_begun =
     \<lparr>em_fold = (fold_new sample_inputs)\<lparr>fo_run := Some sample_fresh\<rparr>,
      em_log = sample_handle (''{1}'' @ [newline]), em_events = [sample_begin],
      em_reservations = reservations_new, em_warnings = []\<rparr>"

lemmas world_defs = sample_world_def sample_identity_def sample_handle_def no_event_hooks_def

lemma sample_opened_emits: "emits sample_x sample_decode sample_inputs sample_opened True"
proof -
  let ?w = "sample_world None"
  let ?d = "\<lparr>dk_file = None, dk_synced = [], dk_reach = [], dk_linked = False\<rparr>"
  have "establish_stable_prefix sample_x sample_decode (ew_hooks ?w) (ew_open ?w) (ew_reread ?w) sample_inputs None (?d, []) =
      ((lg_disk (sample_handle []), []), Inr \<lparr>sp_log = sample_handle [], sp_bytes = [], sp_events = [],
        sp_fold = fold_new sample_inputs\<rparr>)"
    by (simp add: establish_stable_prefix_def open_funnel_def normalize_tail_def world_defs disk_bytes_def
        stepped_def sync_directory_def sync_log_file_def disk_sync_def fails_at_def inject_modes_def
        apply_injection_def prove_stable_def torn_def parse_log_def replay_def Let_def)
  from emits_open [OF this, of reservations_new] show ?thesis by (simp add: sample_opened_def)
qed

lemma sample_plan_begin:
  "plan_transition sample_x (fold_new sample_inputs) sample_begin =
     Inr \<lparr>de_event = sample_begin, de_derived = DerivedRegistry sample_registry\<rparr> \<and>
   apply_delta \<lparr>de_event = sample_begin, de_derived = DerivedRegistry sample_registry\<rparr> (fold_new sample_inputs) =
     (fold_new sample_inputs)\<lparr>fo_run := Some sample_fresh\<rparr>"
  using sample_start
  by (simp add: plan_transition_started apply_delta_started sample_begin_def plan_transition_def apply_delta_def
      fold_new_def)

lemma sample_emit_begin:
  "emit sample_x (sample_world None) sample_identity ''t'' (EvRunStarted sample_started4) sample_opened =
     (sample_begun, Inr sample_begin)"
  using sample_plan_begin
  by (simp add: emit_def round_trip_def sample_opened_def sample_begun_def world_defs sample_decode_def Let_def
      append_topology_def topology_append_sites_def check_scope_def check_poison_def write_committed_def
      write_line_def sync_line_def write_or_poison_def at_point_def apply_injection_def disk_write_def disk_bytes_def
      disk_sync_def site_for_def sample_begin_def)

lemma sample_one_line: "one_line (ew_encode (sample_world fault))"
  by (simp add: one_line_def sample_world_def newline_def)

lemma sample_begun_emits: "emits sample_x sample_decode sample_inputs sample_begun True"
  using emits_write [OF sample_opened_emits _ sample_one_line sample_emit_begin]
  by (simp add: sample_world_def)

theorem acknowledged_events_survive_a_crash_witness:
  "emits sample_x sample_decode sample_inputs sample_begun True \<and>
   crash_leaves (lg_disk (em_log sample_begun)) (Some (''{1}'' @ [newline])) \<and>
   parse_log sample_decode (''{1}'' @ [newline]) = Inr [sample_begin]"
proof -
  have c: "crash_leaves (lg_disk (em_log sample_begun)) (Some (''{1}'' @ [newline]))"
    by (simp add: crash_leaves_def sample_begun_def sample_handle_def)
  have "lg_poisoned (em_log sample_begun) = None" "em_events sample_begun = [sample_begin]"
    by (simp_all add: sample_begun_def sample_handle_def)
  with acknowledged_events_survive_a_crash [OF sample_begun_emits c] have
    "parse_log sample_decode (''{1}'' @ [newline]) = Inr [sample_begin]" by auto
  with c sample_begun_emits show ?thesis by blast
qed

subsection \<open>What a failed append reports\<close>

lemma emit_append_failed:
  assumes "emit x w identity ts body st = (st', Inl (EmitAppendFailed u))"
  obtains line checked delta log cause where
    "round_trip (ew_encode w) (ew_decode w) \<lparr>ev_ts = ts, ev_body = body\<rparr> = Inr (line, checked)"
    "plan_transition x (em_fold st) checked = Inr delta"
    "append_topology (ew_hooks w) (ew_append w) (site_for (ev_body checked)) line (em_log st) = (log, Inl (LogFailed cause))"
    "lg_poisoned (em_log st) = None" "lg_poisoned log \<noteq> None"
    "emit_protocol x w identity line (site_for (ev_body checked)) cause (st\<lparr>em_log := log\<rparr>) = (st', Inl (EmitAppendFailed u))"
  using assms unfolding emit_def Let_def
  by (auto split: sum.splits prod.splits log_stop.splits if_splits simp del: not_None_eq)

lemma within_read:
  assumes "within b (l @ [newline]) d" "\<not> torn b" "newline \<notin> set l" "decode l = Some e" "parse_log decode b = Inr es"
  shows "\<exists>bytes q. dk_file d = Some bytes \<and> bytes = b @ q \<and> prefix q (l @ [newline]) \<and>
    parse_log decode bytes = Inr (if q = l @ [newline] then es @ [e] else es)"
proof -
  from assms(1) obtain q where "dk_file d = Some (b @ q)" "prefix q (l @ [newline])"
    by (auto simp: within_def)
  with parse_log_behind [OF assms(2,5,3,4)] show ?thesis by blast
qed

lemma cancel_any_empties: "rv_held (fst (cancel_any r)) = []"
  by (simp add: cancel_any_def reservation_cancel_all_def Let_def)

text \<open>What the reopening finds, and what is then said of the line.\<close>

definition outcome_true ::
  "append_outcome \<Rightarrow> string \<Rightarrow> topology_event \<Rightarrow> string \<Rightarrow> topology_event list \<Rightarrow> disk \<Rightarrow> string \<Rightarrow> topology_event list \<Rightarrow> bool" where
  "outcome_true outcome line event old es d bytes es' =
     (case outcome of
        OutcomeAbsent \<Rightarrow> es' = es \<and> dk_synced d = bytes
      | OutcomePresent \<Rightarrow>
          dk_synced d = bytes \<and> (es' = es @ [event] \<or> es' = es \<and> suffix (line @ [newline]) old)
      | OutcomeUndetermined _ _ \<Rightarrow> es' \<in> {es, es @ [event]})"

lemma reported_outcome:
  assumes b: "\<not> torn b" "parse_log decode b = Inr es" and l: "newline \<notin> set l" "decode l = Some e"
    and d: "within b (l @ [newline]) (fst s)" and line: "ty_committed line = l @ [newline]"
    and est: "establish_stable_prefix x decode' hooks io reread inputs expected s = (s', r)"
  shows "\<exists>bytes es'. dk_file (fst s') = Some bytes \<and> parse_log decode bytes = Inr es' \<and>
    outcome_true (append_outcome_of line r) l e b es (fst s') bytes es'"
proof -
  let ?full = "l @ [newline]"
  obtain r0 where o: "open_funnel hooks io SiteOpenLog s = (s', r0)" using establish_open [OF est] by metis
  have d': "within b ?full (fst s')" using within_open [OF d b(1) l(1) o] by simp
  from within_read [OF d' b(1) l b(2)] obtain bytes q where rd: "dk_file (fst s') = Some bytes" "bytes = b @ q"
    "prefix q ?full" "parse_log decode bytes = Inr (if q = ?full then es @ [e] else es)" by blast
  have "outcome_true (append_outcome_of line r) l e b es (fst s') bytes (if q = ?full then es @ [e] else es)"
  proof (cases r)
    case (Inr p)
    from establish_opened [OF est [unfolded Inr]] rd(1) have p: "sp_bytes p = bytes" "dk_synced (fst s') = bytes" "\<not> torn bytes"
      by (auto simp: log_holds_def)
    from p(3) rd(2) prefix_of_line [OF rd(3) l(1)] have "q = [] \<or> q = ?full"
      by (cases q rule: rev_cases) (auto simp: torn_def)
    with p rd(2) line Inr show ?thesis
      by (cases "q = ?full") (auto simp: outcome_true_def append_outcome_of_def suffix_def)
  next
    case (Inl f)
    then show ?thesis by (cases f) (simp add: outcome_true_def append_outcome_of_def)
  qed
  with rd(1,4) show ?thesis by blast
qed

text \<open>
  C14. When an append was entered and failed, the process stops trusting its state: the fold is
  poisoned and of itself refuses any event, nothing more is written, and nothing is reserved. What it then reports of the
  line is true of the file: absent means the log reads as before and is durable so; present means
  that it reads with the event added and is durable so, or that it already ended in the very
  bytes of the line; undetermined leaves both.
\<close>

theorem failed_append_is_reported_truly:
  assumes run: "emits x decode inputs st True" and w: "ew_decode w = decode" "one_line (ew_encode w)"
    and e: "emit x w identity ts body st = (st', Inl (EmitAppendFailed u))"
  shows "em_fold st' = poison (em_fold st) \<and> (\<forall>event. plan_transition x (em_fold st') event = Inl Poisoned) \<and>
    (\<forall>w' identity' ts' body'. \<exists>err. emit x w' identity' ts' body' st' = (st', Inl err)) \<and>
    rv_held (em_reservations st') = [] \<and>
    (\<exists>bytes es line event. dk_file (lg_disk (em_log st')) = Some bytes \<and> parse_log decode bytes = Inr es \<and>
       ew_encode w \<lparr>ev_ts = ts, ev_body = body\<rparr> = Some line \<and> decode line = Some event \<and>
       outcome_true (ua_outcome u) line event (disk_bytes (lg_disk (em_log st))) (em_events st)
         (lg_disk (em_log st')) bytes es)"
proof -
  from emit_append_failed [OF e] obtain line checked delta log cause where
    a: "round_trip (ew_encode w) (ew_decode w) \<lparr>ev_ts = ts, ev_body = body\<rparr> = Inr (line, checked)"
    "plan_transition x (em_fold st) checked = Inr delta"
    "append_topology (ew_hooks w) (ew_append w) (site_for (ev_body checked)) line (em_log st) = (log, Inl (LogFailed cause))"
    "lg_poisoned (em_log st) = None" "lg_poisoned log \<noteq> None"
    "emit_protocol x w identity line (site_for (ev_body checked)) cause (st\<lparr>em_log := log\<rparr>) = (st', Inl (EmitAppendFailed u))" .
  from round_trip_Inr [OF a(1)] w(1) obtain l where l: "ew_encode w \<lparr>ev_ts = ts, ev_body = body\<rparr> = Some l"
    "decode l = Some checked" "ty_committed line = l @ [newline]" by blast
  have nl: "newline \<notin> set l" using w(2) l(1) by (auto simp: one_line_def)
  from emits_inv [OF run] a(4) have "in_step x decode inputs st" by (auto simp: emit_inv_def in_doubt_def)
  then obtain b where b: "\<not> torn b" "log_holds b b (em_log st)" "parse_log decode b = Inr (em_events st)"
    by (auto simp: in_step_def reads_as_def)
  from append_topology_cases [OF a(3)] a(4,5) have
    "write_committed (ew_hooks w) (ew_append w) (site_for (ev_body checked)) (ty_committed line) (em_log st) = (log, Inl (LogFailed cause))"
    by auto
  from append_entered [OF b(2) this [unfolded l(3)]] have d: "within b (l @ [newline]) (lg_disk log)" by simp
  obtain d' w' r' where est: "establish_stable_prefix x (ew_decode w) (ew_hooks w) (ew_open w) (ew_reread w)
      (ri_inputs identity) (ri_first_line identity) (lg_disk log, em_warnings st) = ((d', w'), r')"
    by (metis prod.collapse)
  with a(6) have st': "em_fold st' = poison (em_fold st)" "lg_disk (em_log st') = d'"
    "em_reservations st' = fst (cancel_any (em_reservations st))" "ua_outcome u = append_outcome_of line r'"
    by (auto simp: emit_protocol_def split: prod.splits sum.splits barrier_detail.splits log_stop.splits)
  have old: "disk_bytes (lg_disk (em_log st)) = b" using b(2) by (simp add: log_holds_def disk_bytes_def)
  have refused: "\<exists>err. emit x w'' identity' ts' body' st' = (st', Inl err)" for w'' identity' ts' body'
    using st'(1) emit_poisoned [of st' x w'' identity' ts' body']
    by (cases "emit x w'' identity' ts' body' st'"; cases "snd (emit x w'' identity' ts' body' st')")
      (auto simp: poison_def)
  have "\<exists>bytes es. dk_file d' = Some bytes \<and> parse_log decode bytes = Inr es \<and>
      outcome_true (ua_outcome u) l checked b (em_events st) d' bytes es"
    using reported_outcome [OF b(1,3) nl l(2) _ l(3) est] d st'(4) by simp
  moreover have "plan_transition x (em_fold st') event = Inl Poisoned" for event
    using st'(1) by (simp add: plan_transition_def poison_def)
  ultimately show ?thesis using refused cancel_any_empties st' l(1,2) old by auto
qed

definition sample_torn :: "emit_state \<times> uncancelled_append" where
  "sample_torn =
     (sample_opened\<lparr>em_fold := poison (fold_new sample_inputs), em_log := (sample_handle [])\<lparr>lg_poisoned := Some (SiteAppendFirst, PtWritten)\<rparr>,
        em_reservations := fst (cancel_any reservations_new), em_warnings := [2]\<rparr>,
      \<lparr>ua_run_id = ''r'', ua_kind = ''run_started'', ua_site = SiteAppendFirst, ua_cause = LogIo,
       ua_outcome = OutcomeAbsent, ua_cancelled_reservation = snd (cancel_any reservations_new)\<rparr>)"

lemma sample_emit_torn:
  "emit sample_x (sample_world (Some 2)) sample_identity ''t'' (EvRunStarted sample_started4) sample_opened =
     (fst sample_torn, Inl (EmitAppendFailed (snd sample_torn)))"
proof -
  have nl: "CHR ''1'' \<noteq> newline" "CHR ''{'' \<noteq> newline" "newline \<noteq> CHR ''1''" by (simp_all add: newline_def)
  have ec: "event_kind (EvRunStarted sample_started4) = ''run_started''" by code_simp
  show ?thesis
    using sample_plan_begin nl ec
    by (simp add: emit_def emit_protocol_def round_trip_def sample_opened_def sample_torn_def world_defs
        sample_decode_def Let_def append_topology_def topology_append_sites_def check_scope_def check_poison_def
        write_committed_def write_line_def write_or_poison_def log_poison_def disk_write_def disk_bytes_def
        site_for_def sample_begin_def establish_stable_prefix_def open_funnel_def normalize_tail_def torn_def
        committed_prefix_def stepped_def sync_directory_def sync_log_file_def disk_sync_def fails_at_def inject_modes_def
        apply_injection_def prove_stable_def parse_log_def replay_def append_outcome_of_def split: prod.splits)
qed

theorem failed_append_is_reported_truly_witness:
  "em_fold (fst sample_torn) = poison (em_fold sample_opened) \<and> ua_outcome (snd sample_torn) = OutcomeAbsent \<and>
   rv_held (em_reservations (fst sample_torn)) = [] \<and>
   parse_log sample_decode (disk_bytes (lg_disk (em_log (fst sample_torn)))) = Inr []"
proof -
  have w: "ew_decode (sample_world (Some 2)) = sample_decode" by (simp add: sample_world_def)
  from failed_append_is_reported_truly [OF sample_opened_emits w sample_one_line sample_emit_torn] show ?thesis
    by (auto simp: sample_torn_def outcome_true_def sample_opened_def disk_bytes_def poison_def)
qed

end
