(* ===== verification/Integrate_Facts.thy ===== *)
theory Integrate_Facts
  imports Candidate Crash_Facts
begin

section \<open>The integration ref follows the log\<close>

text \<open>
  The log and the integration ref are two stores, and a crash can fall between them. The invariant
  is that the ref is where the log's last publication put it, or, while a publication is
  authorized and not yet recorded, at its expected head or at its proposal. It is proved of every
  log a crash may leave, through any sequence of events, integrations, recoveries and crashes, with
  every outcome of the calls to git and of the writes to the log.
\<close>

subsection \<open>The relation between a log and the refs\<close>

text \<open>What is relied on of the serializer: a line has no newline and reads back as its event.\<close>

definition serde :: "(topology_event \<Rightarrow> string option) \<Rightarrow> (string \<Rightarrow> topology_event option) \<Rightarrow> bool" where
  "serde encode decode \<longleftrightarrow> (\<forall>e line. encode e = Some line \<longrightarrow> newline \<notin> set line \<and> decode line = Some e)"

text \<open>A run integrates on the branch that carries its id, which is no pin.\<close>

definition ref_apart :: "run_started4 \<Rightarrow> bool" where
  "ref_apart started \<longleftrightarrow> s4_integration_ref started = integration_ref_for (s4_run_id started)"

definition own_pin :: "run_started4 \<Rightarrow> git_ref option \<Rightarrow> bool" where
  "own_pin started pin \<longleftrightarrow>
     pin = None \<or> (\<exists>n. pin = Some (prepared_pin_ref (s4_run_id started) n)) \<or>
     (\<exists>key generation. pin = Some (candidate_pin_ref (s4_run_id started) key generation))"

definition at_head :: "topology_event list \<Rightarrow> run_started4 \<Rightarrow> (git_ref \<Rightarrow> commit_sha option) \<Rightarrow> bool" where
  "at_head es started refs \<longleftrightarrow>
     refs (s4_integration_ref started) = Some (ah_head (authorized_head_of started es)) \<or>
     refs (s4_integration_ref started) = None \<and> last_publication es = None"

definition basis_pin :: "verification_basis \<Rightarrow> git_ref option" where
  "basis_pin basis = (case basis of BasisStaleClean pin \<Rightarrow> Some pin | BasisAlreadyPresent \<Rightarrow> None)"

text \<open>Every pin the log names is a pin of this run.\<close>

definition pins_own :: "topology_event list \<Rightarrow> run_started4 \<Rightarrow> bool" where
  "pins_own es started \<longleftrightarrow>
     list_all (\<lambda>e. case ev_body e of EvMergeVerificationStarted d \<Rightarrow> own_pin started (basis_pin (vs_basis d)) | _ \<Rightarrow> True) es"

definition head_follows :: "topology_event list \<Rightarrow> run_state \<Rightarrow> (git_ref \<Rightarrow> commit_sha option) \<Rightarrow> bool" where
  "head_follows es run refs \<longleftrightarrow>
     (let started = st_started run in
      pins_own es started \<and>
      (case map_option tx_class (st_transaction run) of
        None \<Rightarrow> at_head es started refs
      | Some (VerificationStarted basis _ _) \<Rightarrow> at_head es started refs \<and> own_pin started (basis_pin basis)
      | Some (Prepared expected proposed _ _ pin) \<Rightarrow>
          expected = ah_head (authorized_head_of started es) \<and>
          refs (s4_integration_ref started) \<in> {Some expected, Some proposed} \<and> own_pin started pin))"

text \<open>
  Every candidate the log records is named after its task and generation, and once it is recorded
  as created its ref is at its commit.
\<close>

definition candidates_named :: "topology_event list \<Rightarrow> run_started4 \<Rightarrow> bool" where
  "candidates_named es started \<longleftrightarrow>
     list_all (\<lambda>e. case ev_body e of
       EvCandidatePrepared d \<Rightarrow> cp_candidate_ref d = candidates_ref (s4_run_id started) (cp_key d) (cp_generation d)
     | _ \<Rightarrow> True) es"

definition candidates_kept :: "topology_event list \<Rightarrow> (git_ref \<Rightarrow> commit_sha option) \<Rightarrow> bool" where
  "candidates_kept es refs \<longleftrightarrow>
     list_all (\<lambda>e. case ev_body e of
       EvTaskCandidateCreated d \<Rightarrow> refs (cr_candidate_ref (tc_candidate d)) = Some (cr_commit_sha (tc_candidate d))
     | _ \<Rightarrow> True) es"

definition created_named :: "topology_event list \<Rightarrow> run_started4 \<Rightarrow> bool" where
  "created_named es started \<longleftrightarrow>
     list_all (\<lambda>e. case ev_body e of
       EvTaskCandidateCreated d \<Rightarrow>
         (\<exists>key generation. cr_candidate_ref (tc_candidate d) = candidates_ref (s4_run_id started) key generation)
     | _ \<Rightarrow> True) es"

definition candidates_follow :: "topology_event list \<Rightarrow> run_state \<Rightarrow> (git_ref \<Rightarrow> commit_sha option) \<Rightarrow> bool" where
  "candidates_follow es run refs \<longleftrightarrow>
     candidates_named es (st_started run) \<and> created_named es (st_started run) \<and>
     (st_finished run \<noteq> Some OutComplete \<longrightarrow> candidates_kept es refs)"

definition agrees :: "externals \<Rightarrow> frozen_inputs \<Rightarrow> topology_event list \<Rightarrow> (git_ref \<Rightarrow> commit_sha option) \<Rightarrow> bool" where
  "agrees x inputs es refs \<longleftrightarrow>
     (\<forall>f run. replay x inputs es = Inr f \<longrightarrow> fo_run f = Some run \<longrightarrow>
        ref_apart (st_started run) \<and> head_follows es run refs \<and> candidates_follow es run refs)"

lemma last_publication_snoc [simp]:
  "last_publication (es @ [e]) = (case ev_body e of EvTaskMerged merged \<Rightarrow> Some merged | _ \<Rightarrow> last_publication es)"
  by (induction es) (auto split: option.splits topology_event_body.splits)

lemma pins_own_snoc [simp]:
  "pins_own (es @ [e]) started \<longleftrightarrow> pins_own es started \<and>
     (case ev_body e of EvMergeVerificationStarted d \<Rightarrow> own_pin started (basis_pin (vs_basis d)) | _ \<Rightarrow> True)"
  "pins_own [] started"
  by (simp_all add: pins_own_def)

text \<open>The names of this run's refs are apart from each other.\<close>

lemmas ref_names =
  ref_apart_def own_pin_def integration_ref_for_def prepared_pin_ref_def candidate_pin_ref_def candidates_ref_def ref_root_def

lemma own_pin_apart: "ref_apart started \<Longrightarrow> own_pin started (Some pin) \<Longrightarrow> pin \<noteq> s4_integration_ref started"
  by (auto simp: ref_names)

lemma own_pin_no_candidate: "own_pin started (Some pin) \<Longrightarrow> pin \<noteq> candidates_ref (s4_run_id started) key generation"
  by (auto simp: ref_names)

lemma candidate_apart: "ref_apart started \<Longrightarrow> candidates_ref run_id key generation \<noteq> s4_integration_ref started"
  by (auto simp: ref_names)

subsection \<open>One more event\<close>

text \<open>Events that are about no publication, and of those the ones about no candidate.\<close>

definition still :: "topology_event_body \<Rightarrow> bool" where
  "still body \<longleftrightarrow>
     (case body of
        EvRunStarted _ \<Rightarrow> False | EvMergeVerificationStarted _ \<Rightarrow> False | EvMergePrepared _ \<Rightarrow> False
      | EvTaskMerged _ \<Rightarrow> False | _ \<Rightarrow> True)"

definition of_candidate :: "topology_event_body \<Rightarrow> bool" where
  "of_candidate body \<longleftrightarrow> (case body of EvCandidatePrepared _ \<Rightarrow> True | EvTaskCandidateCreated _ \<Rightarrow> True | _ \<Rightarrow> False)"

definition quiet :: "topology_event_body \<Rightarrow> bool" where
  "quiet body \<longleftrightarrow> still body \<and> \<not> of_candidate body"

lemmas quiet_defs = quiet_def still_def of_candidate_def

lemma candidates_snoc:
  assumes "\<not> of_candidate (ev_body e)"
  shows "candidates_named (es @ [e]) started = candidates_named es started"
    "created_named (es @ [e]) started = created_named es started" "candidates_kept (es @ [e]) refs = candidates_kept es refs"
  using assms
  by (simp_all add: candidates_named_def created_named_def candidates_kept_def of_candidate_def split: topology_event_body.splits)

lemma not_complete: "check_started_run x run body = Inr dv \<Longrightarrow> st_finished run \<noteq> Some OutComplete"
  by (auto simp: check_started_run_def)

lemma agreesI:
  assumes head: "\<And>f1 run1 dv. replay x inputs es = Inr f1 \<Longrightarrow> fo_run f1 = Some run1 \<Longrightarrow>
      check_started_run x run1 (ev_body e) = Inr dv \<Longrightarrow> ref_apart (st_started run1) \<Longrightarrow> head_follows es run1 refs \<Longrightarrow>
      head_follows (es @ [e]) (apply_body (ev_body e) dv run1) refs"
    and ag: "agrees x inputs es refs" and later: "\<And>d. ev_body e \<noteq> EvRunStarted d"
    and candidate: "\<And>f1 run1. replay x inputs es = Inr f1 \<Longrightarrow> fo_run f1 = Some run1 \<Longrightarrow> of_candidate (ev_body e) \<Longrightarrow>
      candidates_named es (st_started run1) \<Longrightarrow> created_named es (st_started run1) \<Longrightarrow> candidates_kept es refs \<Longrightarrow>
      candidates_named (es @ [e]) (st_started run1) \<and> created_named (es @ [e]) (st_started run1) \<and>
      candidates_kept (es @ [e]) refs"
  shows "agrees x inputs (es @ [e]) refs"
  unfolding agrees_def
proof (intro allI impI)
  fix f run assume r: "replay x inputs (es @ [e]) = Inr f" "fo_run f = Some run"
  from r(1) show "ref_apart (st_started run) \<and> head_follows (es @ [e]) run refs \<and> candidates_follow (es @ [e]) run refs"
  proof (cases rule: replay_snoc_cases)
    case (step f1 run1 dv)
    moreover from ag step(1,2) have a: "ref_apart (st_started run1)" "head_follows es run1 refs" "candidates_follow es run1 refs"
      by (auto simp: agrees_def)
    moreover from a(3) not_complete [OF step(3)] candidate [OF step(1,2)] candidates_snoc [of e es]
    have "candidates_named (es @ [e]) (st_started run1) \<and> created_named (es @ [e]) (st_started run1) \<and>
        candidates_kept (es @ [e]) refs"
      by (cases "of_candidate (ev_body e)") (auto simp: candidates_follow_def)
    ultimately show ?thesis using head [of f1 run1 dv] r(2) by (auto simp: candidates_follow_def)
  qed (use later in blast)
qed

text \<open>A prepared transaction ends only with the record of its merge.\<close>

lemma prepared_refuses:
  assumes "st_transaction run = Some tx" "tx_class tx = Prepared expected proposed sat disposition pin"
  shows "check_verification_started x run vs \<noteq> Inr ()" "check_verification_unavailable run vu \<noteq> Inr ()"
    "check_verification_interrupted run vi \<noteq> Inr ()" "check_merge_prepared x run mp \<noteq> Inr ()"
    "check_merge_rejected x run mr \<noteq> Inr ()"
proof -
  have start: "check_transaction_start x run kind sq c \<noteq> Inr e" for kind sq c e
    using assms by (simp add: check_transaction_start_def)
  show "check_verification_started x run vs \<noteq> Inr ()"
    using assms(1) by (auto simp: check_verification_started_def Let_def result_simps)
  show "check_verification_unavailable run vu \<noteq> Inr ()"
    using assms by (auto simp: check_verification_unavailable_def Let_def result_simps split: sum.splits if_splits)
  show "check_verification_interrupted run vi \<noteq> Inr ()"
    using assms by (auto simp: check_verification_interrupted_def Let_def result_simps split: if_splits)
  have "check_fast_publication x run mp c \<noteq> Inr ()" "check_verified_publication run mp \<noteq> Inr ()" for c
    using assms start by (auto simp: check_fast_publication_def check_verified_publication_def Let_def result_simps)
  then show "check_merge_prepared x run mp \<noteq> Inr ()"
    by (auto simp: check_merge_prepared_def Let_def result_simps split: sum.splits if_splits)
  have "check_rejection_transaction x run mr \<noteq> Inr ()"
    using assms start by (auto simp: check_rejection_transaction_def Let_def result_simps split: rejection_disposition.splits)
  then show "check_merge_rejected x run mr \<noteq> Inr ()"
    by (auto simp: check_merge_rejected_def Let_def result_simps split: if_splits)
qed

lemma prepared_stays:
  assumes "check_started_run x run body = Inr dv" "st_transaction run = Some tx"
    and "tx_class tx = Prepared expected proposed sat disposition pin" "\<And>m. body \<noteq> EvTaskMerged m"
  shows "st_transaction (apply_body body dv run) = Some tx"
proof -
  from assms(1) have "check_body x run body = Inr dv" by (simp add: result_simps)
  then show ?thesis using assms(2-4) prepared_refuses [OF assms(2,3)]
    by (cases body) (auto simp: check_body_def result_simps transaction_apply_body)
qed

lemma head_still:
  assumes still: "still (ev_body e)" and c: "check_started_run x run1 (ev_body e) = Inr dv" and h: "head_follows es run1 refs"
  shows "head_follows (es @ [e]) (apply_body (ev_body e) dv run1) refs"
proof -
  have same: "last_publication (es @ [e]) = last_publication es"
    using still by (simp add: still_def split: topology_event_body.splits)
  have pins: "pins_own (es @ [e]) started = pins_own es started" for started
    using still by (simp add: still_def split: topology_event_body.splits)
  have tx: "st_transaction (apply_body (ev_body e) dv run1) = st_transaction run1 \<or>
      st_transaction (apply_body (ev_body e) dv run1) = None \<and>
      (\<forall>tx. st_transaction run1 = Some tx \<longrightarrow> is_verifying (tx_class tx))"
  proof (cases "\<exists>tx. st_transaction run1 = Some tx \<and> \<not> is_verifying (tx_class tx)")
    case True
    then obtain tx expected proposed sat disposition pin where
      "st_transaction run1 = Some tx" "tx_class tx = Prepared expected proposed sat disposition pin"
      by (metis is_verifying.elims(3))
    with prepared_stays [OF c this] still show ?thesis by (force simp: still_def)
  next
    case False
    then show ?thesis using still
      by (cases "ev_body e") (auto simp: transaction_apply_body still_def)
  qed
  have "st_started (apply_body (ev_body e) dv run1) = st_started run1" by simp
  with tx h show ?thesis
    unfolding head_follows_def at_head_def authorized_head_of_def pins same
    by (auto simp: Let_def split: option.splits transaction_class.splits)
qed

lemma still_later: "still body \<Longrightarrow> body \<noteq> EvRunStarted d"
  by (auto simp: still_def)

lemma agrees_still:
  assumes "agrees x inputs es refs" "still (ev_body e)"
    and "\<And>f1 run1. replay x inputs es = Inr f1 \<Longrightarrow> fo_run f1 = Some run1 \<Longrightarrow> of_candidate (ev_body e) \<Longrightarrow>
      candidates_named es (st_started run1) \<Longrightarrow> created_named es (st_started run1) \<Longrightarrow> candidates_kept es refs \<Longrightarrow>
      candidates_named (es @ [e]) (st_started run1) \<and> created_named (es @ [e]) (st_started run1) \<and>
      candidates_kept (es @ [e]) refs"
  shows "agrees x inputs (es @ [e]) refs"
  by (rule agreesI [OF _ assms(1)]) (use assms(2,3) in \<open>auto intro: head_still dest: still_later\<close>)

lemma agrees_quiet: "agrees x inputs es refs \<Longrightarrow> quiet (ev_body e) \<Longrightarrow> agrees x inputs (es @ [e]) refs"
  by (rule agrees_still) (auto simp: quiet_def)

lemma agrees_candidate_prepared:
  assumes "agrees x inputs es refs" "ev_body e = EvCandidatePrepared d"
    and "\<And>f run. replay x inputs es = Inr f \<Longrightarrow> fo_run f = Some run \<Longrightarrow>
      cp_candidate_ref d = candidates_ref (s4_run_id (st_started run)) (cp_key d) (cp_generation d)"
  shows "agrees x inputs (es @ [e]) refs"
  by (rule agrees_still [OF assms(1)])
    (use assms(2,3) in \<open>auto simp: still_def candidates_named_def created_named_def candidates_kept_def\<close>)

lemma agrees_candidate_created:
  assumes "agrees x inputs es refs" "ev_body e = EvTaskCandidateCreated \<lparr>tc_candidate = c\<rparr>"
    and "refs (cr_candidate_ref c) = Some (cr_commit_sha c)"
    and "\<And>f run. replay x inputs es = Inr f \<Longrightarrow> fo_run f = Some run \<Longrightarrow>
      \<exists>key generation. cr_candidate_ref c = candidates_ref (s4_run_id (st_started run)) key generation"
  shows "agrees x inputs (es @ [e]) refs"
  by (rule agrees_still [OF assms(1)])
    (use assms(2-4) in \<open>auto simp: still_def candidates_named_def created_named_def candidates_kept_def\<close>)

lemma agrees_verifying:
  assumes "agrees x inputs es refs" "ev_body e = EvMergeVerificationStarted d"
    and "\<And>f run. replay x inputs es = Inr f \<Longrightarrow> fo_run f = Some run \<Longrightarrow> own_pin (st_started run) (basis_pin (vs_basis d))"
  shows "agrees x inputs (es @ [e]) refs"
proof (rule agreesI [OF _ assms(1)])
  fix f1 run1 dv assume r: "replay x inputs es = Inr f1" "fo_run f1 = Some run1"
    and c: "check_started_run x run1 (ev_body e) = Inr dv" and h: "head_follows es run1 refs"
  from c have "st_transaction run1 = None"
    using assms(2) by (auto simp: result_simps check_body_def check_verification_started_def Let_def)
  with h assms(3) [OF r] assms(2) show "head_follows (es @ [e]) (apply_body (ev_body e) dv run1) refs"
    by (simp add: head_follows_def transaction_apply_body Let_def at_head_def authorized_head_of_def)
qed (use assms(2) in \<open>auto simp: of_candidate_def\<close>)

lemma agrees_prepared:
  assumes "agrees x inputs es refs" "ev_body e = EvMergePrepared d"
    and "\<And>f run. replay x inputs es = Inr f \<Longrightarrow> fo_run f = Some run \<Longrightarrow>
      refs (s4_integration_ref (st_started run)) = Some (mp_expected_head d) \<and> own_pin (st_started run) (mp_prepared_ref d)"
  shows "agrees x inputs (es @ [e]) refs"
proof (rule agreesI [OF _ assms(1)])
  fix f1 run1 dv assume r: "replay x inputs es = Inr f1" "fo_run f1 = Some run1"
    and c: "check_started_run x run1 (ev_body e) = Inr dv" and h: "head_follows es run1 refs"
  from c have "check_merge_prepared x run1 d = Inr ()" using assms(2) by (auto simp: result_simps check_body_def)
  then have "\<forall>tx. st_transaction run1 = Some tx \<longrightarrow> is_verifying (tx_class tx)"
    using prepared_refuses(4) by (metis is_verifying.elims(3))
  with h have "at_head es (st_started run1) refs" "pins_own es (st_started run1)"
    by (auto simp: head_follows_def Let_def split: option.splits transaction_class.splits)
  with assms(3) [OF r] assms(2) show "head_follows (es @ [e]) (apply_body (ev_body e) dv run1) refs"
    by (simp add: head_follows_def transaction_apply_body Let_def at_head_def authorized_head_of_def)
qed (use assms(2) in \<open>auto simp: of_candidate_def\<close>)

lemma agrees_merged:
  assumes "agrees x inputs es refs" "ev_body e = EvTaskMerged m"
    and "\<And>f run. replay x inputs es = Inr f \<Longrightarrow> fo_run f = Some run \<Longrightarrow>
      refs (s4_integration_ref (st_started run)) = Some (tm_merged_sha m)"
  shows "agrees x inputs (es @ [e]) refs"
proof (rule agreesI [OF _ assms(1)])
  fix f1 run1 dv assume r: "replay x inputs es = Inr f1" "fo_run f1 = Some run1" and h: "head_follows es run1 refs"
  from h have "pins_own es (st_started run1)" by (simp add: head_follows_def Let_def)
  with r assms(2,3) show "head_follows (es @ [e]) (apply_body (ev_body e) dv run1) refs"
    by (simp add: head_follows_def transaction_apply_body Let_def at_head_def authorized_head_of_def)
qed (use assms(2) in \<open>auto simp: of_candidate_def\<close>)

lemma replay_no_run: "replay x inputs es = Inr f \<Longrightarrow> fo_run f = None \<Longrightarrow> es = []"
  by (cases es rule: rev_cases) (auto elim!: replay_snoc_cases)

lemma agrees_begin:
  assumes "ev_body e = EvRunStarted d" "ref_apart d"
    and "refs (s4_integration_ref d) \<in> {None, Some (s4_base_sha d)}"
  shows "agrees x inputs (es @ [e]) refs"
  unfolding agrees_def
proof (intro allI impI)
  fix f run assume r: "replay x inputs (es @ [e]) = Inr f" "fo_run f = Some run"
  from r(1) show "ref_apart (st_started run) \<and> head_follows (es @ [e]) run refs \<and> candidates_follow (es @ [e]) run refs"
  proof (cases rule: replay_snoc_cases)
    case (start d' registry)
    then have "es = []" using replay_no_run by blast
    with start r(2) assms show ?thesis
      by (auto simp: run_start_def head_follows_def at_head_def authorized_head_of_def pins_own_def
          candidates_follow_def candidates_named_def created_named_def candidates_kept_def)
  qed (use assms(1) in blast)
qed

subsection \<open>Writing an event\<close>

text \<open>A process that lost a write but has not died has poisoned its fold.\<close>

definition running :: "emit_state \<Rightarrow> bool" where
  "running st \<longleftrightarrow> lg_poisoned (em_log st) = None \<or> fo_poisoned (em_fold st)"

definition engine_inv ::
  "externals \<Rightarrow> (string \<Rightarrow> topology_event option) \<Rightarrow> frozen_inputs \<Rightarrow> emit_state \<Rightarrow> (git_ref \<Rightarrow> commit_sha option) \<Rightarrow> bool" where
  "engine_inv x decode inputs st refs \<longleftrightarrow>
     agrees x inputs (em_events st) refs \<and>
     (in_step x decode inputs st \<or>
      (\<exists>f e. in_doubt x decode inputs st f e \<and> em_fold st \<in> {f, poison f} \<and> agrees x inputs (em_events st @ [e]) refs))"

lemma in_step_replay: "in_step x decode inputs st \<Longrightarrow> replay x inputs (em_events st) = Inr (em_fold st)"
  by (auto simp: in_step_def reads_as_def)

lemma engine_inv_step: "in_step x decode inputs st \<Longrightarrow> agrees x inputs (em_events st) refs \<Longrightarrow> engine_inv x decode inputs st refs"
  by (simp add: engine_inv_def)

lemma reserved_inv [simp]:
  "in_step x decode inputs (st\<lparr>em_reservations := rv\<rparr>) = in_step x decode inputs st"
  "in_doubt x decode inputs (st\<lparr>em_reservations := rv\<rparr>) f e = in_doubt x decode inputs st f e"
  "engine_inv x decode inputs (st\<lparr>em_reservations := rv\<rparr>) refs = engine_inv x decode inputs st refs"
  by (simp_all add: in_step_def in_doubt_def engine_inv_def)

lemma emit_follows:
  assumes inv: "engine_inv x decode inputs st refs" and run: "running st"
    and w: "serde (ew_encode w) decode" "ew_decode w = decode"
    and new: "\<And>e. in_step x decode inputs st \<Longrightarrow> ev_body e = body \<Longrightarrow> agrees x inputs (em_events st @ [e]) refs"
    and e: "emit x w identity ts body st = (st', r)"
  shows "engine_inv x decode inputs st' refs \<and>
    (\<forall>event. r = Inr event \<longrightarrow> in_step x decode inputs st' \<and> em_events st' = em_events st @ [event] \<and> ev_body event = body)"
proof -
  have one: "one_line (ew_encode w)" using w(1) by (auto simp: serde_def one_line_def)
  have body: "ev_body event = body" if "sent w ts body event" for event
    using that w by (auto simp: sent_def serde_def)
  from inv consider (step) "in_step x decode inputs st" | (doubt) f ev where "in_doubt x decode inputs st f ev"
    by (auto simp: engine_inv_def)
  then show ?thesis
  proof cases
    case step
    from inv have ag: "agrees x inputs (em_events st) refs" by (simp add: engine_inv_def)
    from emit_in_step [OF step w(2) one e] show ?thesis
    proof (elim disjE exE conjE)
      assume s: "in_step x decode inputs st'" "case r of Inl _ \<Rightarrow> em_events st' = em_events st
        | Inr event \<Rightarrow> em_events st' = em_events st @ [event] \<and> sent w ts body event"
      show ?thesis
      proof (cases r)
        case (Inl err)
        with s ag show ?thesis by (simp add: engine_inv_def)
      next
        case (Inr event)
        with s new [OF step, of event] body show ?thesis by (simp add: engine_inv_def)
      qed
    next
      fix event err
      assume "in_doubt x decode inputs st' (em_fold st) event" "sent w ts body event" "r = Inl err"
        "em_events st' = em_events st" "em_fold st' \<in> {em_fold st, poison (em_fold st)}"
      with ag new [OF step, of event] body show ?thesis by (auto simp: engine_inv_def)
    qed
  next
    case doubt
    then have "fo_poisoned (em_fold st)" using run by (auto simp: running_def in_doubt_def)
    from emit_poisoned [OF this e] inv show ?thesis by blast
  qed
qed

subsection \<open>Programs over a journal and a repository\<close>

text \<open>
  \<open>ok E Q\<close> holds of the outcome of a step that ends in a state of \<open>E\<close> when it fails and in one of
  \<open>Q\<close>, with its result, when it does not.
\<close>

definition ok :: "('s \<Rightarrow> bool) \<Rightarrow> ('a \<Rightarrow> 's \<Rightarrow> bool) \<Rightarrow> 's \<times> ('e, 'a) result \<Rightarrow> bool" where
  "ok E Q p = (case p of (s, Inl _) \<Rightarrow> E s | (s, Inr a) \<Rightarrow> Q a s)"

lemma ok_simps [simp]: "ok E Q (s, Inl e) = E s" "ok E Q (s, Inr a) = Q a s"
  by (simp_all add: ok_def)

lemma ok_and_then:
  assumes "ok E Q' p" "\<And>a s. Q' a s \<Longrightarrow> ok E Q (g a s)"
  shows "ok E Q (and_then p g)"
proof (cases p)
  case (Pair s r)
  with assms show ?thesis by (cases r) auto
qed

lemma ok_weaken: "ok E Q p \<Longrightarrow> (\<And>a s. Q a s \<Longrightarrow> Q' a s) \<Longrightarrow> ok E Q' p"
  by (auto simp: ok_def split: prod.splits sum.splits)

lemma ok_each: "P s \<Longrightarrow> (\<And>a s. P s \<Longrightarrow> ok E (\<lambda>_. P) (f a s)) \<Longrightarrow> ok E (\<lambda>_. P) (each_do f as s)"
  by (induction "as" arbitrary: s) (auto intro: ok_and_then)

lemma ok_opt: "P s \<Longrightarrow> (\<And>a s. v = Some a \<Longrightarrow> P s \<Longrightarrow> ok E (\<lambda>_. P) (f a s)) \<Longrightarrow> ok E (\<lambda>_. P) (opt_do f v s)"
  by (cases v) (auto simp: opt_do_def)

text \<open>A property of the journal and the refs, and calls that do not move the refs it speaks of.\<close>

definition refs_kept :: "(repository \<Rightarrow> repository \<times> (repo_error, 'a) result) \<Rightarrow> bool" where
  "refs_kept f \<longleftrightarrow> (\<forall>r. rp_refs (fst (f r)) = rp_refs r)"

lemma refs_kept_simps [simp]:
  "refs_kept (assert_publishable name)" "refs_kept (direct_ref_target name)" "refs_kept (write_intent slot)"
  "refs_kept (remove_intent slot)" "refs_kept (touch_worktree slot)" "refs_kept list_intents"
  by (auto simp: refs_kept_def assert_publishable_def direct_ref_target_def write_intent_def remove_intent_def
      touch_worktree_def list_intents_def repo_call_def split: list.splits fault.splits)

definition on :: "('s \<Rightarrow> (git_ref \<Rightarrow> commit_sha option) \<Rightarrow> bool) \<Rightarrow> 's \<times> repository \<Rightarrow> bool" where
  "on P s \<longleftrightarrow> P (fst s) (rp_refs (snd s))"

lemma ok_with_repo:
  assumes "on P s" "refs_kept f" "\<And>j refs. P j refs \<Longrightarrow> I j refs"
  shows "ok (on I) (\<lambda>_. on P) (with_repo f s)"
proof (cases "f (snd s)")
  case (Pair r v)
  then have "rp_refs r = rp_refs (snd s)" using assms(2) by (metis fst_conv refs_kept_def)
  with Pair assms(1,3) show ?thesis by (cases v) (simp_all add: with_repo_def on_def)
qed

lemma ok_target:
  assumes "on P s" "\<And>j refs. P j refs \<Longrightarrow> I j refs"
  shows "ok (on I) (\<lambda>target s. on P s \<and> target = rp_refs (snd s) name) (with_repo (direct_ref_target name) s)"
  using assms
  by (auto simp: on_def with_repo_def direct_ref_target_def repo_call_def ok_def split: list.splits fault.splits)

text \<open>A call that sets one ref or leaves the refs alone, and does set it when it succeeds.\<close>

definition moves :: "git_ref \<Rightarrow> commit_sha option \<Rightarrow> (repository \<Rightarrow> repository \<times> (repo_error, unit) result) \<Rightarrow> bool" where
  "moves name new f \<longleftrightarrow>
     (\<forall>r. rp_refs (fst (f r)) = (rp_refs r)(name := new) \<or> rp_refs (fst (f r)) = rp_refs r \<and> snd (f r) \<noteq> Inr ())"

lemma moves_simps [simp]:
  "moves name (Some new) (compare_and_swap_ref name old new)" "moves name (Some new) (create_ref_zero_old name new)"
  "moves name None (delete_ref_expected_old name old)"
  by (auto simp: moves_def compare_and_swap_ref_def create_ref_zero_old_def delete_ref_expected_old_def and_then_def
      assert_publishable_def repo_call_def update_ref_def set_ref_def split: list.splits fault.splits sum.splits)

lemma ok_update:
  assumes "on P s" "P (fst s) ((rp_refs (snd s))(name := new))" "\<And>j refs. P j refs \<Longrightarrow> I j refs" "moves name new f"
  shows "ok (on I) (\<lambda>_ s. on P s \<and> rp_refs (snd s) name = new) (with_repo f s)"
proof (cases "f (snd s)")
  case (Pair r v)
  with assms(4) have "rp_refs r = (rp_refs (snd s))(name := new) \<or> rp_refs r = rp_refs (snd s) \<and> v \<noteq> Inr ()"
    by (metis fst_conv snd_conv moves_def)
  with Pair assms(1-3) show ?thesis by (cases v) (auto simp: with_repo_def on_def)
qed

subsection \<open>What stays true when refs and logs change\<close>

text \<open>A pin of the log's run, and an authorization that is the log's open transaction.\<close>

definition owned :: "externals \<Rightarrow> frozen_inputs \<Rightarrow> topology_event list \<Rightarrow> git_ref option \<Rightarrow> bool" where
  "owned x inputs es pin \<longleftrightarrow>
     (\<exists>f run. replay x inputs es = Inr f \<and> fo_run f = Some run \<and> own_pin (st_started run) pin)"

definition authorizes :: "externals \<Rightarrow> frozen_inputs \<Rightarrow> topology_event list \<Rightarrow> authorized \<Rightarrow> bool" where
  "authorizes x inputs es a \<longleftrightarrow>
     (\<exists>f run tx sat disposition. replay x inputs es = Inr f \<and> fo_run f = Some run \<and> st_transaction run = Some tx \<and>
        tx_class tx = Prepared (az_expected_head a) (az_proposed_sha a) sat disposition (az_pin a) \<and>
        az_integration_ref a = s4_integration_ref (st_started run))"

lemma run_continues:
  assumes "replay x inputs es = Inr f" "fo_run f = Some run" "replay x inputs (es @ [e]) = Inr f'"
  obtains run' dv where "fo_run f' = Some run'" "run' = apply_body (ev_body e) dv run" "st_started run' = st_started run"
    "check_started_run x run (ev_body e) = Inr dv"
  using assms(3)
proof (cases rule: replay_snoc_cases)
  case (step f1 run1 dv)
  with assms(1,2) that show ?thesis by auto
qed (use assms(1,2) in auto)

lemma owned_snoc: "owned x inputs es pin \<Longrightarrow> replay x inputs (es @ [e]) = Inr f' \<Longrightarrow> owned x inputs (es @ [e]) pin"
  unfolding owned_def by (metis run_continues)

text \<open>A ref of the run that the log does not speak of, or no longer.\<close>

definition disposable :: "externals \<Rightarrow> frozen_inputs \<Rightarrow> topology_event list \<Rightarrow> git_ref \<Rightarrow> bool" where
  "disposable x inputs es name \<longleftrightarrow>
     (\<forall>f run. replay x inputs es = Inr f \<longrightarrow> fo_run f = Some run \<longrightarrow> ref_apart (st_started run) \<longrightarrow>
        name \<noteq> s4_integration_ref (st_started run) \<and>
        (st_finished run = Some OutComplete \<or>
         (\<forall>key generation. name \<noteq> candidates_ref (s4_run_id (st_started run)) key generation)))"

lemma owned_disposable: "owned x inputs es (Some pin) \<Longrightarrow> disposable x inputs es pin"
  unfolding owned_def disposable_def
  by (auto simp: own_pin_no_candidate dest: own_pin_apart) (metis own_pin_no_candidate)+

lemma head_other: "name \<noteq> s4_integration_ref (st_started run) \<Longrightarrow> head_follows es run (refs(name := v)) = head_follows es run refs"
  by (simp add: head_follows_def at_head_def Let_def split: option.splits transaction_class.splits)

lemma kept_other:
  "candidates_kept es refs \<Longrightarrow> created_named es started \<Longrightarrow>
     (\<And>key generation. name \<noteq> candidates_ref (s4_run_id started) key generation) \<Longrightarrow> candidates_kept es (refs(name := v))"
  by (fastforce simp: candidates_kept_def created_named_def list_all_iff split: topology_event_body.splits)

lemma agrees_disposable:
  assumes "agrees x inputs es refs" "disposable x inputs es name"
  shows "agrees x inputs es (refs(name := v))"
  unfolding agrees_def
proof (intro allI impI)
  fix f run assume r: "replay x inputs es = Inr f" "fo_run f = Some run"
  with assms(1) have a: "ref_apart (st_started run)" "head_follows es run refs" "candidates_follow es run refs"
    by (auto simp: agrees_def)
  with assms(2) r have d: "name \<noteq> s4_integration_ref (st_started run)"
    "st_finished run = Some OutComplete \<or> (\<forall>key generation. name \<noteq> candidates_ref (s4_run_id (st_started run)) key generation)"
    by (auto simp: disposable_def)
  from a(3) d(2) have "candidates_follow es run (refs(name := v))"
    by (auto simp: candidates_follow_def intro: kept_other)
  with a(1,2) d(1) show "ref_apart (st_started run) \<and> head_follows es run (refs(name := v)) \<and>
      candidates_follow es run (refs(name := v))" by (simp add: head_other)
qed

lemma agrees_pin: "agrees x inputs es refs \<Longrightarrow> owned x inputs es (Some pin) \<Longrightarrow> agrees x inputs es (refs(pin := v))"
  by (simp add: agrees_disposable owned_disposable)

lemma agrees_authorized:
  assumes "agrees x inputs es refs" "authorizes x inputs es a"
  shows "refs (az_integration_ref a) \<in> {Some (az_expected_head a), Some (az_proposed_sha a)}"
    "owned x inputs es (az_pin a)"
    "agrees x inputs es (refs(az_integration_ref a := Some (az_proposed_sha a)))"
proof -
  from assms(2) obtain f run tx sat disposition where t: "replay x inputs es = Inr f" "fo_run f = Some run"
    "st_transaction run = Some tx" "tx_class tx = Prepared (az_expected_head a) (az_proposed_sha a) sat disposition (az_pin a)"
    and name: "az_integration_ref a = s4_integration_ref (st_started run)" by (auto simp: authorizes_def)
  with assms(1) have a: "ref_apart (st_started run)" "head_follows es run refs" "candidates_follow es run refs"
    by (auto simp: agrees_def)
  from a(2) t name show "refs (az_integration_ref a) \<in> {Some (az_expected_head a), Some (az_proposed_sha a)}"
    "owned x inputs es (az_pin a)" by (auto simp: head_follows_def owned_def Let_def)
  have "az_integration_ref a \<noteq> candidates_ref (s4_run_id (st_started run)) key generation" for key generation
    using candidate_apart [OF a(1)] name by metis
  then have "candidates_follow es run (refs(az_integration_ref a := v))" for v
    using a(3) by (auto simp: candidates_follow_def intro: kept_other)
  with a t name show "agrees x inputs es (refs(az_integration_ref a := Some (az_proposed_sha a)))"
    by (auto simp: agrees_def head_follows_def Let_def)
qed

subsection \<open>The journal's contract\<close>

text \<open>The log of a running process is \<open>es\<close>, all of it durable, and the refs agree with it.\<close>

definition live ::
  "externals \<Rightarrow> (string \<Rightarrow> topology_event option) \<Rightarrow> frozen_inputs \<Rightarrow> ('s \<Rightarrow> emit_state) \<Rightarrow> topology_event list \<Rightarrow> 's \<Rightarrow>
     (git_ref \<Rightarrow> commit_sha option) \<Rightarrow> bool" where
  "live x decode inputs log es j refs \<longleftrightarrow>
     in_step x decode inputs (log j) \<and> em_events (log j) = es \<and> agrees x inputs es refs"

definition safe ::
  "externals \<Rightarrow> (string \<Rightarrow> topology_event option) \<Rightarrow> frozen_inputs \<Rightarrow> ('s \<Rightarrow> emit_state) \<Rightarrow> 's \<Rightarrow>
     (git_ref \<Rightarrow> commit_sha option) \<Rightarrow> bool" where
  "safe x decode inputs log j refs \<longleftrightarrow> engine_inv x decode inputs (log j) refs"

lemma live_safe: "live x decode inputs log es j refs \<Longrightarrow> safe x decode inputs log j refs"
  by (simp add: live_def safe_def engine_inv_step)

lemma live_ends: "on (live x decode inputs log es) s \<Longrightarrow> on (safe x decode inputs log) s"
  by (simp add: on_def live_safe)

lemma live_replay: "live x decode inputs log es j refs \<Longrightarrow> replay x inputs es = Inr (em_fold (log j))"
  by (auto simp: live_def dest: in_step_replay)

locale log_journal =
  fixes jn :: "('s, 'e, 'z) journal_scheme" and log :: "'s \<Rightarrow> emit_state" and x :: externals
    and encode :: "topology_event \<Rightarrow> string option" and decode :: "string \<Rightarrow> topology_event option"
  assumes emit_law: "jn_emit jn body j = (j', r) \<Longrightarrow>
      log j' = log j \<and> r \<noteq> Inr () \<or>
      (\<exists>w identity ts r'. ew_encode w = encode \<and> ew_decode w = decode \<and>
         emit x w identity ts body (log j) = (log j', r') \<and> (r = Inr () \<longrightarrow> (\<exists>event. r' = Inr event)))"
    and fold_law: "jn_fold jn j = em_fold (log j)"
    and converted_law: "jn_converted jn key j = (j', u) \<Longrightarrow> \<exists>rv. log j' = (log j)\<lparr>em_reservations := rv\<rparr>"
begin

lemma ok_emit:
  assumes serde: "serde encode decode" and live: "on (live x decode inputs log es) s"
    and new: "\<And>e. ev_body e = body \<Longrightarrow> agrees x inputs (es @ [e]) (rp_refs (snd s))"
  shows "ok (on (safe x decode inputs log))
    (\<lambda>_ s'. \<exists>e. ev_body e = body \<and> on (live x decode inputs log (es @ [e])) s' \<and> rp_refs (snd s') = rp_refs (snd s))
    (with_journal (jn_emit jn body) s)"
proof (cases "jn_emit jn body (fst s)")
  case (Pair j' r)
  note l = live [unfolded on_def live_def]
  have inv: "engine_inv x decode inputs (log (fst s)) (rp_refs (snd s))" using l by (simp add: engine_inv_step)
  have run: "running (log (fst s))" using l by (simp add: running_def in_step_def)
  from emit_law [OF Pair] show ?thesis
  proof (elim disjE exE conjE)
    assume "log j' = log (fst s)" "r \<noteq> Inr ()"
    with Pair inv show ?thesis by (cases r) (simp_all add: with_journal_def on_def safe_def)
  next
    fix w identity ts r'
    assume w: "ew_encode w = encode" "ew_decode w = decode" and e: "emit x w identity ts body (log (fst s)) = (log j', r')"
      and r: "r = Inr () \<longrightarrow> (\<exists>event. r' = Inr event)"
    have "engine_inv x decode inputs (log j') (rp_refs (snd s)) \<and>
      (\<forall>event. r' = Inr event \<longrightarrow> in_step x decode inputs (log j') \<and> em_events (log j') = es @ [event] \<and> ev_body event = body)"
      using emit_follows [OF inv run _ w(2) _ e] serde w(1) new l by auto
    with Pair r new show ?thesis by (cases r) (auto simp: with_journal_def on_def safe_def live_def)
  qed
qed

lemma ok_converted:
  assumes "on (live x decode inputs log es) s"
  shows "ok (on (safe x decode inputs log)) (\<lambda>_ s'. on (live x decode inputs log es) s' \<and> rp_refs (snd s') = rp_refs (snd s))
    (with_journal (jn_converted jn key) s)"
proof (cases "jn_converted jn key (fst s)")
  case (Pair j' r)
  from converted_law [OF Pair] obtain rv where "log j' = (log (fst s))\<lparr>em_reservations := rv\<rparr>" by blast
  with assms have "live x decode inputs log es j' (rp_refs (snd s))" by (simp add: on_def live_def)
  with Pair show ?thesis by (cases r) (simp_all add: with_journal_def on_def live_safe)
qed

lemma ok_repo:
  "on (live x decode inputs log es) s \<Longrightarrow> refs_kept f \<Longrightarrow>
     ok (on (safe x decode inputs log)) (\<lambda>_. on (live x decode inputs log es)) (with_repo f s)"
  by (rule ok_with_repo) (auto intro: live_safe)

lemma ok_read:
  "on (live x decode inputs log es) s \<Longrightarrow>
     ok (on (safe x decode inputs log)) (\<lambda>target s. on (live x decode inputs log es) s \<and> target = rp_refs (snd s) name)
       (with_repo (direct_ref_target name) s)"
  by (rule ok_target) (auto intro: live_safe)

lemma ok_move:
  assumes "on (live x decode inputs log es) s" "agrees x inputs es ((rp_refs (snd s))(name := new))" "moves name new f"
  shows "ok (on (safe x decode inputs log)) (\<lambda>_ s. on (live x decode inputs log es) s \<and> rp_refs (snd s) name = new)
    (with_repo f s)"
  by (rule ok_update [OF assms(1)]) (use assms in \<open>auto simp: on_def live_def intro: live_safe [unfolded live_def]\<close>)

lemma ok_prune:
  assumes live: "on (live x decode inputs log es) s" and own: "owned x inputs es (Some pin)"
  shows "ok (on (safe x decode inputs log)) (\<lambda>_. on (live x decode inputs log es)) (prune_pin pin sha s)"
  unfolding prune_pin_def
proof (rule ok_and_then [OF ok_read [OF live]])
  fix target s' assume s': "on (live x decode inputs log es) s' \<and> target = rp_refs (snd s') pin"
  then have "agrees x inputs es ((rp_refs (snd s'))(pin := None))"
    using agrees_pin [OF _ own] by (simp add: on_def live_def)
  with s' have "ok (on (safe x decode inputs log)) (\<lambda>_. on (live x decode inputs log es))
      (with_repo (delete_ref_expected_old pin sha) s')"
    by (intro ok_weaken [OF ok_move]) auto
  moreover have "on (safe x decode inputs log) s'" using s' live_safe by (auto simp: on_def)
  ultimately show "ok (on (safe x decode inputs log)) (\<lambda>_. on (live x decode inputs log es))
      (case target of None \<Rightarrow> (s', Inr ()) | Some found \<Rightarrow>
         if found \<noteq> sha then (s', Inl (IntRefusal (PinAtAnotherSha pin found sha)))
         else with_repo (delete_ref_expected_old pin found) s')"
    using s' by (auto split: option.splits)
qed

lemma ok_remove_slot:
  "on (live x decode inputs log es) s \<Longrightarrow>
     ok (on (safe x decode inputs log)) (\<lambda>_. on (live x decode inputs log es)) (remove_slot slot s)"
  unfolding remove_slot_def by (rule ok_and_then [OF ok_repo]) (auto intro: ok_repo)

text \<open>The ref is moved to the proposal, or was there already.\<close>

lemma ok_move_ref:
  assumes live: "on (live x decode inputs log es) s" and a: "authorizes x inputs es a"
    and target: "target = rp_refs (snd s) (az_integration_ref a)"
  shows "ok (on (safe x decode inputs log))
    (\<lambda>_ s. on (live x decode inputs log es) s \<and> rp_refs (snd s) (az_integration_ref a) = Some (az_proposed_sha a))
    (move_integration_ref a target s)"
proof -
  have ag: "agrees x inputs es (rp_refs (snd s))" using live by (simp add: on_def live_def)
  have "on (safe x decode inputs log) s" using live live_safe by (auto simp: on_def)
  moreover note ok_move [OF live agrees_authorized(3) [OF ag a] moves_simps(1)]
  ultimately show ?thesis
    using live target by (auto simp: move_integration_ref_def Let_def split: option.splits)
qed

lemma ok_maybe:
  "on (live x decode inputs log es) s \<Longrightarrow>
     (\<And>a s. v = Some a \<Longrightarrow> on (live x decode inputs log es) s \<Longrightarrow>
        ok (on (safe x decode inputs log)) (\<lambda>_. on (live x decode inputs log es)) (f a s)) \<Longrightarrow>
     ok (on (safe x decode inputs log)) (\<lambda>_. on (live x decode inputs log es)) (opt_do f v s)"
  by (rule ok_opt)

lemma ok_reclaim_publication:
  assumes "on (live x decode inputs log es) s" "owned x inputs es (az_pin a)"
  shows "ok (on (safe x decode inputs log)) (\<lambda>_. on (live x decode inputs log es)) (reclaim_publication a s)"
  unfolding reclaim_publication_def
  by (rule ok_and_then, rule ok_maybe [OF assms(1)])
    (use assms(2) in \<open>auto intro: ok_prune ok_maybe ok_remove_slot\<close>)

lemma ok_emit_merged:
  assumes serde: "serde encode decode" and a: "authorizes x inputs es a"
    and s: "on (live x decode inputs log es) s" "rp_refs (snd s) (az_integration_ref a) = Some (az_proposed_sha a)"
  shows "ok (on (safe x decode inputs log))
    (\<lambda>_ s'. \<exists>e. ev_body e = merged_event a \<and> on (live x decode inputs log (es @ [e])) s' \<and> owned x inputs (es @ [e]) (az_pin a))
    (with_journal (jn_emit jn (merged_event a)) s)"
proof -
  have "agrees x inputs (es @ [e]) (rp_refs (snd s))" if "ev_body e = merged_event a" for e
    by (rule agrees_merged [OF _ that [unfolded merged_event_def]])
      (use s a in \<open>auto simp: on_def live_def authorizes_def\<close>)
  moreover have "owned x inputs es (az_pin a)"
    using agrees_authorized(2) [OF _ a] s(1) by (auto simp: on_def live_def)
  then have "owned x inputs (es @ [e]) (az_pin a)" if "on (live x decode inputs log (es @ [e])) s'" for e s'
    using owned_snoc live_replay that [unfolded on_def] by metis
  ultimately show ?thesis by (intro ok_weaken [OF ok_emit [OF serde s(1)]]) auto
qed

lemma ok_publish:
  assumes serde: "serde encode decode" and live: "on (live x decode inputs log es) s" and a: "authorizes x inputs es a"
  shows "ok (on (safe x decode inputs log))
    (\<lambda>_ s. \<exists>e. ev_body e = merged_event a \<and> on (live x decode inputs log (es @ [e])) s) (publish jn a s)"
  unfolding publish_def
proof (rule ok_and_then, rule ok_repo [OF live], simp, rule ok_and_then, rule ok_read, assumption)
  fix target s1 assume "on (live x decode inputs log es) s1 \<and> target = rp_refs (snd s1) (az_integration_ref a)"
  then have s1: "on (live x decode inputs log es) s1" "target = rp_refs (snd s1) (az_integration_ref a)" by auto
  let ?Q = "\<lambda>_ s. \<exists>e. ev_body e = merged_event a \<and> on (live x decode inputs log (es @ [e])) s"
  let ?done = "Inr \<lparr>pb_sequence = az_sequence a, pb_key = az_key a, pb_merged_sha = az_proposed_sha a,
    pb_satisfies = az_satisfies a\<rparr>"
  have last: "ok (on (safe x decode inputs log)) ?Q (and_then (reclaim_publication a s) (\<lambda>_ s. (s, ?done)))"
    if "\<exists>e. ev_body e = merged_event a \<and> on (live x decode inputs log (es @ [e])) s \<and> owned x inputs (es @ [e]) (az_pin a)" for s
    using that ok_reclaim_publication by (elim exE conjE) (rule ok_and_then, blast, auto)
  show "ok (on (safe x decode inputs log)) ?Q (and_then (move_integration_ref a target s1) (\<lambda>_ s.
       and_then (with_journal (jn_emit jn (merged_event a)) s) (\<lambda>_ s. and_then (reclaim_publication a s) (\<lambda>_ s. (s, ?done)))))"
    by (rule ok_and_then [OF ok_move_ref [OF s1(1) a s1(2)]], rule ok_and_then, rule ok_emit_merged [OF serde a])
      (auto intro!: last)
qed

lemma ok_quiet:
  assumes "serde encode decode" "on (live x decode inputs log es) s" "quiet body"
  shows "ok (on (safe x decode inputs log)) (\<lambda>_ s'. \<exists>e. on (live x decode inputs log (es @ [e])) s')
    (with_journal (jn_emit jn body) s)"
  using assms(2,3) by (intro ok_weaken [OF ok_emit [OF assms(1,2)]]) (auto simp: on_def live_def intro: agrees_quiet)

lemma ok_reclaim_snapshots:
  "on (live x decode inputs log es) s \<Longrightarrow>
     ok (on (safe x decode inputs log)) (\<lambda>_. on (live x decode inputs log es)) (reclaim_snapshots s)"
  unfolding reclaim_snapshots_def by (rule ok_and_then, rule ok_repo) (auto intro: ok_each ok_remove_slot)

lemma ok_reclaim_staging:
  assumes "on (live x decode inputs log es) s" "owned x inputs es (map_option fst pinned)"
  shows "ok (on (safe x decode inputs log)) (\<lambda>_. on (live x decode inputs log es)) (reclaim_staging staging pinned s)"
  unfolding reclaim_staging_def
  by (rule ok_and_then [OF ok_reclaim_snapshots [OF assms(1)]], rule ok_and_then, rule ok_remove_slot, assumption,
      rule ok_maybe, assumption) (use assms(2) in \<open>auto intro: ok_prune\<close>)

end

subsection \<open>An integration\<close>

text \<open>The log's run publishes to \<open>name\<close>; the process is about to publish there and found it at \<open>head\<close>.\<close>

definition hosted :: "externals \<Rightarrow> frozen_inputs \<Rightarrow> topology_event list \<Rightarrow> git_ref \<Rightarrow> bool" where
  "hosted x inputs es name \<longleftrightarrow>
     (\<exists>f run. replay x inputs es = Inr f \<and> fo_run f = Some run \<and> s4_integration_ref (st_started run) = name)"

definition poised ::
  "externals \<Rightarrow> (string \<Rightarrow> topology_event option) \<Rightarrow> frozen_inputs \<Rightarrow> ('s \<Rightarrow> emit_state) \<Rightarrow> topology_event list \<Rightarrow> git_ref \<Rightarrow>
     commit_sha \<Rightarrow> 's \<Rightarrow> (git_ref \<Rightarrow> commit_sha option) \<Rightarrow> bool" where
  "poised x decode inputs log es name head j refs \<longleftrightarrow>
     live x decode inputs log es j refs \<and> refs name = Some head \<and> hosted x inputs es name"

lemma poised_live: "poised x decode inputs log es name head j refs \<Longrightarrow> live x decode inputs log es j refs"
  by (simp add: poised_def)

lemma poised_safe: "poised x decode inputs log es name head j refs \<Longrightarrow> safe x decode inputs log j refs"
  by (blast intro: live_safe poised_live)

lemma on_poised: "on (poised x decode inputs log es name head) s \<Longrightarrow> on (live x decode inputs log es) s"
  by (simp add: on_def poised_live)

text \<open>The next event leaves the process poised, with the same pin.\<close>

lemma poised_snoc:
  assumes "on (poised x decode inputs log es name head) s" "on (live x decode inputs log (es @ [e])) s'"
    and "rp_refs (snd s') = rp_refs (snd s)"
  shows "on (poised x decode inputs log (es @ [e]) name head) s'"
proof -
  have "replay x inputs (es @ [e]) = Inr (em_fold (log (fst s')))"
    using assms(2) by (auto simp: on_def dest: live_replay)
  moreover have "hosted x inputs es name" using assms(1) by (simp add: on_def poised_def)
  ultimately have "hosted x inputs (es @ [e]) name" unfolding hosted_def by (metis run_continues)
  with assms show ?thesis by (simp add: on_def poised_def)
qed

lemma owned_live:
  "owned x inputs es pin \<Longrightarrow> on (live x decode inputs log (es @ [e])) s \<Longrightarrow> owned x inputs (es @ [e]) pin"
  by (auto simp: on_def dest!: live_replay intro: owned_snoc)

locale verifying_log = log_journal jn log x encode decode
  for jn :: "('s, 'e, 'z) verifying_journal_scheme" and log x encode decode +
  assumes verify_law: "jn_verify jn request j = (j', v) \<Longrightarrow> log j' = log j"
begin

lemma ok_poised:
  "on (poised x decode inputs log es name head) s \<Longrightarrow> refs_kept f \<Longrightarrow>
     ok (on (safe x decode inputs log)) (\<lambda>_. on (poised x decode inputs log es name head)) (with_repo f s)"
  by (rule ok_with_repo) (auto intro: poised_safe)

lemma ok_verify:
  assumes "on (poised x decode inputs log es name head) s"
  shows "ok (on (safe x decode inputs log)) (\<lambda>_. on (poised x decode inputs log es name head))
    (with_journal (jn_verify jn request) s)"
proof (cases "jn_verify jn request (fst s)")
  case (Pair j' v)
  with verify_law [OF Pair] assms poised_safe show ?thesis
    by (cases v) (auto simp: with_journal_def on_def poised_def live_def safe_def intro: engine_inv_step)
qed

lemma ok_converting:
  assumes "on (poised x decode inputs log es name head) s"
  shows "ok (on (safe x decode inputs log)) (\<lambda>_. on (poised x decode inputs log es name head))
    (with_journal (jn_converted jn key) s)"
proof (cases "jn_converted jn key (fst s)")
  case (Pair j' v)
  from converted_law [OF Pair] obtain rv where "log j' = (log (fst s))\<lparr>em_reservations := rv\<rparr>" by blast
  with Pair assms poised_safe show ?thesis
    by (cases v) (auto simp: with_journal_def on_def poised_def live_def safe_def intro: engine_inv_step)
qed

text \<open>Once the preparation is in the log, it authorizes the publication.\<close>

lemma ok_prepare:
  assumes serde: "serde encode decode" and s: "on (poised x decode inputs log es name head) s"
    and pin: "owned x inputs es (mp_prepared_ref d)" and d: "mp_expected_head d = head"
    and a: "az_expected_head a = head" "az_proposed_sha a = mp_proposed_sha d" "az_pin a = mp_prepared_ref d"
      "az_integration_ref a = name"
  shows "ok (on (safe x decode inputs log))
    (\<lambda>_ s'. \<exists>e. on (live x decode inputs log (es @ [e])) s' \<and> authorizes x inputs (es @ [e]) a)
    (with_journal (jn_emit jn (EvMergePrepared d)) s)"
proof -
  from s obtain f run where r: "replay x inputs es = Inr f" "fo_run f = Some run" "s4_integration_ref (st_started run) = name"
    "rp_refs (snd s) name = Some head" and ag: "agrees x inputs es (rp_refs (snd s))"
    by (auto simp: on_def poised_def live_def hosted_def)
  have "agrees x inputs (es @ [e]) (rp_refs (snd s))" if "ev_body e = EvMergePrepared d" for e
    by (rule agrees_prepared [OF ag that]) (use r d pin in \<open>auto simp: owned_def\<close>)
  moreover have "authorizes x inputs (es @ [e]) a"
    if e: "ev_body e = EvMergePrepared d" "on (live x decode inputs log (es @ [e])) s'" for e s'
  proof -
    have "replay x inputs (es @ [e]) = Inr (em_fold (log (fst s')))" using e(2) by (auto simp: on_def dest: live_replay)
    moreover from run_continues [OF r(1,2) this] obtain run' dv where
      "fo_run (em_fold (log (fst s'))) = Some run'" "run' = apply_body (ev_body e) dv run"
      "st_started run' = st_started run" by metis
    ultimately show ?thesis using a d r(3) e(1) unfolding authorizes_def by (auto simp: transaction_apply_body)
  qed
  ultimately show ?thesis by (intro ok_weaken [OF ok_emit [OF serde on_poised [OF s]]]) blast+
qed

lemma ok_decide:
  assumes live: "on (live x decode inputs log es) s" and h: "hosted x inputs es (ir_integration_ref request)"
  shows "ok (on (safe x decode inputs log)) (\<lambda>(head, _). on (poised x decode inputs log es (ir_integration_ref request) head))
    (decide request s)"
  unfolding decide_def Let_def
  by (rule ok_and_then, rule ok_repo [OF live], simp, rule ok_and_then, rule ok_read, assumption)
    (use h in \<open>auto simp: on_def poised_def live_safe split: option.splits\<close>)

lemma ok_fast:
  assumes serde: "serde encode decode" and s: "on (poised x decode inputs log es (ir_integration_ref request) head) s"
  shows "ok (on (safe x decode inputs log)) (\<lambda>a s. \<exists>es. on (live x decode inputs log es) s \<and> authorizes x inputs es a)
    (prepare_fast jn request head s)"
proof -
  let ?a = "authorized_for request head (cr_commit_sha (ir_candidate request)) None None"
  have own: "owned x inputs es None" using s by (auto simp: on_def poised_def hosted_def owned_def own_pin_def)
  show ?thesis
    unfolding prepare_fast_def Let_def
    by (rule ok_and_then, rule ok_prepare [where a = ?a, OF serde s])
      (auto simp: own prepared_event_def authorized_for_def Let_def intro!: ok_and_then [OF ok_converted])
qed

lemma ok_unavailable:
  assumes serde: "serde encode decode" and s: "on (live x decode inputs log es) s" and own: "owned x inputs es pin"
  shows "ok (on (safe x decode inputs log)) (\<lambda>_. on (safe x decode inputs log))
    (unavailable debug_kind jn request staging pin proposed cause detail reviews s)"
proof -
  have E: "on (live x decode inputs log es) s \<Longrightarrow> on (safe x decode inputs log) s" for es s
    by (simp add: on_def live_safe)
  have pinned: "map_option fst (map_option (\<lambda>p. (p, proposed)) pin) = pin" by (cases pin) simp_all
  show ?thesis
    unfolding unavailable_def
    using E [OF s]
    by (auto split: sum.splits intro!: ok_and_then [OF ok_quiet [OF serde s]] ok_and_then [OF ok_reclaim_staging]
        simp: quiet_defs pinned intro: E owned_live [OF own])
qed

lemma ok_reject:
  assumes "serde encode decode" "on (live x decode inputs log es) s"
  shows "ok (on (safe x decode inputs log)) (\<lambda>_ s'. \<exists>e. on (live x decode inputs log (es @ [e])) s')
    (reject jn request head disposition contended s)"
  using ok_quiet [OF assms] assms(2)
  by (auto simp: reject_def quiet_defs on_def live_safe split: sum.splits)

lemma ok_verified_publication:
  assumes serde: "serde encode decode" and s: "on (poised x decode inputs log es (ir_integration_ref request) head) s"
    and own: "owned x inputs es pin"
  shows "ok (on (safe x decode inputs log)) (\<lambda>_. on (safe x decode inputs log))
    (and_then (prepare_verified jn request head proposed pin disposition verification s) (\<lambda>a s.
     and_then (reclaim_snapshots s) (\<lambda>_ s.
     and_then (publish jn a s) (\<lambda>p s. (s, Inr (TerminalMerged p))))))"
proof (rule ok_and_then)
  let ?a = "authorized_for request head proposed pin (Some (staging_slot (ir_sequence request)))"
  show "ok (on (safe x decode inputs log)) (\<lambda>a s. \<exists>es. on (live x decode inputs log es) s \<and> authorizes x inputs es a)
      (prepare_verified jn request head proposed pin disposition verification s)"
    unfolding prepare_verified_def
    by (rule ok_and_then, rule ok_prepare [where a = ?a, OF serde s])
      (auto simp: own prepared_event_def authorized_for_def Let_def)
  fix a s1 assume "\<exists>es. on (live x decode inputs log es) s1 \<and> authorizes x inputs es a"
  then obtain es1 where s1: "on (live x decode inputs log es1) s1" "authorizes x inputs es1 a" by blast
  show "ok (on (safe x decode inputs log)) (\<lambda>_. on (safe x decode inputs log))
     (and_then (reclaim_snapshots s1) (\<lambda>_ s. and_then (publish jn a s) (\<lambda>p s. (s, Inr (TerminalMerged p)))))"
    by (rule ok_and_then [OF ok_reclaim_snapshots [OF s1(1)]], rule ok_and_then, rule ok_publish [OF serde _ s1(2)], assumption)
      (auto intro: live_ends)
qed

lemma ok_code_rejected:
  assumes serde: "serde encode decode" and s: "on (live x decode inputs log es) s" and own: "owned x inputs es pin"
  shows "ok (on (safe x decode inputs log)) (\<lambda>_. on (safe x decode inputs log))
    (and_then (reject jn request head disposition contended s) (\<lambda>_ s.
     and_then (reclaim_staging staging (map_option (\<lambda>p. (p, proposed)) pin) s) (\<lambda>_ s. (s, Inr (terminal :: terminal)))))"
proof (rule ok_and_then [OF ok_reject [OF serde s]], elim exE)
  fix s1 e assume s1: "on (live x decode inputs log (es @ [e])) s1"
  have "map_option fst (map_option (\<lambda>p. (p, proposed)) pin) = pin" by (cases pin) simp_all
  with ok_reclaim_staging [OF s1, of "map_option (\<lambda>p. (p, proposed)) pin"] owned_live [OF own s1]
  show "ok (on (safe x decode inputs log)) (\<lambda>_. on (safe x decode inputs log))
      (and_then (reclaim_staging staging (map_option (\<lambda>p. (p, proposed)) pin) s1) (\<lambda>_ s. (s, Inr terminal)))"
    by (auto intro!: ok_and_then intro: live_ends)
qed

lemma ok_judge:
  assumes serde: "serde encode decode" and s: "on (poised x decode inputs log es (ir_integration_ref request) head) s"
    and own: "owned x inputs es pin"
  shows "ok (on (safe x decode inputs log)) (\<lambda>_. on (safe x decode inputs log))
    (judge_proposal debug_kind jn request staging head proposed pin disposition j s)"
  using ok_verified_publication [OF serde s own] ok_code_rejected [OF serde on_poised [OF s] own]
    ok_unavailable [OF serde on_poised [OF s] own]
  by (simp add: judge_proposal_def Let_def split: option.splits)

lemma ok_start_and_verify:
  assumes serde: "serde encode decode" and s: "on (poised x decode inputs log es (ir_integration_ref request) head) s"
    and own: "owned x inputs es pin" and basis: "basis_pin basis = pin"
  shows "ok (on (safe x decode inputs log)) (\<lambda>_. on (safe x decode inputs log))
    (start_and_verify debug_kind jn request staging head proposed pin basis disposition s)"
  unfolding start_and_verify_def Let_def
proof (rule ok_and_then, rule ok_emit [OF serde on_poised [OF s]])
  let ?d = "\<lparr>vs_sequence = ir_sequence request, vs_candidate = ir_candidate request, vs_basis = basis,
    vs_expected_head = head, vs_proposed_sha = proposed\<rparr>"
  fix e :: topology_event assume "ev_body e = EvMergeVerificationStarted ?d"
  then show "agrees x inputs (es @ [e]) (rp_refs (snd s))"
    by (rule agrees_verifying [rotated]) (use s own basis in \<open>auto simp: on_def poised_def live_def owned_def\<close>)
next
  fix s1 assume "\<exists>e. ev_body e = EvMergeVerificationStarted \<lparr>vs_sequence = ir_sequence request, vs_candidate = ir_candidate request,
      vs_basis = basis, vs_expected_head = head, vs_proposed_sha = proposed\<rparr> \<and>
    on (live x decode inputs log (es @ [e])) s1 \<and> rp_refs (snd s1) = rp_refs (snd s)"
  then obtain e where e: "on (live x decode inputs log (es @ [e])) s1" "rp_refs (snd s1) = rp_refs (snd s)" by blast
  note p = poised_snoc [OF s e] and o = owned_live [OF own e(1)]
  show "ok (on (safe x decode inputs log)) (\<lambda>_. on (safe x decode inputs log))
    (and_then (with_journal (jn_converted jn (cr_key (ir_candidate request))) s1) (\<lambda>_ s.
     and_then (with_journal (jn_verify jn
       \<lparr>vq_candidate = ir_candidate request, vq_sequence = ir_sequence request, vq_staging = staging, vq_head = head,
        vq_proposed = proposed, vq_already_present = (disposition = PdAlreadyPresent)\<rparr>) s) (\<lambda>verified s.
     case verified of
       VerifiedJudged j \<Rightarrow> judge_proposal debug_kind jn request staging head proposed pin disposition j s
     | VerifiedUnavailable kind detail reviews \<Rightarrow>
         unavailable debug_kind jn request staging pin proposed (CauseInfrastructure kind) (Some detail) reviews s)))"
    by (rule ok_and_then [OF ok_converting [OF p]], rule ok_and_then, rule ok_verify, assumption)
      (auto split: verified.splits intro: ok_judge [OF serde _ o] ok_unavailable [OF serde _ o] on_poised)
qed

lemma ok_create_pin:
  assumes s: "on (poised x decode inputs log es name head) s" and own: "owned x inputs es (Some pin)"
  shows "ok (on (safe x decode inputs log)) (\<lambda>_. on (poised x decode inputs log es name head))
    (with_repo (create_ref_zero_old pin proposal) s)"
proof -
  from s have ag: "agrees x inputs es (rp_refs (snd s))" and h: "hosted x inputs es name"
    by (auto simp: on_def poised_def live_def)
  from own h obtain f run where "replay x inputs es = Inr f" "fo_run f = Some run"
    "own_pin (st_started run) (Some pin)" "s4_integration_ref (st_started run) = name" by (auto simp: owned_def hosted_def)
  with ag have "pin \<noteq> name" by (auto simp: agrees_def dest: own_pin_apart)
  with s agrees_pin [OF ag own] have "poised x decode inputs log es name head (fst s) ((rp_refs (snd s))(pin := Some proposal))"
    by (simp add: on_def poised_def live_def)
  then show ?thesis
    by (intro ok_weaken [OF ok_update [OF s]]) (auto intro: poised_safe)
qed

lemma owned_none: "on (poised x decode inputs log es name head) s \<Longrightarrow> owned x inputs es None"
  by (auto simp: on_def poised_def hosted_def owned_def own_pin_def)

lemma ok_integrate_clean:
  assumes serde: "serde encode decode" and s: "on (poised x decode inputs log es (ir_integration_ref request) head) s"
  shows "ok (on (safe x decode inputs log)) (\<lambda>_. on (safe x decode inputs log))
    (integrate_clean debug_kind jn request head proposal s)"
proof (cases "fold_started (jn_fold jn (fst s))")
  case (Some started)
  let ?pin = "prepared_pin_ref (s4_run_id started) (ir_sequence request)"
  from Some on_poised [OF s] have own: "owned x inputs es (Some ?pin)"
    by (auto simp: on_def fold_law fold_started_def owned_def own_pin_def dest!: live_replay)
  show ?thesis
    using Some ok_start_and_verify [OF serde _ own]
    by (auto simp: integrate_clean_def Let_def basis_pin_def intro!: ok_and_then [OF ok_create_pin [OF s own]])
qed (simp add: integrate_clean_def live_ends [OF on_poised [OF s]])

lemma ok_integrate_conflict:
  assumes serde: "serde encode decode" and s: "on (poised x decode inputs log es (ir_integration_ref request) head) s"
  shows "ok (on (safe x decode inputs log)) (\<lambda>_. on (safe x decode inputs log)) (integrate_conflict jn request head paths s)"
  unfolding integrate_conflict_def
proof (rule ok_and_then [OF ok_reject [OF serde on_poised [OF s]]], elim exE)
  fix s2 e assume s2: "on (live x decode inputs log (es @ [e])) s2"
  have "owned x inputs (es @ [e]) None" using owned_live [OF owned_none [OF s] s2] .
  then show "ok (on (safe x decode inputs log)) (\<lambda>_. on (safe x decode inputs log))
    (and_then (with_journal (jn_converted jn (cr_key (ir_candidate request))) s2) (\<lambda>_ s.
     and_then (reclaim_staging (staging_slot (ir_sequence request)) None s) (\<lambda>_ s.
     (s, Inr (TerminalRejected (ir_sequence request) (cr_key (ir_candidate request)))))))"
    by (auto intro!: ok_and_then [OF ok_converted [OF s2]] ok_and_then [OF ok_reclaim_staging] intro: live_ends)
qed

lemma ok_integrate_stale:
  assumes serde: "serde encode decode" and s: "on (poised x decode inputs log es (ir_integration_ref request) head) s"
  shows "ok (on (safe x decode inputs log)) (\<lambda>_. on (safe x decode inputs log))
    (integrate_stale debug_kind picked jn request head s)"
  unfolding integrate_stale_def Let_def
  by (rule ok_and_then, rule ok_poised [OF s], simp, rule ok_and_then, rule ok_poised, assumption, simp)
    (auto split: picked.splits simp: basis_pin_def
      intro!: ok_integrate_clean [OF serde] ok_integrate_conflict [OF serde] ok_start_and_verify [OF serde]
        ok_and_then [OF ok_reclaim_staging] intro: live_ends on_poised owned_none)

lemma ok_integrate:
  assumes serde: "serde encode decode" and live: "on (live x decode inputs log es) s"
    and h: "hosted x inputs es (ir_integration_ref request)"
  shows "ok (on (safe x decode inputs log)) (\<lambda>_. on (safe x decode inputs log)) (integrate debug_kind picked jn request s)"
proof -
  have "ok (on (safe x decode inputs log)) (\<lambda>_. on (safe x decode inputs log)) (integrate_fast jn request head s')"
    if "on (poised x decode inputs log es (ir_integration_ref request) head) s'" for head s'
    unfolding integrate_fast_def
    by (rule ok_and_then [OF ok_fast [OF serde that]])
      (auto intro!: ok_and_then [OF ok_publish [OF serde]] intro: live_ends)
  then show ?thesis
    unfolding integrate_def
    by (intro ok_and_then [OF ok_decide [OF live h]])
      (auto split: exact_base.splits intro: ok_integrate_stale [OF serde])
qed

end

subsection \<open>The journals of the engine\<close>

text \<open>The calls of a process meet different worlds with the same serializer.\<close>

definition worlds ::
  "(topology_event \<Rightarrow> string option) \<Rightarrow> (string \<Rightarrow> topology_event option) \<Rightarrow> (nat \<Rightarrow> emit_world) \<Rightarrow> nat \<Rightarrow> emit_world" where
  "worlds encode decode calls n = (calls n)\<lparr>ew_encode := encode, ew_decode := decode\<rparr>"

lemma worlds_simps [simp]: "ew_encode (worlds encode decode calls n) = encode" "ew_decode (worlds encode decode calls n) = decode"
  by (simp_all add: worlds_def)

interpretation run_log: verifying_log "run_journal x (worlds encode decode calls) clock identity judge id'"
  "\<lambda>s. tr_emit (fst s)" x encode decode
  for x encode decode calls clock identity judge id'
proof unfold_locales
  fix body key request and j j' :: "topology_run \<times> nat"
  fix r :: "(journal_error, unit) result" and v :: "(journal_error, verified) result"
  let ?jn = "run_journal x (worlds encode decode calls) clock identity judge id'"
  show "jn_fold ?jn j = em_fold (tr_emit (fst j))" by (simp add: run_journal_def)
  show "jn_verify ?jn request j = (j', v) \<Longrightarrow> tr_emit (fst j') = tr_emit (fst j)"
    by (auto simp: run_journal_def run_verify_def split: prod.splits)
  show "jn_converted ?jn key j = (j', r) \<Longrightarrow> \<exists>rv. tr_emit (fst j') = (tr_emit (fst j))\<lparr>em_reservations := rv\<rparr>"
    by (auto simp: run_journal_def run_converted_def split: sum.splits) (metis emit_state.surjective emit_state.update_convs(4))
  assume e: "jn_emit ?jn body j = (j', r)"
  obtain st res where run: "emit x (worlds encode decode calls (snd j)) identity (clock (snd j)) body (tr_emit (fst j)) = (st, res)"
    by (metis prod.collapse)
  show "tr_emit (fst j') = tr_emit (fst j) \<and> r \<noteq> Inr () \<or>
      (\<exists>w identity ts r'. ew_encode w = encode \<and> ew_decode w = decode \<and>
         emit x w identity ts body (tr_emit (fst j)) = (tr_emit (fst j'), r') \<and> (r = Inr () \<longrightarrow> (\<exists>event. r' = Inr event)))"
  proof (cases "tr_stopped (fst j)")
    case (Some why)
    with e show ?thesis by (auto simp: run_journal_def run_journal_emit_def emit_through_def run_emit_def)
  next
    case None
    with e run have "tr_emit (fst j') = st" "r = Inr () \<longrightarrow> (\<exists>event. res = Inr event)"
      by (auto simp: run_journal_def run_journal_emit_def emit_through_def run_emit_def Let_def split: sum.splits)
    with run show ?thesis by (metis worlds_simps)
  qed
qed

interpretation recovery_log: log_journal "recovery_journal x (worlds encode decode calls) clock identity" rc_emit x encode decode
  for x encode decode calls clock identity
proof unfold_locales
  fix body key and j j' :: recovery_state and r :: "(emit_error, unit) result"
  let ?jn = "recovery_journal x (worlds encode decode calls) clock identity"
  show "jn_fold ?jn j = em_fold (rc_emit j)" by (simp add: recovery_journal_def)
  show "jn_converted ?jn key j = (j', r) \<Longrightarrow> \<exists>rv. rc_emit j' = (rc_emit j)\<lparr>em_reservations := rv\<rparr>"
    by (auto simp: recovery_journal_def) (metis emit_state.surjective emit_state.update_convs(4))
  assume e: "jn_emit ?jn body j = (j', r)"
  obtain st res where run: "emit x (worlds encode decode calls (rc_calls j)) identity (clock (rc_calls j)) body (rc_emit j) = (st, res)"
    by (metis prod.collapse)
  with e have "rc_emit j' = st" "r = Inr () \<longrightarrow> (\<exists>event. res = Inr event)"
    by (auto simp: recovery_journal_def recovery_emit_def split: sum.splits)
  with run show "rc_emit j' = rc_emit j \<and> r \<noteq> Inr () \<or>
      (\<exists>w identity ts r'. ew_encode w = encode \<and> ew_decode w = decode \<and>
         emit x w identity ts body (rc_emit j) = (rc_emit j', r') \<and> (r = Inr () \<longrightarrow> (\<exists>event. r' = Inr event)))"
    by (metis worlds_simps)
qed

end
