(* ===== verification/Candidate_Facts.thy ===== *)
theory Candidate_Facts
  imports Integrate_Facts Closure
begin

section \<open>Promotions and the end of a run keep the refs with the log\<close>

text \<open>
  What a candidate's ref is named is frozen by its preparation, so a process that finds a
  half-promoted candidate in the log creates the very ref the first one would have. With that,
  promoting, closing and finalizing keep the relation between the log and the refs.
\<close>

subsection \<open>The names of recorded candidates\<close>

lemma in_map_filter: "y \<in> set (List.map_filter f xs) \<longleftrightarrow> (\<exists>x\<in>set xs. f x = Some y)"
  by (force simp: List.map_filter_def)

definition names_ok :: "string \<Rightarrow> nat \<Rightarrow> task_fold \<Rightarrow> bool" where
  "names_ok run_id i t \<longleftrightarrow>
     (\<forall>g \<in> set (tf_generations t). \<forall>p. gf_candidate g = Some p \<longrightarrow>
        cr_candidate_ref (pc_candidate p) =
          candidates_ref run_id (cr_key (pc_candidate p)) (cr_generation (pc_candidate p)))"

lemma names_ok_update:
  assumes "names_ok run_id i t"
    and "\<And>g p. gf_candidate (f g) = Some p \<Longrightarrow> gf_candidate g = Some p \<or>
      cr_candidate_ref (pc_candidate p) = candidates_ref run_id (cr_key (pc_candidate p)) (cr_generation (pc_candidate p))"
  shows "names_ok run_id i (tf_update_open f t)"
  using assms by (fastforce simp: names_ok_def tf_update_open_def dest: set_update_first)

interpretation named: task_invariant "names_ok run_id" for run_id
proof
  fix i t assume "names_ok run_id i t"
  then show "names_ok run_id i (tf_update_open (\<lambda>g. g\<lparr>gf_class := Closed\<rparr>) t)"
    by (rule names_ok_update) simp
qed (simp_all add: names_ok_def)

lemma named_update_open:
  assumes "tasks_all (names_ok run_id) run"
    and "\<And>g p. gf_candidate (f g) = Some p \<Longrightarrow> gf_candidate g = Some p \<or>
      cr_candidate_ref (pc_candidate p) = candidates_ref run_id (cr_key (pc_candidate p)) (cr_generation (pc_candidate p))"
  shows "tasks_all (names_ok run_id) (update_open_generation key f run)"
  unfolding update_open_generation_def
  by (rule tasks_all_update [OF assms(1)]) (rule names_ok_update [OF _ assms(2)])

lemma named_settled:
  assumes "tasks_all (names_ok run_id) run"
  shows "tasks_all (names_ok run_id) (apply_settlement d run)"
proof -
  let ?c = "charge_allowance (af4_key d) (af4_record d) run"
  have ch: "tasks_all (names_ok run_id) ?c" using assms by (rule named.all_charge)
  have "tasks_all (names_ok run_id) (apply_transition (af4_key d) tr ?c)" for tr
    by (rule named.all_transition [OF ch]) (auto intro!: tasks_all_update named.all_close ch simp: names_ok_def)
  then show ?thesis
    using ch by (auto simp: apply_settlement_def Let_def intro!: named_update_open split: attempt_settlement.splits)
qed

lemma named_step:
  assumes all: "tasks_all (names_ok run_id) run"
    and new: "\<And>d. body = EvCandidatePrepared d \<Longrightarrow> cp_candidate_ref d = candidates_ref run_id (cp_key d) (cp_generation d)"
  shows "tasks_all (names_ok run_id) (apply_body body dv run)"
proof (rule named.all_step [OF all])
  show "names_ok run_id (length (st_tasks run)) task_fold_new" by (simp add: names_ok_def task_fold_new_def)
  show "tasks_all (names_ok run_id) (apply_dispatched d run)" for d
    using all by (auto simp: apply_dispatched_def Let_def names_ok_def
        intro!: tasks_all_update intro: tasks_all_cong split: lease_grant.splits)
  show "tasks_all (names_ok run_id) (apply_attempt_started d run)" for d
    unfolding apply_attempt_started_def using all by (rule named_update_open) simp
  show "tasks_all (names_ok run_id) (apply_settlement d run)" for d using all by (rule named_settled)
  show "tasks_all (names_ok run_id) (apply_candidate_prepared d run)" if "body = EvCandidatePrepared d" for d
    unfolding apply_candidate_prepared_def
    by (intro named.all_set_state tasks_all_cong [OF _ named.all_charge [OF named_update_open [OF all]]])
      (use new [OF that] in \<open>auto simp: candidate_of_prepared_def\<close>)
qed

lemma named_replay:
  "replay x inputs es = Inr f \<Longrightarrow> fo_run f = Some run \<Longrightarrow> candidates_named es (st_started run) \<Longrightarrow>
     tasks_all (names_ok (s4_run_id (st_started run))) run"
proof (induction es arbitrary: f run rule: rev_induct)
  case Nil
  then show ?case by (auto simp: replay_def fold_new_def)
next
  case (snoc e es)
  from snoc.prems(1) show ?case
  proof (cases rule: replay_snoc_cases)
    case (start d registry)
    with snoc.prems(2) show ?thesis by (auto simp: tasks_all_def run_start_def names_ok_def task_fold_new_def)
  next
    case (step f1 run1 dv)
    with snoc.prems(2) have run: "run = apply_body (ev_body e) dv run1" by simp
    have "candidates_named es (st_started run1)" using snoc.prems(3) by (simp add: run candidates_named_def)
    from snoc.IH [OF step(1,2) this] have "tasks_all (names_ok (s4_run_id (st_started run1))) run1" .
    then have "tasks_all (names_ok (s4_run_id (st_started run1))) run"
      unfolding run by (rule named_step) (use snoc.prems(3) in \<open>auto simp: run candidates_named_def\<close>)
    then show ?thesis by (simp add: run)
  qed
qed

subsection \<open>Promoting\<close>

text \<open>A promotion the log asks for: its refs are the run's, named after its candidate.\<close>

definition promotable :: "externals \<Rightarrow> frozen_inputs \<Rightarrow> topology_event list \<Rightarrow> promotable_candidate \<Rightarrow> bool" where
  "promotable x inputs es p \<longleftrightarrow>
     (\<exists>f run. replay x inputs es = Inr f \<and> fo_run f = Some run \<and> own_pin (st_started run) (Some (pm_prepared_ref p)) \<and>
        cr_candidate_ref (pm_candidate p) =
          candidates_ref (s4_run_id (st_started run)) (cr_key (pm_candidate p)) (cr_generation (pm_candidate p)))"

lemma own_candidate_pin: "own_pin started (Some (candidate_pin_ref (s4_run_id started) key generation))"
  by (auto simp: own_pin_def)

lemma promotable_snoc: "promotable x inputs es p \<Longrightarrow> replay x inputs (es @ [e]) = Inr f' \<Longrightarrow> promotable x inputs (es @ [e]) p"
  unfolding promotable_def by (metis run_continues)

lemma promotable_owned: "promotable x inputs es p \<Longrightarrow> owned x inputs es (Some (pm_prepared_ref p))"
  by (auto simp: promotable_def owned_def)

lemma agrees_new_candidate:
  assumes "agrees x inputs es refs" "refs name = None"
    and "\<exists>f run. replay x inputs es = Inr f \<and> fo_run f = Some run \<and>
      (\<exists>key generation. name = candidates_ref (s4_run_id (st_started run)) key generation)"
  shows "agrees x inputs es (refs(name := Some commit))"
proof -
  from assms(3) obtain f run key generation where r: "replay x inputs es = Inr f" "fo_run f = Some run"
    "name = candidates_ref (s4_run_id (st_started run)) key generation" by blast
  with assms(1) have a: "ref_apart (st_started run)" "head_follows es run refs" "candidates_follow es run refs"
    by (auto simp: agrees_def)
  from assms(2) have "candidates_kept es refs \<Longrightarrow> candidates_kept es (refs(name := Some commit))"
    by (fastforce simp: candidates_kept_def list_all_iff split: topology_event_body.splits)
  with a r candidate_apart [OF a(1)] show ?thesis
    by (auto simp: agrees_def candidates_follow_def head_other)
qed

lemma agrees_basis:
  assumes "agrees x inputs es refs" "replay x inputs es = Inr f" "fo_run f = Some run" "st_transaction run = Some tx"
    and "tx_class tx = VerificationStarted basis head proposed"
  shows "owned x inputs es (basis_pin basis)"
  using assms by (auto simp: agrees_def head_follows_def owned_def Let_def)

lemma authorized_by_fold:
  assumes "authorized_from_fold f = Some a" "replay x inputs es = Inr f"
  shows "authorizes x inputs es a"
proof -
  from assms(1) obtain run tx where "fo_run f = Some run" "st_transaction run = Some tx"
    by (auto simp: authorized_from_fold_def bind_eq_Some_conv)
  with assms show ?thesis by (cases "tx_class tx") (auto simp: authorized_from_fold_def authorizes_def)
qed

text \<open>The log of a run, and a process that is writing it.\<close>

definition begun :: "externals \<Rightarrow> frozen_inputs \<Rightarrow> topology_event list \<Rightarrow> run_started4 \<Rightarrow> bool" where
  "begun x inputs es started \<longleftrightarrow> (\<exists>f run. replay x inputs es = Inr f \<and> fo_run f = Some run \<and> st_started run = started)"

definition ongoing ::
  "externals \<Rightarrow> (string \<Rightarrow> topology_event option) \<Rightarrow> frozen_inputs \<Rightarrow> ('s \<Rightarrow> emit_state) \<Rightarrow> run_started4 \<Rightarrow>
     's \<times> repository \<Rightarrow> bool" where
  "ongoing x decode inputs log started s \<longleftrightarrow> (\<exists>es. on (live x decode inputs log es) s \<and> begun x inputs es started)"

lemma begun_snoc: "begun x inputs es started \<Longrightarrow> replay x inputs (es @ [e]) = Inr f' \<Longrightarrow> begun x inputs (es @ [e]) started"
  unfolding begun_def by (metis run_continues)

text \<open>What the end of a run removes is disposable.\<close>

lemma pins_disposable:
  assumes "replay x inputs es = Inr f" "fo_run f = Some run"
    and "kind \<in> {''prepared/'', ''candidate-prepared/''}" "prefix (run_namespace (s4_run_id (st_started run)) @ kind) name"
  shows "disposable x inputs es name"
  using assms by (auto simp: disposable_def run_namespace_def ref_names prefix_def)

lemma candidates_disposable:
  assumes "replay x inputs es = Inr f" "fo_run f = Some run" "st_finished run = Some OutComplete"
    and "prefix (run_namespace (s4_run_id (st_started run)) @ kind) name"
  shows "disposable x inputs es name"
  using assms by (auto simp: disposable_def run_namespace_def ref_names prefix_def)

context log_journal
begin

lemma ok_read_repo:
  "on (live x decode inputs log es) s \<Longrightarrow>
     ok (on (safe x decode inputs log)) (\<lambda>_. on (live x decode inputs log es)) (with_repo (read_repo f) s)"
  by (rule ok_repo) (auto simp: refs_kept_def read_repo_def repo_call_def split: list.splits fault.splits)

lemma ok_verify_object:
  "on (live x decode inputs log es) s \<Longrightarrow>
     ok (on (safe x decode inputs log)) (\<lambda>_. on (live x decode inputs log es)) (verify_object c base tree s)"
  unfolding verify_object_def Let_def
  by (rule ok_and_then, erule ok_read_repo, split if_split, intro conjI impI, simp add: live_ends,
      rule ok_and_then, erule ok_read_repo, split if_split, intro conjI impI, simp add: live_ends,
      rule ok_and_then, erule ok_read_repo) (simp add: live_ends)

lemma ok_create_candidates_ref:
  assumes live: "on (live x decode inputs log es) s" and p: "promotable x inputs es p"
  shows "ok (on (safe x decode inputs log))
    (\<lambda>r s. on (live x decode inputs log es) s \<and> rf_candidate r = pm_candidate p \<and> rf_prepared_ref r = pm_prepared_ref p \<and>
      rp_refs (snd s) (cr_candidate_ref (pm_candidate p)) = Some (cr_commit_sha (pm_candidate p)))
    (create_candidates_ref p s)"
proof -
  let ?name = "cr_candidate_ref (pm_candidate p)" and ?commit = "cr_commit_sha (pm_candidate p)"
  have create: "ok (on (safe x decode inputs log))
      (\<lambda>_ s. on (live x decode inputs log es) s \<and> rp_refs (snd s) ?name = Some ?commit)
      (with_repo (create_ref_zero_old ?name ?commit) s')"
    if "on (live x decode inputs log es) s'" "rp_refs (snd s') ?name = None" for s'
    by (rule ok_move [OF that(1)])
      (use that agrees_new_candidate [of x inputs es "rp_refs (snd s')" ?name ?commit] p
        in \<open>auto simp: on_def live_def promotable_def\<close>)
  show ?thesis
    unfolding create_candidates_ref_def Let_def
  proof (rule ok_and_then [OF ok_verify_object [OF live]], rule ok_and_then, erule ok_read)
    fix target s' assume s': "on (live x decode inputs log es) s' \<and> target = rp_refs (snd s') ?name"
    show "ok (on (safe x decode inputs log))
      (\<lambda>r s. on (live x decode inputs log es) s \<and> rf_candidate r = pm_candidate p \<and> rf_prepared_ref r = pm_prepared_ref p \<and>
        rp_refs (snd s) ?name = Some ?commit)
      (and_then
        (case target of
           None \<Rightarrow> with_repo (create_ref_zero_old ?name ?commit) s'
         | Some found \<Rightarrow>
             (s', if found = ?commit then Inr () else Inl (IntCandidate (RefAtAnotherSha ?name found ?commit)))) (\<lambda>_ s.
       (s, Inr \<lparr>rf_candidate = pm_candidate p, rf_prepared_ref = pm_prepared_ref p\<rparr>)))"
    proof (cases target)
      case None
      with s' show ?thesis by (auto intro!: ok_and_then [OF create])
    next
      case (Some found)
      have "on (safe x decode inputs log) s'" using s' live_ends by blast
      with s' Some show ?thesis unfolding Some option.case by (cases "found = ?commit") simp_all
    qed
  qed
qed

text \<open>A candidate is recorded as created with its ref in place; then its pin and worktree go.\<close>

lemma ok_append_created:
  assumes serde: "serde encode decode" and live: "on (live x decode inputs log es) s" and p: "promotable x inputs es p"
    and r: "rf_candidate r = pm_candidate p"
      "rp_refs (snd s) (cr_candidate_ref (pm_candidate p)) = Some (cr_commit_sha (pm_candidate p))"
  shows "ok (on (safe x decode inputs log))
    (\<lambda>c s. (\<exists>es'. on (live x decode inputs log (es @ es')) s \<and> length es' \<le> 1) \<and> ct_candidate c = rf_candidate r \<and>
      ct_prepared_ref c = rf_prepared_ref r) (append_candidate_created jn r s)"
proof -
  have new: "agrees x inputs (es @ [e]) (rp_refs (snd s))"
    if "ev_body e = EvTaskCandidateCreated \<lparr>tc_candidate = rf_candidate r\<rparr>" for e
    by (rule agrees_candidate_created [OF _ that]) (use live p r in \<open>auto simp: on_def live_def promotable_def\<close>)
  have stay: "\<exists>es'. on (live x decode inputs log (es @ es')) s \<and> length es' \<le> 1"
    by (rule exI [of _ "[]"]) (use live in simp)
  show ?thesis
    unfolding append_candidate_created_def Let_def
    by (rule ok_and_then [where Q' = "\<lambda>_ s. \<exists>es'. on (live x decode inputs log (es @ es')) s \<and> length es' \<le> 1"],
        split if_split, intro conjI impI, rule ok_weaken [OF ok_emit [OF serde live new]], assumption)
      (fastforce, simp_all add: stay [simplified])
qed

lemma promotable_live:
  assumes "promotable x inputs es p" "on (live x decode inputs log (es @ es')) s" "length es' \<le> 1"
  shows "promotable x inputs (es @ es') p"
proof (cases es')
  case (Cons e rest)
  with assms(3) have "es' = [e]" by simp
  with assms(2) promotable_snoc [OF assms(1)] show ?thesis by (auto simp: on_def dest!: live_replay)
qed (use assms(1) in simp)

lemma ok_reclaim_created:
  assumes live: "on (live x decode inputs log es) s" and own: "owned x inputs es (Some (ct_prepared_ref c))"
  shows "ok (on (safe x decode inputs log)) (\<lambda>_. on (live x decode inputs log es)) (reclaim_after_creation worktree c s)"
proof -
  have "ok (on (safe x decode inputs log)) (\<lambda>_. on (live x decode inputs log es))
      (if found \<noteq> cr_commit_sha (ct_candidate c)
       then (s', Inl (IntCandidate (RefAtAnotherSha (ct_prepared_ref c) found (cr_commit_sha (ct_candidate c)))))
       else with_repo (delete_ref_expected_old (ct_prepared_ref c) found) s')"
    if s': "on (live x decode inputs log es) s'" for found s'
    using s' agrees_pin [OF _ own] live_ends [OF s']
    by (auto simp: on_def live_def intro!: ok_weaken [OF ok_move [OF s' _ moves_simps(3)]])
  note delete = this
  show ?thesis
    unfolding reclaim_after_creation_def Let_def
    by (rule ok_and_then, rule ok_read [OF live], elim conjE, rule ok_and_then, rule ok_maybe, assumption, rule delete, assumption,
        rule ok_and_then, rule ok_remove_slot, assumption) simp
qed

lemma ok_complete_promotion:
  assumes serde: "serde encode decode" and live: "on (live x decode inputs log es) s" and p: "promotable x inputs es p"
  shows "ok (on (safe x decode inputs log))
    (\<lambda>_ s. \<exists>es'. on (live x decode inputs log (es @ es')) s \<and> length es' \<le> 1) (complete_promotion jn worktree p s)"
  unfolding complete_promotion_def
proof (rule ok_and_then [OF ok_create_candidates_ref [OF live p]], elim conjE,
    rule ok_and_then, rule ok_append_created [OF serde _ p], assumption, assumption, assumption, elim conjE exE)
  fix r s1 s2 es' and c :: created_candidate
  assume r: "rf_prepared_ref r = pm_prepared_ref p" and c: "ct_prepared_ref c = rf_prepared_ref r"
    and s2: "on (live x decode inputs log (es @ es')) s2" "length es' \<le> 1"
  have "owned x inputs (es @ es') (Some (ct_prepared_ref c))"
    using promotable_owned [OF promotable_live [OF p s2]] r c by simp
  then show "ok (on (safe x decode inputs log))
    (\<lambda>_ s. \<exists>es'. on (live x decode inputs log (es @ es')) s \<and> length es' \<le> 1) (reclaim_after_creation worktree c s2)"
    using s2 by (intro ok_weaken [OF ok_reclaim_created]) auto
qed

text \<open>A promotion the fold asks for.\<close>

lemma owed_promotable:
  assumes live: "on (live x decode inputs log es) s" and run: "fo_run (jn_fold jn (fst s)) = Some run"
    and g: "last_generation (jn_fold jn (fst s)) key = Some g"
    and owed: "owed_by (candidate_names_of (s4_run_id (st_started run)) key (gf_id g)) g pin = Inr owed"
  shows "cy_promotion owed = Some p \<Longrightarrow> promotable x inputs es p"
    "cy_orphan_pin owed = Some orphan \<Longrightarrow> owned x inputs es (Some (op_refname orphan))"
proof -
  have r: "replay x inputs es = Inr (jn_fold jn (fst s))" and ag: "agrees x inputs es (rp_refs (snd s))"
    using live by (auto simp: on_def fold_law live_def dest: in_step_replay)
  from ag r run have "candidates_named es (st_started run)" by (auto simp: agrees_def candidates_follow_def)
  note all = named_replay [OF r run this]
  from g run obtain t where t: "task_get run key = Some t" "g \<in> set (tf_generations t)"
    by (auto simp: last_generation_def fold_task_def bind_eq_Some_conv split: if_splits)
  from tasks_all_get [OF all t(1)] t(2) have named: "\<And>pc. gf_candidate g = Some pc \<Longrightarrow> cr_candidate_ref (pc_candidate pc) =
      candidates_ref (s4_run_id (st_started run)) (cr_key (pc_candidate pc)) (cr_generation (pc_candidate pc))"
    by (auto simp: names_ok_def)
  note pin = own_candidate_pin [of "st_started run" key "gf_id g"]
  show "cy_promotion owed = Some p \<Longrightarrow> promotable x inputs es p"
    using owed r run pin named
    by (auto simp: owed_by_def candidate_names_of_def promotable_def Let_def split: option.splits if_splits)
  show "cy_orphan_pin owed = Some orphan \<Longrightarrow> owned x inputs es (Some (op_refname orphan))"
    using owed r run pin
    by (auto simp: owed_by_def candidate_names_of_def owned_def Let_def split: option.splits if_splits)
qed

lemma ok_owed_for:
  assumes live: "on (live x decode inputs log es) s" and run: "fo_run (jn_fold jn (fst s)) = Some run"
  shows "ok (on (safe x decode inputs log))
    (\<lambda>owed s. on (live x decode inputs log es) s \<and> (\<forall>p. cy_promotion owed = Some p \<longrightarrow> promotable x inputs es p) \<and>
      (\<forall>orphan. cy_orphan_pin owed = Some orphan \<longrightarrow> owned x inputs es (Some (op_refname orphan))))
    (owed_for (s4_run_id (st_started run)) (jn_fold jn (fst s)) key s)"
proof (cases "last_generation (jn_fold jn (fst s)) key")
  case None
  with live show ?thesis by (simp add: owed_for_def nothing_owed_def)
next
  case (Some g)
  note owed = owed_promotable [OF live run Some]
  show ?thesis
    unfolding owed_for_def Some option.case Let_def
    by (rule ok_and_then, rule ok_read [OF live]) (auto split: sum.splits intro: live_ends owed)
qed

subsection \<open>The end of a run\<close>

lemma ok_delete_refs:
  assumes "on (live x decode inputs log es) s" "\<And>name. prefix root' name \<Longrightarrow> disposable x inputs es name"
  shows "ok (on (safe x decode inputs log)) (\<lambda>_. on (live x decode inputs log es)) (delete_refs_under root' s)"
proof -
  have delete: "ok (on (safe x decode inputs log)) (\<lambda>_. on (live x decode inputs log es))
      (each_do (\<lambda>(name, oid). with_repo (delete_ref_expected_old name oid)) refs s')"
    if "on (live x decode inputs log es) s'" "list_all (\<lambda>(name, _). prefix root' name) refs" for refs s'
    using that
  proof (induction refs arbitrary: s')
    case (Cons ref refs)
    obtain name oid where ref: "ref = (name, oid)" by (cases ref)
    have "agrees x inputs es ((rp_refs (snd s'))(name := None))"
      using Cons.prems agrees_disposable [OF _ assms(2)] by (auto simp: ref on_def live_def)
    from ok_move [OF Cons.prems(1) this moves_simps(3)] Cons.prems(2) show ?case
      by (auto simp: ref intro!: ok_and_then Cons.IH)
  qed simp
  have "ok (on (safe x decode inputs log)) (\<lambda>refs s. on (live x decode inputs log es) s \<and> list_all (\<lambda>(name, _). prefix root' name) refs)
      (with_repo (refs_under root') s)"
    using assms(1) live_ends [OF assms(1)]
    by (auto simp: on_def with_repo_def refs_under_def read_repo_def repo_call_def ok_def list_all_iff in_map_filter
        split: list.splits fault.splits if_splits)
  then show ?thesis
    unfolding delete_refs_under_def
    by (rule ok_and_then) (auto intro!: ok_and_then [OF delete])
qed

lemma ok_scrub_slots:
  "on (live x decode inputs log es) s \<Longrightarrow>
     ok (on (safe x decode inputs log)) (\<lambda>_. on (live x decode inputs log es)) (scrub_slots keep s)"
  unfolding scrub_slots_def
  by (rule ok_and_then, erule ok_repo, simp, rule ok_and_then, rule ok_each, assumption, erule ok_remove_slot) simp

lemma ok_cleanup:
  assumes live: "on (live x decode inputs log es) s" and run: "replay x inputs es = Inr f" "fo_run f = Some run"
    and outcome: "st_finished run = Some outcome" and step: "applies_to outcome step"
  shows "ok (on (safe x decode inputs log)) (\<lambda>_. on (live x decode inputs log es))
    (cleanup (s4_run_id (st_started run)) step s)"
proof -
  have pins: "ok (on (safe x decode inputs log)) (\<lambda>_. on (live x decode inputs log es))
      (delete_refs_under (run_namespace (s4_run_id (st_started run)) @ kind) s')"
    if "on (live x decode inputs log es) s'" "kind \<in> {''prepared/'', ''candidate-prepared/''}" for kind s'
    using that(1) pins_disposable [OF run that(2)] by (rule ok_delete_refs)
  have root': "ok (on (safe x decode inputs log)) (\<lambda>_. on (live x decode inputs log es)) (remove_execution_root s)"
    unfolding remove_execution_root_def using live
    by (rule ok_repo) (auto simp: refs_kept_def repo_call_def split: list.splits fault.splits)
  show ?thesis
  proof (cases step)
    case CleanPins
    show ?thesis
      unfolding cleanup_def Let_def CleanPins cleanup_step.case
      by (rule ok_and_then, rule pins [OF live], simp, rule ok_and_then, rule pins, assumption, simp) simp
  next
    case CleanCandidatesRefs
    with step outcome have "st_finished run = Some OutComplete" by (simp add: applies_to_def)
    with CleanCandidatesRefs show ?thesis
      by (simp add: cleanup_def Let_def) (rule ok_delete_refs [OF live candidates_disposable [OF run]], auto)
  qed (simp_all add: cleanup_def Let_def ok_scrub_slots [OF live] root')
qed

lemma ok_finalize:
  assumes live: "on (live x decode inputs log es) s" and run: "fo_run (jn_fold jn (fst s)) = Some run"
  shows "ok (on (safe x decode inputs log)) (\<lambda>_. on (live x decode inputs log es))
    (finalize (s4_run_id (st_started run)) (jn_fold jn (fst s)) s)"
proof (cases "st_finished run")
  case (Some outcome)
  have r: "replay x inputs es = Inr (jn_fold jn (fst s))" using live by (auto simp: on_def fold_law dest: live_replay)
  have each: "ok (on (safe x decode inputs log)) (\<lambda>_. on (live x decode inputs log es))
      (cleanup_each (s4_run_id (st_started run)) steps s')"
    if "on (live x decode inputs log es) s'" "list_all (applies_to outcome) steps" for steps s'
    using that
  proof (induction steps arbitrary: s')
    case (Cons step steps)
    show ?case
      unfolding cleanup_each.simps
      by (rule ok_and_then, rule ok_cleanup [OF Cons.prems(1) r run Some], use Cons.prems(2) in simp,
          rule ok_and_then, rule Cons.IH, assumption, use Cons.prems(2) in simp) simp
  qed simp
  have report: "refs_kept write_report"
    by (auto simp: refs_kept_def write_report_def repo_call_def split: list.splits fault.splits)
  have finished: "fold_finished (jn_fold jn (fst s)) = Some outcome" using run Some by (simp add: fold_finished_def)
  show ?thesis
    unfolding finalize_def finished option.case
    by (rule ok_and_then, rule ok_repo [OF live report], rule ok_and_then, rule each, assumption)
      (simp_all add: list_all_iff)
qed (use run in \<open>simp add: finalize_def fold_finished_def live_ends [OF live]\<close>)

text \<open>Some log of the run, whatever was added to it.\<close>

lemma ongoingI: "on (live x decode inputs log es) s \<Longrightarrow> begun x inputs es started \<Longrightarrow> ongoing x decode inputs log started s"
  by (auto simp: ongoing_def)

lemma ongoing_more:
  assumes "on (live x decode inputs log (es @ es')) s" "length es' \<le> 1" "begun x inputs es started"
  shows "ongoing x decode inputs log started s"
proof (cases es')
  case (Cons e rest)
  with assms(2) have "es' = [e]" by simp
  with assms have "begun x inputs (es @ [e]) started" by (auto simp: on_def dest!: live_replay intro: begun_snoc)
  with assms(1) \<open>es' = [e]\<close> show ?thesis by (auto intro: ongoingI)
qed (use assms in \<open>auto intro: ongoingI\<close>)

lemma ongoing_snoc:
  "on (live x decode inputs log (es @ [e])) s \<Longrightarrow> begun x inputs es started \<Longrightarrow> ongoing x decode inputs log started s"
  by (rule ongoing_more [where es' = "[e]"]) simp_all

lemma ongoing_ends: "ongoing x decode inputs log started s \<Longrightarrow> on (safe x decode inputs log) s"
  by (auto simp: ongoing_def intro: live_ends)

lemma ongoing_run:
  assumes "on (live x decode inputs log es) s" "begun x inputs es started"
  obtains run where "fo_run (jn_fold jn (fst s)) = Some run" "st_started run = started"
  using assms by (auto simp: on_def fold_law begun_def dest!: live_replay)

lemma ok_grows:
  assumes "ok E (\<lambda>_ s. \<exists>es'. on (live x decode inputs log (es @ es')) s \<and> length es' \<le> 1) p" "begun x inputs es started"
  shows "ok E (\<lambda>_. ongoing x decode inputs log started) p"
  using assms by (auto elim!: ok_weaken intro: ongoing_more)

lemma ok_stays:
  assumes "ok E (\<lambda>_. on (live x decode inputs log es)) p" "begun x inputs es started"
  shows "ok E (\<lambda>_. ongoing x decode inputs log started) p"
  using assms by (auto elim!: ok_weaken intro: ongoingI)

lemma ok_quiet_on:
  assumes serde: "serde encode decode" and s: "ongoing x decode inputs log started s" and q: "quiet body"
  shows "ok (on (safe x decode inputs log)) (\<lambda>_. ongoing x decode inputs log started) (with_journal (jn_emit jn body) s)"
proof -
  from s obtain es where es: "on (live x decode inputs log es) s" "begun x inputs es started" by (auto simp: ongoing_def)
  show ?thesis
    by (rule ok_weaken [OF ok_quiet [OF serde es(1) q]]) (auto intro: ongoing_snoc [OF _ es(2)])
qed

lemma ok_repo_on:
  assumes "ongoing x decode inputs log started s" "refs_kept f"
  shows "ok (on (safe x decode inputs log)) (\<lambda>_. ongoing x decode inputs log started) (with_repo f s)"
  using assms(1) unfolding ongoing_def [of _ _ _ _ _ s]
  by (elim exE conjE) (rule ok_stays [OF ok_repo [OF _ assms(2)]])

lemma ok_slot_on:
  assumes "ongoing x decode inputs log started s"
  shows "ok (on (safe x decode inputs log)) (\<lambda>_. ongoing x decode inputs log started) (remove_slot slot s)"
  using assms unfolding ongoing_def [of _ _ _ _ _ s] by (elim exE conjE) (rule ok_stays [OF ok_remove_slot])

lemma ok_slots_on:
  "ongoing x decode inputs log started s \<Longrightarrow>
     ok (on (safe x decode inputs log)) (\<lambda>_. ongoing x decode inputs log started) (each_do remove_slot slots s)"
  by (rule ok_each) (auto intro: ok_slot_on)

lemma ok_complete_promotions:
  assumes serde: "serde encode decode" and s: "ongoing x decode inputs log started s"
  shows "ok (on (safe x decode inputs log)) (\<lambda>_. ongoing x decode inputs log started)
    (complete_promotions jn (s4_run_id started) s)"
  unfolding complete_promotions_def
proof (rule ok_each, rule s)
  fix key and s' :: "'s \<times> repository" assume "ongoing x decode inputs log started s'"
  then obtain es where es: "on (live x decode inputs log es) s'" "begun x inputs es started" by (auto simp: ongoing_def)
  obtain run where run: "fo_run (jn_fold jn (fst s')) = Some run" "st_started run = started" by (rule ongoing_run [OF es])
  note owed = ok_owed_for [OF es(1) run(1), unfolded run(2)]
  have promote: "ok (on (safe x decode inputs log)) (\<lambda>_. ongoing x decode inputs log started)
      (and_then (complete_promotion jn slot p s2) (\<lambda>_ s. (s, Inr ())))"
    if "on (live x decode inputs log es) s2" "promotable x inputs es p" for slot p s2
    by (rule ok_and_then, rule ok_grows [OF ok_complete_promotion [OF serde that] es(2)]) simp
  show "ok (on (safe x decode inputs log)) (\<lambda>_. ongoing x decode inputs log started)
      (and_then (owed_for (s4_run_id started) (jn_fold jn (fst s')) key s') (\<lambda>owed s.
       opt_do (\<lambda>promoting s.
         and_then (complete_promotion jn (task_slot key (cr_generation (pm_candidate promoting))) promoting s) (\<lambda>_ s.
         (s, Inr ()))) (cy_promotion owed) s))"
    by (rule ok_and_then [OF owed])
      (auto simp: opt_do_def split: option.splits intro: promote ongoingI [OF _ es(2)])
qed

lemma ok_complete_publication:
  assumes serde: "serde encode decode" and s: "ongoing x decode inputs log started s"
  shows "ok (on (safe x decode inputs log)) (\<lambda>_. ongoing x decode inputs log started) (complete_publication jn s)"
proof (cases "authorized_from_fold (jn_fold jn (fst s))")
  case (Some a)
  from s obtain es where es: "on (live x decode inputs log es) s" "begun x inputs es started" by (auto simp: ongoing_def)
  have "authorizes x inputs es a"
    using es(1) Some by (auto simp: on_def fold_law dest!: live_replay intro: authorized_by_fold)
  note publish = ok_publish [OF serde es(1) this]
  show ?thesis
    unfolding complete_publication_def Some option.case
    by (rule ok_and_then, rule publish) (auto intro: ongoing_snoc [OF _ es(2)])
qed (use s in \<open>simp add: complete_publication_def\<close>)

end

subsection \<open>The process that runs the tasks\<close>

definition flight_owned :: "externals \<Rightarrow> frozen_inputs \<Rightarrow> topology_event list \<Rightarrow> in_flight_item \<Rightarrow> bool" where
  "flight_owned x inputs es item =
     (case item of FlightVerification _ _ (Some (pin, _)) _ \<Rightarrow> owned x inputs es (Some pin) | _ \<Rightarrow> True)"

lemma flight_owned_snoc:
  "flight_owned x inputs es item \<Longrightarrow> replay x inputs (es @ [e]) = Inr f' \<Longrightarrow> flight_owned x inputs (es @ [e]) item"
  by (auto simp: flight_owned_def split: in_flight_item.splits option.splits intro: owned_snoc)

lemma in_flight_case:
  "(case c of InFlight attempt \<Rightarrow> Some (f attempt) | _ \<Rightarrow> None) = Some v \<longleftrightarrow> (\<exists>attempt. c = InFlight attempt \<and> v = f attempt)"
  by (cases c) auto

lemma flying_attempts_shape:
  "item \<in> set (flying_attempts f) \<Longrightarrow> \<exists>key generation attempt lease. item = FlightAttempt key generation attempt lease"
  by (auto simp: flying_attempts_def in_map_filter in_flight_case split: option.split_asm)

text \<open>Its journal writes through the emitter in its state; what else is in the state does not matter.\<close>

locale running_journal = log_journal jn log x encode decode
  for jn :: "(topology_run \<times> nat, 'e, 'z) journal_scheme" and log x encode decode +
  assumes log_law: "log j = tr_emit (fst j)"
begin

lemma live_cong:
  "on (live x decode inputs log es) s \<Longrightarrow> tr_emit (fst j') = tr_emit (fst (fst s)) \<Longrightarrow> on (live x decode inputs log es) (j', snd s)"
  by (auto simp: on_def live_def log_law)

lemma ok_reclaim_snapshots_of:
  "on (live x decode inputs log es) s \<Longrightarrow>
     ok (on (safe x decode inputs log)) (\<lambda>_. on (live x decode inputs log es)) (reclaim_snapshots_of names s)"
  unfolding reclaim_snapshots_of_def by (rule ok_and_then, rule ok_repo) (auto intro: ok_each ok_remove_slot)

text \<open>Interrupting what was in flight.\<close>

lemma in_flight_owned:
  assumes live: "on (live x decode inputs log es) s"
  shows "list_all (flight_owned x inputs es) (all_in_flight (jn_fold jn (fst s)))"
proof -
  have r: "replay x inputs es = Inr (jn_fold jn (fst s))" and ag: "agrees x inputs es (rp_refs (snd s))"
    using live by (auto simp: on_def fold_law live_def dest: in_step_replay)
  have "list_all (flight_owned x inputs es) (flying_attempts (jn_fold jn (fst s)))"
    using flying_attempts_shape by (fastforce simp: list_all_iff flight_owned_def)
  moreover have "list_all (flight_owned x inputs es) (flying_verification (jn_fold jn (fst s)))"
    using agrees_basis [OF ag r]
    by (fastforce simp: flying_verification_def flight_owned_def fold_transaction_def bind_eq_Some_conv basis_pin_def
        split: option.splits transaction_class.splits verification_basis.splits)
  ultimately show ?thesis by (simp add: all_in_flight_def)
qed

lemma ok_reclaim_interrupted:
  assumes s: "on (live x decode inputs log es) s" and own: "flight_owned x inputs es item"
  shows "ok (on (safe x decode inputs log)) (\<lambda>_. on (live x decode inputs log es)) (reclaim_interrupted item s)"
proof (cases item)
  case (FlightAttempt key generation attempt lease)
  have "on (live x decode inputs log es) (forget_retained key (fst s), snd s)"
    by (rule live_cong [OF s]) (simp add: forget_retained_def)
  then show ?thesis
    unfolding reclaim_interrupted_def FlightAttempt in_flight_item.case scrub_def
    by (intro ok_and_then [OF ok_reclaim_snapshots_of]) (auto intro: ok_remove_slot)
next
  case (FlightVerification sequence key pin cancelled)
  have prune: "ok (on (safe x decode inputs log)) (\<lambda>_. on (live x decode inputs log es))
      (opt_do (\<lambda>(pin, proposed). prune_pin pin proposed) pin s)"
    by (rule ok_maybe [OF s]) (use own FlightVerification in \<open>auto simp: flight_owned_def intro: ok_prune\<close>)
  show ?thesis
    unfolding reclaim_interrupted_def FlightVerification in_flight_item.case
    by (rule ok_and_then [OF prune], rule ok_and_then, erule ok_remove_slot, erule ok_reclaim_snapshots_of)
qed

lemma quiet_flight: "quiet (flight_interrupted item)"
  by (cases item) (simp_all add: flight_interrupted_def quiet_defs)

lemma ok_interrupt_each:
  assumes serde: "serde encode decode" and s: "on (live x decode inputs log es) s" "begun x inputs es started"
    and own: "list_all (flight_owned x inputs es) items"
  shows "ok (on (safe x decode inputs log)) (\<lambda>_. ongoing x decode inputs log started) (interrupt_each jn items s)"
  using s own unfolding interrupt_each_def
proof (induction items arbitrary: s es)
  case Nil
  then show ?case by (auto intro: ongoingI)
next
  case (Cons item items)
  show ?case
    unfolding each_do.simps
  proof (rule ok_and_then, rule ok_and_then, rule ok_quiet [OF serde Cons.prems(1) quiet_flight])
    fix s1 assume "\<exists>e. on (live x decode inputs log (es @ [e])) s1"
    then obtain e where e: "on (live x decode inputs log (es @ [e])) s1" by blast
    from e have r: "replay x inputs (es @ [e]) = Inr (em_fold (log (fst s1)))" by (auto simp: on_def dest: live_replay)
    have own: "list_all (flight_owned x inputs (es @ [e])) (item # items)" and b: "begun x inputs (es @ [e]) started"
      using Cons.prems(2,3) r by (auto simp: list_all_iff intro: flight_owned_snoc begun_snoc)
    show "ok (on (safe x decode inputs log)) (\<lambda>_ s. \<exists>es. on (live x decode inputs log es) s \<and> begun x inputs es started \<and>
        list_all (flight_owned x inputs es) items) (reclaim_interrupted item s1)"
      by (rule ok_weaken [OF ok_reclaim_interrupted [OF e]]) (use own b in auto)
  qed (auto intro: Cons.IH)
qed

lemma ok_close_each:
  assumes serde: "serde encode decode" and s: "ongoing x decode inputs log started s"
  shows "ok (on (safe x decode inputs log)) (\<lambda>_. ongoing x decode inputs log started) (close_each jn reason keys s)"
  unfolding close_each_def
proof (rule ok_each, rule s)
  fix key s' assume s': "ongoing x decode inputs log started s'"
  have forget: "ongoing x decode inputs log started (forget_retained key (fst s2), snd s2)"
    if "ongoing x decode inputs log started s2" for s2
  proof -
    have "tr_emit (fst (forget_retained key (fst s2))) = tr_emit (fst (fst s2))" by (simp add: forget_retained_def)
    with that show ?thesis unfolding ongoing_def by (blast intro: live_cong)
  qed
  show "ok (on (safe x decode inputs log)) (\<lambda>_. ongoing x decode inputs log started)
     (case settle_close (jn_fold jn (fst s')) key reason of
        Inl e \<Rightarrow> (s', Inl (IntSettle e))
      | Inr event \<Rightarrow> and_then (with_journal (jn_emit jn (EvGenerationClosed event)) s') (\<lambda>_ s.
          scrub (task_slot key (gc_generation event)) (forget_retained key (fst s), snd s)))"
    using ongoing_ends [OF s']
    by (auto split: sum.splits simp: scrub_def quiet_defs intro!: ok_and_then [OF ok_quiet_on [OF serde s']] ok_slot_on forget)
qed

lemma ongoing_reserved: "ongoing x decode inputs log started s \<Longrightarrow> ongoing x decode inputs log started (cancel_reservations (fst s), snd s)"
  unfolding ongoing_def by (auto simp: on_def live_def log_law cancel_reservations_def)

lemma ok_record_end:
  assumes serde: "serde encode decode" and s: "ongoing x decode inputs log started s"
  shows "ok (on (safe x decode inputs log)) (\<lambda>_. ongoing x decode inputs log started) (record_end x jn outcome s)"
  using ongoing_ends [OF s]
  by (auto simp: record_end_def quiet_defs split: sum.splits intro: ok_quiet_on [OF serde s])

lemma ok_finalize_on:
  assumes s: "ongoing x decode inputs log started s"
  shows "ok (on (safe x decode inputs log)) (\<lambda>_. ongoing x decode inputs log started)
    (finalize (s4_run_id started) (jn_fold jn (fst s)) s)"
proof -
  from s obtain es where es: "on (live x decode inputs log es) s" "begun x inputs es started" by (auto simp: ongoing_def)
  obtain run where run: "fo_run (jn_fold jn (fst s)) = Some run" "st_started run = started" by (rule ongoing_run [OF es])
  show ?thesis by (rule ok_stays [OF _ es(2)], rule ok_finalize [OF es(1) run(1), unfolded run(2)])
qed

lemma ok_close_run:
  assumes serde: "serde encode decode" and s: "on (live x decode inputs log es) s" "begun x inputs es started"
    and id: "ri_run_id identity = s4_run_id started"
  shows "ok (on (safe x decode inputs log)) (\<lambda>_. on (safe x decode inputs log)) (close_run x jn identity c s)"
proof (cases "res_bind (ending_outcome x (jn_fold jn (fst s))) (\<lambda>outcome.
    res_bind (settleable (jn_fold jn (fst s)) outcome c) (\<lambda>interrupted. Inr (outcome, interrupted)))")
  case (Inl e)
  then show ?thesis by (simp add: close_run_def live_ends [OF s(1)])
next
  case (Inr r)
  then obtain outcome interrupted where r: "r = (outcome, interrupted)" "settleable (jn_fold jn (fst s)) outcome c = Inr interrupted"
    by (auto simp: res_bind_Inr)
  have own: "list_all (flight_owned x inputs es) interrupted"
    using r(2) in_flight_owned [OF s(1)] by (auto simp: settleable_def Let_def split: if_splits)
  show ?thesis
    unfolding close_run_def Let_def Inr r(1) sum.case prod.case id
    by (rule ok_and_then [OF ok_interrupt_each [OF serde s own]], rule ok_and_then, erule ok_complete_promotions [OF serde],
        rule ok_and_then, erule ok_complete_publication [OF serde], rule ok_and_then, erule ok_close_each [OF serde],
        rule ok_and_then, rule ok_record_end [OF serde], erule ongoing_reserved, rule ok_and_then, erule ok_finalize_on)
      (simp add: ongoing_ends)
qed

lemma ok_settle_cancelled:
  assumes serde: "serde encode decode" and s: "on (live x decode inputs log es) s" "begun x inputs es started"
  shows "ok (on (safe x decode inputs log)) (\<lambda>_. on (safe x decode inputs log)) (settle_cancelled_verification jn sequence s)"
proof -
  have "ok (on (safe x decode inputs log)) (\<lambda>_. on (safe x decode inputs log)) (interrupt_each jn [item] s)"
    if "item \<in> set (all_in_flight (jn_fold jn (fst s)))" for item
    by (rule ok_weaken [OF ok_interrupt_each [OF serde s]])
      (use that in_flight_owned [OF s(1)] in \<open>auto simp: list_all_iff ongoing_ends\<close>)
  then show ?thesis
    by (auto simp: settle_cancelled_verification_def find_Some_iff live_ends [OF s(1)] split: option.splits)
qed

text \<open>An accepted attempt becomes a candidate.\<close>

lemma ok_pin_candidate:
  assumes s: "on (live x decode inputs log es) s" and own: "owned x inputs es (Some (cn_prepared_ref (up_names u)))"
  shows "ok (on (safe x decode inputs log))
    (\<lambda>p s. on (live x decode inputs log es) s \<and> pn_names p = up_names u \<and> pn_judged p = up_judged u) (pin_candidate u s)"
  unfolding pin_candidate_def
  by (rule ok_and_then, rule ok_move [OF s _ moves_simps(2)])
    (use s agrees_pin [OF _ own] in \<open>auto simp: on_def live_def\<close>)

lemma ok_append_prepared:
  assumes serde: "serde encode decode" and s: "on (live x decode inputs log es) s" "begun x inputs es started"
    and names: "pn_names p = candidate_names_of (s4_run_id started) (jt_key (pn_judged p)) (jt_generation (pn_judged p))"
  shows "ok (on (safe x decode inputs log))
    (\<lambda>p s. \<exists>e. on (live x decode inputs log (es @ [e])) s \<and> promotable x inputs (es @ [e]) p \<and> begun x inputs (es @ [e]) started)
    (append_candidate_prepared jn p s)"
proof -
  let ?m = "\<lparr>pm_candidate = candidate_of_prepared (prepared_event_of p), pm_prepared_ref = cn_prepared_ref (pn_names p),
    pm_base = jt_base_sha (pn_judged p), pm_tree = jt_tree_sha (pn_judged p)\<rparr>"
  have named: "cp_candidate_ref (prepared_event_of p) =
      candidates_ref (s4_run_id started) (cp_key (prepared_event_of p)) (cp_generation (prepared_event_of p))"
    by (simp add: prepared_event_of_def names candidate_names_of_def Let_def)
  have new: "agrees x inputs (es @ [e]) (rp_refs (snd s))" if "ev_body e = EvCandidatePrepared (prepared_event_of p)" for e
    by (rule agrees_candidate_prepared [OF _ that]) (use s named in \<open>auto simp: on_def live_def begun_def\<close>)
  have "promotable x inputs es' ?m" if "begun x inputs es' started" for es'
    using that named
    by (auto simp: begun_def promotable_def candidate_of_prepared_def names candidate_names_of_def own_candidate_pin)
  moreover have "begun x inputs (es @ [e]) started" if "on (live x decode inputs log (es @ [e])) s'" for e s'
    using that s(2) by (auto simp: on_def dest!: live_replay intro: begun_snoc)
  ultimately show ?thesis
    unfolding append_candidate_prepared_def Let_def
    by (intro ok_and_then [OF ok_emit [OF serde s(1) new]]) auto
qed

lemma ok_promote_candidate:
  assumes serde: "serde encode decode" and s: "on (live x decode inputs log es) s" "begun x inputs es started"
    and id: "ri_run_id identity = s4_run_id started"
  shows "ok (on (safe x decode inputs log)) (\<lambda>_. on (safe x decode inputs log))
    (promote_candidate commit_id jn identity site base record paths s)"
proof -
  have commit: "refs_kept (write_commit c parent tree)" for c parent tree
    by (auto simp: refs_kept_def write_commit_def repo_call_def split: list.splits fault.splits)
  have own: "owned x inputs es (Some (candidate_pin_ref (s4_run_id started) key generation))" for key generation
    using s(2) own_candidate_pin unfolding begun_def owned_def by metis
  have wrote: "ok (on (safe x decode inputs log))
      (\<lambda>u s. on (live x decode inputs log es) s \<and>
        up_names u = candidate_names_of (s4_run_id started) (jt_key (up_judged u)) (jt_generation (up_judged u)))
      (write_candidate_commit commit_id (s4_run_id started) judged s')" if "on (live x decode inputs log es) s'" for judged s'
    unfolding write_candidate_commit_def Let_def
    by (rule ok_and_then, rule ok_repo [OF that commit]) (auto split: sum.splits intro: live_ends)
  have noted: "on (live x decode inputs log es) (apfst (record_promoted key record) (fst s'), snd s')"
    if "on (live x decode inputs log es) s'" for key s'
    by (rule live_cong [OF that]) (simp add: record_promoted_def)
  have promote: "ok (on (safe x decode inputs log)) (\<lambda>_. on (safe x decode inputs log))
      (and_then (append_candidate_prepared jn p (apfst (record_promoted key record) (fst s'), snd s')) (\<lambda>promoting s.
       and_then (complete_promotion jn slot promoting s) (\<lambda>_ s. (s, Inr ()))))"
    if "on (live x decode inputs log es) s'"
      "pn_names p = candidate_names_of (s4_run_id started) (jt_key (pn_judged p)) (jt_generation (pn_judged p))" for key slot p s'
    by (rule ok_and_then [OF ok_append_prepared [OF serde noted [OF that(1)] s(2) that(2)]], elim exE conjE,
        rule ok_and_then, rule ok_grows [OF ok_complete_promotion [OF serde]], assumption, assumption, assumption)
      (simp add: ongoing_ends)
  show ?thesis
    unfolding promote_candidate_def Let_def id
    by (rule ok_and_then, rule ok_repo [OF s(1)], simp)
      (auto split: sum.splits intro: live_ends intro!: promote
        ok_and_then [OF wrote] ok_and_then [OF ok_pin_candidate] simp: candidate_names_of_def own)
qed

end

end
