(* ===== verification/Recover_Facts.thy ===== *)
theory Recover_Facts
  imports Recover Candidate_Facts
begin

section \<open>Recovery keeps the integration ref with the log\<close>

text \<open>
  Recovery's steps keep the relation between the log and the refs, whichever of them fails, and
  with that the relation holds after any run of the engine: events, integrations, crashes and
  recoveries in any order.
\<close>

subsection \<open>The steps of a recovery\<close>

lemma pinned_owned:
  assumes "agrees x inputs es refs" "replay x inputs es = Inr f" "fo_run f = Some run"
    and "(sequence, pin, sha) \<in> set (pinned_sequences es)"
  shows "owned x inputs es (Some pin)"
proof -
  from assms(4) obtain e where e: "e \<in> set es" "(case ev_body e of
      EvMergeVerificationStarted d \<Rightarrow>
        (case vs_basis d of BasisStaleClean pin \<Rightarrow> Some (vs_sequence d, pin, vs_proposed_sha d) | BasisAlreadyPresent \<Rightarrow> None)
    | _ \<Rightarrow> None) = Some (sequence, pin, sha)" unfolding pinned_sequences_def in_map_filter by blast
  then obtain d where "ev_body e = EvMergeVerificationStarted d" by (cases "ev_body e") auto
  moreover from this e(2) have "vs_basis d = BasisStaleClean pin" by (cases "vs_basis d") auto
  moreover note e(1)
  moreover from assms(1-3) have "pins_own es (st_started run)" by (auto simp: agrees_def head_follows_def Let_def)
  ultimately have "own_pin (st_started run) (Some pin)" by (force simp: pins_own_def list_all_iff basis_pin_def)
  with assms(2,3) show ?thesis by (auto simp: owned_def)
qed

lemma agrees_ensured:
  assumes "agrees x inputs es refs" "replay x inputs es = Inr f" "fo_run f = Some run"
    and "\<not> publication_pending f" "last_publication es = None"
  shows "agrees x inputs es (refs(s4_integration_ref (st_started run) := Some (s4_base_sha (st_started run))))"
proof -
  from assms(1-3) have a: "ref_apart (st_started run)" "head_follows es run refs" "candidates_follow es run refs"
    by (auto simp: agrees_def)
  have "s4_integration_ref (st_started run) \<noteq> candidates_ref (s4_run_id (st_started run)) key generation" for key generation
    using candidate_apart [OF a(1)] by metis
  then have "candidates_follow es run (refs(s4_integration_ref (st_started run) := v))" for v
    using a(3) by (auto simp: candidates_follow_def intro: kept_other)
  with a assms(2-5) show ?thesis
    by (auto simp: agrees_def head_follows_def at_head_def authorized_head_of_def publication_pending_def Let_def
        split: option.splits transaction_class.splits)
qed

text \<open>The ref is created at the base or found there.\<close>

lemma ok_ensure:
  assumes s: "on P s" and ends: "\<And>j refs. P j refs \<Longrightarrow> I j refs"
    and base: "\<And>j refs. P j refs \<Longrightarrow> P j (refs(name := Some base))"
  shows "ok (on I) (\<lambda>_. on P) (ensure_integration_ref name base s)"
proof -
  have refuse: "refs_kept (\<lambda>r. (r, refuse_new name new))" for name new by (simp add: refs_kept_def)
  note create = ok_weaken [OF ok_update [where P = P and I = I, OF _ _ _ moves_simps(2)]]
  show ?thesis
    unfolding ensure_integration_ref_def
    by (rule ok_and_then [OF ok_with_repo [OF s refuse ends]], assumption,
        rule ok_and_then, rule ok_with_repo [OF _ refs_kept_simps(1) ends], assumption, assumption,
        rule ok_and_then, rule ok_target [OF _ ends], assumption, assumption)
      (auto split: option.splits intro!: create intro: ends base simp: on_def)
qed

context log_journal
begin

lemma ok_reclaim_pins:
  assumes "on (live x decode inputs log es) s" "\<And>sequence pin sha. (sequence, pin, sha) \<in> set pins \<Longrightarrow> owned x inputs es (Some pin)"
  shows "ok (on (safe x decode inputs log)) (\<lambda>_. on (live x decode inputs log es)) (reclaim_pins open' pins live_pin s)"
  using assms
proof (induction pins arbitrary: live_pin s)
  case (Cons p pins)
  obtain sequence pin sha where p: "p = (sequence, pin, sha)" by (metis prod_cases3)
  from Cons.prems(2) p have own: "owned x inputs es (Some pin)"
    and rest: "\<And>sequence pin sha. (sequence, pin, sha) \<in> set pins \<Longrightarrow> owned x inputs es (Some pin)" by auto
  show ?case
  proof (cases "Some sequence = open'")
    case True
    show ?thesis
      unfolding p reclaim_pins.simps if_P [OF True]
      by (rule ok_and_then [OF ok_read [OF Cons.prems(1)]])
        (auto split: option.splits simp: live_ends intro: Cons.IH [OF _ rest])
  next
    case False
    show ?thesis
      unfolding p reclaim_pins.simps if_not_P [OF False]
      by (rule ok_and_then [OF ok_prune [OF Cons.prems(1) own]]) (rule Cons.IH [OF _ rest])
  qed
qed simp

lemma ok_reclaim_orphan:
  assumes s: "on (live x decode inputs log es) s" and own: "owned x inputs es (Some pin)"
  shows "ok (on (safe x decode inputs log)) (\<lambda>_. on (live x decode inputs log es)) (reclaim_orphan pin s)"
  unfolding reclaim_orphan_def
proof (rule ok_and_then [OF ok_read [OF s]], elim conjE, rule ok_maybe)
  fix found s' assume s': "on (live x decode inputs log es) s'"
  then have "agrees x inputs es ((rp_refs (snd s'))(pin := None))"
    using agrees_pin [OF _ own] by (simp add: on_def live_def)
  with s' show "ok (on (safe x decode inputs log)) (\<lambda>_. on (live x decode inputs log es))
      (with_repo (delete_ref_expected_old pin found) s')"
    by (intro ok_weaken [OF ok_move]) auto
qed

lemma ok_reclaim_residue:
  assumes s: "on (live x decode inputs log es) s"
  shows "ok (on (safe x decode inputs log)) (\<lambda>_. on (live x decode inputs log es))
    (reclaim_stale_residue (jn_fold jn (fst s)) es s)"
proof (cases "fo_run (jn_fold jn (fst s))")
  case (Some run)
  have r: "replay x inputs es = Inr (jn_fold jn (fst s))" and ag: "agrees x inputs es (rp_refs (snd s))"
    using s by (auto simp: on_def fold_law live_def dest: in_step_replay)
  have "owned x inputs es (Some (prepared_pin_ref (s4_run_id (st_started run)) n))" for n
    using r Some by (auto simp: owned_def own_pin_def)
  note orphan = ok_reclaim_orphan [OF _ this]
  have pins: "ok (on (safe x decode inputs log)) (\<lambda>_. on (live x decode inputs log es))
      (reclaim_pins open' (pinned_sequences es) None s')" if "on (live x decode inputs log es) s'" for open' s'
    using that pinned_owned [OF ag r Some] by (rule ok_reclaim_pins)
  show ?thesis
    unfolding reclaim_stale_residue_def Some Let_def option.case
    by (rule ok_and_then [OF ok_repo [OF s]], simp, rule ok_and_then, rule ok_each, assumption, rule ok_remove_slot, assumption,
        rule ok_and_then, rule pins, assumption, rule ok_and_then)
      (auto intro: orphan)
qed (use s in \<open>simp add: reclaim_stale_residue_def live_ends\<close>)

lemma ok_ensure_recorded:
  assumes s: "on (live x decode inputs log es) s" and started: "fold_started (jn_fold jn (fst s)) = Some started"
    and quiet: "\<not> publication_pending (jn_fold jn (fst s))"
  shows "ok (on (safe x decode inputs log)) (\<lambda>_. on (live x decode inputs log es))
    (ensure_recorded_integration_ref started es s)"
proof -
  let ?f = "jn_fold jn (fst s)"
  from started obtain run where run: "fo_run ?f = Some run" "st_started run = started" by (auto simp: fold_started_def)
  have r: "replay x inputs es = Inr ?f" using s by (auto simp: on_def fold_law live_def dest: in_step_replay)
  show ?thesis
  proof (cases "last_publication es")
    case None
    have "ok (on (safe x decode inputs log)) (\<lambda>_. on (live x decode inputs log es))
        (ensure_integration_ref (s4_integration_ref started) (s4_base_sha started) s)"
      by (rule ok_ensure [OF s live_safe]) (use agrees_ensured [OF _ r run(1) quiet None] run(2) in \<open>auto simp: live_def\<close>)
    with None show ?thesis by (simp add: ensure_recorded_integration_ref_def authorized_head_of_def)
  next
    case (Some m)
    show ?thesis
      unfolding ensure_recorded_integration_ref_def authorized_head_of_def Let_def
      by (simp add: Some, rule ok_and_then [OF ok_repo [OF s]], simp, rule ok_and_then, rule ok_read, assumption)
        (auto split: option.splits intro: live_ends)
  qed
qed

lemma ok_emit_each:
  assumes "serde encode decode" "ongoing x decode inputs log started s" "list_all quiet bodies"
  shows "ok (on (safe x decode inputs log)) (\<lambda>_. ongoing x decode inputs log started) (emit_each jn bodies s)"
  using assms(2,3) unfolding emit_each_def
proof (induction bodies arbitrary: s)
  case (Cons body bodies)
  then show ?case by (auto intro!: ok_and_then [OF ok_quiet_on [OF assms(1) Cons.prems(1)]] Cons.IH)
qed auto

lemma ok_settle:
  assumes "serde encode decode" "ongoing x decode inputs log started s"
  shows "ok (on (safe x decode inputs log)) (\<lambda>_. ongoing x decode inputs log started) (settle_interrupted jn s)"
    "ok (on (safe x decode inputs log)) (\<lambda>_. ongoing x decode inputs log started) (close_retained_idle jn s)"
  unfolding settle_interrupted_def close_retained_idle_def Let_def
  by (rule ok_and_then, rule ok_emit_each [OF assms], auto simp: list_all_iff quiet_defs)+

lemma ok_interrupt:
  assumes serde: "serde encode decode" and s: "on (live x decode inputs log es) s" "begun x inputs es started"
    and own: "owned x inputs es (basis_pin basis)"
  shows "ok (on (safe x decode inputs log)) (\<lambda>_. ongoing x decode inputs log started)
    (interrupt_verification jn tx basis proposed s)"
  unfolding interrupt_verification_def
proof (rule ok_and_then, rule ok_quiet [OF serde s(1)], simp add: quiet_defs, elim exE)
  fix s1 e assume s1: "on (live x decode inputs log (es @ [e])) s1"
  have "ok (on (safe x decode inputs log)) (\<lambda>_. on (live x decode inputs log (es @ [e])))
      (case basis of BasisStaleClean pin \<Rightarrow> prune_pin pin proposed s1 | BasisAlreadyPresent \<Rightarrow> (s1, Inr ()))"
    using s1 owned_live [OF own s1] by (auto simp: basis_pin_def split: verification_basis.splits intro: ok_prune)
  then show "ok (on (safe x decode inputs log)) (\<lambda>_. ongoing x decode inputs log started)
     (and_then (case basis of BasisStaleClean pin \<Rightarrow> prune_pin pin proposed s1 | BasisAlreadyPresent \<Rightarrow> (s1, Inr ()))
       (\<lambda>_ s. remove_slot (staging_slot (tx_sequence tx)) s))"
    by (rule ok_and_then) (rule ok_weaken [OF ok_remove_slot], auto intro: ongoing_snoc [OF _ s(2)])
qed

lemma ok_finish:
  assumes serde: "serde encode decode" and s: "ongoing x decode inputs log started s"
  shows "ok (on (safe x decode inputs log)) (\<lambda>_. ongoing x decode inputs log started) (finish_integration jn s)"
proof -
  let ?f = "jn_fold jn (fst s)"
  from s obtain es where es: "on (live x decode inputs log es) s" "begun x inputs es started" by (auto simp: ongoing_def)
  have r: "replay x inputs es = Inr ?f" and ag: "agrees x inputs es (rp_refs (snd s))"
    using es(1) by (auto simp: on_def fold_law live_def dest: in_step_replay)
  have publish: "ok (on (safe x decode inputs log)) (\<lambda>_. ongoing x decode inputs log started)
      (and_then (publish jn a s) (\<lambda>_ s. (s, Inr ())))" if "authorized_from_fold ?f = Some a" for a
    by (rule ok_and_then [OF ok_publish [OF serde es(1) authorized_by_fold [OF that r]]])
      (auto intro: ongoing_snoc [OF _ es(2)])
  show ?thesis
    unfolding finish_integration_def Let_def
  proof (rule ok_and_then)
    show "ok (on (safe x decode inputs log)) (\<lambda>_. ongoing x decode inputs log started)
      (case Option.bind (fo_run ?f) st_transaction of
         None \<Rightarrow> (s, Inr ())
       | Some tx \<Rightarrow>
           (case tx_class tx of
              Prepared _ _ _ _ _ \<Rightarrow>
                (case authorized_from_fold ?f of
                   None \<Rightarrow> (s, Inl (IntRefusal IntegrateNotStarted))
                 | Some a \<Rightarrow> and_then (publish jn a s) (\<lambda>_ s. (s, Inr ())))
            | VerificationStarted basis _ proposed \<Rightarrow> interrupt_verification jn tx basis proposed s))"
      using s ok_interrupt [OF serde es agrees_basis [OF ag r]]
      by (auto split: option.splits transaction_class.splits simp: bind_eq_Some_conv intro: publish ongoing_ends)
    fix s1 assume "ongoing x decode inputs log started s1"
    then show "ok (on (safe x decode inputs log)) (\<lambda>_. ongoing x decode inputs log started) (reclaim_snapshots s1)"
      unfolding ongoing_def [of _ _ _ _ _ s1] by (elim exE conjE) (rule ok_stays [OF ok_reclaim_snapshots])
  qed
qed

lemma ok_kept:
  "ongoing x decode inputs log started s \<Longrightarrow>
     ok (on (safe x decode inputs log)) (\<lambda>_. ongoing x decode inputs log started) (refuse_kept_slot kept slot s)"
  unfolding refuse_kept_slot_def by (rule ok_and_then, erule ok_repo_on, simp) (simp add: ongoing_ends)

lemma ok_reclaim_closed:
  assumes "ongoing x decode inputs log started s"
  shows "ok (on (safe x decode inputs log)) (\<lambda>_. ongoing x decode inputs log started) (reclaim_closed_generations kept f s)"
  unfolding reclaim_closed_generations_def scrub_def
  by (rule ok_and_then, rule ok_repo_on [OF assms], simp, rule ok_each, assumption, rule ok_and_then, erule ok_kept)
    (erule ok_slot_on)

lemma ok_create_worktree:
  "ongoing x decode inputs log started s \<Longrightarrow>
     ok (on (safe x decode inputs log)) (\<lambda>_. ongoing x decode inputs log started) (create_worktree open' s)"
  unfolding create_worktree_def by (rule ok_and_then, erule ok_repo_on, simp) (erule ok_repo_on, simp)

lemma ok_verify_or_recreate:
  assumes "ongoing x decode inputs log started s"
  shows "ok (on (safe x decode inputs log)) (\<lambda>_. ongoing x decode inputs log started) (verify_or_recreate verified kept open' s)"
  unfolding verify_or_recreate_def Let_def scrub_def
  by (rule ok_and_then, rule ok_repo_on [OF assms], simp)
    (auto split: option.splits intro: ok_kept intro!: ok_and_then [OF ok_kept] ok_and_then [OF ok_slot_on] ok_and_then [OF ok_create_worktree])

lemma ok_recreate:
  assumes s: "ongoing x decode inputs log started s"
  shows "ok (on (safe x decode inputs log)) (\<lambda>_. ongoing x decode inputs log started)
    (recreate_open_no_attempt verified kept f events s)"
  unfolding recreate_open_no_attempt_def
  using s by (auto split: sum.splits intro!: ok_each ok_and_then [OF ok_verify_or_recreate] intro: ongoing_ends)

lemma ok_recovery_for:
  assumes live: "on (live x decode inputs log es) s" and b: "begun x inputs es started"
    and run: "fo_run (jn_fold jn (fst s)) = Some run" "st_started run = started"
  shows "ok (on (safe x decode inputs log))
    (\<lambda>owed s. on (live x decode inputs log es) s \<and> (\<forall>p. cy_promotion owed = Some p \<longrightarrow> promotable x inputs es p) \<and>
      (\<forall>orphan. cy_orphan_pin owed = Some orphan \<longrightarrow> owned x inputs es (Some (op_refname orphan))))
    (recovery_for kept (s4_run_id started) (jn_fold jn (fst s)) key s)"
proof -
  have kept: "ok (on (safe x decode inputs log)) (\<lambda>_. on (live x decode inputs log es)) (refuse_kept_slot kept slot s')"
    if "on (live x decode inputs log es) s'" for slot s'
    unfolding refuse_kept_slot_def by (rule ok_and_then, rule ok_repo [OF that], simp) (simp add: live_ends)
  show ?thesis
    unfolding recovery_for_def
    by (rule ok_and_then, rule ok_owed_for [OF live run(1), unfolded run(2)], elim conjE, rule ok_and_then,
        rule ok_maybe, assumption, erule kept) simp
qed

lemma ok_recoveries:
  assumes live: "on (live x decode inputs log es) s" and b: "begun x inputs es started"
  shows "ok (on (safe x decode inputs log))
    (\<lambda>owed s. on (live x decode inputs log es) s \<and> list_all (promotable x inputs es) (List.map_filter cy_promotion owed) \<and>
      list_all (\<lambda>orphan. owned x inputs es (Some (op_refname orphan))) (List.map_filter cy_orphan_pin owed))
    (recoveries_for kept (s4_run_id started) (jn_fold jn (fst s)) keys s)"
proof -
  have "jn_fold jn (fst s') = jn_fold jn (fst s)" if "on (live x decode inputs log es) s'" for s'
    using live that by (auto simp: on_def fold_law dest!: live_replay)
  note same = this
  obtain run where run: "fo_run (jn_fold jn (fst s)) = Some run" "st_started run = started" by (rule ongoing_run [OF live b])
  have "ok (on (safe x decode inputs log))
    (\<lambda>owed s. on (live x decode inputs log es) s \<and> list_all (promotable x inputs es) (List.map_filter cy_promotion owed) \<and>
      list_all (\<lambda>orphan. owned x inputs es (Some (op_refname orphan))) (List.map_filter cy_orphan_pin owed))
    (recoveries_for kept (s4_run_id started) (jn_fold jn (fst s)) keys s')" if "on (live x decode inputs log es) s'" for s'
    using that
  proof (induction keys arbitrary: s')
    case (Cons key keys)
    note first = ok_recovery_for [OF Cons.prems b, unfolded same [OF Cons.prems], OF run]
    show ?case
      unfolding recoveries_for.simps
      by (rule ok_and_then [OF first], elim conjE, rule ok_and_then, erule Cons.IH)
        (auto simp: List.map_filter_def)
  qed (simp add: List.map_filter_def)
  with live show ?thesis by blast
qed

lemma ok_promote_each:
  assumes serde: "serde encode decode" and s: "on (live x decode inputs log es) s" "begun x inputs es started"
    and ps: "list_all (promotable x inputs es) ps"
  shows "ok (on (safe x decode inputs log)) (\<lambda>_. ongoing x decode inputs log started)
    (each_do (\<lambda>p s. and_then (complete_promotion jn (slot_of p) p s) (\<lambda>_ s. (s, Inr ()))) ps s)"
  using s ps
proof (induction ps arbitrary: s es)
  case Nil
  then show ?case by (auto intro: ongoingI)
next
  case (Cons p ps)
  have rest: "list_all (promotable x inputs (es @ es')) ps \<and> begun x inputs (es @ es') started"
    if s': "on (live x decode inputs log (es @ es')) s'" "length es' \<le> 1" for es' s'
  proof
    show "list_all (promotable x inputs (es @ es')) ps"
      using Cons.prems(3) promotable_live [OF _ s'] by (auto simp: list_all_iff)
    show "begun x inputs (es @ es') started"
      using s' Cons.prems(2) by (cases es') (auto simp: on_def dest!: live_replay intro: begun_snoc)
  qed
  have more: "ok (on (safe x decode inputs log)) (\<lambda>_. ongoing x decode inputs log started)
      (each_do (\<lambda>p s. and_then (complete_promotion jn (slot_of p) p s) (\<lambda>_ s. (s, Inr ()))) ps s')"
    if "\<exists>es'. on (live x decode inputs log (es @ es')) s' \<and> length es' \<le> 1" for s'
    using that rest by (blast intro: Cons.IH)
  have first: "ok (on (safe x decode inputs log))
      (\<lambda>_ s'. \<exists>es'. on (live x decode inputs log (es @ es')) s' \<and> length es' \<le> 1)
      (and_then (complete_promotion jn (slot_of p) p s) (\<lambda>_ s. (s, Inr ())))"
    by (rule ok_and_then [OF ok_complete_promotion [OF serde Cons.prems(1)]]) (use Cons.prems(3) in auto)
  show ?case
    unfolding each_do.simps
    by (rule ok_and_then [OF first more])
qed

lemma ok_finish_promotions:
  assumes serde: "serde encode decode" and s: "ongoing x decode inputs log started s"
  shows "ok (on (safe x decode inputs log)) (\<lambda>_. ongoing x decode inputs log started) (finish_promotions jn kept s)"
proof -
  from s obtain es where es: "on (live x decode inputs log es) s" "begun x inputs es started" by (auto simp: ongoing_def)
  obtain run where run: "fo_run (jn_fold jn (fst s)) = Some run" "st_started run = started" by (rule ongoing_run [OF es])
  have started: "fold_started (jn_fold jn (fst s)) = Some started" using run by (simp add: fold_started_def)
  have prune: "ok (on (safe x decode inputs log)) (\<lambda>_. on (live x decode inputs log es)) (each_do prune_orphan_pin orphans s')"
    if "on (live x decode inputs log es) s'" "list_all (\<lambda>orphan. owned x inputs es (Some (op_refname orphan))) orphans" for orphans s'
    using that
  proof (induction orphans arbitrary: s')
    case (Cons orphan orphans)
    have "agrees x inputs es ((rp_refs (snd s'))(op_refname orphan := None))"
      using Cons.prems agrees_pin by (auto simp: on_def live_def)
    from ok_move [OF Cons.prems(1) this moves_simps(3)]
    have "ok (on (safe x decode inputs log)) (\<lambda>_. on (live x decode inputs log es)) (prune_orphan_pin orphan s')"
      unfolding prune_orphan_pin_def by (rule ok_weaken) auto
    then show ?case unfolding each_do.simps by (rule ok_and_then) (use Cons.prems(2) in \<open>auto intro: Cons.IH\<close>)
  qed simp
  show ?thesis
    unfolding finish_promotions_def Let_def started option.case
    by (rule ok_and_then [OF ok_recoveries [OF es]], elim conjE, rule ok_and_then, erule prune, assumption,
        rule ok_and_then, erule ok_promote_each [OF serde _ es(2)], assumption) simp
qed

lemma ok_finalize_if_finished:
  assumes live: "on (live x decode inputs log es) s"
  shows "ok (on (safe x decode inputs log)) (\<lambda>_. on (live x decode inputs log es)) (finalize_if_finished (jn_fold jn (fst s)) s)"
proof (cases "fo_run (jn_fold jn (fst s))")
  case (Some run)
  show ?thesis
    using Some live
    by (auto simp: finalize_if_finished_def fold_finished_def fold_started_def live_ends split: option.splits
        intro!: ok_and_then [OF ok_finalize [OF live Some]])
qed (use live in \<open>simp add: finalize_if_finished_def fold_finished_def\<close>)

lemma ok_recover_effects:
  assumes live: "on (live x decode inputs log es) s" and started: "fold_started (jn_fold jn (fst s)) = Some started"
  shows "ok (on (safe x decode inputs log)) (\<lambda>_. on (live x decode inputs log es))
    (recover_effects (jn_fold jn (fst s)) es started s)"
proof -
  have same: "jn_fold jn (fst s') = jn_fold jn (fst s)" if "on (live x decode inputs log es) s'" for s'
    using live that by (auto simp: on_def fold_law dest!: live_replay)
  have residue: "ok (on (safe x decode inputs log)) (\<lambda>_. on (live x decode inputs log es))
      (reclaim_stale_residue (jn_fold jn (fst s)) es s')" if "on (live x decode inputs log es) s'" for s'
    using ok_reclaim_residue [OF that, unfolded same [OF that]] .
  have expected: "ok (on (safe x decode inputs log)) (\<lambda>_. on (live x decode inputs log es))
      (refuse_unexpected_refs namespace names s')" if "on (live x decode inputs log es) s'" for namespace names s'
    unfolding refuse_unexpected_refs_def refs_under_def
    by (rule ok_and_then, rule ok_read_repo [OF that]) (auto split: option.splits intro: live_ends)
  have ensure: "ok (on (safe x decode inputs log)) (\<lambda>_. on (live x decode inputs log es))
      (if publication_pending (jn_fold jn (fst s)) then (s', Inr ())
       else ensure_recorded_integration_ref started es s')" if "on (live x decode inputs log es) s'" for s'
    using that ok_ensure_recorded [OF that, unfolded same [OF that], OF started] by auto
  have call: "refs_kept (repo_call (\<lambda>r. r))" by (auto simp: refs_kept_def repo_call_def split: list.splits fault.splits)
  show ?thesis
    unfolding recover_effects_def
    by (rule ok_and_then [OF ok_finalize_if_finished [OF live]], rule ok_and_then, erule ok_repo, rule call,
        rule ok_and_then, erule residue, rule ok_and_then, erule expected, erule ensure)
qed

lemma ok_recover:
  assumes serde: "serde encode decode" and s: "on (live x decode inputs log es) s" and events: "\<And>j. events j = em_events (log j)"
  shows "ok (on (safe x decode inputs log)) (\<lambda>_. on (safe x decode inputs log)) (recover_run jn events seams s)"
proof (cases "fold_started (jn_fold jn (fst s))")
  case (Some started)
  have es: "events (fst s) = es" using s events by (simp add: on_def live_def)
  have b: "begun x inputs es started"
    using s Some by (auto simp: on_def fold_law begun_def fold_started_def dest!: live_replay)
  show ?thesis
    unfolding recover_run_def Some option.case es
    by (rule ok_and_then [OF ok_stays [OF ok_recover_effects [OF s Some] b]],
        rule ok_and_then, erule ok_settle(1) [OF serde], rule ok_and_then, erule ok_settle(2) [OF serde],
        rule ok_and_then, erule ok_reclaim_closed, rule ok_and_then, erule ok_finish [OF serde],
        rule ok_and_then, erule ok_finish_promotions [OF serde], rule ok_and_then, erule ok_recreate,
        rule ok_and_then, erule ok_quiet_on [OF serde], simp add: quiet_defs)
      (simp add: ongoing_ends)
qed (use s in \<open>simp add: recover_run_def live_ends\<close>)

text \<open>A dispatch.\<close>

lemma ok_dispatch:
  assumes serde: "serde encode decode" and s: "ongoing x decode inputs log started s"
  shows "ok (on (safe x decode inputs log)) (\<lambda>_. on (safe x decode inputs log)) (dispatch_through jn slot_path observed request s)"
proof -
  have read: "refs_kept (read_repo f)" for f
    by (auto simp: refs_kept_def read_repo_def repo_call_def split: list.splits fault.splits)
  have source: "ok (on (safe x decode inputs log)) (\<lambda>_. ongoing x decode inputs log started) (refuse_absent_source c s')"
    if "ongoing x decode inputs log started s'" for c s'
    unfolding refuse_absent_source_def
    by (rule ok_and_then, rule ok_repo_on [OF that read])
      (auto split: option.splits simp: ongoing_ends intro!: ok_and_then [OF ok_repo_on])
  have made: "ok (on (safe x decode inputs log)) (\<lambda>_. ongoing x decode inputs log started)
      (if source \<noteq> None then and_then (materialize_repair observed open' s') (\<lambda>m s. (s, Inr (Some m))) else (s', Inr None))"
    if "ongoing x decode inputs log started s'" for source open' s'
  proof (cases source)
    case (Some candidate)
    have "ok (on (safe x decode inputs log)) (\<lambda>_. ongoing x decode inputs log started) (materialize_repair observed open' s')"
      unfolding materialize_repair_def by (rule ok_and_then [OF ok_repo_on [OF that]]) simp_all
    then have "ok (on (safe x decode inputs log)) (\<lambda>_. ongoing x decode inputs log started)
        (and_then (materialize_repair observed open' s') (\<lambda>m s. (s, Inr (Some m))))"
      by (rule ok_and_then) simp
    with Some show ?thesis by simp
  qed (use that in simp)
  show ?thesis
    unfolding dispatch_through_def Let_def
    by (rule ok_and_then, rule ok_repo_on [OF s], simp, rule ok_and_then, rule ok_opt, assumption, erule source,
        rule ok_and_then, erule ok_quiet_on [OF serde], simp add: quiet_defs, rule ok_and_then, erule ok_create_worktree,
        rule ok_and_then, erule made)
      (simp add: ongoing_ends)
qed

end

subsection \<open>Disks between processes\<close>









subsection \<open>The engine through crashes\<close>
















subsection \<open>Publishing is completed\<close>



lemma set_ref_simps [simp]:
  "rp_refs (set_ref name target r) = (rp_refs r)(name := target)" "rp_faults (set_ref name target r) = rp_faults r"
  "rp_intents (set_ref name target r) = rp_intents r"
  by (simp_all add: set_ref_def)








subsection \<open>A promotion, call by call\<close>

text \<open>
  A run in which the first task is dispatched and attempted, and its candidate promoted: the commit is
  written and pinned, the preparation is in the log, the ref is created, the creation is in the
  log, and the pin is gone.
\<close>

definition promo_commit :: commit_sha where
  "promo_commit = replicate 40 CHR ''a''"

definition promo_candidate :: candidate_ref where
  "promo_candidate =
     \<lparr>cr_key = 0, cr_generation = 0, cr_commit_sha = promo_commit, cr_candidate_ref = candidates_ref ''r'' 0 0\<rparr>"


definition promo_record :: prepared_candidate where
  "promo_record = \<lparr>pc_candidate = promo_candidate, pc_base_sha = ''s0'', pc_tree_sha = ''t'', pc_paths = RepoWide\<rparr>"

abbreviation "promo_promoting \<equiv>
  sample_run AwaitingMerge [(Promoting, 1, Some promo_record)] 1 [(OwnerCandidate 0 0, RepoWide)] False None 0"





















lemma promo_object: "is_object_id promo_commit" "\<not> is_null_object_id promo_commit"
  by (simp_all add: is_object_id_def is_null_object_id_def promo_commit_def is_hexdigit_def list_all_iff)

lemma promo_refuse [simp]: "refuse_new name promo_commit = Inr ()" "refuse_expected_old name promo_commit = Inr ()"
  by (simp_all add: refuse_new_def refuse_expected_old_def promo_object)









end
