(* ===== verification/Spec2Isabelle.thy ===== *)
theory Spec2Isabelle
  imports Ladder Leases Registry_Facts Fold_Laws Fold_End Fold_Leases Fold_Parking Fold_Log Plan_Graph_Facts
  Select_Facts Ledger_Facts Reservation_Facts Settle_Facts Route Repair_Facts Recover_Facts
begin

text \<open>
  \<^bold>\<open>upstroke: a verification library for its event-sourced core.\<close>

  upstroke runs a plan of coding tasks with several agents in parallel and merges what they
  produce through one queue. All durable state is an append-only log. A run is a fold of that
  log; the engine reads predicates of the fold, performs an effect, appends an event, and the
  fold checks the event before it applies it. So what a run may do is decided by the pure code
  under src/topology and by the scheduler that reads it, and that code is modelled first; then the
  handlers of src/engine/topology that write the log and move the refs.

  \<^bold>\<open>Theories and sources\<close> (paths under src/src/).

  \<^item> Prelude, BTree, Rust\_Strings: what the components share. Machine integers are words with
    Rust's saturating and checked arithmetic; \<^verbatim>\<open>Result\<close> is a sum with the error on
    the left; \<^verbatim>\<open>Vec\<close>, \<^verbatim>\<open>BTreeMap\<close> and \<^verbatim>\<open>BTreeSet\<close>
    are lists, the latter two sorted; a \<^verbatim>\<open>String\<close> is the list of its UTF-8 bytes.
  \<^item> Ir (ir.rs): tiers, efforts, kinds, plans, tasks and the content digest.
  \<^item> Ladder (ladder.rs, one settlement of engine/topology/run.rs): what a failed attempt leads to;
    repeating it ends.
  \<^item> Paths (topology/paths.rs, the comparison in topology/leases.rs, the hints of topology/fold.rs)
    and Leases (topology/leases.rs): regions of the repository, when they overlap, who holds them.
    The locale \<open>lease_store\<close> is the contract the fold relies on.
  \<^item> Records (review.rs, events/mod.rs): the records the log embeds, the passes a review obliges,
    the attribution of design defects.
  \<^item> Registry and Registry\_Facts (topology/registry.rs): the frozen table of tasks, its derivation
    from the plan, the reserved names of repairs and the canonical encoding that is digested. The
    locale \<open>prefix_code\<close> carries the injectivity of the encoding from its parts to the whole.
  \<^item> Events (topology/events.rs): all event kinds with their records and self-consistency checks.
  \<^item> Queue (topology/queue.rs): the candidates waiting for integration, who may go first and who waits
    for whom.
  \<^item> Fold\_State (topology/fold.rs, outcome.rs), Fold\_Check and Fold\_Integration (topology/fold/check\_*.rs,
    start.rs, region.rs), Fold\_Apply (topology/fold/apply.rs, predicates.rs, parse.rs): the run state,
    one function per predicate, one per check and one per state change, then a transition, a
    replay and the reading of a log file.
  \<^item> Fold\_Frame, Fold\_Replay, Fold\_Invariants, Fold\_Tasks, Fold\_States, Fold\_Markers,
    Fold\_Sample, Fold\_Laws, Fold\_History, Fold\_End, Fold\_Leases, Fold\_Parking, Fold\_Log: the proofs
    about the fold. Fold\_Replay states event sourcing as the locale \<open>event_sourced\<close> with
    reachability as an inductive relation; Fold\_Tasks states a property of one task as the locale
    \<open>task_invariant\<close>; every locale is interpreted on the model. Fold\_Sample is a concrete
    run that the witnesses use.
  \<^item> Plan\_Graph and Plan\_Graph\_Facts (validate/graph.rs): duplicate ids, unknown dependencies,
    cycles, artifacts consumed without a dependency.
  \<^item> Invocation (runner/invocation.rs): identities of processes, printed and parsed.
  \<^item> Float64, Spend, Spend\_Facts, Select, Select\_Facts (engine/topology/select.rs): recorded costs,
    ceilings, and the scheduler.
  \<^item> Permits, Permits\_Facts, Ledger\_Facts, Reservation\_Facts (engine/topology/identity.rs, permits.rs):
    slots for agents and pools, the invocation ledger, and reservations of work not yet in the log.
  \<^item> Event\_Log (events/log.rs): opening a log, repairing a torn tail, appending a committed line,
    and the barrier that proves a prefix stable. The disk is what a read returns, what was synced
    and what was ever written; a write may stop at any byte, every other call may fail, and a crash
    leaves anything between the synced content and the longest written.
  \<^item> Emit, Emit\_Facts, Crash\_Facts (engine/topology/emit.rs, the emitter of run.rs): the one way an
    event is written, and what remains of it when a call fails or the machine stops.
  \<^item> Settle, Settle\_Loop, Settle\_Facts (engine/topology/settle.rs, the failure handler of run.rs, the
    texts of engine/coordinator.rs): from a failed attempt over the ladder to a recorded settlement.
  \<^item> Route (catalog.rs, route.rs): the chain of tiers and models a task may climb.
  \<^item> Repair, Repair\_Facts (engine/topology/repair.rs): the repair that a rejected candidate leads to.
  \<^item> Integrate (engine/topology/integrate.rs, the journals of run.rs and recover.rs, workspace\_manager/object.rs),
    Candidate (candidate.rs and promote\_candidate of run.rs), Dispatch (dispatch.rs), Closure (closure.rs,
    finalize.rs, close\_run of run.rs) and Recover (recover.rs): the handlers that change the log and the
    repository together, in the order of their calls. A handler takes the journal it writes to, as
    the source does through its traits, and a repository of refs, commits and intents. Each call to
    git may be done, may be lost, or may be done although the caller sees an error; git moves a ref
    only from the expected old value.
  \<^item> Integrate\_Facts, Candidate\_Facts, Recover\_Facts: the relation between the log and the refs. The
    locale \<open>log_journal\<close> is what a handler relies on of its journal, \<open>verifying_log\<close> adds a
    verification and \<open>running_journal\<close> the state of a running process; each is interpreted on the
    journals of the run and of recovery. The relation \<open>engine\<close> is a process and its successors on one
    repository: any handler, any event, any fault, any crash.

  \<^bold>\<open>What the lemmas show.\<close>

  \<^item> Of every log that replays: tasks, registry and generations are dense and well formed; lineages
    are well founded; a task is merged only by a publication whose settled set is the chain of
    its candidate; the open transaction is sound; a waiting task waits for something that can
    happen; counters count events and saturate; a halt is permanent and a finished run is over.
  \<^item> Of the predicates: what is ready passes the check and keeps regions disjoint and the number of
    pipelines within the limit; blocked tasks are the least closed set; the recorded outcome is
    the one the state implies.
  \<^item> Of the scheduler: every step it offers is accepted by the fold, and it idles only while work is
    open; a ceiling once reached stays reached, rounding included.
  \<^item> Of the permits: slots are never oversubscribed, the head of the queue is not starved, and the
    account of reservations plus the fold never passes the limit.
  \<^item> Of the encodings: log file, registry bytes and invocation identities read back as written, and
    what cannot be read is reported by place.
  \<^item> Of the log: acknowledged events survive a crash and nothing else appears; a failed append is
    reported as the file shows it, and the process then writes nothing more.
  \<^item> Of the handlers: whatever failure an attempt ends with, its settlement is accepted by the fold;
    retained sessions can always be closed; the repair made up for a rejection is accepted; a route
    is the part of the chain above the highest floor.
  \<^item> Of the log and the refs together: whatever fails and whenever the process dies, the integration
    ref is where the log says, or between the two ends of an authorized publication, and a created
    candidate's ref is at its commit; a publication completes from either end.
  \<^item> Of the queue: when nothing may integrate, someone outside the queue is waited for.

  \<^bold>\<open>Parameters.\<close> Unicode lower-casing and SHA-256 are code outside the repository and are
  fields of the record \<open>externals\<close>; nothing is assumed of the first, and of the second only
  what a theorem names. Decoding a line of the log is serde's work: the decoder is an argument of
  \<open>parse_log\<close>, with its round trip as the hypothesis of the theorems that need it.

  \<^bold>\<open>Termination.\<close> No definition has fuel. Loops of the source are recursion on a list
  or have a measure: the sweep for blocked tasks the tasks not yet blocked, the walk to a lineage's
  root the key (a parent has a smaller key), the searches in a plan the indices not yet visited,
  the pump of the slot table the requests still pending, the climb of a ladder the steps left.

  \<^bold>\<open>Bounds.\<close> Keys, generations, attempts, sequences and epochs are 32-bit words that saturate
  where the code saturates; a comparison with the length of a \<^verbatim>\<open>Vec\<close> is made in natural
  numbers where the code converts with a check. Costs are \<^verbatim>\<open>f64\<close> values as IEEE bits;
  addition rounds to nearest even, a sum starts at minus zero as the standard library's does, and a
  result that is not a number has one canonical payload.

  \<^bold>\<open>Not modelled.\<close> The prose of error messages (an error keeps its case and the values it
  carries). The effects: processes, containers, git worktrees, terminals and file locks
  (agent, runner, workspace, connect, and the coordinator loop and attempt code of engine/topology
  that drives them). The engine of schemas 1 to 3 (engine/legacy), which the topology engine supersedes.
  The census of effect sites, which is static data for tests.
  Of the log the polling reader; of routing the reading of configuration files. Of recovery and
  closure the locks, the ownership records, the rebuilding of the runner, the content of the report
  and the warnings; of the workspace manager what is in a worktree and the lock files of refs. The
  result of a cherry-pick, of a verification and of a check of a worktree, the id git gives a commit
  and the debug printing of an infrastructure kind are arguments.
\<close>

end
